(* ===== verification/Prelude.thy ===== *)
theory Prelude
  imports Complex_Main "HOL-Library.Word" "HOL-Library.AList" "HOL-Library.Multiset"
begin

text \<open>
  What every other theory shares: the machine integers of the Rust code with the saturating
  operations it uses, hash maps as association lists, and the generic list lemmas.

  A \<open>u64\<close>, \<open>u32\<close> or \<open>u8\<close> is a word of that width. An \<open>i64\<close> or \<open>i32\<close> is an \<open>int\<close>, and
  the wrap-around of the release build is written out (\<open>i64_wrap\<close>). A \<open>usize\<close> that counts
  elements of a collection is a \<open>nat\<close>. An \<open>Instant\<close> is a number of nanoseconds.
\<close>

named_theorems sat_simps \<open>what the saturating operations compute, on \<open>nat\<close>\<close>
named_theorems hm_simps \<open>what a lookup returns after an update of a hash map\<close>
named_theorems hm_wf \<open>the operations of hash maps keep their keys distinct\<close>

section \<open>Machine integers\<close>

type_synonym u8 = "8 word"
type_synonym u32 = "32 word"
type_synonym u64 = "64 word"

definition sat_add :: "'a::len word \<Rightarrow> 'a word \<Rightarrow> 'a word" where
  "sat_add a b = (if unat a + unat b < 2 ^ LENGTH('a) then a + b else - 1)"

definition sat_sub :: "'a::len word \<Rightarrow> 'a word \<Rightarrow> 'a word" where
  "sat_sub a b = (if b \<le> a then a - b else 0)"

definition sat_mul :: "'a::len word \<Rightarrow> 'a word \<Rightarrow> 'a word" where
  "sat_mul a b = (if unat a * unat b < 2 ^ LENGTH('a) then a * b else - 1)"

lemma unat_minus_one_word: "unat (- 1 :: 'a::len word) = 2 ^ LENGTH('a) - 1"
  by (simp add: unsigned_minus_1_eq_mask mask_eq_exp_minus_1)

lemma unat_sat_add [sat_simps]:
  "unat (sat_add a b) = min (unat a + unat b) (2 ^ LENGTH('a) - 1)" for a b :: "'a::len word"
  by (auto simp: sat_add_def unat_word_ariths unat_minus_one_word)

lemma unat_sat_sub [sat_simps]: "unat (sat_sub a b) = unat a - unat b"
  by (auto simp: sat_sub_def unat_sub word_le_nat_alt)

lemma unat_sat_mul [sat_simps]:
  "unat (sat_mul a b) = min (unat a * unat b) (2 ^ LENGTH('a) - 1)" for a b :: "'a::len word"
  by (auto simp: sat_mul_def unat_word_ariths unat_minus_one_word)

lemma sat_add_0 [simp]: "sat_add 0 b = b" "sat_add a 0 = a"
  by (simp_all add: sat_add_def)

lemma sat_sub_self [simp]: "sat_sub a a = 0" and sat_sub_0 [simp]: "sat_sub a 0 = a"
  by (simp_all add: sat_sub_def)

lemma sat_add_ge1: "a \<le> sat_add a b" and sat_add_ge2: "b \<le> sat_add a b"
  for a b :: "'a::len word"
proof -
  have "unat a < 2 ^ LENGTH('a)" "unat b < 2 ^ LENGTH('a)" by (rule unsigned_less)+
  then have "unat a \<le> 2 ^ LENGTH('a) - 1" "unat b \<le> 2 ^ LENGTH('a) - 1" by linarith+
  then show "a \<le> sat_add a b" "b \<le> sat_add a b"
    by (simp_all add: word_le_nat_alt sat_simps)
qed

lemma sat_sub_le: "sat_sub a b \<le> a"
  by (simp add: word_le_nat_alt sat_simps)

lemma sat_sub_eq_0_iff: "sat_sub a b = 0 \<longleftrightarrow> a \<le> b"
proof -
  have "sat_sub a b = 0 \<longleftrightarrow> unat (sat_sub a b) = 0" by (simp add: unat_eq_0)
  then show ?thesis by (simp add: sat_simps word_le_nat_alt)
qed

text \<open>Two's complement on \<open>int\<close>: what an \<open>i64\<close> holds after an operation that overflowed.\<close>

definition i64_wrap :: "int \<Rightarrow> int" where
  "i64_wrap x = (x + 2 ^ 63) mod 2 ^ 64 - 2 ^ 63"

lemma i64_wrap_id: "- (2 ^ 63) \<le> x \<Longrightarrow> x < 2 ^ 63 \<Longrightarrow> i64_wrap x = x"
  by (simp add: i64_wrap_def)

lemma i64_wrap_range: "- (2 ^ 63) \<le> i64_wrap x" "i64_wrap x < 2 ^ 63"
proof -
  have "0 \<le> (x + 2 ^ 63) mod 2 ^ 64" "(x + 2 ^ 63) mod 2 ^ 64 < 2 ^ 64" by simp_all
  then show "- (2 ^ 63) \<le> i64_wrap x" "i64_wrap x < 2 ^ 63" by (simp_all add: i64_wrap_def)
qed

section \<open>Time\<close>

text \<open>
  An \<open>Instant\<close> counts nanoseconds; \<open>duration_since\<close> and \<open>elapsed\<close> saturate at zero, as the
  standard library does, and \<open>as_secs\<close> drops the fraction.
\<close>

type_synonym instant = nat
type_synonym duration = nat

definition nanos_per_sec :: nat where
  "nanos_per_sec = 1000000000"

definition duration_since :: "instant \<Rightarrow> instant \<Rightarrow> duration" where
  "duration_since now earlier = now - earlier"

definition as_secs :: "duration \<Rightarrow> nat" where
  "as_secs d = d div nanos_per_sec"

definition from_secs :: "u64 \<Rightarrow> duration" where
  "from_secs s = unat s * nanos_per_sec"

lemma as_secs_mono: "d \<le> d' \<Longrightarrow> as_secs d \<le> as_secs d'"
  by (simp add: as_secs_def div_le_mono)

lemma as_secs_from_secs [simp]: "as_secs (from_secs s) = unat s"
  by (simp add: as_secs_def from_secs_def nanos_per_sec_def)

text \<open>A rolling window of samples, oldest first: those older than the window are dropped from the front.\<close>

definition evict_samples :: "instant \<Rightarrow> duration \<Rightarrow> ('a \<times> instant) list \<Rightarrow> ('a \<times> instant) list" where
  "evict_samples now window samples = dropWhile (\<lambda>(_, taken_at). window < duration_since now taken_at) samples"

lemma evict_last: "(r, now) \<in> set (evict_samples now window (xs @ [(r, now)]))"
proof -
  have "\<not> window < duration_since now now" by (simp add: duration_since_def)
  then show ?thesis by (auto simp: evict_samples_def dropWhile_append)
qed

text \<open>With a clock that does not run backwards only samples of the window are kept.\<close>

lemma evict_within:
  "sorted (map snd xs) \<Longrightarrow> x \<in> set (evict_samples now window xs) \<Longrightarrow> now - snd x \<le> window"
proof (induction xs)
  case (Cons y ys)
  show ?case
  proof (cases "window < now - snd y")
    case True
    then show ?thesis using Cons by (auto simp: evict_samples_def duration_since_def case_prod_unfold)
  next
    case False
    then have "evict_samples now window (y # ys) = y # ys"
      by (simp add: evict_samples_def duration_since_def case_prod_unfold)
    then show ?thesis using Cons.prems False by auto
  qed
qed (simp add: evict_samples_def)

section \<open>Hash maps\<close>

text \<open>
  A \<open>HashMap\<close> is an association list with distinct keys. The order of the list stands for the
  iteration order of the map, which the standard library leaves unspecified: a theorem about an
  iteration is for every list, hence for every order.
\<close>

type_synonym ('k, 'v) hmap = "('k \<times> 'v) list"

definition hm_get :: "('k, 'v) hmap \<Rightarrow> 'k \<Rightarrow> 'v option" where
  "hm_get m k = map_of m k"

definition get_or :: "('k, 'v) hmap \<Rightarrow> 'k \<Rightarrow> 'v \<Rightarrow> 'v" where
  "get_or m k d = (case hm_get m k of Some v \<Rightarrow> v | None \<Rightarrow> d)"

definition hm_contains :: "('k, 'v) hmap \<Rightarrow> 'k \<Rightarrow> bool" where
  "hm_contains m k = (case hm_get m k of None \<Rightarrow> False | Some _ \<Rightarrow> True)"

definition hm_insert :: "'k \<Rightarrow> 'v \<Rightarrow> ('k, 'v) hmap \<Rightarrow> ('k, 'v) hmap" where
  "hm_insert k v m = AList.update k v m"

definition hm_remove :: "'k \<Rightarrow> ('k, 'v) hmap \<Rightarrow> ('k, 'v) hmap" where
  "hm_remove k m = filter (\<lambda>(k', v). k' \<noteq> k) m"

definition hm_retain :: "('k \<Rightarrow> 'v \<Rightarrow> bool) \<Rightarrow> ('k, 'v) hmap \<Rightarrow> ('k, 'v) hmap" where
  "hm_retain P m = filter (\<lambda>(k, v). P k v) m"

definition hm_keys :: "('k, 'v) hmap \<Rightarrow> 'k list" where
  "hm_keys m = map fst m"

definition hm_values :: "('k, 'v) hmap \<Rightarrow> 'v list" where
  "hm_values m = map snd m"

definition hm_ok :: "('k, 'v) hmap \<Rightarrow> bool" where
  "hm_ok m = distinct (map fst m)"

lemma hm_get_empty [hm_simps]: "hm_get [] k = None"
  by (simp add: hm_get_def)

lemma hm_get_insert [hm_simps]: "hm_get (hm_insert k v m) k' = (if k' = k then Some v else hm_get m k')"
  by (simp add: hm_get_def hm_insert_def update_conv')

lemma get_or_insert: "get_or (hm_insert k v m) k' d = (if k' = k then v else get_or m k' d)"
  by (simp add: get_or_def hm_simps)

lemma hm_get_remove [hm_simps]: "hm_get (hm_remove k m) k' = (if k' = k then None else hm_get m k')"
  by (induction m) (auto simp: hm_get_def hm_remove_def)

lemma hm_contains_get: "hm_contains m k \<longleftrightarrow> hm_get m k \<noteq> None"
  by (simp add: hm_contains_def split: option.split)

lemma hm_contains_keys: "hm_contains m k \<longleftrightarrow> k \<in> set (hm_keys m)"
  by (simp add: hm_contains_get hm_get_def hm_keys_def map_of_eq_None_iff)

lemma hm_contains_insert [hm_simps]: "hm_contains (hm_insert k v m) k' \<longleftrightarrow> k' = k \<or> hm_contains m k'"
  by (simp add: hm_contains_get hm_simps)

lemma hm_contains_remove [hm_simps]: "hm_contains (hm_remove k m) k' \<longleftrightarrow> k' \<noteq> k \<and> hm_contains m k'"
  by (simp add: hm_contains_get hm_simps)

lemma hm_get_in: "hm_get m k = Some v \<Longrightarrow> (k, v) \<in> set m"
  by (simp add: hm_get_def map_of_SomeD)

lemma hm_get_iff: "hm_ok m \<Longrightarrow> hm_get m k = Some v \<longleftrightarrow> (k, v) \<in> set m"
  by (simp add: hm_ok_def hm_get_def)

lemma hm_ok_empty [hm_wf, simp]: "hm_ok []"
  by (simp add: hm_ok_def)

lemma hm_ok_insert [hm_wf, simp]: "hm_ok m \<Longrightarrow> hm_ok (hm_insert k v m)"
  by (simp add: hm_ok_def hm_insert_def distinct_update)

lemma hm_ok_filter [hm_wf, simp]: "hm_ok m \<Longrightarrow> hm_ok (filter P m)"
  by (simp add: hm_ok_def distinct_map_filter)

lemma hm_ok_remove [hm_wf, simp]: "hm_ok m \<Longrightarrow> hm_ok (hm_remove k m)"
  by (simp add: hm_remove_def)

lemma hm_ok_retain [hm_wf, simp]: "hm_ok m \<Longrightarrow> hm_ok (hm_retain P m)"
  by (simp add: hm_retain_def)

lemma hm_get_retain [hm_simps]:
  "hm_ok m \<Longrightarrow> hm_get (hm_retain P m) k =
     (case hm_get m k of None \<Rightarrow> None | Some v \<Rightarrow> if P k v then Some v else None)"
proof (induction m)
  case (Cons x xs)
  obtain k' v' where x: "x = (k', v')" by (cases x)
  from Cons.prems have ok: "hm_ok xs" and fresh: "k' \<notin> fst ` set xs"
    by (simp_all add: x hm_ok_def)
  from fresh have "map_of xs k' = None" by (simp add: map_of_eq_None_iff)
  moreover have "map_of (filter (\<lambda>(k, v). P k v) xs) k' = None"
    using fresh by (auto simp: map_of_eq_None_iff)
  ultimately show ?case using Cons.IH [OF ok]
    by (auto simp: hm_get_def hm_retain_def x split: option.splits)
qed (simp add: hm_get_def hm_retain_def)

lemma hm_keys_insert: "set (hm_keys (hm_insert k v m)) = insert k (set (hm_keys m))"
  using hm_contains_insert [of k v m] by (auto simp: hm_contains_keys)

lemma hm_keys_remove: "set (hm_keys (hm_remove k m)) = set (hm_keys m) - {k}"
  using hm_contains_remove [of k m] by (auto simp: hm_contains_keys)

lemma hm_keys_retain_subset: "set (hm_keys (hm_retain P m)) \<subseteq> set (hm_keys m)"
  by (auto simp: hm_keys_def hm_retain_def)

lemma hm_length_remove_le: "length (hm_remove k m) \<le> length m"
  by (simp add: hm_remove_def)

lemma hm_remove_insert: "hm_remove k (hm_insert k v m) = hm_remove k m"
  unfolding hm_remove_def hm_insert_def by (induction m) auto

text \<open>A sum over the entries, split at one of them.\<close>

lemma hm_sum_remove:
  "hm_ok m \<Longrightarrow> hm_get m k = Some v \<Longrightarrow>
     sum_list (map f m) = f (k, v) + (sum_list (map f (hm_remove k m)) :: nat)"
proof (induction m)
  case (Cons x m)
  have gone: "hm_remove k m = m" if "k \<notin> fst ` set m"
    using that by (induction m) (auto simp: hm_remove_def)
  show ?case using Cons gone
    by (cases x) (auto simp: hm_get_def hm_ok_def hm_remove_def split: if_splits)
qed (simp add: hm_get_def)

lemma hm_length_remove: "hm_ok m \<Longrightarrow> hm_contains m k \<Longrightarrow> length m = Suc (length (hm_remove k m))"
proof (induction m)
  case (Cons x m)
  then show ?case
  proof (cases "fst x = k")
    case True
    with Cons.prems have "k \<notin> fst ` set m" by (auto simp: hm_ok_def)
    then have "filter (\<lambda>(k', v). k' \<noteq> k) m = m" by (force simp: filter_id_conv)
    with True show ?thesis by (simp add: hm_remove_def case_prod_unfold)
  next
    case False
    with Cons show ?thesis
      by (auto simp: hm_ok_def hm_remove_def hm_contains_keys hm_keys_def case_prod_unfold)
  qed
qed (simp add: hm_contains_get hm_simps)

section \<open>Lists\<close>

text \<open>\<open>sort_by\<close> and \<open>sort_by_key\<close> are stable sorts by a comparison; insertion sort is one.\<close>

fun insort_by :: "('a \<Rightarrow> 'a \<Rightarrow> bool) \<Rightarrow> 'a \<Rightarrow> 'a list \<Rightarrow> 'a list" where
  "insort_by le x [] = [x]"
| "insort_by le x (y # ys) = (if le x y then x # y # ys else y # insort_by le x ys)"

fun sort_by :: "('a \<Rightarrow> 'a \<Rightarrow> bool) \<Rightarrow> 'a list \<Rightarrow> 'a list" where
  "sort_by le [] = []"
| "sort_by le (x # xs) = insort_by le x (sort_by le xs)"

lemma set_insort_by [simp]: "set (insort_by le x xs) = insert x (set xs)"
  by (induction xs) auto

lemma set_sort_by [simp]: "set (sort_by le xs) = set xs"
  by (induction xs) auto

lemma length_insort_by [simp]: "length (insort_by le x xs) = Suc (length xs)"
  by (induction xs) auto

lemma length_sort_by [simp]: "length (sort_by le xs) = length xs"
  by (induction xs) auto

lemma mset_insort_by: "mset (insort_by le x xs) = add_mset x (mset xs)"
  by (induction xs) auto

lemma mset_sort_by: "mset (sort_by le xs) = mset xs"
  by (induction xs) (auto simp: mset_insort_by)

lemma distinct_map_sort_by: "distinct (map f (sort_by le xs)) \<longleftrightarrow> distinct (map f xs)"
  by (metis mset_eq_imp_distinct_iff mset_map mset_sort_by)

lemma sorted_insort_by:
  assumes "\<And>x y. le x y \<or> le y x" and "\<And>x y z. le x y \<Longrightarrow> le y z \<Longrightarrow> le x z"
    and "sorted_wrt le xs"
  shows "sorted_wrt le (insort_by le x xs)"
  using assms(3) by (induction xs) (auto intro: assms(2), metis assms(1))

lemma sorted_sort_by:
  assumes "\<And>x y. le x y \<or> le y x" and "\<And>x y z. le x y \<Longrightarrow> le y z \<Longrightarrow> le x z"
  shows "sorted_wrt le (sort_by le xs)"
proof (induction xs)
  case (Cons x xs)
  then show ?case using sorted_insort_by [of le "sort_by le xs" x, OF assms] by simp
qed simp

lemma foldl_invariant: "P a \<Longrightarrow> (\<And>a x. P a \<Longrightarrow> x \<in> set xs \<Longrightarrow> P (f a x)) \<Longrightarrow> P (foldl f a xs)"
  by (induction xs arbitrary: a) auto

lemma dropWhile_suffix_all: "\<exists>ys. xs = ys @ dropWhile P xs \<and> (\<forall>y \<in> set ys. P y)"
  by (metis set_takeWhileD takeWhile_dropWhile_id)

end
