(* ===== verification/Floats.thy ===== *)
theory Floats
  imports Prelude
begin

text \<open>
  The floating point numbers of the program. Rust's \<open>f64\<close> and \<open>f32\<close> are IEEE 754 binary64 and
  binary32; every operation rounds the exact result to the nearest representable number, ties
  to even, overflow to an infinity. A value is a rational number, an infinity or NaN; the sign
  of a zero is not kept (no comparison of the program can see it and no division by a negative
  zero occurs in it).

  The locale \<open>rounding\<close> is the interface the components rely on: rounding is monotone and leaves
  representable numbers alone. Both formats are interpretations of it.
\<close>

datatype fl = Fin rat | PosInf | NegInf | NaN

type_synonym f64 = fl
type_synonym f32 = fl

section \<open>Comparisons\<close>

fun fl_lt :: "fl \<Rightarrow> fl \<Rightarrow> bool" where
  "fl_lt (Fin a) (Fin b) = (a < b)"
| "fl_lt (Fin a) PosInf = True"
| "fl_lt NegInf (Fin b) = True"
| "fl_lt NegInf PosInf = True"
| "fl_lt _ _ = False"

fun fl_le :: "fl \<Rightarrow> fl \<Rightarrow> bool" where
  "fl_le (Fin a) (Fin b) = (a \<le> b)"
| "fl_le NaN _ = False"
| "fl_le _ NaN = False"
| "fl_le NegInf _ = True"
| "fl_le _ PosInf = True"
| "fl_le _ _ = False"

abbreviation fl_gt :: "fl \<Rightarrow> fl \<Rightarrow> bool" where "fl_gt x y \<equiv> fl_lt y x"
abbreviation fl_ge :: "fl \<Rightarrow> fl \<Rightarrow> bool" where "fl_ge x y \<equiv> fl_le y x"

text \<open>\<open>f64::max\<close> and \<open>f64::min\<close> ignore a NaN operand; \<open>clamp\<close> keeps a NaN.\<close>

definition fl_max :: "fl \<Rightarrow> fl \<Rightarrow> fl" where
  "fl_max x y = (if x = NaN then y else if y = NaN then x else if fl_lt x y then y else x)"

definition fl_min :: "fl \<Rightarrow> fl \<Rightarrow> fl" where
  "fl_min x y = (if x = NaN then y else if y = NaN then x else if fl_lt y x then y else x)"

definition fl_clamp :: "fl \<Rightarrow> fl \<Rightarrow> fl \<Rightarrow> fl" where
  "fl_clamp lo hi x = (if fl_lt x lo then lo else if fl_gt x hi then hi else x)"

lemma fl_le_total: "x \<noteq> NaN \<Longrightarrow> y \<noteq> NaN \<Longrightarrow> fl_le x y \<or> fl_lt y x"
  by (cases x; cases y) auto

lemma fl_le_refl: "x \<noteq> NaN \<Longrightarrow> fl_le x x"
  by (cases x) auto

lemma fl_le_trans: "fl_le x y \<Longrightarrow> fl_le y z \<Longrightarrow> fl_le x z"
  by (cases x; cases y; cases z) auto

lemma fl_lt_imp_le: "fl_lt x y \<Longrightarrow> fl_le x y"
  by (cases x; cases y) auto

lemma fl_lt_le_trans: "fl_lt x y \<Longrightarrow> fl_le y z \<Longrightarrow> fl_lt x z"
  by (cases x; cases y; cases z) auto

lemma fl_le_lt_trans: "fl_le x y \<Longrightarrow> fl_lt y z \<Longrightarrow> fl_lt x z"
  by (cases x; cases y; cases z) auto

lemma fl_lt_trans: "fl_lt x y \<Longrightarrow> fl_lt y z \<Longrightarrow> fl_lt x z"
  by (cases x; cases y; cases z) auto

lemma fl_le_NaN [simp]: "\<not> fl_le NaN x" "\<not> fl_le x NaN"
  by (cases x; simp)+

lemma fl_lt_NaN [simp]: "\<not> fl_lt NaN x" "\<not> fl_lt x NaN"
  by (cases x; simp)+

lemma fl_clamp_range:
  "x \<noteq> NaN \<Longrightarrow> fl_le (Fin lo) (Fin hi) \<Longrightarrow> \<exists>a. fl_clamp (Fin lo) (Fin hi) x = Fin a \<and> lo \<le> a \<and> a \<le> hi"
  by (cases x) (auto simp: fl_clamp_def)

section \<open>Rounding\<close>

text \<open>To the nearest integer, ties to the even one.\<close>

definition rne :: "rat \<Rightarrow> int" where
  "rne x = (let f = \<lfloor>x\<rfloor>; d = x - of_int f in
     if d < 1 / 2 then f else if d > 1 / 2 then f + 1 else if even f then f else f + 1)"

lemma rne_of_int [simp]: "rne (of_int n) = n"
  by (simp add: rne_def)

lemma rne_mono: "x \<le> y \<Longrightarrow> rne x \<le> rne y"
proof -
  assume xy: "x \<le> y"
  have fx: "of_int \<lfloor>x\<rfloor> \<le> x" "x < of_int \<lfloor>x\<rfloor> + 1" and fy: "of_int \<lfloor>y\<rfloor> \<le> y" by linarith+
  have le: "\<lfloor>x\<rfloor> \<le> \<lfloor>y\<rfloor>" using xy by (rule floor_mono)
  show ?thesis
  proof (cases "\<lfloor>x\<rfloor> = \<lfloor>y\<rfloor>")
    case True
    with xy show ?thesis by (auto simp: rne_def Let_def)
  next
    case False
    with le have "\<lfloor>x\<rfloor> + 1 \<le> \<lfloor>y\<rfloor>" by simp
    moreover have "rne x \<le> \<lfloor>x\<rfloor> + 1" "\<lfloor>y\<rfloor> \<le> rne y" by (auto simp: rne_def Let_def)
    ultimately show ?thesis by simp
  qed
qed

lemma rne_minus: "rne (- x) = - rne x"
proof (cases "x = of_int \<lfloor>x\<rfloor>")
  case True
  then obtain n where "x = of_int n" by blast
  then show ?thesis using rne_of_int [of "- n"] by simp
next
  case False
  then have "\<lceil>x\<rceil> = \<lfloor>x\<rfloor> + 1" by (simp add: ceiling_altdef)
  then have fm: "\<lfloor>- x\<rfloor> = - \<lfloor>x\<rfloor> - 1" by (simp add: floor_minus)
  show ?thesis
    unfolding rne_def Let_def fm by (auto simp: algebra_simps)
qed

lemma rne_near: "\<bar>of_int (rne x) - x\<bar> \<le> 1 / 2"
proof -
  have "of_int \<lfloor>x\<rfloor> \<le> x" "x < of_int \<lfloor>x\<rfloor> + 1" by linarith+
  then show ?thesis by (auto simp: rne_def Let_def abs_le_iff)
qed

text \<open>The exponent of a positive number, from the bit lengths of its numerator and denominator.\<close>


function bit_len :: "nat \<Rightarrow> nat" where
  "bit_len n = (if n = 0 then 0 else Suc (bit_len (n div 2)))"
  by pat_completeness auto
termination
  by (relation "measure id") auto

declare bit_len.simps [simp del]

lemma bit_len_bounds: "n > 0 \<Longrightarrow> 2 ^ (bit_len n - 1) \<le> n \<and> n < 2 ^ bit_len n \<and> bit_len n > 0"
proof (induction n rule: bit_len.induct)
  case (1 n)
  show ?case
  proof (cases "n div 2 = 0")
    case True
    with 1 have "n = 1" by linarith
    then show ?thesis by (simp add: bit_len.simps)
  next
    case False
    with "1.IH" "1.prems" have ih: "2 ^ (bit_len (n div 2) - 1) \<le> n div 2" "n div 2 < 2 ^ bit_len (n div 2)"
      "bit_len (n div 2) > 0"
      by auto
    have eq: "bit_len n = Suc (bit_len (n div 2))" using "1.prems" by (simp add: bit_len.simps [of n])
    from ih(3) obtain k where k: "bit_len (n div 2) = Suc k" by (cases "bit_len (n div 2)") auto
    from ih(1) k have "2 ^ Suc k \<le> n" by simp
    moreover from ih(2) k have "n < 2 ^ Suc (Suc k)" by simp
    ultimately show ?thesis by (simp add: eq k)
  qed
qed

lemma bit_len_0 [simp]: "bit_len 0 = 0"
  by (simp add: bit_len.simps)

lemma bit_len_numeral [simp]:
  "bit_len 1 = 1"
  "bit_len (Suc 0) = 1"
  "bit_len (numeral num.One) = 1"
  "bit_len (numeral (num.Bit0 n)) = Suc (bit_len (numeral n))"
  "bit_len (numeral (num.Bit1 n)) = Suc (bit_len (numeral n))"
  by (subst bit_len.simps, simp)+

definition ilog2 :: "rat \<Rightarrow> int" where
  "ilog2 x =
     (if 1 \<le> x then int (bit_len (nat \<lfloor>x\<rfloor>)) - 1
      else - int (bit_len (nat (\<lceil>1 / x\<rceil> - 1))))"

lemma bit_len_bounds_rat:
  assumes "0 < n"
  shows "2 powi (int (bit_len (nat n)) - 1) \<le> (of_int n :: rat)"
    and "(of_int n :: rat) + 1 \<le> 2 powi int (bit_len (nat n))"
proof -
  obtain k where k: "bit_len (nat n) = Suc k"
    using bit_len_bounds [of "nat n"] assms by (cases "bit_len (nat n)") auto
  have "2 ^ k \<le> nat n" "nat n < 2 ^ Suc k"
    using bit_len_bounds [of "nat n"] assms by (auto simp: k)
  then have "2 ^ k \<le> n" "n + 1 \<le> 2 ^ Suc k"
    using assms by (simp_all add: le_nat_iff nat_less_iff)
  then have "of_int (2 ^ k) \<le> (of_int n :: rat)" "of_int (n + 1) \<le> (of_int (2 ^ Suc k) :: rat)"
    by (simp_all only: of_int_le_iff)
  then show "2 powi (int (bit_len (nat n)) - 1) \<le> (of_int n :: rat)"
    and "(of_int n :: rat) + 1 \<le> 2 powi int (bit_len (nat n))"
    by (simp_all add: k power_int_def nat_add_distrib)
qed

lemma ilog2_bounds:
  assumes "x > 0"
  shows "2 powi ilog2 x \<le> x \<and> x < 2 powi (ilog2 x + 1)"
proof (cases "1 \<le> x")
  case True
  then have f: "0 < \<lfloor>x\<rfloor>" by simp
  have "of_int \<lfloor>x\<rfloor> \<le> x" "x < of_int \<lfloor>x\<rfloor> + 1" by linarith+
  with bit_len_bounds_rat [OF f] True show ?thesis
    by (auto simp: ilog2_def intro: order_trans less_le_trans)
next
  case False
  define c where "c = \<lceil>1 / x\<rceil> - 1"
  define b where "b = int (bit_len (nat c))"
  have y: "1 < 1 / x" using False assms by simp
  then have "1 < \<lceil>1 / x\<rceil>" by (simp add: less_ceiling_iff)
  then have c: "0 < c" by (simp add: c_def)
  have cy: "of_int c < 1 / x" "1 / x \<le> of_int c + 1" by (simp_all add: c_def) linarith+
  have "2 powi (b - 1) < 1 / x" "1 / x \<le> 2 powi b"
    using bit_len_bounds_rat [OF c] cy by (simp_all add: b_def)
  then have "x < 1 / 2 powi (b - 1)" "1 / 2 powi b \<le> x"
    using assms by (simp_all add: field_simps)
  moreover have "1 / 2 powi (b - 1) = (2 powi (- b + 1) :: rat)" "1 / 2 powi b = (2 powi (- b) :: rat)"
    by (simp_all add: power_int_diff power_int_add power_int_minus field_simps)
  ultimately show ?thesis using False by (simp add: ilog2_def b_def c_def)
qed

lemma ilog2_mono: "0 < x \<Longrightarrow> x \<le> y \<Longrightarrow> ilog2 x \<le> ilog2 y"
proof (rule ccontr)
  assume "0 < x" "x \<le> y" "\<not> ilog2 x \<le> ilog2 y"
  then have "2 powi (ilog2 y + 1) \<le> (2 powi ilog2 x :: rat)" by (intro power_int_increasing) auto
  with ilog2_bounds [of x] ilog2_bounds [of y] \<open>0 < x\<close> \<open>x \<le> y\<close> show False by fastforce
qed

lemma ilog2_unique: "2 powi e \<le> x \<Longrightarrow> x < 2 powi (e + 1) \<Longrightarrow> ilog2 x = e"
proof -
  assume e: "2 powi e \<le> x" "x < 2 powi (e + 1)"
  have x: "0 < x" using e(1) by (smt (verit) zero_less_power_int zero_less_numeral order_less_le_trans)
  note b = ilog2_bounds [OF x]
  have "\<not> e < ilog2 x"
  proof
    assume "e < ilog2 x"
    then have "2 powi (e + 1) \<le> (2 powi ilog2 x :: rat)" by (intro power_int_increasing) auto
    with b e show False by linarith
  qed
  moreover have "\<not> ilog2 x < e"
  proof
    assume "ilog2 x < e"
    then have "2 powi (ilog2 x + 1) \<le> (2 powi e :: rat)" by (intro power_int_increasing) auto
    with b e show False by linarith
  qed
  ultimately show ?thesis by simp
qed

text \<open>Rounding to \<open>p\<close> bits with the least exponent \<open>emin\<close> (the exponent of the subnormals).\<close>

definition unit_exp :: "int \<Rightarrow> int \<Rightarrow> rat \<Rightarrow> int" where
  "unit_exp p emin x = max (ilog2 \<bar>x\<bar> + 1 - p) emin"

definition rnd :: "int \<Rightarrow> int \<Rightarrow> rat \<Rightarrow> rat" where
  "rnd p emin x =
     (if x = 0 then 0
      else let u = 2 powi unit_exp p emin x in of_int (rne (x / u)) * u)"

lemma rnd_0 [simp]: "rnd p emin 0 = 0"
  by (simp add: rnd_def)

lemma rnd_minus: "rnd p emin (- x) = - rnd p emin x"
  by (simp add: rnd_def unit_exp_def Let_def rne_minus)

lemma two_powi_pos [simp]: "(0 :: rat) < 2 powi k"
  by (simp add: zero_less_power_int)

lemma two_powi_split: "(2 powi (a + b) :: rat) = 2 powi a * 2 powi b"
  by (simp add: power_int_add)

lemma of_int_power_int: "0 \<le> n \<Longrightarrow> (2 powi n :: rat) = of_int (2 ^ nat n)"
  by (simp add: power_int_def)

text \<open>The numbers \<open>m * 2 ^ k\<close> with at most \<open>p\<close> bits in \<open>m\<close> are representable.\<close>

lemma rnd_dyadic:
  assumes m: "\<bar>m\<bar> \<le> 2 ^ nat p" and k: "emin \<le> k" and p: "1 \<le> p"
  shows "rnd p emin (of_int m * 2 powi k) = of_int m * 2 powi k"
proof (cases "m = 0")
  case False
  define z :: rat where "z = of_int m * 2 powi k"
  have z0: "z \<noteq> 0" using False by (simp add: z_def)
  have az: "\<bar>z\<bar> = of_int \<bar>m\<bar> * 2 powi k" by (simp add: z_def abs_mult)
  have le: "\<bar>z\<bar> \<le> 2 powi (p + k)"
  proof -
    have "(of_int \<bar>m\<bar> :: rat) \<le> 2 powi p"
      using m p by (simp add: of_int_power_int of_int_le_iff del: of_int_abs of_int_power)
    then show ?thesis by (simp add: az two_powi_split)
  qed
  have int: "\<exists>n. z / 2 powi unit_exp p emin z = of_int n"
  proof (cases "\<bar>z\<bar> = 2 powi (p + k)")
    case True
    have "ilog2 \<bar>z\<bar> = p + k" by (rule ilog2_unique) (simp_all add: True two_powi_split)
    then have u: "unit_exp p emin z = k + 1" using k by (simp add: unit_exp_def)
    have "\<bar>z\<bar> / 2 powi (k + 1) = 2 powi (p - 1)"
      by (simp add: True power_int_diff two_powi_split)
    also have "\<dots> = of_int (2 ^ nat (p - 1))" using p by (intro of_int_power_int) simp
    finally have a: "\<bar>z\<bar> / 2 powi (k + 1) = of_int (2 ^ nat (p - 1))" .
    show ?thesis
    proof (cases "z \<ge> 0")
      case True with a u show ?thesis by auto
    next
      case False
      with a have "z / 2 powi (k + 1) = of_int (- (2 ^ nat (p - 1)))" by (simp add: field_simps)
      with u show ?thesis by metis
    qed
  next
    case False
    with le have lt: "\<bar>z\<bar> < 2 powi (p + k)" by simp
    have "\<not> p + k \<le> ilog2 \<bar>z\<bar>"
    proof
      assume "p + k \<le> ilog2 \<bar>z\<bar>"
      then have "2 powi (p + k) \<le> (2 powi ilog2 \<bar>z\<bar> :: rat)" by (intro power_int_increasing) auto
      with lt ilog2_bounds [of "\<bar>z\<bar>"] z0 show False by simp
    qed
    with k have u: "unit_exp p emin z \<le> k" by (simp add: unit_exp_def)
    then have "z / 2 powi unit_exp p emin z = of_int m * 2 powi (k - unit_exp p emin z)"
      by (simp add: z_def power_int_diff)
    also have "\<dots> = of_int (m * 2 ^ nat (k - unit_exp p emin z))"
      using u by (simp add: of_int_power_int)
    finally show ?thesis by blast
  qed
  then obtain n where n: "z / 2 powi unit_exp p emin z = of_int n" by blast
  then have "rnd p emin z = of_int n * 2 powi unit_exp p emin z" using z0 by (simp add: rnd_def Let_def)
  also have "\<dots> = z" by (simp flip: n)
  finally show ?thesis by (simp add: z_def)
qed simp

lemma rnd_nonneg: "0 \<le> x \<Longrightarrow> 0 \<le> rnd p emin x"
  using rne_mono [of 0 "x / 2 powi unit_exp p emin x"] rne_of_int [of 0]
  by (simp add: rnd_def Let_def)

lemma rnd_mono_pos:
  assumes x: "0 < x" and xy: "x \<le> y" and p: "1 \<le> p"
  shows "rnd p emin x \<le> rnd p emin y"
proof -
  define a where "a = unit_exp p emin x"
  define b where "b = unit_exp p emin y"
  have y: "0 < y" using x xy by simp
  have rx: "rnd p emin x = of_int (rne (x / 2 powi a)) * 2 powi a" using x by (simp add: rnd_def a_def Let_def)
  have ry: "rnd p emin y = of_int (rne (y / 2 powi b)) * 2 powi b" using y by (simp add: rnd_def b_def Let_def)
  have ab: "a \<le> b" using ilog2_mono [OF x xy] x y by (simp add: a_def b_def unit_exp_def)
  show ?thesis
  proof (cases "a = b")
    case True
    have "x / 2 powi a \<le> y / 2 powi a" using xy by (simp add: divide_right_mono)
    then show ?thesis using rne_mono [of "x / 2 powi a" "y / 2 powi a"] True
      by (simp add: rx ry)
  next
    case False
    with ab have lt: "a < b" by simp
    then have b: "b = ilog2 y + 1 - p" and ax: "ilog2 x + 1 - p \<le> a"
      using x y by (auto simp: a_def b_def unit_exp_def)
    have "x \<le> 2 powi (ilog2 x + 1)" using ilog2_bounds [OF x] by simp
    also have "\<dots> \<le> 2 powi (p + a)" using ax by (intro power_int_increasing) auto
    finally have "x / 2 powi a \<le> of_int (2 ^ nat p)"
      using p by (simp add: two_powi_split divide_le_eq of_int_power_int del: of_int_power)
    then have "rne (x / 2 powi a) \<le> 2 ^ nat p" using rne_mono rne_of_int by metis
    then have "(of_int (rne (x / 2 powi a)) :: rat) \<le> of_int (2 ^ nat p)" by (simp only: of_int_le_iff)
    then have "rnd p emin x \<le> of_int (2 ^ nat p) * 2 powi a" by (simp add: rx del: of_int_power)
    also have "\<dots> = 2 powi (p + a)" using p by (simp add: two_powi_split of_int_power_int)
    also have "\<dots> \<le> 2 powi (p - 1 + b)" using lt by (intro power_int_increasing) auto
    also have "\<dots> = of_int (2 ^ nat (p - 1)) * 2 powi b" using p by (simp add: two_powi_split of_int_power_int)
    also have "\<dots> \<le> rnd p emin y"
    proof -
      have "of_int (2 ^ nat (p - 1)) = (2 powi (p - 1) :: rat)" using p by (simp add: of_int_power_int)
      also have "\<dots> = 2 powi ilog2 y / 2 powi b" 
        by (simp add: b flip: power_int_diff)
      also have "\<dots> \<le> y / 2 powi b" using ilog2_bounds [OF y] by (simp add: divide_right_mono)
      finally have "2 ^ nat (p - 1) \<le> rne (y / 2 powi b)" using rne_mono rne_of_int by metis
      then have "of_int (2 ^ nat (p - 1)) \<le> (of_int (rne (y / 2 powi b)) :: rat)" by (simp only: of_int_le_iff)
      then show ?thesis by (simp add: ry del: of_int_power)
    qed
    finally show ?thesis .
  qed
qed

lemma rnd_mono:
  assumes "x \<le> y" and p: "1 \<le> p"
  shows "rnd p emin x \<le> rnd p emin y"
proof -
  consider "0 < x" | "y < 0" | "x \<le> 0" "0 \<le> y" by linarith
  then show ?thesis
  proof cases
    case 1 then show ?thesis using assms by (rule rnd_mono_pos)
  next
    case 2
    then have "rnd p emin (- y) \<le> rnd p emin (- x)" using assms by (intro rnd_mono_pos) auto
    then show ?thesis by (simp add: rnd_minus)
  next
    case 3
    then have "rnd p emin x \<le> 0" using rnd_nonneg [of "- x" p emin] by (simp add: rnd_minus)
    also have "0 \<le> rnd p emin y" using 3 by (simp add: rnd_nonneg)
    finally show ?thesis .
  qed
qed

lemma rnd_idem:
  assumes p: "1 \<le> p"
  shows "rnd p emin (rnd p emin x) = rnd p emin x"
proof (cases "x = 0")
  case False
  define k where "k = unit_exp p emin x"
  have r: "rnd p emin x = of_int (rne (x / 2 powi k)) * 2 powi k" using False by (simp add: rnd_def k_def Let_def)
  have "\<bar>x\<bar> \<le> 2 powi (ilog2 \<bar>x\<bar> + 1)" using ilog2_bounds [of "\<bar>x\<bar>"] False by simp
  also have "\<dots> \<le> 2 powi (p + k)" by (intro power_int_increasing) (auto simp: k_def unit_exp_def)
  finally have "\<bar>x / 2 powi k\<bar> \<le> of_int (2 ^ nat p)"
    using p by (simp add: two_powi_split divide_le_eq of_int_power_int del: of_int_power)
  then have "x / 2 powi k \<le> of_int (2 ^ nat p)" "of_int (- (2 ^ nat p)) \<le> x / 2 powi k"
    by (simp_all only: abs_le_iff of_int_minus) linarith+
  then have "rne (x / 2 powi k) \<le> 2 ^ nat p" "- (2 ^ nat p) \<le> rne (x / 2 powi k)"
    using rne_mono rne_of_int by metis+
  then have "\<bar>rne (x / 2 powi k)\<bar> \<le> 2 ^ nat p" by simp
  then show ?thesis unfolding r using p by (intro rnd_dyadic) (auto simp: k_def unit_exp_def)
qed simp

section \<open>The rounding interface\<close>

text \<open>
  What the components know of rounding. A number is \<open>exact\<close> when rounding leaves it alone;
  rounding keeps every bound by an exact number.
\<close>

locale rounding =
  fixes rnd_op :: "rat \<Rightarrow> rat"
  assumes mono: "x \<le> y \<Longrightarrow> rnd_op x \<le> rnd_op y"
    and idem: "rnd_op (rnd_op x) = rnd_op x"
    and zero: "rnd_op 0 = 0"
    and one: "rnd_op 1 = 1"
begin

lemma le_exact: "rnd_op b = b \<Longrightarrow> x \<le> b \<Longrightarrow> rnd_op x \<le> b"
  using mono by fastforce

lemma ge_exact: "rnd_op b = b \<Longrightarrow> b \<le> x \<Longrightarrow> b \<le> rnd_op x"
  using mono by fastforce

lemma nonneg: "0 \<le> x \<Longrightarrow> 0 \<le> rnd_op x"
  by (rule ge_exact) (rule zero)

lemma unit_interval: "0 \<le> x \<Longrightarrow> x \<le> 1 \<Longrightarrow> 0 \<le> rnd_op x \<and> rnd_op x \<le> 1"
  by (simp add: nonneg le_exact one)

lemma between:
  "rnd_op a = a \<Longrightarrow> rnd_op b = b \<Longrightarrow> a \<le> x \<Longrightarrow> x \<le> b \<Longrightarrow> a \<le> rnd_op x \<and> rnd_op x \<le> b"
  by (simp add: ge_exact le_exact)

end

definition rnd64 :: "rat \<Rightarrow> rat" where
  "rnd64 x = rnd 53 (- 1074) x"

definition rnd32 :: "rat \<Rightarrow> rat" where
  "rnd32 x = rnd 24 (- 149) x"

lemma rnd64_int [simp]: "\<bar>m\<bar> \<le> 2 ^ 53 \<Longrightarrow> rnd64 (of_int m) = of_int m"
  using rnd_dyadic [of m 53 "- 1074" 0] by (simp add: rnd64_def)

lemma rnd32_int [simp]: "\<bar>m\<bar> \<le> 2 ^ 24 \<Longrightarrow> rnd32 (of_int m) = of_int m"
  using rnd_dyadic [of m 24 "- 149" 0] by (simp add: rnd32_def)

interpretation r64: rounding rnd64
  by unfold_locales
    (use rnd64_int [of 1] in \<open>simp_all add: rnd64_def rnd_mono rnd_idem\<close>)

interpretation r32: rounding rnd32
  by unfold_locales
    (use rnd32_int [of 1] in \<open>simp_all add: rnd32_def rnd_mono rnd_idem\<close>)

section \<open>Operations\<close>

text \<open>A rounded result, with overflow to an infinity.\<close>

definition fl_of :: "rat \<Rightarrow> rat \<Rightarrow> fl" where
  "fl_of huge r = (if huge \<le> r then PosInf else if r \<le> - huge then NegInf else Fin r)"

definition f64_round :: "rat \<Rightarrow> f64" where
  "f64_round x = fl_of (2 ^ 1024) (rnd64 x)"

definition f32_round :: "rat \<Rightarrow> f32" where
  "f32_round x = fl_of (2 ^ 128) (rnd32 x)"

text \<open>The arithmetic of both formats, with the rounding as a parameter.\<close>

fun fl_neg :: "fl \<Rightarrow> fl" where
  "fl_neg (Fin a) = Fin (- a)"
| "fl_neg PosInf = NegInf"
| "fl_neg NegInf = PosInf"
| "fl_neg NaN = NaN"

fun fl_add :: "(rat \<Rightarrow> fl) \<Rightarrow> fl \<Rightarrow> fl \<Rightarrow> fl" where
  "fl_add r (Fin a) (Fin b) = r (a + b)"
| "fl_add r NaN _ = NaN"
| "fl_add r _ NaN = NaN"
| "fl_add r PosInf NegInf = NaN"
| "fl_add r NegInf PosInf = NaN"
| "fl_add r PosInf _ = PosInf"
| "fl_add r NegInf _ = NegInf"
| "fl_add r (Fin a) y = y"

definition fl_sub :: "(rat \<Rightarrow> fl) \<Rightarrow> fl \<Rightarrow> fl \<Rightarrow> fl" where
  "fl_sub r x y = fl_add r x (fl_neg y)"

definition fl_signed_inf :: "rat \<Rightarrow> fl" where
  "fl_signed_inf s = (if s > 0 then PosInf else if s < 0 then NegInf else NaN)"

fun fl_sgn :: "fl \<Rightarrow> rat" where
  "fl_sgn (Fin a) = sgn a"
| "fl_sgn PosInf = 1"
| "fl_sgn NegInf = - 1"
| "fl_sgn NaN = 0"

definition fl_mul :: "(rat \<Rightarrow> fl) \<Rightarrow> fl \<Rightarrow> fl \<Rightarrow> fl" where
  "fl_mul r x y = (case (x, y) of
     (Fin a, Fin b) \<Rightarrow> r (a * b)
   | (NaN, _) \<Rightarrow> NaN
   | (_, NaN) \<Rightarrow> NaN
   | _ \<Rightarrow> fl_signed_inf (fl_sgn x * fl_sgn y))"

definition fl_div :: "(rat \<Rightarrow> fl) \<Rightarrow> fl \<Rightarrow> fl \<Rightarrow> fl" where
  "fl_div r x y = (case (x, y) of
     (Fin a, Fin b) \<Rightarrow> if b = 0 then fl_signed_inf a else r (a / b)
   | (NaN, _) \<Rightarrow> NaN
   | (_, NaN) \<Rightarrow> NaN
   | (Fin a, _) \<Rightarrow> Fin 0
   | (_, Fin b) \<Rightarrow> fl_signed_inf (fl_sgn x * (if b < 0 then - 1 else 1))
   | _ \<Rightarrow> NaN)"

abbreviation f64_add :: "f64 \<Rightarrow> f64 \<Rightarrow> f64" where "f64_add \<equiv> fl_add f64_round"
abbreviation f64_sub :: "f64 \<Rightarrow> f64 \<Rightarrow> f64" where "f64_sub \<equiv> fl_sub f64_round"
abbreviation f64_mul :: "f64 \<Rightarrow> f64 \<Rightarrow> f64" where "f64_mul \<equiv> fl_mul f64_round"
abbreviation f64_div :: "f64 \<Rightarrow> f64 \<Rightarrow> f64" where "f64_div \<equiv> fl_div f64_round"
abbreviation f32_mul :: "f32 \<Rightarrow> f32 \<Rightarrow> f32" where "f32_mul \<equiv> fl_mul f32_round"
abbreviation f32_div :: "f32 \<Rightarrow> f32 \<Rightarrow> f32" where "f32_div \<equiv> fl_div f32_round"

text \<open>A literal is the number nearest to the decimal written in the source.\<close>

definition f64_lit :: "rat \<Rightarrow> f64" where
  "f64_lit q = f64_round q"

definition f32_lit :: "rat \<Rightarrow> f32" where
  "f32_lit q = f32_round q"

text \<open>\<open>as\<close> casts: an integer is rounded; a float is truncated and saturates, and NaN is 0.\<close>

definition f64_of_nat :: "nat \<Rightarrow> f64" where
  "f64_of_nat n = f64_round (of_nat n)"

definition f64_of_int :: "int \<Rightarrow> f64" where
  "f64_of_int n = f64_round (of_int n)"

definition f64_of_u64 :: "u64 \<Rightarrow> f64" where
  "f64_of_u64 n = f64_of_nat (unat n)"

definition f32_of_u64 :: "u64 \<Rightarrow> f32" where
  "f32_of_u64 n = f32_round (of_nat (unat n))"

definition trunc :: "rat \<Rightarrow> int" where
  "trunc x = (if 0 \<le> x then \<lfloor>x\<rfloor> else \<lceil>x\<rceil>)"

definition fl_to_int :: "int \<Rightarrow> int \<Rightarrow> fl \<Rightarrow> int" where
  "fl_to_int lo hi x = (case x of
     NaN \<Rightarrow> 0 | PosInf \<Rightarrow> hi | NegInf \<Rightarrow> lo | Fin a \<Rightarrow> max lo (min hi (trunc a)))"

definition f64_to_u64 :: "f64 \<Rightarrow> u64" where
  "f64_to_u64 x = word_of_int (fl_to_int 0 (2 ^ 64 - 1) x)"

definition f64_to_i64 :: "f64 \<Rightarrow> int" where
  "f64_to_i64 x = fl_to_int (- (2 ^ 63)) (2 ^ 63 - 1) x"

definition f64_ceil :: "f64 \<Rightarrow> f64" where
  "f64_ceil x = (case x of Fin a \<Rightarrow> Fin (of_int \<lceil>a\<rceil>) | _ \<Rightarrow> x)"

definition secs_f64 :: "duration \<Rightarrow> f64" where
  \<comment> \<open>\<open>Duration::as_secs_f64\<close>: whole seconds plus the nanoseconds over 10 to the 9.\<close>
  "secs_f64 d = f64_add (f64_of_nat (d div nanos_per_sec))
     (f64_div (f64_of_nat (d mod nanos_per_sec)) (f64_of_nat nanos_per_sec))"

section \<open>Facts about the operations\<close>

named_theorems fl_fin \<open>when an operation on finite numbers has a finite result\<close>

lemma exact_2_1023: "rnd64 (2 ^ 1023) = 2 ^ 1023"
  using rnd_dyadic [of 1 53 "- 1074" 1023] by (simp add: rnd64_def power_int_def)

lemma f64_round_fin [fl_fin]: "\<bar>x\<bar> \<le> 2 ^ 1023 \<Longrightarrow> f64_round x = Fin (rnd64 x)"
proof -
  assume "\<bar>x\<bar> \<le> 2 ^ 1023"
  then have "- (2 ^ 1023) \<le> x" "x \<le> 2 ^ 1023" by (simp_all only: abs_le_iff) linarith+
  moreover have "rnd64 (- (2 ^ 1023)) = - (2 ^ 1023)"
    using exact_2_1023 by (simp only: rnd64_def rnd_minus)
  ultimately have b: "- (2 ^ 1023) \<le> rnd64 x \<and> rnd64 x \<le> 2 ^ 1023"
    by (intro r64.between exact_2_1023)
  have "(2 :: rat) ^ 1023 < 2 ^ 1024" by (rule power_strict_increasing) auto
  with b have "rnd64 x < 2 ^ 1024" "- (2 ^ 1024) < rnd64 x" by (meson order_le_less_trans, linarith)
  then show ?thesis by (simp only: f64_round_def fl_of_def not_le [symmetric] if_False)
qed

lemma big_bound: "x \<le> (2 :: rat) ^ 128 \<Longrightarrow> x \<le> 2 ^ 1023"
  by (erule order_trans) (rule power_increasing, auto)

lemma f64_round_small [fl_fin]: "\<bar>x\<bar> \<le> 2 ^ 128 \<Longrightarrow> f64_round x = Fin (rnd64 x)"
  by (intro f64_round_fin big_bound)

lemma f64_round_unit: "0 \<le> x \<Longrightarrow> x \<le> 1 \<Longrightarrow> f64_round x = Fin (rnd64 x)"
  by (rule f64_round_small) simp

lemma f64_of_nat_exact: "n \<le> 2 ^ 53 \<Longrightarrow> f64_of_nat n = Fin (of_nat n)"
proof -
  assume n: "n \<le> 2 ^ 53"
  then have "(of_nat n :: rat) \<le> of_nat (2 ^ 53)" by (rule of_nat_mono)
  then have "\<bar>of_nat n :: rat\<bar> \<le> 2 ^ 128" by simp
  moreover have "rnd64 (of_nat n) = of_nat n" using rnd64_int [of "int n"] n by simp
  ultimately show ?thesis by (simp add: f64_of_nat_def fl_fin)
qed

lemma f64_of_nat_fin: "n < 2 ^ 64 \<Longrightarrow> f64_of_nat n = Fin (rnd64 (of_nat n))"
proof -
  assume n: "n < 2 ^ 64"
  then have "n \<le> 2 ^ 128" by (rule order.trans [OF less_imp_le]) simp
  then have "(of_nat n :: rat) \<le> of_nat (2 ^ 128)" by (rule of_nat_mono)
  then show ?thesis by (simp add: f64_of_nat_def f64_round_small)
qed

lemma f64_of_u64_fin: "f64_of_u64 n = Fin (rnd64 (of_nat (unat n)))"
proof -
  have "unat n < 2 ^ LENGTH(64)" by (rule unsigned_less)
  then show ?thesis by (simp add: f64_of_u64_def f64_of_nat_fin)
qed

lemma f64_of_u64_nonneg: "0 \<le> rnd64 (of_nat n)"
  by (rule r64.nonneg) simp

lemma fl_mul_fin [simp]: "fl_mul r (Fin a) (Fin b) = r (a * b)"
  by (simp add: fl_mul_def)

lemma fl_div_fin [simp]: "b \<noteq> 0 \<Longrightarrow> fl_div r (Fin a) (Fin b) = r (a / b)"
  by (simp add: fl_div_def)

lemma fl_sub_fin [simp]: "fl_sub r (Fin a) (Fin b) = r (a - b)"
  by (simp add: fl_sub_def)

lemma trunc_mono: "x \<le> y \<Longrightarrow> trunc x \<le> trunc y"
proof -
  assume "x \<le> y"
  then show ?thesis
    by (auto simp: trunc_def intro: floor_mono ceiling_mono)
       (meson ceiling_le_zero dual_order.trans linorder_le_cases order.trans zero_le_floor)
qed

lemma fl_to_int_range: "lo \<le> 0 \<Longrightarrow> 0 \<le> hi \<Longrightarrow> lo \<le> fl_to_int lo hi x \<and> fl_to_int lo hi x \<le> hi"
  by (auto simp: fl_to_int_def split: fl.splits)

lemma uint_f64_to_u64: "uint (f64_to_u64 x) = fl_to_int 0 (2 ^ 64 - 1) x"
  using fl_to_int_range [of 0 "2 ^ 64 - 1" x]
  by (simp add: f64_to_u64_def uint_word_of_int)

lemma f64_to_u64_Fin: "0 \<le> a \<Longrightarrow> unat (f64_to_u64 (Fin a)) = nat (min (2 ^ 64 - 1) \<lfloor>a\<rfloor>)"
  by (simp add: unat_eq_nat_uint uint_f64_to_u64 fl_to_int_def trunc_def)

text \<open>Addition and multiplication of non-negative numbers are monotone, rounding included.\<close>

lemma f64_round_not_NaN [simp]: "f64_round x \<noteq> NaN" "NaN \<noteq> f64_round x"
  by (simp_all add: f64_round_def fl_of_def)

lemma f64_round_mono: "x \<le> y \<Longrightarrow> fl_le (f64_round x) (f64_round y)"
proof -
  assume "x \<le> y"
  then have "rnd64 x \<le> rnd64 y" by (rule r64.mono)
  then show ?thesis by (auto simp: f64_round_def fl_of_def)
qed

lemma f64_round_zero: "f64_round 0 = Fin 0"
  by (simp add: f64_round_def fl_of_def r64.zero)

lemma fl_le_PosInf: "fl_le x PosInf \<longleftrightarrow> x \<noteq> NaN"
  by (cases x) auto

lemma f64_add_mono: "fl_le x x' \<Longrightarrow> fl_le y y' \<Longrightarrow> fl_le (Fin 0) x \<Longrightarrow> fl_le (Fin 0) y \<Longrightarrow>
    fl_le (f64_add x y) (f64_add x' y')"
  by (cases x; cases x'; cases y; cases y') (auto intro: f64_round_mono simp: fl_le_PosInf)

lemma f64_add_nonneg: "fl_le (Fin 0) x \<Longrightarrow> fl_le (Fin 0) y \<Longrightarrow> fl_le (Fin 0) (f64_add x y)"
  using f64_add_mono [of "Fin 0" x "Fin 0" y] by (simp add: f64_round_zero)

lemma f64_mul_mono: "0 \<le> c \<Longrightarrow> a \<le> b \<Longrightarrow> fl_le (f64_mul (Fin c) (Fin a)) (f64_mul (Fin c) (Fin b))"
  by (simp add: f64_round_mono mult_left_mono)

lemma f64_mul_nonneg: "0 \<le> c \<Longrightarrow> 0 \<le> a \<Longrightarrow> fl_le (Fin 0) (f64_mul (Fin c) (Fin a))"
  using f64_mul_mono [of c 0 a] by (simp add: f64_round_zero)

lemma f64_lit_nonneg: "0 \<le> q \<Longrightarrow> fl_le (Fin 0) (f64_lit q)"
  using f64_round_mono [of 0 q] by (simp add: f64_lit_def f64_round_zero)

lemma f64_div_not_NaN: "b \<noteq> 0 \<Longrightarrow> f64_div (Fin a) (Fin b) \<noteq> NaN"
  by simp

lemma f32_round_nonneg: "0 \<le> x \<Longrightarrow> fl_le (Fin 0) (f32_round x)"
  using r32.nonneg [of x] by (auto simp: f32_round_def fl_of_def)

lemma f32_of_u64_nonneg: "fl_le (Fin 0) (f32_of_u64 n)"
  unfolding f32_of_u64_def by (intro f32_round_nonneg of_nat_0_le_iff)

lemma fl_div_nonneg:
  "fl_le (Fin 0) x \<Longrightarrow> 0 < b \<Longrightarrow> (\<And>q. 0 \<le> q \<Longrightarrow> fl_le (Fin 0) (r q)) \<Longrightarrow> fl_le (Fin 0) (fl_div r x (Fin b))"
  by (cases x) (auto simp: fl_div_def fl_signed_inf_def)

lemma fl_min_le: "y \<noteq> NaN \<Longrightarrow> fl_le (fl_min x y) y"
  by (cases x; cases y) (auto simp: fl_min_def)

lemma fl_min_nonneg: "fl_le (Fin 0) x \<Longrightarrow> fl_le (Fin 0) y \<Longrightarrow> fl_le (Fin 0) (fl_min x y)"
  by (auto simp: fl_min_def)

lemma fl_between_Fin: "fl_le (Fin a) x \<Longrightarrow> fl_le x (Fin b) \<Longrightarrow> \<exists>c. x = Fin c \<and> a \<le> c \<and> c \<le> b"
  by (cases x) auto

lemma f64_to_u64_mono: "fl_le x y \<Longrightarrow> f64_to_u64 x \<le> f64_to_u64 y"
proof -
  assume "fl_le x y"
  then have "fl_to_int 0 (2 ^ 64 - 1) x \<le> fl_to_int 0 (2 ^ 64 - 1) y"
    by (cases x; cases y) (auto simp: fl_to_int_def dest: trunc_mono)
  then show ?thesis by (simp add: word_le_def uint_f64_to_u64)
qed


text \<open>Evaluation of an operation on concrete numbers by the simplifier.\<close>

lemma floor_rat_numeral [simp]:
  "\<lfloor>numeral a / numeral b :: rat\<rfloor> = numeral a div numeral b"
  "\<lfloor>1 / numeral b :: rat\<rfloor> = 1 div numeral b"
  "\<lfloor>- (numeral a / numeral b) :: rat\<rfloor> = - numeral a div numeral b"
  "\<lfloor>- numeral a / numeral b :: rat\<rfloor> = - numeral a div numeral b"
  "\<lfloor>- (1 / numeral b) :: rat\<rfloor> = - 1 div numeral b"
  using floor_divide_of_int_eq [of "numeral a" "numeral b", where ?'a = rat]
    floor_divide_of_int_eq [of 1 "numeral b", where ?'a = rat]
    floor_divide_of_int_eq [of "- numeral a" "numeral b", where ?'a = rat]
    floor_divide_of_int_eq [of "- 1" "numeral b", where ?'a = rat]
  by simp_all

lemma ceiling_rat_numeral [simp]:
  "\<lceil>numeral a / numeral b :: rat\<rceil> = - (- numeral a div numeral b)"
  "\<lceil>1 / numeral b :: rat\<rceil> = - (- 1 div numeral b)"
  "\<lceil>- (numeral a / numeral b) :: rat\<rceil> = - (numeral a div numeral b)"
  by (simp_all add: ceiling_def)

lemmas f64_eval =
  f64_lit_def f64_round_def fl_of_def rnd64_def rnd_def unit_exp_def ilog2_def rne_def
  f64_of_nat_def f64_of_int_def f64_of_u64_def f64_to_u64_def f64_to_i64_def fl_to_int_def trunc_def
  fl_clamp_def fl_max_def fl_min_def fl_sub_def fl_div_def fl_mul_def f64_ceil_def secs_f64_def nanos_per_sec_def

lemmas f32_eval =
  f32_lit_def f32_round_def rnd32_def f32_of_u64_def

end
