(* ===== verification/Text.thy ===== *)
theory Text
  imports Floats
begin

text \<open>
  The functions of Rust's string library that the parsers use, on lists of characters. The files
  parsed (\<open>/proc\<close>, \<open>/sys\<close>, configuration) are ASCII where the code looks at them; white space is
  the ASCII white space.
\<close>

section \<open>Splitting\<close>

definition is_ws :: "char \<Rightarrow> bool" where
  "is_ws c = (c \<in> {CHR '' '', CHR 0x09, CHR 0x0A, CHR 0x0B, CHR 0x0C, CHR 0x0D})"

fun split_by :: "('a \<Rightarrow> bool) \<Rightarrow> 'a list \<Rightarrow> 'a list list" where
  "split_by P [] = [[]]"
| "split_by P (c # cs) =
     (if P c then [] # split_by P cs
      else case split_by P cs of [] \<Rightarrow> [[c]] | w # ws \<Rightarrow> (c # w) # ws)"

definition split_char :: "char \<Rightarrow> string \<Rightarrow> string list" where
  "split_char d s = split_by (\<lambda>c. c = d) s"

definition split_whitespace :: "string \<Rightarrow> string list" where
  "split_whitespace s = filter (\<lambda>w. w \<noteq> []) (split_by is_ws s)"

definition strip_cr :: "string \<Rightarrow> string" where
  "strip_cr s = (if s \<noteq> [] \<and> last s = CHR 0x0D then butlast s else s)"

text \<open>\<open>str::lines\<close>: a final empty piece is no line, and \<open>\r\<close> before a newline is dropped.\<close>

definition lines :: "string \<Rightarrow> string list" where
  "lines s = (let ps = split_char CHR 0x0A s in
     map strip_cr (butlast ps) @ (if last ps = [] then [] else [last ps]))"

definition trim_start :: "string \<Rightarrow> string" where
  "trim_start s = dropWhile is_ws s"

definition trim :: "string \<Rightarrow> string" where
  "trim s = rev (dropWhile is_ws (rev (dropWhile is_ws s)))"

fun strip_prefix :: "string \<Rightarrow> string \<Rightarrow> string option" where
  "strip_prefix [] s = Some s"
| "strip_prefix (p # ps) [] = None"
| "strip_prefix (p # ps) (c # cs) = (if p = c then strip_prefix ps cs else None)"

definition starts_with :: "string \<Rightarrow> string \<Rightarrow> bool" where
  "starts_with p s = (case strip_prefix p s of None \<Rightarrow> False | Some _ \<Rightarrow> True)"

definition ends_with :: "string \<Rightarrow> string \<Rightarrow> bool" where
  "ends_with p s = starts_with (rev p) (rev s)"

fun contains_str :: "string \<Rightarrow> string \<Rightarrow> bool" where
  "contains_str p [] = (p = [])"
| "contains_str p (c # cs) = (starts_with p (c # cs) \<or> contains_str p cs)"

text \<open>\<open>split_once\<close> and \<open>rsplit_once\<close>: before and after the first, the last occurrence.\<close>

fun split_once :: "string \<Rightarrow> string \<Rightarrow> (string \<times> string) option" where
  "split_once d [] = None"
| "split_once d (c # cs) =
     (case strip_prefix d (c # cs) of
        Some rest \<Rightarrow> Some ([], rest)
      | None \<Rightarrow> map_option (\<lambda>(a, b). (c # a, b)) (split_once d cs))"

definition rsplit_once :: "string \<Rightarrow> string \<Rightarrow> (string \<times> string) option" where
  "rsplit_once d s = map_option (\<lambda>(a, b). (rev b, rev a)) (split_once (rev d) (rev s))"

definition nth_opt :: "nat \<Rightarrow> 'a list \<Rightarrow> 'a option" where
  "nth_opt n xs = (if n < length xs then Some (xs ! n) else None)"

definition first_opt :: "'a list \<Rightarrow> 'a option" where
  "first_opt xs = (case xs of [] \<Rightarrow> None | x # _ \<Rightarrow> Some x)"

lemma strip_prefix_Some: "strip_prefix p s = Some r \<longleftrightarrow> s = p @ r"
  by (induction p s rule: strip_prefix.induct) auto

lemma starts_with_iff: "starts_with p s \<longleftrightarrow> (\<exists>r. s = p @ r)"
  by (auto simp: starts_with_def strip_prefix_Some split: option.split)
     (metis not_Some_eq strip_prefix_Some)

lemma split_by_nonempty [simp]: "split_by P s \<noteq> []"
  by (induction s) (auto split: list.split)

lemma split_by_prefix: "\<forall>c \<in> set w. \<not> P c \<Longrightarrow> P d \<Longrightarrow> split_by P (w @ d # s) = w # split_by P s"
  by (induction w) auto

lemma split_by_none: "\<forall>c \<in> set w. \<not> P c \<Longrightarrow> split_by P w = [w]"
  by (induction w) auto

lemma split_by_parts: "w \<in> set (split_by P s) \<Longrightarrow> \<forall>c \<in> set w. \<not> P c"
  by (induction s arbitrary: w) (force split: if_splits list.splits)+

section \<open>Case\<close>

definition to_ascii_lower :: "char \<Rightarrow> char" where
  "to_ascii_lower c =
     (let n = of_char c :: nat in if 65 \<le> n \<and> n \<le> 90 then char_of (n + 32) else c)"

definition to_ascii_lowercase :: "string \<Rightarrow> string" where
  "to_ascii_lowercase s = map to_ascii_lower s"

section \<open>Numbers\<close>

definition is_digit :: "char \<Rightarrow> bool" where
  "is_digit c = (48 \<le> (of_char c :: nat) \<and> of_char c \<le> (57 :: nat))"

definition digit_val :: "char \<Rightarrow> nat" where
  "digit_val c = of_char c - 48"

definition digits_val :: "string \<Rightarrow> nat" where
  "digits_val s = foldl (\<lambda>n c. 10 * n + digit_val c) 0 s"

definition strip_plus :: "string \<Rightarrow> string" where
  "strip_plus s = (case s of c # cs \<Rightarrow> if c = CHR ''+'' then cs else s | [] \<Rightarrow> s)"

definition parse_nat :: "string \<Rightarrow> nat option" where
  "parse_nat s = (let d = strip_plus s in
     if d \<noteq> [] \<and> list_all is_digit d then Some (digits_val d) else None)"

definition parse_uint :: "string \<Rightarrow> 'a::len word option" where
  \<comment> \<open>\<open>str::parse\<close> at an unsigned type: an optional plus, digits, and the value in range.\<close>
  "parse_uint s = (case parse_nat s of
     None \<Rightarrow> None
   | Some n \<Rightarrow> if n < 2 ^ LENGTH('a) then Some (of_nat n) else None)"

abbreviation parse_u64 :: "string \<Rightarrow> u64 option" where "parse_u64 \<equiv> parse_uint"
abbreviation parse_u32 :: "string \<Rightarrow> u32 option" where "parse_u32 \<equiv> parse_uint"

definition parse_i32 :: "string \<Rightarrow> int option" where
  "parse_i32 s = (case s of
     c # cs \<Rightarrow>
       (if c = CHR ''-'' then
          (if cs \<noteq> [] \<and> list_all is_digit cs \<and> digits_val cs \<le> 2 ^ 31
           then Some (- int (digits_val cs)) else None)
        else case parse_nat s of None \<Rightarrow> None | Some n \<Rightarrow> if n < 2 ^ 31 then Some (int n) else None)
   | [] \<Rightarrow> None)"

text \<open>\<open>str::parse::<f64>\<close>: sign, digits, fraction, exponent, or one of the named values.\<close>

definition parse_exp :: "string \<Rightarrow> int option" where
  "parse_exp s = (case s of
     [] \<Rightarrow> Some 0
   | c # cs \<Rightarrow>
       if c = CHR ''e'' \<or> c = CHR ''E'' then
         (let (neg, ds) = (case cs of
              d # ds \<Rightarrow> if d = CHR ''-'' then (True, ds) else if d = CHR ''+'' then (False, ds) else (False, cs)
            | [] \<Rightarrow> (False, []))
          in if ds \<noteq> [] \<and> list_all is_digit ds
             then Some (if neg then - int (digits_val ds) else int (digits_val ds)) else None)
       else None)"

definition parse_unsigned_f64 :: "string \<Rightarrow> f64 option" where
  "parse_unsigned_f64 s =
     (let low = to_ascii_lowercase s in
      if low = ''inf'' \<or> low = ''infinity'' then Some PosInf
      else if low = ''nan'' then Some NaN
      else
        let ip = takeWhile is_digit s; r1 = dropWhile is_digit s;
            (fp, r2) = (case r1 of
                c # cs \<Rightarrow> if c = CHR ''.'' then (takeWhile is_digit cs, dropWhile is_digit cs) else ([], r1)
              | [] \<Rightarrow> ([], []))
        in if ip = [] \<and> fp = [] then None
           else case parse_exp r2 of
             None \<Rightarrow> None
           | Some e \<Rightarrow> Some (f64_round (of_nat (digits_val (ip @ fp)) * 10 powi (e - int (length fp)))))"

definition parse_f64 :: "string \<Rightarrow> f64 option" where
  "parse_f64 s = (case s of
     c # cs \<Rightarrow>
       if c = CHR ''-'' then map_option fl_neg (parse_unsigned_f64 cs)
       else if c = CHR ''+'' then parse_unsigned_f64 cs
       else parse_unsigned_f64 s
   | [] \<Rightarrow> None)"

text \<open>Decimal output of a natural number, as \<open>Display\<close> prints it.\<close>

fun show_nat :: "nat \<Rightarrow> string" where
  "show_nat n =
     (if n < 10 then [char_of (48 + n)] else show_nat (n div 10) @ [char_of (48 + n mod 10)])"

declare show_nat.simps [simp del]

lemma digits_val_snoc: "digits_val (s @ [c]) = 10 * digits_val s + digit_val c"
  by (simp add: digits_val_def)

lemma digit_char: "n < 10 \<Longrightarrow> is_digit (char_of (48 + n)) \<and> digit_val (char_of (48 + n)) = n"
  by (simp add: is_digit_def digit_val_def)

lemma show_nat_digits: "show_nat n \<noteq> [] \<and> list_all is_digit (show_nat n) \<and> digits_val (show_nat n) = n"
proof (induction n rule: show_nat.induct)
  case (1 n)
  show ?case
  proof (cases "n < 10")
    case True
    then show ?thesis using digit_char [of n]
      by (subst (1 2 3) show_nat.simps) (simp add: digits_val_def)
  next
    case False
    note ih = "1.IH" [OF False]
    have "n mod 10 < 10" by simp
    note dc = digit_char [OF this]
    have "show_nat n = show_nat (n div 10) @ [char_of (48 + n mod 10)]"
      using False by (subst show_nat.simps) simp
    then show ?thesis using ih dc by (simp add: digits_val_snoc)
  qed
qed

text \<open>Printing a number and parsing it back gives the number.\<close>

lemma parse_nat_show: "parse_nat (show_nat n) = Some n"
proof -
  have "hd (show_nat n) \<noteq> CHR ''+''"
    using show_nat_digits [of n] by (cases "show_nat n") (auto simp: is_digit_def)
  then have "strip_plus (show_nat n) = show_nat n"
    using show_nat_digits [of n] by (auto simp: strip_plus_def split: list.split)
  then show ?thesis using show_nat_digits [of n] by (simp add: parse_nat_def)
qed

lemma parse_uint_show: "parse_uint (show_nat (unat (w :: 'a::len word))) = Some w"
  by (simp add: parse_uint_def parse_nat_show)

lemmas text_eval =
  is_ws_def split_char_def split_whitespace_def strip_cr_def lines_def trim_def trim_start_def
  starts_with_def ends_with_def rsplit_once_def nth_opt_def first_opt_def
  to_ascii_lower_def to_ascii_lowercase_def is_digit_def digit_val_def digits_val_def strip_plus_def
  parse_nat_def parse_uint_def parse_i32_def parse_exp_def parse_unsigned_f64_def parse_f64_def char_of_def bit_0

end
