(* ===== verification/Units.thy ===== *)
theory Units
  imports Floats
begin

text \<open>
  The unit types of \<open>mgd-common/src/types.rs\<close>: process identities and memory sizes in kibibytes.
  \<open>Pid\<close> and \<open>Kb\<close> are newtypes around a \<open>u32\<close> and a \<open>u64\<close>; all additions of sizes saturate and
  there is no subtraction but the saturating one.
\<close>

type_synonym pid = u32
type_synonym kb = u64

definition pid_none :: pid where
  "pid_none = 0"

definition kb_mib :: "kb \<Rightarrow> f64" where
  "kb_mib k = f64_div (f64_of_u64 k) (f64_lit 1024)"

definition kb_bytes :: "kb \<Rightarrow> u64" where
  "kb_bytes k = sat_mul k 1024"

definition kb_add :: "kb \<Rightarrow> kb \<Rightarrow> kb" where
  "kb_add a b = sat_add a b"

definition kb_sub :: "kb \<Rightarrow> kb \<Rightarrow> kb" where
  "kb_sub a b = sat_sub a b"

definition percent_of :: "kb \<Rightarrow> u64 \<Rightarrow> kb" where
  "percent_of k pct = sat_mul k pct div 100"

definition kb_sum :: "kb list \<Rightarrow> kb" where
  "kb_sum ks = foldl kb_add 0 ks"

lemma unat_kb_add [sat_simps]: "unat (kb_add a b) = min (unat a + unat b) (2 ^ 64 - 1)"
  by (simp add: kb_add_def sat_simps)

lemma unat_kb_sub [sat_simps]: "unat (kb_sub a b) = unat a - unat b"
  by (simp add: kb_sub_def sat_simps)

lemma unat_kb_bytes [sat_simps]: "unat (kb_bytes k) = min (unat k * 1024) (2 ^ 64 - 1)"
  by (simp add: kb_bytes_def sat_simps)

lemma unat_percent_of [sat_simps]:
  "unat (percent_of k pct) = min (unat k * unat pct) (2 ^ 64 - 1) div 100"
  by (simp add: percent_of_def unat_div sat_simps)

lemma kb_sum_aux:
  "unat (foldl kb_add a ks) = min (unat a + sum_list (map unat ks)) (2 ^ 64 - 1)"
proof (induction ks arbitrary: a)
  case Nil
  have "unat a < 2 ^ LENGTH(64)" by (rule unsigned_less)
  then show ?case by simp
next
  case (Cons k ks)
  then show ?case by (simp add: sat_simps min_def)
qed

text \<open>The sum of sizes is the true sum, capped at the largest \<open>u64\<close>: no wrap-around.\<close>

lemma unat_kb_sum [sat_simps]: "unat (kb_sum ks) = min (sum_list (map unat ks)) (2 ^ 64 - 1)"
  by (simp add: kb_sum_def kb_sum_aux)

lemma percent_of_le: "unat pct \<le> 100 \<Longrightarrow> percent_of k pct \<le> k"
proof -
  assume "unat pct \<le> 100"
  then have "min (unat k * unat pct) (2 ^ 64 - 1) div 100 \<le> unat k * 100 div 100"
    by (intro div_le_mono min.coboundedI1 mult_le_mono2)
  then show ?thesis by (simp add: word_le_nat_alt sat_simps)
qed

end
