(* ===== verification/Psi.thy ===== *)
theory Psi
  imports Text Units
begin

text \<open>
  Pressure stall information (\<open>mgd/src/monitor/psi.rs\<close>, \<open>mgd-common/src/psi.rs\<close>,
  \<open>mgd-psi-trigger\<close>): the pressure levels and their order, the thresholds and the mapping from a
  sample to a level, the parser of the kernel's text format, and the arming of kernel triggers.
\<close>

section \<open>Pressure levels\<close>

datatype pressure_level = Normal | Elevated | High | Critical | Emergency

text \<open>The derived \<open>Ord\<close>: the order of the declaration.\<close>

fun level_rank :: "pressure_level \<Rightarrow> nat" where
  "level_rank Normal = 0"
| "level_rank Elevated = 1"
| "level_rank High = 2"
| "level_rank Critical = 3"
| "level_rank Emergency = 4"

lemma level_rank_inj: "level_rank a = level_rank b \<Longrightarrow> a = b"
  by (cases a; cases b) auto

instantiation pressure_level :: linorder
begin

definition less_eq_pressure_level :: "pressure_level \<Rightarrow> pressure_level \<Rightarrow> bool" where
  "less_eq_pressure_level a b = (level_rank a \<le> level_rank b)"

definition less_pressure_level :: "pressure_level \<Rightarrow> pressure_level \<Rightarrow> bool" where
  "less_pressure_level a b = (level_rank a < level_rank b)"

instance
  by standard (auto simp: less_eq_pressure_level_def less_pressure_level_def dest: level_rank_inj)

end

lemmas level_order = less_eq_pressure_level_def less_pressure_level_def

definition parse_level :: "string \<Rightarrow> pressure_level option" where
  "parse_level s = (let t = to_ascii_lowercase (trim s) in
     if t = ''normal'' then Some Normal
     else if t = ''elevated'' then Some Elevated
     else if t = ''high'' then Some High
     else if t = ''critical'' then Some Critical
     else if t = ''emergency'' then Some Emergency
     else None)"

fun level_as_str :: "pressure_level \<Rightarrow> string" where
  "level_as_str Normal = ''Normal''"
| "level_as_str Elevated = ''Elevated''"
| "level_as_str High = ''High''"
| "level_as_str Critical = ''Critical''"
| "level_as_str Emergency = ''Emergency''"

fun level_display :: "pressure_level \<Rightarrow> string" where
  "level_display Normal = ''NORMAL   ''"
| "level_display Elevated = ''ELEVATED ''"
| "level_display High = ''HIGH     ''"
| "level_display Critical = ''CRITICAL ''"
| "level_display Emergency = ''EMERGENCY''"

section \<open>Samples and the parser\<close>

record memory_pressure =
  some_avg10 :: f64
  some_avg60 :: f64
  some_avg300 :: f64
  some_total :: u64
  full_avg10 :: f64
  full_avg60 :: f64
  full_avg300 :: f64
  full_total :: u64

datatype mgd_error = IoError | ParseError string

text \<open>The messages of the standard library for a text that is no number.\<close>

definition float_parse_error :: "string \<Rightarrow> string" where
  "float_parse_error v = (if v = [] then ''cannot parse float from empty string'' else ''invalid float literal'')"

definition int_parse_error :: "string \<Rightarrow> string" where
  "int_parse_error v =
     (if v = [] then ''cannot parse integer from empty string''
      else if parse_nat v = None then ''invalid digit found in string''
      else ''number too large to fit in target type'')"

definition quoted :: "string \<Rightarrow> string" where
  "quoted s = [CHR 0x27] @ s @ [CHR 0x27]"

definition parse_kv :: "string \<Rightarrow> string \<Rightarrow> mgd_error + f64" where
  "parse_kv s prefix = (case strip_prefix prefix s of
     None \<Rightarrow> Inl (ParseError (''expected '' @ quoted prefix @ '', got '' @ quoted s))
   | Some v \<Rightarrow> (case parse_f64 v of None \<Rightarrow> Inl (ParseError (float_parse_error v)) | Some x \<Rightarrow> Inr x))"

definition parse_kv_u64 :: "string \<Rightarrow> string \<Rightarrow> mgd_error + u64" where
  "parse_kv_u64 s prefix = (case strip_prefix prefix s of
     None \<Rightarrow> Inl (ParseError (''expected '' @ quoted prefix @ '', got '' @ quoted s))
   | Some v \<Rightarrow> (case parse_u64 v of None \<Rightarrow> Inl (ParseError (int_parse_error v)) | Some x \<Rightarrow> Inr x))"

definition bind_sum :: "'e + 'a \<Rightarrow> ('a \<Rightarrow> 'e + 'b) \<Rightarrow> 'e + 'b" where
  "bind_sum x f = (case x of Inl e \<Rightarrow> Inl e | Inr a \<Rightarrow> f a)"

definition no_pressure :: memory_pressure where
  "no_pressure = \<lparr>some_avg10 = Fin 0, some_avg60 = Fin 0, some_avg300 = Fin 0, some_total = 0,
     full_avg10 = Fin 0, full_avg60 = Fin 0, full_avg300 = Fin 0, full_total = 0\<rparr>"

definition parse_pressure_line :: "string \<Rightarrow> memory_pressure \<Rightarrow> mgd_error + memory_pressure" where
  "parse_pressure_line line p =
     (case split_whitespace line of
        k # a # b # c # d # _ \<Rightarrow>
          bind_sum (parse_kv a ''avg10='') (\<lambda>avg10.
          bind_sum (parse_kv b ''avg60='') (\<lambda>avg60.
          bind_sum (parse_kv c ''avg300='') (\<lambda>avg300.
          bind_sum (parse_kv_u64 d ''total='') (\<lambda>total.
            Inr (if k = ''some'' then
                   p\<lparr>some_avg10 := avg10, some_avg60 := avg60, some_avg300 := avg300, some_total := total\<rparr>
                 else if k = ''full'' then
                   p\<lparr>full_avg10 := avg10, full_avg60 := avg60, full_avg300 := avg300, full_total := total\<rparr>
                 else p)))))
      | _ \<Rightarrow> Inr p)"

fun parse_pressure_lines :: "string list \<Rightarrow> memory_pressure \<Rightarrow> mgd_error + memory_pressure" where
  "parse_pressure_lines [] p = Inr p"
| "parse_pressure_lines (l # ls) p = bind_sum (parse_pressure_line l p) (parse_pressure_lines ls)"

definition parse_pressure :: "string \<Rightarrow> mgd_error + memory_pressure" where
  "parse_pressure content = parse_pressure_lines (lines content) no_pressure"

section \<open>Thresholds\<close>

record psi_thresholds =
  elevated_pct :: f64
  high_pct :: f64
  critical_pct :: f64
  emergency_pct :: f64
  full_critical_pct :: f64

definition psi_default :: psi_thresholds where
  "psi_default = \<lparr>elevated_pct = f64_lit 5, high_pct = f64_lit 25, critical_pct = f64_lit 50,
     emergency_pct = f64_lit 70, full_critical_pct = f64_lit 20\<rparr>"

definition psi_valid :: "psi_thresholds \<Rightarrow> bool" where
  "psi_valid t \<longleftrightarrow>
     fl_lt (Fin 0) (elevated_pct t)
     \<and> fl_lt (elevated_pct t) (high_pct t)
     \<and> fl_lt (high_pct t) (critical_pct t)
     \<and> fl_lt (critical_pct t) (emergency_pct t)
     \<and> fl_le (emergency_pct t) (f64_lit 100)
     \<and> fl_gt (full_critical_pct t) (Fin 0)"

definition pressure_level_with :: "memory_pressure \<Rightarrow> psi_thresholds \<Rightarrow> pressure_level" where
  "pressure_level_with p t =
     (if fl_ge (full_avg10 p) (full_critical_pct t) then
        (if fl_ge (some_avg10 p) (emergency_pct t) then Emergency else Critical)
      else if fl_ge (some_avg10 p) (emergency_pct t) then Emergency
      else if fl_ge (some_avg10 p) (critical_pct t) then Critical
      else if fl_ge (some_avg10 p) (high_pct t) then High
      else if fl_ge (some_avg10 p) (elevated_pct t) then Elevated
      else Normal)"

lemma f64_lit_nat: "f64_lit 5 = Fin 5" "f64_lit 25 = Fin 25" "f64_lit 50 = Fin 50" "f64_lit 70 = Fin 70"
  "f64_lit 20 = Fin 20" "f64_lit 100 = Fin 100" "f64_lit 1024 = Fin 1024" "f64_lit 15 = Fin 15"
  by (simp_all add: f64_eval)

lemma psi_default_valid: "psi_valid psi_default"
  by (simp add: psi_valid_def psi_default_def f64_lit_nat)

text \<open>Valid thresholds are numbers in order; only the accelerator may be infinite.\<close>

lemma psi_valid_finite:
  "psi_valid t \<Longrightarrow> \<exists>e h c m. elevated_pct t = Fin e \<and> high_pct t = Fin h \<and> critical_pct t = Fin c
     \<and> emergency_pct t = Fin m \<and> 0 < e \<and> e < h \<and> h < c \<and> c < m \<and> m \<le> 100"
  by (cases "elevated_pct t"; cases "high_pct t"; cases "critical_pct t"; cases "emergency_pct t")
     (auto simp: psi_valid_def f64_lit_nat)

text \<open>A higher stall percentage never gives a lower level, whatever the thresholds.\<close>

lemma level_mono_some:
  assumes "fl_le (some_avg10 p) (some_avg10 q)" "full_avg10 p = full_avg10 q"
  shows "pressure_level_with p t \<le> pressure_level_with q t"
  using assms fl_le_trans [OF _ assms(1)]
  by (auto simp: pressure_level_with_def level_order)

text \<open>When every task is stalled the level is at least critical.\<close>

lemma level_full_accelerates:
  "fl_ge (full_avg10 p) (full_critical_pct t) \<Longrightarrow> Critical \<le> pressure_level_with p t"
  by (simp add: pressure_level_with_def level_order)

lemma level_parse_display: "parse_level (level_display l) = Some l"
  by (cases l) (simp_all add: parse_level_def text_eval Let_def)

lemma level_parse_as_str: "parse_level (level_as_str l) = Some l"
  by (cases l) (simp_all add: parse_level_def text_eval Let_def)

section \<open>Kernel triggers\<close>

text \<open>
  Which file the trigger is armed on: the walk goes from the leaf cgroup to the root and stops
  at the first level that cannot be opened for writing. Opening files is a parameter.
\<close>

definition join_slash :: "string list \<Rightarrow> string" where
  "join_slash ps = (case ps of [] \<Rightarrow> [] | p # qs \<Rightarrow> p @ concat (map (\<lambda>q. CHR ''/'' # q) qs))"

definition cgroup_pressure_path :: "string list \<Rightarrow> string" where
  "cgroup_pressure_path ps = ''/sys/fs/cgroup/'' @ join_slash ps @ ''/memory.pressure''"

fun trigger_walk :: "(string \<Rightarrow> bool) \<Rightarrow> string list \<Rightarrow> nat \<Rightarrow> string option \<Rightarrow> string option" where
  "trigger_walk armable parts 0 best = best"
| "trigger_walk armable parts (Suc n) best =
     (let path = cgroup_pressure_path (take (Suc n) parts) in
      if armable path then trigger_walk armable parts n (Some path) else best)"

definition trim_slashes :: "string \<Rightarrow> string" where
  "trim_slashes s = rev (dropWhile (\<lambda>c. c = CHR ''/'') (rev (dropWhile (\<lambda>c. c = CHR ''/'') s)))"

fun trim_start_matches :: "string \<Rightarrow> nat \<Rightarrow> string \<Rightarrow> string" where
  "trim_start_matches p 0 s = s"
| "trim_start_matches p (Suc n) s =
     (case strip_prefix p s of None \<Rightarrow> s | Some r \<Rightarrow> trim_start_matches p n r)"

definition find_trigger_path :: "(string \<Rightarrow> bool) \<Rightarrow> string option \<Rightarrow> string option" where
  "find_trigger_path armable proc_self_cgroup =
     (case proc_self_cgroup of None \<Rightarrow> None | Some content \<Rightarrow>
      (case find (\<lambda>l. starts_with ''0::'' l) (lines content) of None \<Rightarrow> None | Some l \<Rightarrow>
        (let rel = trim_slashes (trim_start_matches ''0::'' (length l) l) in
         if rel = [] then None
         else let parts = filter (\<lambda>s. s \<noteq> []) (split_char CHR ''/'' rel)
              in trigger_walk armable parts (length parts) None)))"

text \<open>
  The threshold written to the kernel: directly by the daemon (\<open>PsiTrigger::open\<close>), or by the
  helper from the argument the daemon passes it (\<open>PsiSubprocess::new\<close>, \<open>mgd-psi-trigger\<close>).
\<close>

definition direct_stall_us :: "f64 \<Rightarrow> u64" where
  "direct_stall_us pct = f64_to_u64 (f64_mul (f64_div pct (f64_lit 100)) (f64_of_u64 2000000))"

definition trigger_string :: "u64 \<Rightarrow> string" where
  "trigger_string stall = ''some '' @ show_nat (unat stall) @ '' '' @ show_nat 2000000"

definition subprocess_stall_us :: "f64 \<Rightarrow> u64" where
  "subprocess_stall_us pct = f64_to_u64 (f64_mul (f64_div pct (f64_lit 100)) (f64_lit 1000000))"

definition helper_threshold :: "u64 \<Rightarrow> u64" where
  "helper_threshold stall =
     f64_to_u64 (f64_div (f64_mul (f64_of_u64 stall) (f64_of_u64 2000000)) (f64_lit 1000000))"

definition helper_arg :: "string list \<Rightarrow> u64 option" where
  \<comment> \<open>\<open>None\<close> stands for the exit with status 1.\<close>
  "helper_arg args =
     (case args of
        [_, a] \<Rightarrow> (case parse_u64 a of Some v \<Rightarrow> if 0 < v then Some v else None | None \<Rightarrow> None)
      | _ \<Rightarrow> None)"

text \<open>The walk returns a path it could open, and every longer prefix could be opened too.\<close>

lemma trigger_walk_armable:
  assumes "trigger_walk armable parts n best = Some path"
  shows "Some path = best \<or> (\<exists>k. 1 \<le> k \<and> k \<le> n \<and> path = cgroup_pressure_path (take k parts)
     \<and> (\<forall>j. k \<le> j \<and> j \<le> n \<longrightarrow> armable (cgroup_pressure_path (take j parts))))"
  using assms
proof (induction n arbitrary: best)
  case (Suc n)
  show ?case
  proof (cases "armable (cgroup_pressure_path (take (Suc n) parts))")
    case True
    note here = this
    from Suc.prems True
    have "trigger_walk armable parts n (Some (cgroup_pressure_path (take (Suc n) parts))) = Some path"
      by (simp add: Let_def)
    from Suc.IH [OF this] show ?thesis
    proof
      assume "Some path = Some (cgroup_pressure_path (take (Suc n) parts))"
      with here show ?thesis by (intro disjI2 exI [of _ "Suc n"]) (auto simp: le_Suc_eq)
    next
      assume "\<exists>k. 1 \<le> k \<and> k \<le> n \<and> path = cgroup_pressure_path (take k parts)
        \<and> (\<forall>j. k \<le> j \<and> j \<le> n \<longrightarrow> armable (cgroup_pressure_path (take j parts)))"
      with here show ?thesis by (metis le_Suc_eq)
    qed
  next
    case False
    with Suc.prems show ?thesis by (simp add: Let_def)
  qed
qed simp

end
