(* ===== verification/Meminfo.thy ===== *)
theory Meminfo
  imports Text Units
begin

text \<open>
  Memory and swap counters (\<open>mgd/src/monitor/meminfo.rs\<close>, \<open>mgd-common/src/meminfo.rs\<close>): the
  parsers of \<open>/proc/meminfo\<close> and \<open>/proc/vmstat\<close>, given the content of the file (\<open>None\<close> when it
  cannot be read), and the swap usage derived from them.
\<close>

record mem_info =
  mi_available :: kb
  mi_total :: kb
  mi_swap_free :: kb
  mi_swap_total :: kb

definition swap_used_pct :: "mem_info \<Rightarrow> f64" where
  "swap_used_pct m =
     (if mi_swap_total m = 0 then Fin 0
      else f64_mul (f64_div (f64_of_u64 (kb_sub (mi_swap_total m) (mi_swap_free m)))
                            (f64_of_u64 (mi_swap_total m)))
                   (f64_lit 100))"

definition parse_kb :: "string \<Rightarrow> u64" where
  "parse_kb s = (case first_opt (split_whitespace s) of
     None \<Rightarrow> 0 | Some v \<Rightarrow> (case parse_u64 v of None \<Rightarrow> 0 | Some n \<Rightarrow> n))"

definition meminfo_line :: "mem_info \<Rightarrow> string \<Rightarrow> mem_info" where
  "meminfo_line m line =
     (case strip_prefix ''MemTotal:'' line of Some v \<Rightarrow> m\<lparr>mi_total := parse_kb v\<rparr> | None \<Rightarrow>
     (case strip_prefix ''MemAvailable:'' line of Some v \<Rightarrow> m\<lparr>mi_available := parse_kb v\<rparr> | None \<Rightarrow>
     (case strip_prefix ''SwapTotal:'' line of Some v \<Rightarrow> m\<lparr>mi_swap_total := parse_kb v\<rparr> | None \<Rightarrow>
     (case strip_prefix ''SwapFree:'' line of Some v \<Rightarrow> m\<lparr>mi_swap_free := parse_kb v\<rparr> | None \<Rightarrow> m))))"

definition mem_info_zero :: mem_info where
  "mem_info_zero = \<lparr>mi_available = 0, mi_total = 0, mi_swap_free = 0, mi_swap_total = 0\<rparr>"

definition read_meminfo :: "string option \<Rightarrow> mem_info" where
  "read_meminfo proc_meminfo = (case proc_meminfo of
     None \<Rightarrow> mem_info_zero
   | Some content \<Rightarrow> foldl meminfo_line mem_info_zero (lines content))"

text \<open>One named field, as the command line tool reads it.\<close>

definition read_meminfo_field :: "string option \<Rightarrow> string \<Rightarrow> u64" where
  "read_meminfo_field proc_meminfo prefix = (case proc_meminfo of
     None \<Rightarrow> 0
   | Some s \<Rightarrow> (case find (starts_with prefix) (lines s) of
       None \<Rightarrow> 0
     | Some l \<Rightarrow> (case nth_opt 1 (split_whitespace l) of
         None \<Rightarrow> 0
       | Some v \<Rightarrow> (case parse_u64 v of None \<Rightarrow> 0 | Some n \<Rightarrow> n))))"

fun parse_vmstat_lines :: "string list \<Rightarrow> u64 \<Rightarrow> u64 \<Rightarrow> u64 \<times> u64" where
  "parse_vmstat_lines [] pswpin pswpout = (pswpin, pswpout)"
| "parse_vmstat_lines (l # ls) pswpin pswpout =
     (let (i, out) =
        (case strip_prefix ''pswpin '' l of
           Some v \<Rightarrow> (case parse_u64 (trim v) of None \<Rightarrow> (0, pswpout) | Some n \<Rightarrow> (n, pswpout))
         | None \<Rightarrow>
           (case strip_prefix ''pswpout '' l of
              Some v \<Rightarrow> (case parse_u64 (trim v) of None \<Rightarrow> (pswpin, 0) | Some n \<Rightarrow> (pswpin, n))
            | None \<Rightarrow> (pswpin, pswpout)))
      in if 0 < i \<and> 0 < out then (i, out) else parse_vmstat_lines ls i out)"

definition parse_vmstat_swap :: "string \<Rightarrow> u64 \<times> u64" where
  "parse_vmstat_swap content = parse_vmstat_lines (lines content) 0 0"

definition read_vmstat_swap_counters :: "string option \<Rightarrow> u64 \<times> u64" where
  "read_vmstat_swap_counters proc_vmstat =
     (case proc_vmstat of None \<Rightarrow> (0, 0) | Some content \<Rightarrow> parse_vmstat_swap content)"

text \<open>The share of swap in use is a percentage: a number between 0 and 100, rounding included.\<close>

lemma word_ge_1_rat: "b \<noteq> 0 \<Longrightarrow> (1 :: rat) \<le> of_nat (unat b)" for b :: u64
proof -
  assume "b \<noteq> 0"
  then have "0 < unat b" by (simp add: unat_gt_0)
  then have "1 \<le> unat b" by simp
  then have "of_nat 1 \<le> (of_nat (unat b) :: rat)" by (rule of_nat_mono)
  then show ?thesis by simp
qed

lemma ratio_unit:
  assumes "unat a \<le> unat b" "b \<noteq> 0"
  shows "\<exists>r. f64_div (f64_of_u64 a) (f64_of_u64 b) = Fin r \<and> 0 \<le> r \<and> r \<le> 1 \<and> rnd64 r = r"
proof -
  define x where "x = rnd64 (of_nat (unat a))"
  define y where "y = rnd64 (of_nat (unat b))"
  have b1: "(1 :: rat) \<le> of_nat (unat b)" using assms(2) by (rule word_ge_1_rat)
  have x: "0 \<le> x" unfolding x_def by (intro r64.nonneg of_nat_0_le_iff)
  have y: "1 \<le> y" unfolding y_def using r64.one b1 by (rule r64.ge_exact)
  have xy: "x \<le> y" unfolding x_def y_def using assms(1) by (intro r64.mono of_nat_mono)
  with x have q: "0 \<le> x / y" "x / y \<le> 1" by (simp_all add: divide_le_eq)
  have "f64_div (f64_of_u64 a) (f64_of_u64 b) = f64_round (x / y)"
    using y fl_div_fin [of y f64_round x] by (simp only: f64_of_u64_fin x_def y_def)
  also have "\<dots> = Fin (rnd64 (x / y))" using q by (rule f64_round_unit)
  finally show ?thesis using r64.unit_interval [OF q] by (simp add: r64.idem)
qed

lemma swap_used_pct_range: "\<exists>r. swap_used_pct m = Fin r \<and> 0 \<le> r \<and> r \<le> 100"
proof (cases "mi_swap_total m = 0")
  case False
  have le: "unat (kb_sub (mi_swap_total m) (mi_swap_free m)) \<le> unat (mi_swap_total m)"
    by (simp add: sat_simps)
  obtain r where r: "f64_div (f64_of_u64 (kb_sub (mi_swap_total m) (mi_swap_free m)))
      (f64_of_u64 (mi_swap_total m)) = Fin r" "0 \<le> r" "r \<le> 1"
    using ratio_unit [OF le False] by blast
  have "rnd64 100 = 100" using rnd64_int [of 100] by simp
  then have "0 \<le> rnd64 (r * 100) \<and> rnd64 (r * 100) \<le> 100"
    using r by (intro r64.between) (simp_all add: r64.zero)
  moreover have "f64_lit 100 = Fin 100" by (simp add: f64_eval)
  moreover have "f64_round (r * 100) = Fin (rnd64 (r * 100))"
    using r by (intro f64_round_small) simp
  ultimately show ?thesis using False r by (simp add: swap_used_pct_def)
qed (simp add: swap_used_pct_def)

text \<open>Full swap reads as 100 percent, free swap as 0.\<close>

lemma swap_used_pct_full:
  "mi_swap_total m \<noteq> 0 \<Longrightarrow> mi_swap_free m = 0 \<Longrightarrow> swap_used_pct m = Fin 100"
proof -
  assume m: "mi_swap_total m \<noteq> 0" "mi_swap_free m = 0"
  define y where "y = rnd64 (of_nat (unat (mi_swap_total m)))"
  have eq: "f64_of_u64 (mi_swap_total m) = Fin y" by (simp only: f64_of_u64_fin y_def)
  have "(1 :: rat) \<le> of_nat (unat (mi_swap_total m))"
    using m(1) by (rule word_ge_1_rat)
  then have "1 \<le> y" unfolding y_def by (intro r64.ge_exact r64.one)
  then have "f64_div (Fin y) (Fin y) = Fin 1" by (simp add: f64_eval)
  moreover have "f64_lit 100 = Fin 100" "f64_round 100 = Fin 100" by (simp_all add: f64_eval)
  ultimately show ?thesis using m
    by (simp add: swap_used_pct_def kb_sub_def eq)
qed

end
