(* ===== verification/Scoring.thy ===== *)
theory Scoring
  imports Psi Meminfo
begin

text \<open>
  The pressure controller (\<open>mgd/src/evictor/scoring.rs\<close>): the composite score and its trend, the
  state it asks for, the damped state machine, and the overrides by swap exhaustion.
\<close>

section \<open>Control states\<close>

datatype control_state = Calm | Warning | Evicting | CriticalState | EmergencyState

fun control_rank :: "control_state \<Rightarrow> nat" where
  "control_rank Calm = 0"
| "control_rank Warning = 1"
| "control_rank Evicting = 2"
| "control_rank CriticalState = 3"
| "control_rank EmergencyState = 4"

lemma control_rank_inj: "control_rank a = control_rank b \<Longrightarrow> a = b"
  by (cases a; cases b) auto

instantiation control_state :: linorder
begin

definition less_eq_control_state :: "control_state \<Rightarrow> control_state \<Rightarrow> bool" where
  "less_eq_control_state a b = (control_rank a \<le> control_rank b)"

definition less_control_state :: "control_state \<Rightarrow> control_state \<Rightarrow> bool" where
  "less_control_state a b = (control_rank a < control_rank b)"

instance
  by standard (auto simp: less_eq_control_state_def less_control_state_def dest: control_rank_inj)

end

lemmas control_order = less_eq_control_state_def less_control_state_def

fun to_pressure_level :: "control_state \<Rightarrow> pressure_level" where
  "to_pressure_level Calm = Normal"
| "to_pressure_level Warning = Elevated"
| "to_pressure_level Evicting = High"
| "to_pressure_level CriticalState = Critical"
| "to_pressure_level EmergencyState = Emergency"

lemma to_pressure_level_mono: "to_pressure_level a \<le> to_pressure_level b \<longleftrightarrow> a \<le> b"
  by (cases a; cases b) (simp_all add: control_order level_order)

definition swap_io_live_floor_kbs :: f64 where
  "swap_io_live_floor_kbs = f64_lit 1000"

definition psi_live_floor :: f64 where
  "psi_live_floor = f64_lit (1 / 2)"

definition target_state_for :: "f64 \<Rightarrow> f64 \<Rightarrow> f64 \<Rightarrow> f64 \<Rightarrow> control_state" where
  "target_state_for p_score trend psi_some_avg10 swap_io_kbs =
     (if fl_ge p_score (f64_lit (70 / 100))
         \<or> (fl_ge p_score (f64_lit (55 / 100)) \<and> fl_gt trend (f64_lit (5 / 100))) then EmergencyState
      else if fl_ge p_score (f64_lit (50 / 100))
         \<or> (fl_ge p_score (f64_lit (35 / 100)) \<and> fl_gt trend (f64_lit (3 / 100))) then CriticalState
      else if fl_ge p_score (f64_lit (30 / 100))
         \<or> (fl_ge p_score (f64_lit (20 / 100)) \<and> fl_gt trend (f64_lit (2 / 100))) then Evicting
      else if fl_ge p_score (f64_lit (15 / 100)) then
        (if fl_gt psi_some_avg10 psi_live_floor \<or> fl_gt swap_io_kbs swap_io_live_floor_kbs
         then Warning else Calm)
      else Calm)"

lemma target_state_mono:
  "fl_le p q \<Longrightarrow> target_state_for p trend psi io \<le> target_state_for q trend psi io"
  using fl_le_trans [of _ p q]
  by (auto simp: target_state_for_def control_order)

section \<open>The damped state machine\<close>

record state_machine =
  sm_current :: control_state
  sm_pending :: control_state
  sm_ticks :: nat

definition sm_new :: state_machine where
  "sm_new = \<lparr>sm_current = Calm, sm_pending = Calm, sm_ticks = 0\<rparr>"

fun required_ticks :: "control_state \<Rightarrow> nat" where
  "required_ticks Calm = 12"
| "required_ticks Warning = 6"
| "required_ticks _ = 4"

definition advance :: "state_machine \<Rightarrow> control_state \<Rightarrow> f64 \<Rightarrow> bool \<times> state_machine" where
  "advance sm target trend =
     (if sm_current sm < target then
        (if (target = EmergencyState \<or> target = CriticalState) \<and> fl_gt trend (f64_lit (8 / 100)) then
           (True, \<lparr>sm_current = target, sm_pending = target, sm_ticks = 0\<rparr>)
         else if target = sm_pending sm then
           (if 2 \<le> sm_ticks sm + 1 then (False, sm\<lparr>sm_current := target, sm_ticks := 0\<rparr>)
            else (False, sm\<lparr>sm_ticks := sm_ticks sm + 1\<rparr>))
         else (False, sm\<lparr>sm_pending := target, sm_ticks := 1\<rparr>))
      else if target < sm_current sm then
        (if target = sm_pending sm then
           (if required_ticks target \<le> sm_ticks sm + 1 then (False, sm\<lparr>sm_current := target, sm_ticks := 0\<rparr>)
            else (False, sm\<lparr>sm_ticks := sm_ticks sm + 1\<rparr>))
         else (False, sm\<lparr>sm_pending := target, sm_ticks := 1\<rparr>))
      else (False, sm\<lparr>sm_pending := sm_current sm, sm_ticks := 0\<rparr>))"

text \<open>A run over a history of ticks, each a target and a trend.\<close>

fun sm_run :: "state_machine \<Rightarrow> (control_state \<times> f64) list \<Rightarrow> state_machine" where
  "sm_run sm [] = sm"
| "sm_run sm ((t, tr) # h) = sm_run (snd (advance sm t tr)) h"

lemma sm_run_append: "sm_run sm (h @ k) = sm_run (sm_run sm h) k"
  by (induction sm h rule: sm_run.induct) auto

text \<open>
  The invariant of the machine. The counter is zero exactly when nothing is pending, it stays
  below the number of ticks the pending state needs, and it counts the ticks at the end of the
  history that asked for the pending state.
\<close>

definition needed_ticks :: "state_machine \<Rightarrow> nat" where
  "needed_ticks sm = (if sm_current sm < sm_pending sm then 2 else required_ticks (sm_pending sm))"

definition sm_inv :: "state_machine \<Rightarrow> bool" where
  "sm_inv sm \<longleftrightarrow> (sm_ticks sm = 0 \<longleftrightarrow> sm_pending sm = sm_current sm) \<and> sm_ticks sm < needed_ticks sm"

definition trailing :: "control_state \<Rightarrow> nat \<Rightarrow> (control_state \<times> f64) list \<Rightarrow> bool" where
  "trailing t n h \<longleftrightarrow> n \<le> length h \<and> (\<forall>e \<in> set (drop (length h - n) h). fst e = t)"

lemma required_ticks_ge: "4 \<le> required_ticks t" "required_ticks t \<le> 12"
  by (cases t; simp)+

lemma sm_inv_new: "sm_inv sm_new"
  by (simp add: sm_inv_def sm_new_def needed_ticks_def)

lemma sm_inv_advance: "sm_inv sm \<Longrightarrow> sm_inv (snd (advance sm t tr))"
  using required_ticks_ge [of t] required_ticks_ge [of "sm_current sm"]
  by (auto simp: sm_inv_def advance_def needed_ticks_def)

lemma sm_inv_run: "sm_inv sm \<Longrightarrow> sm_inv (sm_run sm h)"
  by (induction sm h rule: sm_run.induct) (auto intro: sm_inv_advance)

lemma trailing_snoc: "trailing t n h \<Longrightarrow> trailing t (Suc n) (h @ [(t, tr)])"
  by (auto simp: trailing_def)

lemma trailing_0 [simp]: "trailing t 0 h"
  by (simp add: trailing_def)

lemma trailing_one: "trailing t (Suc 0) (h @ [(t, tr)])"
  by (rule trailing_snoc) simp

lemma trailing_le: "trailing t n h \<Longrightarrow> m \<le> n \<Longrightarrow> trailing t m h"
proof -
  assume n: "trailing t n h" "m \<le> n"
  then have "set (drop (length h - m) h) \<subseteq> set (drop (length h - n) h)"
    by (intro set_drop_subset_set_drop) simp
  with n show ?thesis by (auto simp: trailing_def)
qed

lemma sm_run_trailing: "trailing (sm_pending (sm_run sm_new h)) (sm_ticks (sm_run sm_new h)) h"
proof (induction h rule: rev_induct)
  case Nil
  show ?case by (simp add: sm_new_def)
next
  case (snoc e h)
  obtain t tr where e: "e = (t, tr)" by (cases e)
  show ?case using snoc
    by (auto simp: e sm_run_append advance_def intro: trailing_snoc trailing_one)
qed

text \<open>
  What the damping promises. A tick that changes the current state does so either by an instant
  escalation (to Critical or Emergency, on a trend above 0.08) or after the target was asked for
  by the last two ticks (escalation) or the last \<open>required_ticks\<close> ticks (recovery).
\<close>

lemma sm_change_cases:
  assumes "sm_current (snd (advance sm t tr)) \<noteq> sm_current sm"
  shows "sm_current (snd (advance sm t tr)) = t"
    and "sm_current sm < t \<Longrightarrow>
      (t = EmergencyState \<or> t = CriticalState) \<and> fl_gt tr (f64_lit (8 / 100))
      \<or> t = sm_pending sm \<and> 2 \<le> sm_ticks sm + 1"
    and "t < sm_current sm \<Longrightarrow> t = sm_pending sm \<and> required_ticks t \<le> sm_ticks sm + 1"
  using assms by (auto simp: advance_def split: if_splits)

lemma sm_persistence:
  fixes h :: "(control_state \<times> f64) list" and t :: control_state and tr :: f64
  defines "old \<equiv> sm_current (sm_run sm_new h)" and "new \<equiv> sm_current (sm_run sm_new (h @ [(t, tr)]))"
  assumes "new \<noteq> old"
  shows "new = t"
    and "old < t \<Longrightarrow> (t = EmergencyState \<or> t = CriticalState) \<and> fl_gt tr (f64_lit (8 / 100))
      \<or> trailing t 2 (h @ [(t, tr)])"
    and "t < old \<Longrightarrow> trailing t (required_ticks t) (h @ [(t, tr)])"
proof -
  let ?sm = "sm_run sm_new h"
  have ch: "sm_current (snd (advance ?sm t tr)) \<noteq> sm_current ?sm"
    using assms by (simp add: sm_run_append)
  note tr = trailing_snoc [OF sm_run_trailing [of h], of tr]
  note cs = sm_change_cases [OF ch]
  show "new = t" using cs(1) by (simp add: new_def sm_run_append)
  show "(t = EmergencyState \<or> t = CriticalState) \<and> fl_gt tr (f64_lit (8 / 100))
      \<or> trailing t 2 (h @ [(t, tr)])" if "old < t"
    using cs(2) that tr trailing_le [where m = 2] by (fastforce simp: old_def)
  show "trailing t (required_ticks t) (h @ [(t, tr)])" if "t < old"
    using cs(3) that tr trailing_le [where m = "required_ticks t"] by (fastforce simp: old_def)
qed

text \<open>Conversely the machine follows a target that lasts: no state is a trap.\<close>

definition lag :: "state_machine \<Rightarrow> control_state \<Rightarrow> nat" where
  "lag sm t = (if sm_current sm = t then 0
     else (if sm_current sm < t then 2 else required_ticks t)
       - (if sm_pending sm = t then sm_ticks sm else 0))"

lemma sm_constant_stays:
  "sm_current sm = t \<Longrightarrow> sm_current (sm_run sm (map (Pair t) trs)) = t"
  by (induction trs arbitrary: sm) (auto simp: advance_def)

lemma sm_lag_advance:
  "sm_inv sm \<Longrightarrow> sm_current sm \<noteq> t \<Longrightarrow>
     sm_current (snd (advance sm t tr)) = t \<or> lag (snd (advance sm t tr)) t < lag sm t"
  using required_ticks_ge [of t]
  by (auto simp: lag_def advance_def sm_inv_def needed_ticks_def)

lemma sm_reaches: "sm_inv sm \<Longrightarrow> lag sm t \<le> length trs \<Longrightarrow> sm_current (sm_run sm (map (Pair t) trs)) = t"
proof (induction trs arbitrary: sm)
  case Nil
  then show ?case using required_ticks_ge [of t]
    by (auto simp: lag_def sm_inv_def needed_ticks_def split: if_splits)
next
  case (Cons tr trs)
  show ?case
  proof (cases "sm_current sm = t")
    case True
    then show ?thesis using sm_constant_stays [of sm t "tr # trs"] by simp
  next
    case False
    let ?sm = "snd (advance sm t tr)"
    from False Cons.prems(1) sm_lag_advance [of sm t tr]
    have "sm_current ?sm = t \<or> lag ?sm t < lag sm t" by simp
    then show ?thesis
    proof
      assume "sm_current ?sm = t"
      then show ?thesis by (simp add: sm_constant_stays)
    next
      assume "lag ?sm t < lag sm t"
      with Cons show ?thesis by (simp add: sm_inv_advance)
    qed
  qed
qed

lemma lag_le: "lag sm t \<le> 12" "sm_current sm < t \<Longrightarrow> lag sm t \<le> 2"
  using required_ticks_ge [of t] by (auto simp: lag_def)

section \<open>The composite score\<close>

record score_tracker =
  st_score :: f64
  st_time :: instant
  st_pswpin :: u64
  st_pswpout :: u64

record cycle_score =
  cs_p_score :: f64
  cs_trend :: f64
  cs_swap_io_kbs :: f64
  cs_gpu_val :: f64

definition swap_io_pages :: "score_tracker \<Rightarrow> u64 \<Rightarrow> u64 \<Rightarrow> u64" where
  "swap_io_pages st pswpin pswpout =
     sat_add (sat_sub pswpin (st_pswpin st)) (sat_sub pswpout (st_pswpout st))"

definition unit_clamp :: "f64 \<Rightarrow> f64" where
  "unit_clamp x = fl_clamp (f64_lit 0) (f64_lit 1) x"

definition p_score_of :: "f64 \<Rightarrow> f64 \<Rightarrow> f64 \<Rightarrow> f64 \<Rightarrow> f64" where
  "p_score_of psi_val swap_val gpu_val swap_io_val =
     f64_add (f64_add (f64_add
       (f64_mul (f64_lit (55 / 100)) psi_val)
       (f64_mul (f64_lit (20 / 100)) swap_val))
       (f64_mul (f64_lit (15 / 100)) gpu_val))
       (f64_mul (f64_lit (10 / 100)) swap_io_val)"

definition update_with ::
  "score_tracker \<Rightarrow> f64 \<Rightarrow> mem_info \<Rightarrow> u64 \<Rightarrow> u64 \<Rightarrow> kb \<Rightarrow> instant \<Rightarrow> cycle_score \<times> score_tracker" where
  "update_with st avg10 mi pswpin pswpout total_gpu now =
     (let dt = secs_f64 (duration_since now (st_time st));
          live = fl_gt dt (f64_lit (1 / 10));
          swap_io_kbs = (if live then f64_div (f64_of_u64 (swap_io_pages st pswpin pswpout * 4)) dt else f64_lit 0);
          swap_io_val = unit_clamp (f64_div swap_io_kbs (f64_lit 51200));
          psi_val = unit_clamp (f64_div avg10 (f64_lit 100));
          swap_val = (if mi_swap_total mi > 0 then unit_clamp (f64_div (swap_used_pct mi) (f64_lit 100))
                      else f64_lit 0);
          gpu_val = (if mi_total mi > 0
                     then unit_clamp (f64_div (f64_of_u64 total_gpu) (f64_of_u64 (mi_total mi)))
                     else f64_lit 0);
          p_score = p_score_of psi_val swap_val gpu_val swap_io_val;
          trend = (if live then f64_div (f64_sub p_score (st_score st)) dt else f64_lit 0)
      in (\<lparr>cs_p_score = p_score, cs_trend = trend, cs_swap_io_kbs = swap_io_kbs, cs_gpu_val = gpu_val\<rparr>,
          \<lparr>st_score = p_score, st_time = now, st_pswpin = pswpin, st_pswpout = pswpout\<rparr>))"

definition score_tracker_new :: "string option \<Rightarrow> instant \<Rightarrow> score_tracker" where
  "score_tracker_new vmstat now =
     (let (pswpin, pswpout) = read_vmstat_swap_counters vmstat
      in \<lparr>st_score = f64_lit 0, st_time = now, st_pswpin = pswpin, st_pswpout = pswpout\<rparr>)"

definition score_update ::
  "string option \<Rightarrow> kb \<Rightarrow> score_tracker \<Rightarrow> f64 \<Rightarrow> mem_info \<Rightarrow> instant \<Rightarrow> cycle_score \<times> score_tracker" where
  "score_update vmstat gpu_kb st avg10 mi now =
     (let (pswpin, pswpout) = read_vmstat_swap_counters vmstat
      in update_with st avg10 mi pswpin pswpout gpu_kb now)"

section \<open>Overrides by swap exhaustion\<close>

definition apply_swap_overrides ::
  "pressure_level \<Rightarrow> f64 \<Rightarrow> kb \<Rightarrow> instant option \<Rightarrow> instant \<Rightarrow> pressure_level \<times> instant option" where
  "apply_swap_overrides effective0 swap_used swap_total sustained_start now =
     (let swap_exhausted = swap_total > 0 \<and> fl_ge swap_used (f64_lit 95);
          effective1 = (if swap_exhausted \<and> effective0 < Critical then Critical else effective0);
          swap_near_full = swap_total > 0 \<and> fl_ge swap_used (f64_lit 98);
          new_sustained =
            (if swap_near_full \<and> Critical \<le> effective1 then
               (case sustained_start of Some s \<Rightarrow> Some s | None \<Rightarrow> Some now)
             else if Emergency \<le> effective1 then sustained_start
             else None);
          effective2 =
            (case new_sustained of
               None \<Rightarrow> effective1
             | Some start \<Rightarrow>
                 (if 45 \<le> as_secs (duration_since now start) \<and> effective1 < Emergency
                  then Emergency else effective1))
      in (effective2, new_sustained))"

text \<open>Every component of the score is clamped to the unit interval, and the weights add up to 1.\<close>

lemma unit_clamp_range: "x \<noteq> NaN \<Longrightarrow> \<exists>a. unit_clamp x = Fin a \<and> 0 \<le> a \<and> a \<le> 1"
proof -
  have "f64_lit 0 = Fin 0" "f64_lit 1 = Fin 1" by (simp_all add: f64_eval)
  moreover assume "x \<noteq> NaN"
  ultimately show ?thesis using fl_clamp_range [of x 0 1] by (simp add: unit_clamp_def)
qed

lemma p_score_of_ones: "p_score_of (Fin 1) (Fin 1) (Fin 1) (Fin 1) = Fin 1"
  by (simp add: p_score_of_def f64_eval)

lemma p_score_of_range:
  assumes "0 \<le> a" "a \<le> 1" "0 \<le> b" "b \<le> 1" "0 \<le> c" "c \<le> 1" "0 \<le> d" "d \<le> 1"
  shows "\<exists>r. p_score_of (Fin a) (Fin b) (Fin c) (Fin d) = Fin r \<and> 0 \<le> r \<and> r \<le> 1"
proof -
  have lit: "\<exists>w. f64_lit q = Fin w \<and> 0 \<le> w" if "0 \<le> q" "q \<le> 1" for q
    using that r64.unit_interval [of q] by (simp add: f64_lit_def f64_round_unit)
  obtain w1 w2 w3 w4 where w: "f64_lit (55 / 100) = Fin w1" "f64_lit (20 / 100) = Fin w2"
      "f64_lit (15 / 100) = Fin w3" "f64_lit (10 / 100) = Fin w4" "0 \<le> w1" "0 \<le> w2" "0 \<le> w3" "0 \<le> w4"
    using lit [of "55 / 100"] lit [of "20 / 100"] lit [of "15 / 100"] lit [of "10 / 100"] by auto
  note w_facts = w(5-8) assms
  have "fl_le (p_score_of (Fin a) (Fin b) (Fin c) (Fin d)) (p_score_of (Fin 1) (Fin 1) (Fin 1) (Fin 1))"
    unfolding p_score_of_def w(1-4)
    by (intro f64_add_mono f64_add_nonneg f64_mul_mono f64_mul_nonneg w_facts)
  moreover have "fl_le (Fin 0) (p_score_of (Fin a) (Fin b) (Fin c) (Fin d))"
    unfolding p_score_of_def w(1-4)
    by (intro f64_add_nonneg f64_mul_nonneg w_facts)
  ultimately show ?thesis using fl_between_Fin by (fastforce simp: p_score_of_ones)
qed

lemma f64_div_pos_not_NaN: "x = Fin a \<Longrightarrow> fl_gt dt (f64_lit (1 / 10)) \<Longrightarrow> f64_div x dt \<noteq> NaN"
proof -
  assume x: "x = Fin a" and dt: "fl_gt dt (f64_lit (1 / 10))"
  have "fl_le (Fin 0) (f64_lit (1 / 10))" by (rule f64_lit_nonneg) simp
  then have "fl_gt dt (Fin 0)" using dt by (cases dt; cases "f64_lit (1 / 10)") auto
  then show ?thesis by (cases dt) (auto simp: x fl_div_def)
qed

lemma f64_div_const_not_NaN: "x \<noteq> NaN \<Longrightarrow> 0 < c \<Longrightarrow> f64_div x (Fin c) \<noteq> NaN"
  by (cases x) (auto simp: fl_div_def fl_signed_inf_def)

lemma update_with_range:
  assumes "avg10 \<noteq> NaN"
  shows "\<exists>r. cs_p_score (fst (update_with st avg10 mi pswpin pswpout gpu now)) = Fin r \<and> 0 \<le> r \<and> r \<le> 1"
proof -
  have lits: "f64_lit 0 = Fin 0" "f64_lit 100 = Fin 100" "f64_lit 51200 = Fin 51200"
    by (simp_all add: f64_eval)
  let ?dt = "secs_f64 (duration_since now (st_time st))"
  let ?io = "if fl_gt ?dt (f64_lit (1 / 10))
     then f64_div (f64_of_u64 (swap_io_pages st pswpin pswpout * 4)) ?dt else f64_lit 0"
  have "?io \<noteq> NaN" by (simp add: f64_div_pos_not_NaN [OF f64_of_u64_fin] lits del: of_nat_unat)
  then obtain d where d: "unit_clamp (f64_div ?io (f64_lit 51200)) = Fin d" "0 \<le> d" "d \<le> 1"
    using unit_clamp_range [OF f64_div_const_not_NaN, of ?io 51200] lits by auto
  obtain a where a: "unit_clamp (f64_div avg10 (f64_lit 100)) = Fin a" "0 \<le> a" "a \<le> 1"
    using unit_clamp_range [OF f64_div_const_not_NaN, of avg10 100] assms lits by auto
  obtain s where "swap_used_pct mi = Fin s" using swap_used_pct_range by blast
  then obtain b where b: "(if mi_swap_total mi > 0 then unit_clamp (f64_div (swap_used_pct mi) (f64_lit 100))
      else f64_lit 0) = Fin b" "0 \<le> b" "b \<le> 1"
    using unit_clamp_range [OF f64_div_const_not_NaN, of "Fin s" 100] lits
    by (cases "mi_swap_total mi > 0") (auto simp del: fl_div_fin)
  obtain c where c: "(if mi_total mi > 0
      then unit_clamp (f64_div (f64_of_u64 gpu) (f64_of_u64 (mi_total mi))) else f64_lit 0) = Fin c" "0 \<le> c" "c \<le> 1"
  proof (cases "mi_total mi > 0")
    case True
    then have "mi_total mi \<noteq> 0" by auto
    then have "1 \<le> rnd64 (of_nat (unat (mi_total mi)))"
      by (intro r64.ge_exact r64.one word_ge_1_rat)
    then have "f64_div (f64_of_u64 gpu) (f64_of_u64 (mi_total mi)) \<noteq> NaN"
      using f64_div_const_not_NaN by (simp only: f64_of_u64_fin) fastforce
    then show ?thesis using unit_clamp_range that True by auto
  qed (use that [of 0] lits in auto)
  show ?thesis using p_score_of_range [of a b c d] a b c d
    by (simp only: update_with_def Let_def fst_conv cycle_score.simps simp_thms)
qed

section \<open>Facts about the overrides\<close>

text \<open>
  The overrides never lower the level. They lift it to Emergency only when swap was near full, or
  the level already Emergency, for 45 seconds since the timer started.
\<close>

lemma override_le: "effective \<le> fst (apply_swap_overrides effective used swap_total start now)"
  by (cases effective; cases start)
     (auto simp: apply_swap_overrides_def Let_def level_order)

lemma override_no_swap: "fst (apply_swap_overrides effective used 0 None now) = effective"
  by (cases effective) (auto simp: apply_swap_overrides_def Let_def level_order)

lemma override_exhausted:
  "0 < swap_total \<Longrightarrow> fl_ge used (f64_lit 95) \<Longrightarrow> Critical \<le> fst (apply_swap_overrides effective used swap_total start now)"
  by (cases effective; cases start)
     (auto simp: apply_swap_overrides_def Let_def level_order)

lemma override_emergency:
  assumes "fst (apply_swap_overrides effective used swap_total start now) = Emergency" "effective < Emergency"
  shows "\<exists>s. start = Some s \<and> 45 \<le> as_secs (now - s) \<and> swap_total > 0 \<and> fl_ge used (f64_lit 98)"
  using assms
  by (cases effective; cases start)
     (auto simp: apply_swap_overrides_def Let_def level_order duration_since_def as_secs_def split: if_splits)

lemma override_timer:
  assumes "snd (apply_swap_overrides effective used swap_total start now) = Some s"
  shows "start = Some s \<or> start = None \<and> s = now"
  using assms
  by (cases effective; cases start)
     (auto simp: apply_swap_overrides_def Let_def level_order split: if_splits)

end
