(* ===== verification/Config.thy ===== *)
theory Config
  imports Psi Meminfo
begin

text \<open>
  The configuration (\<open>mgd/src/config/\<close>): the sections of the TOML file with their defaults, the
  compiled form every other component reads, its queries by process name, the index of desktop
  entries, and the two calibration files laid over the result.

  Two libraries are parameters. A regular expression is compiled by \<open>regex_new\<close> into the predicate
  that says which names it matches, and the TOML parser with its serde derivations turns a text
  into the raw sections.
\<close>

type_synonym regex = "string \<Rightarrow> bool"

section \<open>The sections of the file\<close>

record raw_throttle =
  rt_exclude :: "string list"
  rt_max_duration_sec :: u64

definition raw_throttle_default :: raw_throttle where
  "raw_throttle_default = \<lparr>rt_exclude = [], rt_max_duration_sec = 300\<rparr>"

definition raw_psi_default :: psi_thresholds where
  "raw_psi_default = \<lparr>elevated_pct = f64_lit 5, high_pct = f64_lit 25, critical_pct = f64_lit 50,
     emergency_pct = f64_lit 70, full_critical_pct = f64_lit 20\<rparr>"

record raw_zram =
  rz_compact_on_elevated :: bool
  rz_min_used_mb :: u64

definition raw_zram_default :: raw_zram where
  "raw_zram_default = \<lparr>rz_compact_on_elevated = True, rz_min_used_mb = 128\<rparr>"

record raw_reclaim =
  rr_proactive_swap_reclaim :: bool
  rr_threshold_pct :: f64
  rr_cooldown_min :: u64
  rr_min_zram_used_mb :: u64
  rr_headroom_mult :: f64

definition raw_reclaim_default :: raw_reclaim where
  "raw_reclaim_default = \<lparr>rr_proactive_swap_reclaim = False, rr_threshold_pct = f64_lit 30,
     rr_cooldown_min = 10, rr_min_zram_used_mb = 2048, rr_headroom_mult = f64_lit (15 / 10)\<rparr>"

record raw_cache_drop =
  rc_enabled :: bool
  rc_trigger_level :: string
  rc_cooldown_min :: u64
  rc_paths :: "string list"

definition raw_cache_drop_default :: raw_cache_drop where
  "raw_cache_drop_default = \<lparr>rc_enabled = True, rc_trigger_level = ''High'', rc_cooldown_min = 5,
     rc_paths = []\<rparr>"

record raw_idle_reclaim =
  ri_enabled :: bool
  ri_idle_sec :: u64
  ri_rss_min_mb :: u64
  ri_reclaim_pct :: u64
  ri_global_cooldown_sec :: u64
  ri_max_swap_occupancy_pct :: f64
  ri_freeze_after_sec :: "u64 option"
  ri_important_enabled :: bool
  ri_important_min_priority :: u8
  ri_important_idle_sec :: u64
  ri_important_pct :: u64

definition raw_idle_reclaim_default :: raw_idle_reclaim where
  "raw_idle_reclaim_default = \<lparr>ri_enabled = True, ri_idle_sec = 180, ri_rss_min_mb = 50,
     ri_reclaim_pct = 20, ri_global_cooldown_sec = 30, ri_max_swap_occupancy_pct = f64_lit 60,
     ri_freeze_after_sec = None, ri_important_enabled = False, ri_important_min_priority = 20,
     ri_important_idle_sec = 300, ri_important_pct = 10\<rparr>"

record raw_spike_mode =
  rs_enabled :: bool
  rs_include :: "string list"
  rs_exclude :: "string list"
  rs_victim_exclude :: "string list"
  rs_window_sec :: u64
  rs_headroom_factor :: f64
  rs_min_rss_kb :: u64
  rs_growth_threshold_kb :: u64
  rs_majflt_threshold :: u64
  rs_oscillation_drop_factor :: f64
  rs_cpu_threshold_pct :: f32
  rs_throttled_cpu_weight :: u32
  rs_min_samples :: nat
  rs_max_victim_freeze_sec :: u64
  rs_victim_min_rss_kb :: u64
  rs_idle_cpu_threshold_pct :: f32
  rs_idle_rss_delta_kb :: u64
  rs_idle_ticks_required :: u32

definition raw_spike_mode_default :: raw_spike_mode where
  "raw_spike_mode_default = \<lparr>rs_enabled = False, rs_include = [], rs_exclude = [],
     rs_victim_exclude = [], rs_window_sec = 120, rs_headroom_factor = f64_lit (125 / 100),
     rs_min_rss_kb = 524288, rs_growth_threshold_kb = 102400, rs_majflt_threshold = 500,
     rs_oscillation_drop_factor = f64_lit (90 / 100), rs_cpu_threshold_pct = f32_lit 80,
     rs_throttled_cpu_weight = 20, rs_min_samples = 6, rs_max_victim_freeze_sec = 0,
     rs_victim_min_rss_kb = 25600, rs_idle_cpu_threshold_pct = f32_lit 3,
     rs_idle_rss_delta_kb = 20000, rs_idle_ticks_required = 10\<rparr>"

record raw_leak_guard =
  rl_enabled :: bool
  rl_exclude :: "string list"
  rl_window_sec :: u64
  rl_min_group_count :: nat
  rl_min_group_rss_kb :: u64
  rl_growth_over_window :: nat
  rl_min_samples :: nat
  rl_keep_newest :: nat
  rl_cooldown_sec :: u64

definition raw_leak_guard_default :: raw_leak_guard where
  "raw_leak_guard_default = \<lparr>rl_enabled = False, rl_exclude = [], rl_window_sec = 600,
     rl_min_group_count = 8, rl_min_group_rss_kb = 256000, rl_growth_over_window = 5,
     rl_min_samples = 4, rl_keep_newest = 1, rl_cooldown_sec = 180\<rparr>"

record raw_defaults =
  rd_priority :: u8
  rd_log_keep :: nat

definition raw_defaults_default :: raw_defaults where
  "raw_defaults_default = \<lparr>rd_priority = 50, rd_log_keep = 10\<rparr>"

record app_entry =
  ae_name :: string
  ae_pattern :: string
  ae_priority :: u8
  ae_checkpoint :: "bool option"
  ae_auto_kill_idle_after :: "u64 option"

record protect_entry =
  pe_name :: string
  pe_pattern :: string

record raw_config =
  raw_defaults :: raw_defaults
  raw_apps :: "app_entry list"
  raw_protect :: "protect_entry list"
  raw_category_priorities :: "(string, u8) hmap"
  raw_zram :: raw_zram
  raw_reclaim :: raw_reclaim
  raw_cache_drop :: raw_cache_drop
  raw_idle_reclaim :: raw_idle_reclaim
  raw_target_available_pct :: "f64 option"
  raw_psi :: psi_thresholds
  raw_hibernate_after_sec :: u64
  raw_spike_mode :: raw_spike_mode
  raw_throttle :: raw_throttle
  raw_leak_guard :: raw_leak_guard

text \<open>What the empty file stands for: every section absent.\<close>

definition raw_config_default :: raw_config where
  "raw_config_default = \<lparr>raw_defaults = raw_defaults_default, raw_apps = [], raw_protect = [],
     raw_category_priorities = [], raw_zram = raw_zram_default, raw_reclaim = raw_reclaim_default,
     raw_cache_drop = raw_cache_drop_default, raw_idle_reclaim = raw_idle_reclaim_default,
     raw_target_available_pct = None, raw_psi = raw_psi_default, raw_hibernate_after_sec = 0,
     raw_spike_mode = raw_spike_mode_default, raw_throttle = raw_throttle_default,
     raw_leak_guard = raw_leak_guard_default\<rparr>"

section \<open>The compiled configuration\<close>

record compiled_config =
  cc_default_priority :: u8
  cc_log_keep :: nat
  cc_target_available_pct :: f64
  cc_compact_zram_on_elevated :: bool
  cc_zram_min_used_mb :: u64
  cc_proactive_swap_reclaim :: bool
  cc_reclaim_threshold_pct :: f64
  cc_reclaim_cooldown_secs :: u64
  cc_reclaim_min_zram_used_mb :: u64
  cc_reclaim_headroom_mult :: f64
  cc_cache_drop_enabled :: bool
  cc_cache_drop_trigger :: pressure_level
  cc_psi :: psi_thresholds
  cc_cache_drop_cooldown_secs :: u64
  cc_cache_drop_paths :: "string list"
  cc_idle_reclaim_enabled :: bool
  cc_idle_reclaim_sec :: u64
  cc_idle_reclaim_rss_min_mb :: u64
  cc_idle_reclaim_pct :: u64
  cc_idle_reclaim_global_cooldown_sec :: u64
  cc_idle_reclaim_max_swap_occupancy_pct :: f64
  cc_idle_reclaim_freeze_after_sec :: "u64 option"
  cc_idle_reclaim_important_enabled :: bool
  cc_idle_reclaim_important_min_priority :: u8
  cc_idle_reclaim_important_idle_sec :: u64
  cc_idle_reclaim_important_pct :: u64
  cc_emergency_hibernate_after_sec :: u64
  cc_spike_mode_enabled :: bool
  cc_spike_include :: "regex list"
  cc_spike_exclude :: "regex list"
  cc_spike_victim_exclude :: "regex list"
  cc_spike_window_sec :: u64
  cc_spike_headroom_factor :: f64
  cc_spike_min_rss_kb :: u64
  cc_spike_growth_threshold_kb :: u64
  cc_spike_majflt_threshold :: u64
  cc_spike_oscillation_drop_factor :: f64
  cc_spike_cpu_threshold_pct :: f32
  cc_spike_throttled_cpu_weight :: u32
  cc_spike_min_samples :: nat
  cc_spike_max_victim_freeze_sec :: u64
  cc_spike_victim_min_rss_kb :: u64
  cc_spike_idle_cpu_threshold_pct :: f32
  cc_spike_idle_rss_delta_kb :: u64
  cc_spike_idle_ticks_required :: u32
  cc_throttle_exclude :: "regex list"
  cc_throttle_max_duration_sec :: u64
  cc_leak_guard_enabled :: bool
  cc_leak_guard_exclude :: "regex list"
  cc_leak_guard_window_sec :: u64
  cc_leak_guard_min_group_count :: nat
  cc_leak_guard_min_group_rss_kb :: u64
  cc_leak_guard_growth_over_window :: nat
  cc_leak_guard_min_samples :: nat
  cc_leak_guard_keep_newest :: nat
  cc_leak_guard_cooldown_sec :: u64
  cc_entries :: "(regex \<times> u8 \<times> bool option) list"
  cc_auto_kill_rules :: "(regex \<times> u64) list"
  cc_protected :: "regex list"
  cc_desktop_index :: "(string, u8) hmap"
  cc_config_path :: "string option"

definition desktop_priority :: "compiled_config \<Rightarrow> string option \<Rightarrow> u8 option" where
  "desktop_priority cfg exe_basename = (case exe_basename of
     None \<Rightarrow> None | Some exe \<Rightarrow> hm_get (cc_desktop_index cfg) exe)"

definition priority_for :: "compiled_config \<Rightarrow> string \<Rightarrow> string option \<Rightarrow> u8" where
  "priority_for cfg process_name exe_basename =
     (case find (\<lambda>(re, _). re process_name) (cc_entries cfg) of
        Some (_, prio, _) \<Rightarrow> prio
      | None \<Rightarrow> (case desktop_priority cfg exe_basename of
          Some prio \<Rightarrow> prio
        | None \<Rightarrow> cc_default_priority cfg))"

definition checkpoint_override :: "compiled_config \<Rightarrow> string \<Rightarrow> bool option" where
  "checkpoint_override cfg process_name =
     (case find (\<lambda>(re, _). re process_name) (cc_entries cfg) of
        Some (_, _, cp) \<Rightarrow> cp
      | None \<Rightarrow> None)"

definition auto_kill_idle_after_for :: "compiled_config \<Rightarrow> string \<Rightarrow> u64 option" where
  "auto_kill_idle_after_for cfg name =
     map_option snd (find (\<lambda>(re, _). re name) (cc_auto_kill_rules cfg))"

definition is_protected :: "compiled_config \<Rightarrow> string \<Rightarrow> bool" where
  "is_protected cfg process_name = list_ex (\<lambda>re. re process_name) (cc_protected cfg)"

section \<open>Desktop entries\<close>

text \<open>\<open>Path::file_name\<close> and \<open>Path::extension\<close>: the last component of the path, and what follows its
last dot when something precedes it.\<close>

definition file_name :: "string \<Rightarrow> string option" where
  "file_name path =
     (let parts = filter (\<lambda>c. c \<noteq> [] \<and> c \<noteq> ''.'') (split_char CHR ''/'' path) in
      if parts = [] \<or> last parts = ''..'' then None else Some (last parts))"

definition extension :: "string \<Rightarrow> string option" where
  "extension path = (case file_name path of
     None \<Rightarrow> None
   | Some name \<Rightarrow> (case rsplit_once ''.'' name of
       None \<Rightarrow> None
     | Some (stem, ext) \<Rightarrow> if stem = [] then None else Some ext))"

text \<open>The scan of one file: the executable, the categories, and whether the current section is the
desktop entry.\<close>

definition desktop_line ::
  "string option \<times> string list \<times> bool \<Rightarrow> string \<Rightarrow> string option \<times> string list \<times> bool" where
  "desktop_line st line =
     (let (exe, cats, in_entry) = st in
      if starts_with ''['' line then (exe, cats, line = ''[Desktop Entry]'')
      else if \<not> in_entry then (exe, cats, in_entry)
      else if starts_with ''Exec='' line \<and> exe = None then
        (case first_opt (split_whitespace (drop 5 line)) of
           None \<Rightarrow> (exe, cats, in_entry)
         | Some binary \<Rightarrow> (case file_name binary of
             None \<Rightarrow> (exe, cats, in_entry)
           | Some name \<Rightarrow> (Some name, cats, in_entry)))
      else (case strip_prefix ''Categories='' line of
          Some rest \<Rightarrow> (exe, filter (\<lambda>s. s \<noteq> []) (split_char CHR '';'' rest), in_entry)
        | None \<Rightarrow> (exe, cats, in_entry)))"

definition max_opt :: "'a::linorder list \<Rightarrow> 'a option" where
  "max_opt xs = (case xs of [] \<Rightarrow> None | y # ys \<Rightarrow> Some (foldl max y ys))"

definition parse_desktop_file :: "string option \<Rightarrow> (string, u8) hmap \<Rightarrow> (string \<times> u8) option" where
  "parse_desktop_file content category_priorities = (case content of
     None \<Rightarrow> None
   | Some text \<Rightarrow>
       (case foldl desktop_line (None, [], False) (lines text) of
          (None, _, _) \<Rightarrow> None
        | (Some exe, cats, _) \<Rightarrow>
            map_option (Pair exe) (max_opt (List.map_filter (hm_get category_priorities) cats))))"

definition or_insert :: "'k \<Rightarrow> 'v \<Rightarrow> ('k, 'v) hmap \<Rightarrow> ('k, 'v) hmap" where
  "or_insert k v m = (if hm_contains m k then m else hm_insert k v m)"

text \<open>A directory is the list of its files, each a path with its content if readable; an unreadable
directory is \<open>None\<close>. The user's directories come first.\<close>

type_synonym dir_listing = "(string \<times> string option) list option"

definition scan_desktop_file ::
  "(string, u8) hmap \<Rightarrow> (string, u8) hmap \<Rightarrow> string \<times> string option \<Rightarrow> (string, u8) hmap" where
  "scan_desktop_file category_priorities index file =
     (if extension (fst file) \<noteq> Some ''desktop'' then index
      else case parse_desktop_file (snd file) category_priorities of
        None \<Rightarrow> index
      | Some (exe, prio) \<Rightarrow> or_insert exe prio index)"

definition scan_desktop_files :: "dir_listing list \<Rightarrow> (string, u8) hmap \<Rightarrow> (string, u8) hmap" where
  "scan_desktop_files dirs category_priorities =
     foldl (\<lambda>index dir. case dir of
        None \<Rightarrow> index
      | Some files \<Rightarrow> foldl (scan_desktop_file category_priorities) index files) [] dirs"

section \<open>Calibration files\<close>

text \<open>The suggestion file after TOML parsing: the two thresholds it may hold.\<close>

definition apply_calibration_overlay :: "(f64 option \<times> f64 option) option \<Rightarrow> compiled_config \<Rightarrow> compiled_config" where
  "apply_calibration_overlay suggestion cfg = (case suggestion of
     None \<Rightarrow> cfg
   | Some (elevated, full_critical) \<Rightarrow>
       (let cfg1 = (case elevated of None \<Rightarrow> cfg
                    | Some v \<Rightarrow> cfg\<lparr>cc_psi := (cc_psi cfg)\<lparr>elevated_pct := v\<rparr>\<rparr>)
        in case full_critical of None \<Rightarrow> cfg1
           | Some v \<Rightarrow> cfg1\<lparr>cc_psi := (cc_psi cfg1)\<lparr>full_critical_pct := v\<rparr>\<rparr>))"

definition ram_scaled_target_pct :: "kb \<Rightarrow> f64" where
  "ram_scaled_target_pct total_kb =
     (let total_gb = f64_div (f64_of_u64 total_kb) (f64_mul (f64_lit 1024) (f64_lit 1024)) in
      if fl_lt total_gb (f64_lit 8) then f64_lit 20
      else if fl_lt total_gb (f64_lit 16) then f64_lit 15
      else if fl_lt total_gb (f64_lit 32) then f64_lit 12
      else f64_lit 10)"

definition calibrated_line :: "string \<Rightarrow> f64 option" where
  "calibrated_line line = (case strip_prefix ''target_available_pct'' (trim line) of
     None \<Rightarrow> None
   | Some rest \<Rightarrow> (case nth_opt 1 (split_char CHR ''='' rest) of
       None \<Rightarrow> None
     | Some val \<Rightarrow>
         map_option (fl_clamp (f64_lit 5) (f64_lit 50))
           (parse_f64 (trim (takeWhile (\<lambda>c. is_digit c \<or> c = CHR ''.'') (trim val))))))"

definition parse_calibrated_target_pct :: "string \<Rightarrow> f64 option" where
  "parse_calibrated_target_pct content = first_opt (List.map_filter calibrated_line (lines content))"

definition load_calibrated_target_pct :: "string option \<Rightarrow> f64 option" where
  "load_calibrated_target_pct content =
     (case content of None \<Rightarrow> None | Some c \<Rightarrow> parse_calibrated_target_pct c)"

section \<open>Compiling and loading\<close>

text \<open>What compiling depends on besides the text: the two libraries and the files it reads.\<close>

record config_env =
  ce_toml :: "string \<Rightarrow> string + raw_config"
  ce_regex_new :: "string \<Rightarrow> regex option"
  ce_calibration_toml :: "string option"
  ce_proc_meminfo :: "string option"
  ce_desktop_dirs :: "dir_listing list"
  ce_suggestion :: "(f64 option \<times> f64 option) option"
  ce_user_config :: "(string \<times> string) option"
  ce_system_config :: "(string \<times> string) option"
  ce_builtin_config :: string

definition compile_patterns :: "config_env \<Rightarrow> string list \<Rightarrow> regex list" where
  "compile_patterns env ps = List.map_filter (ce_regex_new env) ps"

fun compile_apps :: "config_env \<Rightarrow> app_entry list \<Rightarrow>
    (regex \<times> u8 \<times> bool option) list \<times> (regex \<times> u64) list" where
  "compile_apps env [] = ([], [])"
| "compile_apps env (app # apps) =
     (let (entries, rules) = compile_apps env apps in
      case ce_regex_new env (ae_pattern app) of
        None \<Rightarrow> (entries, rules)
      | Some re \<Rightarrow>
          ((re, ae_priority app, ae_checkpoint app) # entries,
           (case ae_auto_kill_idle_after app of None \<Rightarrow> rules | Some secs \<Rightarrow> (re, secs) # rules)))"

definition compile_target :: "config_env \<Rightarrow> raw_config \<Rightarrow> f64" where
  "compile_target env raw = (case raw_target_available_pct raw of
     Some v \<Rightarrow> v
   | None \<Rightarrow> (case load_calibrated_target_pct (ce_calibration_toml env) of
       Some v \<Rightarrow> v
     | None \<Rightarrow> ram_scaled_target_pct (mi_total (read_meminfo (ce_proc_meminfo env)))))"

definition compile_raw :: "config_env \<Rightarrow> raw_config \<Rightarrow> compiled_config" where
  "compile_raw env raw =
     (let (entries, rules) = compile_apps env (raw_apps raw) in
      \<lparr>cc_default_priority = rd_priority (raw_defaults raw),
       cc_log_keep = rd_log_keep (raw_defaults raw),
       cc_target_available_pct = compile_target env raw,
       cc_compact_zram_on_elevated = rz_compact_on_elevated (raw_zram raw),
       cc_zram_min_used_mb = rz_min_used_mb (raw_zram raw),
       cc_proactive_swap_reclaim = rr_proactive_swap_reclaim (raw_reclaim raw),
       cc_reclaim_threshold_pct = rr_threshold_pct (raw_reclaim raw),
       cc_reclaim_cooldown_secs = sat_mul (rr_cooldown_min (raw_reclaim raw)) 60,
       cc_reclaim_min_zram_used_mb = rr_min_zram_used_mb (raw_reclaim raw),
       cc_reclaim_headroom_mult = rr_headroom_mult (raw_reclaim raw),
       cc_cache_drop_enabled = rc_enabled (raw_cache_drop raw),
       cc_cache_drop_trigger = (case parse_level (rc_trigger_level (raw_cache_drop raw)) of
          Some l \<Rightarrow> l | None \<Rightarrow> High),
       cc_psi = (if psi_valid (raw_psi raw) then raw_psi raw else psi_default),
       cc_cache_drop_cooldown_secs = sat_mul (rc_cooldown_min (raw_cache_drop raw)) 60,
       cc_cache_drop_paths = rc_paths (raw_cache_drop raw),
       cc_idle_reclaim_enabled = ri_enabled (raw_idle_reclaim raw),
       cc_idle_reclaim_sec = ri_idle_sec (raw_idle_reclaim raw),
       cc_idle_reclaim_rss_min_mb = ri_rss_min_mb (raw_idle_reclaim raw),
       cc_idle_reclaim_pct = ri_reclaim_pct (raw_idle_reclaim raw),
       cc_idle_reclaim_global_cooldown_sec = ri_global_cooldown_sec (raw_idle_reclaim raw),
       cc_idle_reclaim_max_swap_occupancy_pct = ri_max_swap_occupancy_pct (raw_idle_reclaim raw),
       cc_idle_reclaim_freeze_after_sec = ri_freeze_after_sec (raw_idle_reclaim raw),
       cc_idle_reclaim_important_enabled = ri_important_enabled (raw_idle_reclaim raw),
       cc_idle_reclaim_important_min_priority = ri_important_min_priority (raw_idle_reclaim raw),
       cc_idle_reclaim_important_idle_sec = ri_important_idle_sec (raw_idle_reclaim raw),
       cc_idle_reclaim_important_pct = ri_important_pct (raw_idle_reclaim raw),
       cc_emergency_hibernate_after_sec = raw_hibernate_after_sec raw,
       cc_spike_mode_enabled = rs_enabled (raw_spike_mode raw),
       cc_spike_include = compile_patterns env (rs_include (raw_spike_mode raw)),
       cc_spike_exclude = compile_patterns env (rs_exclude (raw_spike_mode raw)),
       cc_spike_victim_exclude = compile_patterns env (rs_victim_exclude (raw_spike_mode raw)),
       cc_spike_window_sec = rs_window_sec (raw_spike_mode raw),
       cc_spike_headroom_factor = rs_headroom_factor (raw_spike_mode raw),
       cc_spike_min_rss_kb = rs_min_rss_kb (raw_spike_mode raw),
       cc_spike_growth_threshold_kb = rs_growth_threshold_kb (raw_spike_mode raw),
       cc_spike_majflt_threshold = rs_majflt_threshold (raw_spike_mode raw),
       cc_spike_oscillation_drop_factor = rs_oscillation_drop_factor (raw_spike_mode raw),
       cc_spike_cpu_threshold_pct = rs_cpu_threshold_pct (raw_spike_mode raw),
       cc_spike_throttled_cpu_weight = rs_throttled_cpu_weight (raw_spike_mode raw),
       cc_spike_min_samples = rs_min_samples (raw_spike_mode raw),
       cc_spike_max_victim_freeze_sec = rs_max_victim_freeze_sec (raw_spike_mode raw),
       cc_spike_victim_min_rss_kb = rs_victim_min_rss_kb (raw_spike_mode raw),
       cc_spike_idle_cpu_threshold_pct = rs_idle_cpu_threshold_pct (raw_spike_mode raw),
       cc_spike_idle_rss_delta_kb = rs_idle_rss_delta_kb (raw_spike_mode raw),
       cc_spike_idle_ticks_required = rs_idle_ticks_required (raw_spike_mode raw),
       cc_throttle_exclude = compile_patterns env (rt_exclude (raw_throttle raw)),
       cc_throttle_max_duration_sec = rt_max_duration_sec (raw_throttle raw),
       cc_leak_guard_enabled = rl_enabled (raw_leak_guard raw),
       cc_leak_guard_exclude = compile_patterns env (rl_exclude (raw_leak_guard raw)),
       cc_leak_guard_window_sec = rl_window_sec (raw_leak_guard raw),
       cc_leak_guard_min_group_count = rl_min_group_count (raw_leak_guard raw),
       cc_leak_guard_min_group_rss_kb = rl_min_group_rss_kb (raw_leak_guard raw),
       cc_leak_guard_growth_over_window = rl_growth_over_window (raw_leak_guard raw),
       cc_leak_guard_min_samples = rl_min_samples (raw_leak_guard raw),
       cc_leak_guard_keep_newest = rl_keep_newest (raw_leak_guard raw),
       cc_leak_guard_cooldown_sec = rl_cooldown_sec (raw_leak_guard raw),
       cc_entries = entries,
       cc_auto_kill_rules = rules,
       cc_protected = compile_patterns env (map pe_pattern (raw_protect raw)),
       cc_desktop_index = scan_desktop_files (ce_desktop_dirs env) (raw_category_priorities raw),
       cc_config_path = None\<rparr>)"

definition compile_config :: "config_env \<Rightarrow> string \<Rightarrow> string + compiled_config" where
  "compile_config env content = (case ce_toml env content of
     Inl e \<Rightarrow> Inl e
   | Inr raw \<Rightarrow> Inr (compile_raw env raw))"

text \<open>\<open>load\<close> returns nothing when it panics: the built-in text is the last resort.\<close>

definition load_config :: "config_env \<Rightarrow> compiled_config option" where
  "load_config env =
     (let (content, path) =
        (case ce_user_config env of
           Some (c, p) \<Rightarrow> (c, Some p)
         | None \<Rightarrow> (case ce_system_config env of
             Some (c, p) \<Rightarrow> (c, Some p)
           | None \<Rightarrow> (ce_builtin_config env, None)))
      in case compile_config env content of
           Inr cfg \<Rightarrow> Some (apply_calibration_overlay (ce_suggestion env) (cfg\<lparr>cc_config_path := path\<rparr>))
         | Inl _ \<Rightarrow> (case compile_config env (ce_builtin_config env) of
             Inr cfg \<Rightarrow> Some cfg
           | Inl _ \<Rightarrow> None))"

section \<open>Facts about the configuration\<close>

text \<open>Compiling never yields unusable thresholds: an invalid set is replaced as a whole.\<close>

lemma compile_psi_valid: "compile_config env content = Inr cfg \<Longrightarrow> psi_valid (cc_psi cfg)"
  using psi_default_valid
  by (auto simp: compile_config_def compile_raw_def Let_def split: sum.splits prod.splits)

lemma overlay_other_fields [simp]:
  "cc_entries (apply_calibration_overlay sg cfg) = cc_entries cfg"
  "cc_protected (apply_calibration_overlay sg cfg) = cc_protected cfg"
  "cc_target_available_pct (apply_calibration_overlay sg cfg) = cc_target_available_pct cfg"
  "high_pct (cc_psi (apply_calibration_overlay sg cfg)) = high_pct (cc_psi cfg)"
  by (auto simp: apply_calibration_overlay_def Let_def split: option.splits prod.splits)

lemma overlay_elevated:
  "elevated_pct (cc_psi (apply_calibration_overlay (Some (Some v, fc)) cfg)) = v"
  by (auto simp: apply_calibration_overlay_def Let_def split: option.splits)

lemma overlay_breaks_psi:
  "fl_le (high_pct (cc_psi cfg)) v \<Longrightarrow>
     \<not> psi_valid (cc_psi (apply_calibration_overlay (Some (Some v, fc)) cfg))"
  by (cases v; cases "high_pct (cc_psi cfg)") (simp_all add: psi_valid_def overlay_elevated)

text \<open>An application entry beats the desktop index, which beats the default; the first entry that
matches decides, for the priority and for the checkpoint override alike.\<close>

lemma find_first:
  "\<forall>e \<in> set es1. \<not> fst e n \<Longrightarrow> re n \<Longrightarrow> find (\<lambda>(re, _). re n) (es1 @ (re, x) # es2) = Some (re, x)"
  by (induction es1) auto

lemma find_re_none: "(\<forall>e \<in> set es. \<not> fst e n) \<Longrightarrow> find (\<lambda>(re, _). re n) es = None"
  by (induction es) auto

lemma priority_for_first:
  assumes "cc_entries cfg = es1 @ (re, prio, cp) # es2" "\<forall>e \<in> set es1. \<not> fst e n" "re n"
  shows "priority_for cfg n exe = prio \<and> checkpoint_override cfg n = cp"
  using find_first [of es1 n re "(prio, cp)" es2] assms
  by (simp add: priority_for_def checkpoint_override_def)

lemma priority_for_desktop:
  assumes "\<forall>e \<in> set (cc_entries cfg). \<not> fst e n"
  shows "priority_for cfg n exe = (case desktop_priority cfg exe of Some p \<Rightarrow> p | None \<Rightarrow> cc_default_priority cfg)"
    and "checkpoint_override cfg n = None"
  by (simp_all add: priority_for_def checkpoint_override_def find_re_none [OF assms])

lemma compile_apps_entries:
  "fst (compile_apps env apps) = List.map_filter (\<lambda>a. map_option
     (\<lambda>re. (re, ae_priority a, ae_checkpoint a)) (ce_regex_new env (ae_pattern a))) apps"
  by (induction apps) (auto simp: map_filter_simps Let_def split: option.splits prod.splits)

text \<open>The index of desktop entries keeps the first executable it meets, so the user's directories win.\<close>

lemma or_insert_get: "hm_get (or_insert k v m) k' =
    (case hm_get m k' of Some w \<Rightarrow> Some w | None \<Rightarrow> if k' = k then Some v else None)"
  by (auto simp: or_insert_def hm_contains_get hm_simps split: option.splits)

lemma scan_file_keeps: "hm_get index exe = Some p \<Longrightarrow> hm_get (scan_desktop_file cp index f) exe = Some p"
  by (auto simp: scan_desktop_file_def or_insert_get split: option.splits)

lemma scan_files_keep:
  "hm_get index exe = Some p \<Longrightarrow> hm_get (foldl (scan_desktop_file cp) index fs) exe = Some p"
  by (induction fs arbitrary: index) (auto intro: scan_file_keeps)

lemma scan_dirs_keep:
  "hm_get index exe = Some p \<Longrightarrow>
   hm_get (foldl (\<lambda>index dir. case dir of None \<Rightarrow> index
      | Some files \<Rightarrow> foldl (scan_desktop_file cp) index files) index dirs) exe = Some p"
  by (induction dirs arbitrary: index) (auto intro: scan_files_keep split: option.splits)

lemma scan_user_first:
  assumes "hm_get (scan_desktop_files user cp) exe = Some p"
  shows "hm_get (scan_desktop_files (user @ system) cp) exe = Some p"
  using scan_dirs_keep [of _ exe p cp system] assms by (simp add: scan_desktop_files_def)

text \<open>The priority of an entry is the largest over its categories.\<close>

lemma foldl_max_ge: "(x :: 'a::linorder) \<le> foldl max x xs \<and> (\<forall>y \<in> set xs. y \<le> foldl max x xs)
    \<and> foldl max x xs \<in> insert x (set xs)"
proof (induction xs arbitrary: x)
  case (Cons z zs)
  have "x \<le> max x z" "z \<le> max x z" by simp_all
  with Cons [of "max x z"] show ?case
    by (auto simp: max_def split: if_splits dest: order_trans)
qed simp

lemma max_opt_Some: "max_opt xs = Some m \<longleftrightarrow> m \<in> set xs \<and> (\<forall>x \<in> set xs. x \<le> m)"
proof (cases xs)
  case (Cons y ys)
  then show ?thesis using foldl_max_ge [of y ys]
    by (auto simp: max_opt_def intro: antisym)
qed (simp add: max_opt_def)

text \<open>The calibrated target is a number between 5 and 50 whatever the file says.\<close>

lemma parse_unsigned_NaN: "parse_unsigned_f64 s = Some NaN \<Longrightarrow> to_ascii_lowercase s = ''nan''"
  by (simp add: parse_unsigned_f64_def Let_def split: if_splits prod.splits option.splits)

lemma numeric_lower: "is_digit c \<or> c = CHR ''.'' \<Longrightarrow> to_ascii_lower c = c"
  by (auto simp: to_ascii_lower_def is_digit_def Let_def)

lemma numeric_not_NaN:
  assumes "\<forall>c \<in> set s. is_digit c \<or> c = CHR ''.''"
  shows "parse_f64 s \<noteq> Some NaN"
proof (cases s)
  case (Cons c cs)
  have "to_ascii_lowercase s = s"
    using assms numeric_lower by (simp add: to_ascii_lowercase_def map_idI)
  moreover have c: "is_digit c \<or> c = CHR ''.''" using assms Cons by simp
  moreover have "c \<noteq> CHR ''n''" "c \<noteq> CHR ''-''" "c \<noteq> CHR ''+''" using c by (auto simp: is_digit_def)
  ultimately show ?thesis using parse_unsigned_NaN [of s] Cons by (auto simp: parse_f64_def)
qed (simp add: parse_f64_def)

lemma set_trim: "set (trim s) \<subseteq> set s"
  by (auto simp: trim_def dest!: set_dropWhileD)

lemma calibrated_line_range:
  assumes "calibrated_line l = Some v"
  shows "\<exists>a. v = Fin a \<and> 5 \<le> a \<and> a \<le> 50"
proof -
  obtain w u where w: "parse_f64 (trim (takeWhile (\<lambda>c. is_digit c \<or> c = CHR ''.'') w)) = Some u"
      and v: "v = fl_clamp (f64_lit 5) (f64_lit 50) u"
    using assms by (auto simp: calibrated_line_def split: option.splits)
  have "\<forall>c \<in> set (trim (takeWhile (\<lambda>c. is_digit c \<or> c = CHR ''.'') w)). is_digit c \<or> c = CHR ''.''"
    using set_trim by (fastforce dest: set_takeWhileD)
  from numeric_not_NaN [OF this] w have "u \<noteq> NaN" by auto
  moreover have "f64_lit 5 = Fin 5" "f64_lit 50 = Fin 50" by (simp_all add: f64_eval)
  ultimately show ?thesis using fl_clamp_range [of u 5 50] by (simp add: v)
qed

lemma calibrated_target_range:
  assumes "parse_calibrated_target_pct content = Some v"
  shows "\<exists>a. v = Fin a \<and> 5 \<le> a \<and> a \<le> 50"
proof -
  have "v \<in> set (List.map_filter calibrated_line (lines content))"
    using assms by (auto simp: parse_calibrated_target_pct_def first_opt_def split: list.splits)
  then show ?thesis using calibrated_line_range by (auto simp: map_filter_def)
qed

text \<open>More memory never asks for a larger share to be free.\<close>

lemma ram_target_antimono: "a \<le> b \<Longrightarrow> fl_le (ram_scaled_target_pct b) (ram_scaled_target_pct a)"
proof -
  assume "a \<le> b"
  then have "unat a \<le> unat b" by (simp add: word_le_nat_alt)
  then have le: "rnd64 (of_nat (unat a)) \<le> rnd64 (of_nat (unat b))" by (intro r64.mono of_nat_mono)
  have m: "f64_mul (f64_lit 1024) (f64_lit 1024) = Fin 1048576" by (simp add: f64_eval)
  have "fl_le (f64_div (f64_of_u64 a) (Fin 1048576)) (f64_div (f64_of_u64 b) (Fin 1048576))"
    using le by (simp only: f64_of_u64_fin) (simp add: f64_round_mono divide_right_mono)
  moreover have "f64_lit 8 = Fin 8" "f64_lit 16 = Fin 16" "f64_lit 32 = Fin 32" "f64_lit 20 = Fin 20"
    "f64_lit 15 = Fin 15" "f64_lit 12 = Fin 12" "f64_lit 10 = Fin 10"
    by (simp_all add: f64_eval)
  ultimately show ?thesis
    by (auto simp: ram_scaled_target_pct_def m Let_def dest: fl_le_lt_trans)
qed

lemma ram_target_range: "\<exists>t. ram_scaled_target_pct k = Fin t \<and> 10 \<le> t \<and> t \<le> 20"
  by (simp add: ram_scaled_target_pct_def Let_def) (simp add: f64_eval)

end
