(* ===== verification/Process.thy ===== *)
theory Process
  imports Config
begin

text \<open>
  The process list (\<open>mgd/src/monitor/process.rs\<close>, \<open>mgd-common/src/process.rs\<close>,
  \<open>mgd-common/src/util.rs\<close>): reading one process from the files of its \<open>/proc\<close> directory, the CPU
  usage between two readings, and the scan of all processes of the user.

  A \<open>/proc\<close> directory is a record of the content of its files, \<open>None\<close> when a file cannot be read.
\<close>

record process =
  p_pid :: pid
  p_name :: string
  p_exe_basename :: "string option"
  p_rss :: kb
  p_swap :: kb
  p_oom_score :: int
  p_cgroup_path :: "string option"
  p_cpu_pct :: f32
  p_majflt :: u64
  p_cmdline :: string

record proc_dir =
  pd_uid :: "u32 option"
  pd_cgroup :: "string option"
  pd_status :: "string option"
  pd_oom_score :: "string option"
  pd_exe :: "string option"
  pd_stat :: "string option"
  pd_cmdline :: "string option"

section \<open>Parsers\<close>

text \<open>The counters after the last closing parenthesis of \<open>/proc/PID/stat\<close>; the sum of the two times
wraps.\<close>

definition parse_stat_ticks :: "string list \<Rightarrow> u64 option" where
  "parse_stat_ticks fs = (case (nth_opt 11 fs, nth_opt 12 fs) of
     (Some u, Some s) \<Rightarrow> (case (parse_u64 u, parse_u64 s) of
        (Some a, Some b) \<Rightarrow> Some (a + b)
      | _ \<Rightarrow> None)
   | _ \<Rightarrow> None)"

definition read_proc_stat :: "string option \<Rightarrow> u64 option \<times> u64" where
  "read_proc_stat stat = (case stat of
     None \<Rightarrow> (None, 0)
   | Some s \<Rightarrow> (case rsplit_once '') '' s of
       None \<Rightarrow> (None, 0)
     | Some (_, rest) \<Rightarrow>
         (let fs = split_whitespace rest;
              majflt = (case nth_opt 9 fs of None \<Rightarrow> 0
                        | Some f \<Rightarrow> (case parse_u64 f of None \<Rightarrow> 0 | Some n \<Rightarrow> n))
          in (parse_stat_ticks fs, majflt))))"

definition read_start_time :: "string option \<Rightarrow> u64 option" where
  "read_start_time stat = (case stat of
     None \<Rightarrow> None
   | Some s \<Rightarrow> (case rsplit_once '') '' s of
       None \<Rightarrow> None
     | Some (_, rest) \<Rightarrow> (case nth_opt 19 (split_whitespace rest) of
         None \<Rightarrow> None
       | Some f \<Rightarrow> parse_u64 f)))"

definition is_cgroup_in_user_slice :: "string \<Rightarrow> bool" where
  "is_cgroup_in_user_slice content =
     list_ex (\<lambda>line. contains_str ''/user.slice/'' line
       \<or> (contains_str ''/user@'' line \<and> contains_str ''.service'' line)) (lines content)"

definition cgroup_line_path :: "string \<Rightarrow> string option" where
  "cgroup_line_path line = (case strip_prefix ''0::'' line of
     None \<Rightarrow> None
   | Some p \<Rightarrow> if trim p \<noteq> ''/'' then Some (trim p) else None)"

definition read_process_cgroup_path :: "string option \<Rightarrow> string option" where
  "read_process_cgroup_path content = (case content of
     None \<Rightarrow> None
   | Some c \<Rightarrow> first_opt (List.map_filter cgroup_line_path (lines c)))"

definition parse_status_field :: "string \<Rightarrow> string \<Rightarrow> string option" where
  "parse_status_field status field = (case find (starts_with field) (lines status) of
     None \<Rightarrow> None | Some l \<Rightarrow> nth_opt 1 (split_whitespace l))"

definition parse_status_kb :: "string \<Rightarrow> string \<Rightarrow> u64 option" where
  "parse_status_kb status field = (case find (starts_with field) (lines status) of
     None \<Rightarrow> None
   | Some l \<Rightarrow> (case nth_opt 1 (split_whitespace l) of
       None \<Rightarrow> None | Some v \<Rightarrow> parse_u64 v))"

fun join_with :: "string \<Rightarrow> string list \<Rightarrow> string" where
  "join_with sep [] = []"
| "join_with sep [w] = w"
| "join_with sep (w # ws) = w @ sep @ join_with sep ws"

definition cmdline_string :: "string \<Rightarrow> string" where
  "cmdline_string bytes = join_with '' '' (filter (\<lambda>w. w \<noteq> []) (split_char CHR 0x00 bytes))"

section \<open>CPU usage\<close>

text \<open>The cache holds the ticks and the time of the previous reading. The clock rate and the number of
processors are what \<open>sysconf\<close> says, at least 1.\<close>

type_synonym cpu_cache = "(pid, u64 \<times> u64) hmap"

record cpu_env =
  ce_now :: u64
  ce_clk_tck :: u64
  ce_num_cpus :: u64

definition at_least_1 :: "u64 \<Rightarrow> u64" where
  "at_least_1 n = max n 1"

definition compute_cpu_pct :: "cpu_env \<Rightarrow> pid \<Rightarrow> u64 option \<Rightarrow> cpu_cache \<Rightarrow> f32 \<times> cpu_cache" where
  "compute_cpu_pct env pid ticks cache = (case ticks of
     None \<Rightarrow> (f32_lit 0, cache)
   | Some t \<Rightarrow>
       (let pct = (case hm_get cache pid of
            Some (prev_ticks, prev_time) \<Rightarrow>
              (let delta_ticks = f32_of_u64 (sat_sub t prev_ticks);
                   delta_secs = f32_of_u64 (at_least_1 (sat_sub (ce_now env) prev_time))
               in fl_min (f32_mul (f32_div (f32_div delta_ticks (f32_of_u64 (at_least_1 (ce_clk_tck env)))) delta_secs)
                                  (f32_lit 100))
                         (f32_mul (f32_lit 100) (f32_of_u64 (at_least_1 (ce_num_cpus env)))))
          | None \<Rightarrow> f32_lit 0)
        in (pct, hm_insert pid (t, ce_now env) cache)))"

section \<open>Reading the processes\<close>

definition read_process ::
  "cpu_env \<Rightarrow> u32 \<Rightarrow> pid \<Rightarrow> proc_dir \<Rightarrow> cpu_cache \<Rightarrow> (mgd_error + process) \<times> cpu_cache" where
  "read_process env our_uid pid d cache =
     (if pd_uid d \<noteq> Some our_uid then (Inl IoError, cache)
      else case pd_cgroup d of
        None \<Rightarrow> (Inl IoError, cache)
      | Some cgroup_content \<Rightarrow>
          (if \<not> is_cgroup_in_user_slice cgroup_content then (Inl IoError, cache)
           else case pd_status d of
             None \<Rightarrow> (Inl IoError, cache)
           | Some status \<Rightarrow>
               (let (ticks, majflt) = read_proc_stat (pd_stat d);
                    (cpu, cache') = compute_cpu_pct env pid ticks cache
                in (Inr \<lparr>p_pid = pid,
                     p_name = (case parse_status_field status ''Name:'' of None \<Rightarrow> ''unknown'' | Some n \<Rightarrow> n),
                     p_exe_basename = (case pd_exe d of None \<Rightarrow> None | Some link \<Rightarrow> file_name link),
                     p_rss = (case parse_status_kb status ''VmRSS:'' of None \<Rightarrow> 0 | Some k \<Rightarrow> k),
                     p_swap = (case parse_status_kb status ''VmSwap:'' of None \<Rightarrow> 0 | Some k \<Rightarrow> k),
                     p_oom_score = (case pd_oom_score d of None \<Rightarrow> 0
                        | Some s \<Rightarrow> (case parse_i32 (trim s) of None \<Rightarrow> 0 | Some n \<Rightarrow> n)),
                     p_cgroup_path = read_process_cgroup_path (Some cgroup_content),
                     p_cpu_pct = cpu,
                     p_majflt = majflt,
                     p_cmdline = (case pd_cmdline d of None \<Rightarrow> [] | Some bytes \<Rightarrow> cmdline_string bytes)\<rparr>,
                    cache'))))"

definition prune_cpu_cache :: "process list \<Rightarrow> cpu_cache \<Rightarrow> cpu_cache" where
  "prune_cpu_cache procs cache = hm_retain (\<lambda>pid _. pid \<in> set (map p_pid procs)) cache"

fun read_entries :: "cpu_env \<Rightarrow> u32 \<Rightarrow> pid \<Rightarrow> (string \<times> proc_dir) list \<Rightarrow> cpu_cache \<Rightarrow> process list \<times> cpu_cache" where
  "read_entries env our_uid own_pid [] cache = ([], cache)"
| "read_entries env our_uid own_pid ((name, d) # es) cache =
     (case parse_u32 name of
        None \<Rightarrow> read_entries env our_uid own_pid es cache
      | Some pid \<Rightarrow>
          (if pid = own_pid then read_entries env our_uid own_pid es cache
           else case read_process env our_uid pid d cache of
             (Inl _, cache') \<Rightarrow> read_entries env our_uid own_pid es cache'
           | (Inr p, cache') \<Rightarrow>
               (let (ps, cache'') = read_entries env our_uid own_pid es cache' in (p # ps, cache''))))"

definition list_processes ::
  "cpu_env \<Rightarrow> u32 \<Rightarrow> pid \<Rightarrow> (string \<times> proc_dir) list option \<Rightarrow> cpu_cache \<Rightarrow> process list \<times> cpu_cache" where
  "list_processes env our_uid own_pid proc cache = (case proc of
     None \<Rightarrow> ([], cache)
   | Some entries \<Rightarrow>
       (let (ps, cache') = read_entries env our_uid own_pid entries cache
        in (ps, prune_cpu_cache ps cache')))"

text \<open>The process of a given name, as a desktop plugin looks it up. Each file's last matching lines
count.\<close>

definition status_name_uid :: "string \<times> u32 \<Rightarrow> string \<Rightarrow> string \<times> u32" where
  "status_name_uid st line = (case strip_prefix ''Name:'' line of
     Some n \<Rightarrow> (trim n, snd st)
   | None \<Rightarrow> (case strip_prefix ''Uid:'' line of
       Some u \<Rightarrow> (fst st, (case parse_u32 (case first_opt (split_whitespace u) of None \<Rightarrow> ''0'' | Some v \<Rightarrow> v) of
                    None \<Rightarrow> 0 | Some n \<Rightarrow> n))
     | None \<Rightarrow> st))"

fun find_pid_by_name :: "u32 \<Rightarrow> string \<Rightarrow> (string \<times> proc_dir) list \<Rightarrow> pid option" where
  "find_pid_by_name own_uid target [] = None"
| "find_pid_by_name own_uid target ((entry, d) # es) =
     (case parse_u32 entry of
        None \<Rightarrow> find_pid_by_name own_uid target es
      | Some pid \<Rightarrow> (case pd_status d of
          None \<Rightarrow> find_pid_by_name own_uid target es
        | Some status \<Rightarrow>
            (if foldl status_name_uid ([], 0) (lines status) = (target, own_uid) then Some pid
             else find_pid_by_name own_uid target es)))"

section \<open>Facts about the process list\<close>

text \<open>Every process listed is the user's own, lives in a user slice, and is not the daemon.\<close>

definition user_entry :: "u32 \<Rightarrow> process \<Rightarrow> string \<times> proc_dir \<Rightarrow> bool" where
  "user_entry our_uid p e \<longleftrightarrow>
     parse_u32 (fst e) = Some (p_pid p) \<and> pd_uid (snd e) = Some our_uid \<and>
     (case pd_cgroup (snd e) of None \<Rightarrow> False | Some c \<Rightarrow> is_cgroup_in_user_slice c \<and>
        p_cgroup_path p = read_process_cgroup_path (Some c))"

definition user_process :: "u32 \<Rightarrow> pid \<Rightarrow> (string \<times> proc_dir) list \<Rightarrow> process \<Rightarrow> bool" where
  "user_process our_uid own_pid entries p \<longleftrightarrow>
     list_ex (user_entry our_uid p) entries \<and> p_pid p \<noteq> own_pid"

lemma read_process_entry:
  assumes "read_process env our_uid pid d cache = (Inr p, cache')" "parse_u32 name = Some pid"
  shows "user_entry our_uid p (name, d) \<and> p_pid p = pid"
  using assms
  by (auto simp: read_process_def user_entry_def Let_def split: if_splits option.splits prod.splits)

lemma read_entries_user:
  "p \<in> set (fst (read_entries env our_uid own_pid es cache)) \<Longrightarrow> user_process our_uid own_pid es p"
proof (induction es arbitrary: cache)
  case (Cons e es)
  obtain name d where e: "e = (name, d)" by (cases e)
  show ?case
  proof (cases "\<exists>c. p \<in> set (fst (read_entries env our_uid own_pid es c))")
    case True
    then show ?thesis using Cons.IH by (auto simp: user_process_def)
  next
    case False
    then have tl: "p \<notin> set (fst (read_entries env our_uid own_pid es c))" for c by blast
    obtain pid c' where "parse_u32 name = Some pid" "pid \<noteq> own_pid"
        "read_process env our_uid pid d cache = (Inr p, c')"
      using Cons.prems tl by (auto simp: e case_prod_unfold Let_def split: option.splits if_splits sum.splits)
        (metis prod.collapse)
    then show ?thesis using read_process_entry by (fastforce simp: user_process_def e)
  qed
qed simp

lemma list_processes_user:
  "p \<in> set (fst (list_processes env our_uid own_pid (Some es) cache)) \<Longrightarrow> user_process our_uid own_pid es p"
  by (rule read_entries_user [of p env our_uid own_pid es cache])
     (auto simp: list_processes_def split: prod.splits)

text \<open>The CPU usage lies between 0 and a hundred percent of every processor.\<close>

lemma f32_at_least_1: "\<exists>b. f32_of_u64 (at_least_1 n) = Fin b \<and> 1 \<le> b"
proof -
  have "at_least_1 n \<noteq> 0" by (auto simp: at_least_1_def max_def)
  then have ge: "1 \<le> rnd32 (of_nat (unat (at_least_1 n)))"
    by (intro r32.ge_exact r32.one word_ge_1_rat)
  have "unat (at_least_1 n) < 2 ^ LENGTH(64)" by (rule unsigned_less)
  then have "unat (at_least_1 n) \<le> 2 ^ 64" by simp
  then have "of_nat (unat (at_least_1 n)) \<le> (of_nat (2 ^ 64) :: rat)" by (rule of_nat_mono)
  then have "rnd32 (of_nat (unat (at_least_1 n))) \<le> 2 ^ 64"
    using rnd_dyadic [of 1 24 "- 149" 64]
    by (intro r32.le_exact) (simp_all add: rnd32_def power_int_def)
  then have "rnd32 (of_nat (unat (at_least_1 n))) < 2 ^ 128" by (rule order_le_less_trans) simp
  with ge show ?thesis by (auto simp: f32_of_u64_def f32_round_def fl_of_def)
qed

lemma cpu_pct_range:
  fixes env :: cpu_env
  defines "cap \<equiv> f32_mul (f32_lit 100) (f32_of_u64 (at_least_1 (ce_num_cpus env)))"
  shows "fl_le (Fin 0) (fst (compute_cpu_pct env pid ticks cache))"
    and "fl_le (fst (compute_cpu_pct env pid ticks cache)) cap"
proof -
  have l: "f32_lit 0 = Fin 0" "f32_lit 100 = Fin 100" by (simp_all add: f64_eval f32_eval)
  obtain n where n: "f32_of_u64 (at_least_1 (ce_num_cpus env)) = Fin n" "1 \<le> n"
    using f32_at_least_1 by blast
  obtain k where k: "f32_of_u64 (at_least_1 (ce_clk_tck env)) = Fin k" "1 \<le> k"
    using f32_at_least_1 by blast
  have cap: "fl_le (Fin 0) cap" using n by (simp add: cap_def l f32_round_nonneg)
  then have cn: "cap \<noteq> NaN" by auto
  have mul: "fl_le (Fin 0) x \<Longrightarrow> fl_le (Fin 0) (f32_mul x (Fin 100))" for x
    by (cases x) (auto simp: fl_mul_def fl_signed_inf_def f32_round_nonneg)
  have "fl_le (Fin 0) (f32_mul (f32_div (f32_div (f32_of_u64 a) (Fin k)) (f32_of_u64 (at_least_1 b))) (Fin 100))" for a b
    using f32_at_least_1 [of b] k
    by (auto intro!: mul fl_div_nonneg f32_of_u64_nonneg f32_round_nonneg)
  with cap cn show "fl_le (Fin 0) (fst (compute_cpu_pct env pid ticks cache))"
    and "fl_le (fst (compute_cpu_pct env pid ticks cache)) cap"
    by (auto simp: compute_cpu_pct_def Let_def l k cap_def [unfolded l, symmetric]
        intro!: fl_min_nonneg fl_min_le split: option.splits)
qed

text \<open>After a scan the cache knows only processes that are alive.\<close>

lemma cpu_cache_live:
  "set (hm_keys (snd (list_processes env our_uid own_pid (Some es) cache)))
     \<subseteq> set (map p_pid (fst (list_processes env our_uid own_pid (Some es) cache)))"
  by (auto simp: list_processes_def prune_cpu_cache_def hm_retain_def hm_keys_def split: prod.splits)

lemma compute_cpu_hm_ok: "hm_ok cache \<Longrightarrow> hm_ok (snd (compute_cpu_pct env pid ticks cache))"
  by (auto simp: compute_cpu_pct_def Let_def split: option.splits)

end
