(* ===== verification/Decision.thy ===== *)
theory Decision
  imports Process
begin

text \<open>
  The planner (\<open>mgd/src/engine/decision.rs\<close>): the deficit of free memory, the choice of an action
  for one process, and the walk over the candidates, least important first, until the deficit is
  covered. It has no side effects. The numbers a reason is printed from are kept as a record.
\<close>

datatype action = ActNone | ActFreeze | ActCheckpoint | ActTerminate | ActKill

record plan_reason =
  pr_priority :: u8
  pr_rss_mib :: f64
  pr_swap_mib :: f64
  pr_swap_ratio_pct :: f64
  pr_deficit_mib :: f64

record decision =
  d_pid :: pid
  d_name :: string
  d_action :: action
  d_rss :: kb
  d_reason :: plan_reason
  d_prio :: u8

definition get_priority :: "string \<Rightarrow> string option \<Rightarrow> compiled_config \<Rightarrow> u8" where
  "get_priority name exe cfg = priority_for cfg name exe"

definition i64_of_u64 :: "u64 \<Rightarrow> int" where
  "i64_of_u64 w = sint w"

definition calculate_ram_deficit_kb :: "kb \<Rightarrow> kb \<Rightarrow> f64 \<Rightarrow> int" where
  "calculate_ram_deficit_kb available total_kb target_pct100 =
     (let target_pct = f64_div target_pct100 (f64_lit 100);
          target_kb = f64_to_i64 (f64_mul (f64_of_u64 total_kb) target_pct)
      in i64_wrap (target_kb - i64_of_u64 available))"

section \<open>The action for one process\<close>

definition determine_process_action ::
  "pressure_level \<Rightarrow> u8 \<Rightarrow> f64 \<Rightarrow> bool option \<Rightarrow> bool \<Rightarrow> bool \<Rightarrow> action" where
  "determine_process_action level prio swap_ratio cp_override swap_exhausted cp_supported =
     (if swap_exhausted \<and> 80 \<le> prio then ActKill
      else case level of
        Normal \<Rightarrow> ActNone
      | Elevated \<Rightarrow> (if 60 \<le> prio then ActFreeze else ActNone)
      | High \<Rightarrow> (if 80 \<le> prio then ActTerminate else if 60 \<le> prio then ActFreeze else ActNone)
      | Critical \<Rightarrow>
          (case cp_override of
             Some cp \<Rightarrow>
               (if cp \<and> cp_supported then ActCheckpoint
                else if fl_gt swap_ratio (f64_lit (1 / 2)) then ActKill else ActTerminate)
           | None \<Rightarrow>
               (if fl_gt swap_ratio (f64_lit (1 / 2)) \<and> 60 \<le> prio then ActKill
                else if 75 \<le> prio then ActTerminate
                else if cp_supported then ActCheckpoint
                else if 60 \<le> prio then ActTerminate else ActKill))
      | Emergency \<Rightarrow> ActKill)"

section \<open>Candidates\<close>

text \<open>What the planner asks of the rest of the daemon: the process in the foreground, the graphics
memory of a process, and whether it can be checkpointed.\<close>

record plan_env =
  pe_active_pid :: "pid option"
  pe_gpu_kb :: "pid \<Rightarrow> kb"
  pe_cp_eligible :: "string \<Rightarrow> bool"

definition effective_priority :: "compiled_config \<Rightarrow> pid option \<Rightarrow> process \<Rightarrow> u8" where
  "effective_priority cfg active p =
     (let prio = priority_for cfg (p_name p) (p_exe_basename p) in
      if Some (p_pid p) = active then max (sat_sub prio 25) 20 else prio)"

definition footprint :: "process \<Rightarrow> kb" where
  "footprint p = kb_add (p_rss p) (p_swap p)"

type_synonym candidate = "u8 \<times> kb \<times> process"

definition plan_candidate :: "compiled_config \<Rightarrow> plan_env \<Rightarrow> bool \<Rightarrow> process \<Rightarrow> candidate" where
  "plan_candidate cfg env count_gpu p =
     (effective_priority cfg (pe_active_pid env) p,
      kb_add (p_rss p) (if count_gpu then pe_gpu_kb env (p_pid p) else 0),
      p)"

text \<open>The order of the walk: priority descending, then footprint, then the kernel's OOM score.\<close>

fun cand_le :: "candidate \<Rightarrow> candidate \<Rightarrow> bool" where
  "cand_le (pa, fa, a) (pb, fb, b) =
     (pb < pa \<or> (pa = pb \<and> (fb < fa \<or> (fa = fb \<and> p_oom_score b \<le> p_oom_score a))))"

definition candidates :: "compiled_config \<Rightarrow> plan_env \<Rightarrow> bool \<Rightarrow> process list \<Rightarrow> candidate list" where
  "candidates cfg env count_gpu procs =
     sort_by cand_le (map (plan_candidate cfg env count_gpu)
       (filter (\<lambda>p. 10 * 1024 < footprint p) procs))"

section \<open>The walk\<close>

definition swap_ratio_of :: "process \<Rightarrow> f64" where
  "swap_ratio_of p =
     (if footprint p > 0 then f64_div (f64_of_u64 (p_swap p)) (f64_of_u64 (footprint p)) else f64_lit 0)"

definition candidate_action :: "compiled_config \<Rightarrow> plan_env \<Rightarrow> pressure_level \<Rightarrow> bool \<Rightarrow> candidate \<Rightarrow> action" where
  "candidate_action cfg env level swap_exhausted c = (case c of (prio, _, p) \<Rightarrow>
     determine_process_action level prio (swap_ratio_of p) (checkpoint_override cfg (p_name p))
       swap_exhausted (pe_cp_eligible env (p_name p)))"

definition plan_skips :: "compiled_config \<Rightarrow> plan_env \<Rightarrow> pressure_level \<Rightarrow> bool \<Rightarrow> candidate \<Rightarrow> bool" where
  "plan_skips cfg env level swap_exhausted c = (case c of (prio, _, p) \<Rightarrow>
     prio \<le> 19 \<or> is_protected cfg (p_name p)
     \<or> candidate_action cfg env level swap_exhausted c = ActNone)"

definition freed_by :: "action \<Rightarrow> kb \<Rightarrow> int" where
  "freed_by a rss = (if a = ActFreeze then 0 else i64_of_u64 rss)"

definition make_decision :: "candidate \<Rightarrow> action \<Rightarrow> int \<Rightarrow> decision" where
  "make_decision c a deficit = (case c of (prio, _, p) \<Rightarrow>
     \<lparr>d_pid = p_pid p, d_name = p_name p, d_action = a, d_rss = p_rss p,
      d_reason = \<lparr>pr_priority = prio, pr_rss_mib = kb_mib (p_rss p), pr_swap_mib = kb_mib (p_swap p),
        pr_swap_ratio_pct = f64_mul (swap_ratio_of p) (f64_lit 100),
        pr_deficit_mib = f64_div (f64_of_int deficit) (f64_lit 1024)\<rparr>,
      d_prio = prio\<rparr>)"

fun plan_walk :: "compiled_config \<Rightarrow> plan_env \<Rightarrow> pressure_level \<Rightarrow> bool \<Rightarrow> int \<Rightarrow> candidate list \<Rightarrow> decision list" where
  "plan_walk cfg env level swap_exhausted deficit [] = []"
| "plan_walk cfg env level swap_exhausted deficit (c # cs) =
     (if deficit \<le> 0 then []
      else if plan_skips cfg env level swap_exhausted c
      then plan_walk cfg env level swap_exhausted deficit cs
      else
        (let a = candidate_action cfg env level swap_exhausted c; d = make_decision c a deficit
         in d # plan_walk cfg env level swap_exhausted (i64_wrap (deficit - freed_by a (d_rss d))) cs))"

definition plan ::
  "compiled_config \<Rightarrow> plan_env \<Rightarrow> pressure_level \<Rightarrow> process list \<Rightarrow> kb \<Rightarrow> kb \<Rightarrow> bool \<Rightarrow> decision list" where
  "plan cfg env level procs available total_kb swap_exhausted =
     (if level = Normal then []
      else
        (let deficit = calculate_ram_deficit_kb available total_kb (cc_target_available_pct cfg) in
         if deficit \<le> 0 then []
         else plan_walk cfg env level swap_exhausted deficit
                (candidates cfg env (High \<le> level) procs)))"

section \<open>Facts about the choice of an action\<close>

lemma prio_tiers:
  "80 \<le> prio \<Longrightarrow> 75 \<le> prio" "80 \<le> prio \<Longrightarrow> 60 \<le> prio" "75 \<le> prio \<Longrightarrow> 60 \<le> prio"
  for prio :: u8
  by (auto intro: order_trans [rotated])

lemma action_elevated:
  "determine_process_action Elevated prio r cp exh cps \<in> {ActNone, ActFreeze} \<or> exh \<and> 80 \<le> prio"
  by (simp add: determine_process_action_def)

lemma action_reversible_below_high:
  "level \<le> Elevated \<Longrightarrow> \<not> (exh \<and> 80 \<le> prio) \<Longrightarrow>
     determine_process_action level prio r cp exh cps \<in> {ActNone, ActFreeze}"
  by (cases level) (auto simp: determine_process_action_def level_order)

lemma action_spares_important:
  "level \<le> High \<Longrightarrow> prio < 60 \<Longrightarrow> determine_process_action level prio r cp exh cps = ActNone"
  using prio_tiers [of prio]
  by (cases level) (auto simp: determine_process_action_def level_order not_le [symmetric])

lemma action_acts_at_critical:
  "Critical \<le> level \<Longrightarrow> determine_process_action level prio r cp exh cps \<in> {ActCheckpoint, ActTerminate, ActKill}"
  by (cases level) (auto simp: determine_process_action_def level_order split: option.splits)

lemma action_checkpoint_supported:
  "determine_process_action level prio r cp exh cps = ActCheckpoint \<Longrightarrow> cps \<and> level = Critical \<and> cp \<noteq> Some False"
  by (cases level) (auto simp: determine_process_action_def split: if_splits option.splits)

text \<open>The strength of an action, and its monotonicity: more pressure never means a weaker action.\<close>

fun action_rank :: "action \<Rightarrow> nat" where
  "action_rank ActNone = 0"
| "action_rank ActFreeze = 1"
| "action_rank ActCheckpoint = 2"
| "action_rank ActTerminate = 3"
| "action_rank ActKill = 4"

lemma action_mono_level:
  assumes "level \<le> level'"
    and "\<not> (level = High \<and> level' = Critical \<and> 80 \<le> prio \<and> cps \<and> cp = Some True)"
  shows "action_rank (determine_process_action level prio r cp exh cps)
    \<le> action_rank (determine_process_action level' prio r cp exh cps)"
  using assms prio_tiers [of prio]
  by (cases level; cases level')
     (auto simp: determine_process_action_def level_order split: option.splits)

section \<open>Facts about the candidates\<close>

lemma cand_le_total: "cand_le x y \<or> cand_le y x"
  by (cases x; cases y) auto

lemma cand_le_trans: "cand_le x y \<Longrightarrow> cand_le y z \<Longrightarrow> cand_le x z"
  by (cases x; cases y; cases z) auto

lemma candidates_sorted: "sorted_wrt cand_le (candidates cfg env g procs)"
  unfolding candidates_def by (rule sorted_sort_by) (rule cand_le_total, rule cand_le_trans)

lemma in_candidates:
  "c \<in> set (candidates cfg env g procs) \<longleftrightarrow>
     (\<exists>p \<in> set procs. 10 * 1024 < footprint p \<and> c = plan_candidate cfg env g p)"
  by (auto simp: candidates_def)

text \<open>The foreground process is shifted by 25 but never below 20: a process of the system tier gains
nothing from having the focus.\<close>

lemma foreground_floor: "20 \<le> effective_priority cfg (Some (p_pid p)) p"
  by (simp add: effective_priority_def Let_def)

lemma foreground_lowers:
  "20 \<le> priority_for cfg (p_name p) (p_exe_basename p) \<Longrightarrow>
     effective_priority cfg (Some (p_pid p)) p \<le> effective_priority cfg None p"
  by (simp add: effective_priority_def sat_sub_le Let_def)

section \<open>Facts about the plan\<close>

lemma plan_walk_sound:
  assumes "d \<in> set (plan_walk cfg env level exh deficit cs)"
  shows "\<exists>prio f p def'. (prio, f, p) \<in> set cs \<and> d = make_decision (prio, f, p) (d_action d) def'
    \<and> d_action d = candidate_action cfg env level exh (prio, f, p)
    \<and> \<not> plan_skips cfg env level exh (prio, f, p)"
  using assms
proof (induction cs arbitrary: deficit)
  case (Cons c cs)
  obtain prio f p where c: "c = (prio, f, p)" by (cases c)
  show ?case
  proof (cases "\<exists>def'. d \<in> set (plan_walk cfg env level exh def' cs)")
    case True
    then show ?thesis using Cons.IH by (meson list.set_intros(2))
  next
    case False
    with Cons.prems have "d = make_decision c (candidate_action cfg env level exh c) deficit"
        "\<not> plan_skips cfg env level exh c"
      by (auto simp: Let_def split: if_splits)
    then show ?thesis by (auto simp: c make_decision_def)
  qed
qed simp

definition plan_target :: "compiled_config \<Rightarrow> plan_env \<Rightarrow> pressure_level \<Rightarrow> bool \<Rightarrow> decision \<Rightarrow> process \<Rightarrow> bool" where
  "plan_target cfg env level exh d p \<longleftrightarrow>
     d_pid d = p_pid p \<and> d_name d = p_name p \<and> d_rss d = p_rss p
     \<and> d_prio d = effective_priority cfg (pe_active_pid env) p
     \<and> 19 < d_prio d \<and> \<not> is_protected cfg (p_name p) \<and> 10 * 1024 < footprint p
     \<and> d_action d \<noteq> ActNone
     \<and> d_action d = determine_process_action level (d_prio d) (swap_ratio_of p)
          (checkpoint_override cfg (p_name p)) exh (pe_cp_eligible env (p_name p))"

lemma plan_sound:
  assumes "d \<in> set (plan cfg env level procs available total_kb exh)"
  shows "\<exists>p \<in> set procs. plan_target cfg env level exh d p"
proof -
  obtain def0 where "d \<in> set (plan_walk cfg env level exh def0 (candidates cfg env (High \<le> level) procs))"
    using assms by (auto simp: plan_def Let_def split: if_splits)
  from plan_walk_sound [OF this] obtain prio f p def' where
    c: "(prio, f, p) \<in> set (candidates cfg env (High \<le> level) procs)"
    and d: "d = make_decision (prio, f, p) (d_action d) def'"
    and a: "d_action d = candidate_action cfg env level exh (prio, f, p)"
    and ns: "\<not> plan_skips cfg env level exh (prio, f, p)" by blast
  from c have p: "p \<in> set procs" "10 * 1024 < footprint p" "prio = effective_priority cfg (pe_active_pid env) p"
    by (auto simp: in_candidates plan_candidate_def)
  have dd: "d_pid d = p_pid p" "d_name d = p_name p" "d_rss d = p_rss p" "d_prio d = prio"
    using d by (metis (no_types, lifting) make_decision_def decision.select_convs case_prod_conv)+
  from p ns a have "plan_target cfg env level exh d p"
    by (auto simp: plan_target_def dd plan_skips_def candidate_action_def)
  with p show ?thesis by blast
qed

text \<open>The decisions come in descending priority.\<close>

lemma plan_walk_prio: "sorted_wrt cand_le cs \<Longrightarrow>
    sorted_wrt (\<lambda>a b. d_prio b \<le> d_prio a) (plan_walk cfg env level exh deficit cs)"
proof (induction cs arbitrary: deficit)
  case (Cons c cs)
  obtain prio f p where c: "c = (prio, f, p)" by (cases c)
  have tl: "d_prio d \<le> prio" if d: "d \<in> set (plan_walk cfg env level exh def' cs)" for d def'
  proof -
    obtain pr' f' p' df where c': "(pr', f', p') \<in> set cs"
        and d: "d = make_decision (pr', f', p') (d_action d) df" using plan_walk_sound [OF d] by blast
    have "d_prio d = d_prio (make_decision (pr', f', p') (d_action d) df)" using d by (rule arg_cong)
    then have "d_prio d = pr'" by (simp add: make_decision_def)
    moreover have "cand_le (prio, f, p) (pr', f', p')" using c' Cons.prems unfolding c sorted_wrt.simps by blast
    ultimately show ?thesis by auto
  qed
  have hd: "d_prio (make_decision c a deficit) = prio" for a by (simp add: c make_decision_def)
  have srt: "sorted_wrt (\<lambda>a b. d_prio b \<le> d_prio a) (plan_walk cfg env level exh x cs)" for x
    using Cons by simp
  show ?case using tl hd srt by (simp add: Let_def del: cand_le.simps)
qed simp

text \<open>
  The walk stops exactly when the deficit is covered: before each decision the deficit left is
  positive, and when it is positive at the end no acceptable candidate was left out.
\<close>

definition deficit_after :: "int \<Rightarrow> decision list \<Rightarrow> int" where
  "deficit_after deficit ds =
     foldl (\<lambda>x d. i64_wrap (x - freed_by (d_action d) (d_rss d))) deficit ds"

lemma d_action_make [simp]: "d_action (make_decision c a x) = a"
  by (simp add: make_decision_def split: prod.split)

lemma plan_walk_needed:
  "plan_walk cfg env level exh deficit cs = ds1 @ d # ds2 \<Longrightarrow> 0 < deficit_after deficit ds1"
proof (induction cs arbitrary: deficit ds1)
  case (Cons c cs)
  from Cons.prems have pos: "0 < deficit" by (cases "deficit \<le> 0") auto
  show ?case
  proof (cases "plan_skips cfg env level exh c")
    case True
    with Cons pos show ?thesis by simp
  next
    case False
    with Cons pos show ?thesis by (cases ds1) (auto simp: deficit_after_def Let_def)
  qed
qed simp

lemma plan_walk_complete:
  "0 < deficit_after deficit (plan_walk cfg env level exh deficit cs) \<Longrightarrow> c \<in> set cs \<Longrightarrow>
     \<not> plan_skips cfg env level exh c \<Longrightarrow>
     \<exists>x. make_decision c (candidate_action cfg env level exh c) x \<in> set (plan_walk cfg env level exh deficit cs)"
proof (induction cs arbitrary: deficit)
  case (Cons c' cs)
  have pos: "0 < deficit" using Cons.prems(1) by (auto simp: deficit_after_def split: if_splits)
  show ?case
  proof (cases "plan_skips cfg env level exh c'")
    case True
    with Cons pos show ?thesis by auto
  next
    case False
    define def' where "def' = i64_wrap (deficit - freed_by (candidate_action cfg env level exh c')
      (d_rss (make_decision c' (candidate_action cfg env level exh c') deficit)))"
    have w: "plan_walk cfg env level exh deficit (c' # cs) =
        make_decision c' (candidate_action cfg env level exh c') deficit # plan_walk cfg env level exh def' cs"
      using False pos by (simp add: def'_def Let_def)
    with Cons.prems(1) have "0 < deficit_after def' (plan_walk cfg env level exh def' cs)"
      by (simp add: deficit_after_def def'_def)
    with Cons w show ?thesis by (cases "c = c'") auto
  qed
qed simp

lemma plan_pids_distinct:
  assumes "distinct (map p_pid procs)"
  shows "distinct (map d_pid (plan cfg env level procs available total_kb exh))"
proof -
  have w: "distinct (map (\<lambda>(_, _, p). p_pid p) cs) \<Longrightarrow>
      distinct (map d_pid (plan_walk cfg env level exh deficit cs)) \<and>
      set (map d_pid (plan_walk cfg env level exh deficit cs)) \<subseteq> set (map (\<lambda>(_, _, p). p_pid p) cs)" for cs deficit
  proof (induction cs arbitrary: deficit)
    case (Cons c cs)
    obtain prio f p where c: "c = (prio, f, p)" by (cases c)
    show ?case using Cons.prems Cons.IH
      by (auto simp: c Let_def make_decision_def)
  qed simp
  have "distinct (map (\<lambda>(_, _, p). p_pid p) (candidates cfg env g procs))" for g
    using assms by (simp add: candidates_def distinct_map_sort_by plan_candidate_def comp_def distinct_map_filter)
  with w show ?thesis by (simp add: plan_def Let_def)
qed

end
