(* ===== verification/Os.thy ===== *)
theory Os
  imports Process
begin

text \<open>
  The daemon process and the operating system under it. The system is an oracle: what a file holds,
  whether a signal is delivered, what a helper answers may differ at every call, so each answer
  depends on the number of calls made so far (\<open>sys_tick\<close>). This is what lets a process vanish, or its
  PID be reused, between two calls of the daemon. What the daemon does to the system is appended to
  a trace of effects. The statics of the Rust crates are fields of the same record.

  Console output is not modelled. Log entries, events and persisted state are effects.
\<close>

section \<open>Signals, errors, effects\<close>

datatype signal = SIGSTOP | SIGCONT | SIGTERM | SIGKILL | SIG0

datatype errno = ESRCH | EPERM | EOTHER

datatype io_error = PermissionDenied | NotFound | WouldBlock | OtherIo

datatype run_result = RunFailed | RunExit "int option" string

datatype log_action = LaFreeze | LaFreezeReclaim | LaIdleFreeze | LaTerminate | LaKill | LaKillManual
  | LaCheckpoint | LaUnfreeze | LaRestore | LaRestoreAbandon | LaRestoreFail | LaReclaim
  | LaEarlyReclaim | LaZram | LaCache | LaCalibrate | LaSpikeFreeze | LaSpikeUnfreeze
  | LaSpikeUnfreezeTimeout | LaSpikeUnfreezeOrphan | LaSpikeUnfreezeManual | LaLeakGuardKill | LaCycle

fun log_action_str :: "log_action \<Rightarrow> string" where
  "log_action_str LaFreeze = ''FREEZE''"
| "log_action_str LaFreezeReclaim = ''FREEZE_RECLAIM''"
| "log_action_str LaIdleFreeze = ''IDLE_FREEZE''"
| "log_action_str LaTerminate = ''TERMINATE''"
| "log_action_str LaKill = ''KILL''"
| "log_action_str LaKillManual = ''KILL_MANUAL''"
| "log_action_str LaCheckpoint = ''CHECKPOINT''"
| "log_action_str LaUnfreeze = ''UNFREEZE''"
| "log_action_str LaRestore = ''RESTORE''"
| "log_action_str LaRestoreAbandon = ''RESTORE_ABANDON''"
| "log_action_str LaRestoreFail = ''RESTORE_FAIL''"
| "log_action_str LaReclaim = ''RECLAIM''"
| "log_action_str LaEarlyReclaim = ''EARLY_RECLAIM''"
| "log_action_str LaZram = ''ZRAM''"
| "log_action_str LaCache = ''CACHE''"
| "log_action_str LaCalibrate = ''CALIBRATE''"
| "log_action_str LaSpikeFreeze = ''SPIKE_FREEZE''"
| "log_action_str LaSpikeUnfreeze = ''SPIKE_UNFREEZE''"
| "log_action_str LaSpikeUnfreezeTimeout = ''SPIKE_UNFREEZE_TIMEOUT''"
| "log_action_str LaSpikeUnfreezeOrphan = ''SPIKE_UNFREEZE_ORPHAN''"
| "log_action_str LaSpikeUnfreezeManual = ''SPIKE_UNFREEZE_MANUAL''"
| "log_action_str LaLeakGuardKill = ''LEAK_GUARD_KILL''"
| "log_action_str LaCycle = ''CYCLE''"

text \<open>The maps that are persisted: a frozen process has a name, the Unix time of the freeze and its
start time; a checkpointed one a name, the snapshot directory, its size and the restore attempts.\<close>

type_synonym frozen_map = "(pid, string \<times> u64 \<times> u64) hmap"
type_synonym checkpoint_map = "(pid, string \<times> string \<times> kb \<times> u32) hmap"

datatype effect =
    Signalled int signal "errno option"
  | SpawnedSigterm pid
  | Wrote string string "io_error option"
  | RemovedDir string
  | MadeDir string
  | Ran "string list"
  | Logged log_action pid string
  | PersistedFrozen frozen_map
  | PersistedCheckpoint checkpoint_map
  | PersistedVictims "(pid \<times> string \<times> u64) list"
  | AdvisedFile string u64
  | RemovedFile string
  | Notified string nat
  | Spawned "string list"

section \<open>The state of the process\<close>

record os_oracle =
  or_read :: "nat \<Rightarrow> string \<Rightarrow> string option"
  or_write :: "nat \<Rightarrow> string \<Rightarrow> string \<Rightarrow> io_error option"
  or_exists :: "nat \<Rightarrow> string \<Rightarrow> bool"
  or_has_subdir :: "nat \<Rightarrow> string \<Rightarrow> bool option"
  or_executable :: "nat \<Rightarrow> string \<Rightarrow> bool"
  or_mkdir :: "nat \<Rightarrow> string \<Rightarrow> bool"
  or_kill :: "nat \<Rightarrow> int \<Rightarrow> signal \<Rightarrow> errno option"
  or_run :: "nat \<Rightarrow> string list \<Rightarrow> run_result"
  or_clock :: "nat \<Rightarrow> instant"
  or_unix :: "nat \<Rightarrow> u64"
  or_home :: string

record gpu_memory =
  gm_total_kb :: u64
  gm_resident_kb :: u64
  gm_shared_kb :: u64
  gm_purgeable_kb :: u64

record sys =
  sys_oracle :: os_oracle
  sys_tick :: nat
  sys_trace :: "effect list"
  sys_helper_path :: "string option option"
  sys_checkpoint_disabled :: bool
  sys_failed_binaries :: "string list"
  sys_foreground :: "pid option"
  sys_gpu_cache :: "(pid, gpu_memory \<times> instant) hmap"
  sys_last_early_reclaim :: u64
  sys_last_idle_reclaim :: u64
  sys_last_cache_drop :: u64
  sys_last_zram_compact :: u64
  sys_zram_compact_disabled :: bool
  sys_last_reclaim :: u64
  sys_reclaim_disabled :: bool

definition tick :: "sys \<Rightarrow> sys" where
  "tick s = s\<lparr>sys_tick := Suc (sys_tick s)\<rparr>"

definition emit :: "effect \<Rightarrow> sys \<Rightarrow> sys" where
  "emit e s = s\<lparr>sys_trace := sys_trace s @ [e]\<rparr>"

section \<open>The statics when the process starts\<close>

definition sys_start :: "os_oracle \<Rightarrow> sys" where
  "sys_start os = \<lparr>sys_oracle = os, sys_tick = 0, sys_trace = [], sys_helper_path = None,
     sys_checkpoint_disabled = False, sys_failed_binaries = [], sys_foreground = None, sys_gpu_cache = [],
     sys_last_early_reclaim = 0, sys_last_idle_reclaim = 0, sys_last_cache_drop = 0,
     sys_last_zram_compact = 0, sys_zram_compact_disabled = False, sys_last_reclaim = 0,
     sys_reclaim_disabled = False\<rparr>"

text \<open>A process that starts again: the statics are fresh, the machine and what was done to it remain.\<close>

definition sys_restart :: "sys \<Rightarrow> sys" where
  "sys_restart s = (sys_start (sys_oracle s))\<lparr>sys_tick := sys_tick s, sys_trace := sys_trace s\<rparr>"

lemma sys_restart_keeps [simp]:
  "sys_oracle (sys_restart s) = sys_oracle s" "sys_trace (sys_restart s) = sys_trace s"
  by (simp_all add: sys_restart_def sys_start_def)

section \<open>System calls\<close>

definition os_read :: "string \<Rightarrow> sys \<Rightarrow> string option \<times> sys" where
  "os_read path s = (or_read (sys_oracle s) (sys_tick s) path, tick s)"

definition os_exists :: "string \<Rightarrow> sys \<Rightarrow> bool \<times> sys" where
  "os_exists path s = (or_exists (sys_oracle s) (sys_tick s) path, tick s)"

definition os_has_subdir :: "string \<Rightarrow> sys \<Rightarrow> bool option \<times> sys" where
  "os_has_subdir path s = (or_has_subdir (sys_oracle s) (sys_tick s) path, tick s)"

definition os_executable :: "string \<Rightarrow> sys \<Rightarrow> bool \<times> sys" where
  "os_executable path s = (or_executable (sys_oracle s) (sys_tick s) path, tick s)"

definition os_write :: "string \<Rightarrow> string \<Rightarrow> sys \<Rightarrow> io_error option \<times> sys" where
  "os_write path data s =
     (let r = or_write (sys_oracle s) (sys_tick s) path data in (r, emit (Wrote path data r) (tick s)))"

definition os_mkdir :: "string \<Rightarrow> sys \<Rightarrow> bool \<times> sys" where
  "os_mkdir path s = (or_mkdir (sys_oracle s) (sys_tick s) path, emit (MadeDir path) (tick s))"

definition os_remove_dir :: "string \<Rightarrow> sys \<Rightarrow> sys" where
  "os_remove_dir path s = emit (RemovedDir path) (tick s)"

definition os_kill :: "int \<Rightarrow> signal \<Rightarrow> sys \<Rightarrow> errno option \<times> sys" where
  "os_kill target sig s =
     (let r = or_kill (sys_oracle s) (sys_tick s) target sig
      in (r, emit (Signalled target sig r) (tick s)))"

definition os_run :: "string list \<Rightarrow> sys \<Rightarrow> run_result \<times> sys" where
  "os_run args s = (or_run (sys_oracle s) (sys_tick s) args, emit (Ran args) (tick s))"

definition os_clock :: "sys \<Rightarrow> instant \<times> sys" where
  "os_clock s = (or_clock (sys_oracle s) (sys_tick s), tick s)"

definition os_unix :: "sys \<Rightarrow> u64 \<times> sys" where
  "os_unix s = (or_unix (sys_oracle s) (sys_tick s), tick s)"

definition os_sleep :: "sys \<Rightarrow> sys" where
  "os_sleep s = tick s"

definition home_dir :: "sys \<Rightarrow> string" where
  "home_dir s = or_home (sys_oracle s)"

definition show_pid :: "pid \<Rightarrow> string" where
  "show_pid p = show_nat (unat p)"

lemmas os_defs = os_read_def os_exists_def os_has_subdir_def os_executable_def os_write_def os_mkdir_def
  os_remove_dir_def os_kill_def os_run_def os_clock_def os_unix_def os_sleep_def home_dir_def

text \<open>\<open>Instant::elapsed\<close> reads the clock each time it is called.\<close>

definition elapsed :: "instant \<Rightarrow> sys \<Rightarrow> duration \<times> sys" where
  "elapsed t s = (let (now, s1) = os_clock s in (duration_since now t, s1))"

section \<open>How an operation extends the trace\<close>

text \<open>
  \<open>extends P s s'\<close>: going from \<open>s\<close> to \<open>s'\<close> only appended effects that satisfy \<open>P\<close>. Every call
  appends at most its own effect, and the relation composes, so what a handler may do to the
  system is read off from the calls it makes.
\<close>

named_theorems ext \<open>the effects of an operation\<close>

definition extends :: "(effect \<Rightarrow> bool) \<Rightarrow> sys \<Rightarrow> sys \<Rightarrow> bool" where
  "extends P s s' \<longleftrightarrow> (\<exists>es. sys_trace s' = sys_trace s @ es \<and> (\<forall>e \<in> set es. P e))"

lemma extends_refl [simp, intro]: "extends P s s"
  by (simp add: extends_def)

lemma extends_trans [trans]: "extends P s s' \<Longrightarrow> extends P s' s'' \<Longrightarrow> extends P s s''"
  by (auto simp: extends_def)

lemma extends_mono: "extends P s s' \<Longrightarrow> (\<And>e. P e \<Longrightarrow> Q e) \<Longrightarrow> extends Q s s'"
  by (auto simp: extends_def)

lemma extends_same: "sys_trace s' = sys_trace s \<Longrightarrow> extends P s s'"
  by (simp add: extends_def)

lemma extends_emit: "P e \<Longrightarrow> extends P s (emit e s)"
  by (simp add: extends_def emit_def)

lemma extends_keeps: "extends P s s' \<Longrightarrow> e \<in> set (sys_trace s) \<Longrightarrow> e \<in> set (sys_trace s')"
  by (auto simp: extends_def)

lemma oracle_tick [simp]: "sys_oracle (tick s) = sys_oracle s" "sys_oracle (emit e s) = sys_oracle s"
  by (simp_all add: tick_def emit_def)

lemma oracle_call [simp]:
  "sys_oracle (snd (os_read path s)) = sys_oracle s"
  "sys_oracle (snd (os_exists path s)) = sys_oracle s"
  "sys_oracle (snd (os_has_subdir path s)) = sys_oracle s"
  "sys_oracle (snd (os_clock s)) = sys_oracle s"
  "sys_oracle (snd (os_write path data s)) = sys_oracle s"
  "sys_oracle (snd (os_kill target sig s)) = sys_oracle s"
  by (simp_all add: os_defs Let_def emit_def tick_def)

lemma trace_tick [simp]: "sys_trace (tick s) = sys_trace s"
  by (simp add: tick_def)

lemma trace_emit [simp]: "sys_trace (emit e s) = sys_trace s @ [e]"
  by (simp add: emit_def)

lemma extends_silent [ext]:
  "extends P s (snd (os_read path s))"
  "extends P s (snd (os_exists path s))"
  "extends P s (snd (os_has_subdir path s))"
  "extends P s (snd (os_executable path s))"
  "extends P s (snd (os_clock s))"
  "extends P s (snd (os_unix s))"
  "extends P s (os_sleep s)"
  by (simp_all add: os_defs extends_same)

lemma extends_acts [ext]:
  "(\<And>r. P (Wrote path data r)) \<Longrightarrow> extends P s (snd (os_write path data s))"
  "P (MadeDir path) \<Longrightarrow> extends P s (snd (os_mkdir path s))"
  "P (RemovedDir path) \<Longrightarrow> extends P s (os_remove_dir path s)"
  "(\<And>r. P (Signalled target sig r)) \<Longrightarrow> extends P s (snd (os_kill target sig s))"
  "P (Ran args) \<Longrightarrow> extends P s (snd (os_run args s))"
  by (simp_all add: os_defs extends_def Let_def)

end
