(* ===== verification/Executor.thy ===== *)
theory Executor
  imports Os
begin

text \<open>
  The executors (\<open>mgd/src/executor/\<close>): the freezer and the killer with their guards against a
  reused PID, the registries of frozen and checkpointed processes, and the checkpoint helper.

  Two interfaces are stated as locales. \<open>pid_registry\<close> is what the rest of the daemon relies on when
  it records, looks up and forgets a process; both registries provide it. \<open>signal_op\<close> is what it
  relies on when it asks an executor to signal a process.
\<close>

section \<open>Results and the start time\<close>

record op_result =
  opr_success :: bool
  opr_error :: "string option"

definition op_success :: op_result where
  "op_success = \<lparr>opr_success = True, opr_error = None\<rparr>"

definition op_fail :: "string \<Rightarrow> op_result" where
  "op_fail e = \<lparr>opr_success = False, opr_error = Some e\<rparr>"

fun errno_str :: "errno \<Rightarrow> string" where
  "errno_str ESRCH = ''No such process''"
| "errno_str EPERM = ''Operation not permitted''"
| "errno_str EOTHER = ''Unknown error''"

definition stat_path :: "pid \<Rightarrow> string" where
  "stat_path p = ''/proc/'' @ show_pid p @ ''/stat''"

definition start_time_of :: "pid \<Rightarrow> sys \<Rightarrow> u64 option \<times> sys" where
  "start_time_of p s = (let (stat, s1) = os_read (stat_path p) s in (read_start_time stat, s1))"

section \<open>Freezer\<close>

text \<open>A PID that is no \<open>i32\<close> is refused before the call.\<close>

definition send_signal :: "pid \<Rightarrow> signal \<Rightarrow> sys \<Rightarrow> op_result \<times> sys" where
  "send_signal p sig s =
     (if unat p < 2 ^ 31 then
        (case os_kill (uint p) sig s of
           (None, s1) \<Rightarrow> (op_success, s1)
         | (Some e, s1) \<Rightarrow> (op_fail (errno_str e), s1))
      else (op_fail ''Invalid PID: exceeds i32 limits'', s))"

definition freeze_pid :: "pid \<Rightarrow> sys \<Rightarrow> op_result \<times> sys" where
  "freeze_pid p s = send_signal p SIGSTOP s"

definition unfreeze_pid :: "pid \<Rightarrow> sys \<Rightarrow> op_result \<times> sys" where
  "unfreeze_pid p s = send_signal p SIGCONT s"

definition unfreeze_checked :: "pid \<Rightarrow> u64 \<Rightarrow> sys \<Rightarrow> op_result \<times> sys" where
  "unfreeze_checked p expected s =
     (case start_time_of p s of
        (Some st, s1) \<Rightarrow> if st \<noteq> expected then (op_success, s1) else send_signal p SIGCONT s1
      | (None, s1) \<Rightarrow> (op_success, s1))"

definition freeze_checked :: "pid \<Rightarrow> u64 \<Rightarrow> sys \<Rightarrow> op_result \<times> sys" where
  "freeze_checked p expected s =
     (case start_time_of p s of
        (Some st, s1) \<Rightarrow> if st \<noteq> expected then (op_fail ''PID recycled - aborting freeze'', s1)
                        else send_signal p SIGSTOP s1
      | (None, s1) \<Rightarrow> (op_fail ''process gone'', s1))"

section \<open>Killer\<close>

text \<open>Here the PID is cast: one above \<open>i32::MAX\<close> becomes negative, which the kernel reads as a
process group, or every process for \<open>-1\<close>.\<close>

definition as_pid_t :: "pid \<Rightarrow> int" where
  "as_pid_t p = sint p"

definition kill_now :: "pid \<Rightarrow> sys \<Rightarrow> op_result \<times> sys" where
  "kill_now p s =
     (case os_kill (as_pid_t p) SIGKILL s of
        (None, s1) \<Rightarrow> (op_success, s1)
      | (Some e, s1) \<Rightarrow> (op_fail (''SIGKILL failed: '' @ errno_str e), s1))"

definition process_exists :: "pid \<Rightarrow> sys \<Rightarrow> bool \<times> sys" where
  "process_exists p s = (let (r, s1) = os_kill (as_pid_t p) SIG0 s in (r = None, s1))"

fun poll_exit :: "nat \<Rightarrow> pid \<Rightarrow> sys \<Rightarrow> bool \<times> sys" where
  "poll_exit 0 p s = (False, s)"
| "poll_exit (Suc n) p s =
     (case process_exists p (os_sleep s) of
        (True, s1) \<Rightarrow> poll_exit n p s1
      | (False, s1) \<Rightarrow> (True, s1))"

definition sigterm :: "pid \<Rightarrow> sys \<Rightarrow> op_result \<times> sys" where
  "sigterm p s =
     (let (original_start, s1) = start_time_of p s in
      case os_kill (as_pid_t p) SIGTERM s1 of
        (Some e, s2) \<Rightarrow> (op_fail (''SIGTERM failed: '' @ errno_str e), s2)
      | (None, s2) \<Rightarrow>
          (case poll_exit 10 p s2 of
             (True, s3) \<Rightarrow> (op_success, s3)
           | (False, s3) \<Rightarrow>
               (if original_start = None then kill_now p s3
                else
                  (let (st, s4) = start_time_of p s3 in
                   if st \<noteq> original_start then (op_success, s4) else kill_now p s4))))"

section \<open>The contract of a signalling operation\<close>

text \<open>
  The operation sends signals of its kinds only, to one target only, and a successful result means
  either that a signal was delivered or that the operation found the process gone.
\<close>

definition only_signals :: "int \<Rightarrow> signal set \<Rightarrow> effect \<Rightarrow> bool" where
  "only_signals target sigs e = (case e of Signalled t sig _ \<Rightarrow> t = target \<and> sig \<in> sigs | _ \<Rightarrow> False)"

locale signal_op =
  fixes oper :: "pid \<Rightarrow> sys \<Rightarrow> op_result \<times> sys"
    and target_of :: "pid \<Rightarrow> int"
    and sigs :: "signal set"
  assumes extends_only: "extends (only_signals (target_of p) sigs) s (snd (oper p s))"
    and result_ok: "opr_success (fst (oper p s)) \<longleftrightarrow> opr_error (fst (oper p s)) = None"
begin

lemma keeps_registries: "extends (\<lambda>e. (\<forall>m. e \<noteq> PersistedFrozen m) \<and> (\<forall>m. e \<noteq> PersistedCheckpoint m)) s (snd (oper p s))"
  by (rule extends_mono [OF extends_only]) (auto simp: only_signals_def split: effect.splits)

lemma no_signal_elsewhere:
  "t \<noteq> target_of p \<Longrightarrow> extends (\<lambda>e. \<forall>sig r. e \<noteq> Signalled t sig r) s (snd (oper p s))"
  by (rule extends_mono [OF extends_only]) (auto simp: only_signals_def split: effect.splits)

lemma no_other_signal:
  "sig \<notin> sigs \<Longrightarrow> extends (\<lambda>e. \<forall>t r. e \<noteq> Signalled t sig r) s (snd (oper p s))"
  by (rule extends_mono [OF extends_only]) (auto simp: only_signals_def split: effect.splits)

end

lemma op_result_simps [simp]:
  "opr_success op_success" "opr_error op_success = None"
  "\<not> opr_success (op_fail e)" "opr_error (op_fail e) = Some e"
  by (simp_all add: op_success_def op_fail_def)

lemma trace_start_time [simp]: "sys_trace (snd (start_time_of p s)) = sys_trace s"
  by (simp add: start_time_of_def os_read_def)

lemma trace_kill: "sys_trace (snd (os_kill t sig s)) = sys_trace s @ [Signalled t sig (fst (os_kill t sig s))]"
  by (simp add: os_kill_def Let_def)

lemma send_signal_extends:
  "uint p = t \<Longrightarrow> sig \<in> sigs \<Longrightarrow> extends (only_signals t sigs) s (snd (send_signal p sig s))"
  by (auto simp: send_signal_def os_kill_def Let_def extends_def only_signals_def split: option.splits)

lemma send_signal_result: "opr_success (fst (send_signal p sig s)) \<longleftrightarrow> opr_error (fst (send_signal p sig s)) = None"
  by (auto simp: send_signal_def split: prod.splits option.splits)

interpretation unfreezer: signal_op unfreeze_pid uint "{SIGCONT}"
  by unfold_locales (auto simp: unfreeze_pid_def send_signal_result intro: send_signal_extends)

interpretation stopper: signal_op freeze_pid uint "{SIGSTOP}"
  by unfold_locales (auto simp: freeze_pid_def send_signal_result intro: send_signal_extends)

lemma start_time_pair:
  "start_time_of p s = (st, s1) \<Longrightarrow> sys_trace s1 = sys_trace s"
  using trace_start_time [of p s] by simp

lemma extends_after: "sys_trace s1 = sys_trace s \<Longrightarrow> extends P s s' \<longleftrightarrow> extends P s1 s'"
  by (simp add: extends_def)

interpretation freezer: signal_op "\<lambda>p. freeze_checked p st" uint "{SIGSTOP}" for st
  by unfold_locales
     (auto simp: freeze_checked_def send_signal_result extends_after [OF start_time_pair]
       split: prod.splits option.splits intro: send_signal_extends)

interpretation thawer: signal_op "\<lambda>p. unfreeze_checked p st" uint "{SIGCONT}" for st
  by unfold_locales
     (auto simp: unfreeze_checked_def send_signal_result extends_after [OF start_time_pair]
       split: prod.splits option.splits intro: send_signal_extends)

lemma os_kill_extends: "sig \<in> sigs \<Longrightarrow> extends (only_signals t sigs) s (snd (os_kill t sig s))"
  by (simp add: os_kill_def Let_def extends_def only_signals_def)

lemma kill_now_extends: "SIGKILL \<in> sigs \<Longrightarrow> extends (only_signals (as_pid_t p) sigs) s (snd (kill_now p s))"
  using os_kill_extends [of SIGKILL sigs "as_pid_t p" s]
  by (auto simp: kill_now_def split: prod.splits option.splits)

lemma kill_now_result: "opr_success (fst (kill_now p s)) \<longleftrightarrow> opr_error (fst (kill_now p s)) = None"
  by (auto simp: kill_now_def split: prod.splits option.splits)

interpretation sigkiller: signal_op kill_now as_pid_t "{SIGKILL}"
  by unfold_locales (simp_all add: kill_now_extends kill_now_result)

lemma extends_sleep: "extends P (os_sleep s) s' \<Longrightarrow> extends P s s'"
  by (simp add: extends_def os_sleep_def)

lemma process_exists_extends:
  "extends (only_signals (as_pid_t p) {SIGTERM, SIGKILL, SIG0}) s (snd (process_exists p s))"
  using os_kill_extends [of SIG0 "{SIGTERM, SIGKILL, SIG0}" "as_pid_t p" s]
  by (simp add: process_exists_def case_prod_unfold Let_def)

lemma poll_exit_extends:
  "extends (only_signals (as_pid_t p) {SIGTERM, SIGKILL, SIG0}) s (snd (poll_exit n p s))"
proof (induction n arbitrary: s)
  case (Suc n)
  obtain b s1 where e: "process_exists p (os_sleep s) = (b, s1)" by fastforce
  have "extends (only_signals (as_pid_t p) {SIGTERM, SIGKILL, SIG0}) s s1"
    using process_exists_extends [of p "os_sleep s"] by (auto simp: e intro: extends_sleep)
  then show ?case using Suc [of s1] by (auto simp: e split: bool.splits intro: extends_trans)
qed simp

lemma sigterm_extends:
  "extends (only_signals (as_pid_t p) {SIGTERM, SIGKILL, SIG0}) s (snd (sigterm p s))"
proof -
  let ?E = "extends (only_signals (as_pid_t p) {SIGTERM, SIGKILL, SIG0})"
  obtain st0 s1 where 1: "start_time_of p s = (st0, s1)" by fastforce
  obtain r s2 where 2: "os_kill (as_pid_t p) SIGTERM s1 = (r, s2)" by fastforce
  obtain b s3 where 3: "poll_exit 10 p s2 = (b, s3)" by fastforce
  obtain st1 s4 where 4: "start_time_of p s3 = (st1, s4)" by fastforce
  have "?E s s1" using start_time_pair [OF 1] by (rule extends_same)
  also have "?E s1 s2" using os_kill_extends [of SIGTERM _ "as_pid_t p" s1] by (simp add: 2)
  finally have e2: "?E s s2" .
  also have "?E s2 s3" using poll_exit_extends [of p s2 10] by (simp add: 3)
  finally have e3: "?E s s3" .
  have e4: "?E s s4" using e3 start_time_pair [OF 4] by (simp add: extends_def)
  have k: "?E x (snd (kill_now p x))" for x by (rule kill_now_extends) simp
  show ?thesis
    using e2 e3 e4 extends_trans [OF e3 k] extends_trans [OF e4 k]
    by (auto simp: sigterm_def 1 2 3 4 split: option.splits bool.splits)
qed

interpretation terminator: signal_op sigterm as_pid_t "{SIGTERM, SIGKILL, SIG0}"
  by unfold_locales
     (auto simp: sigterm_extends, auto simp: sigterm_def kill_now_def Let_def
       split: prod.splits option.splits bool.splits)

text \<open>The guards: a stop or continue signal is sent only when the start time just read is the one
expected.\<close>

lemma freeze_checked_guard:
  assumes "fst (start_time_of p s) \<noteq> Some st"
  shows "sys_trace (snd (freeze_checked p st s)) = sys_trace s \<and> \<not> opr_success (fst (freeze_checked p st s))"
  using assms
  by (auto dest: start_time_pair simp: freeze_checked_def split: prod.splits option.splits)

lemma unfreeze_checked_guard:
  assumes "fst (start_time_of p s) \<noteq> Some st"
  shows "sys_trace (snd (unfreeze_checked p st s)) = sys_trace s \<and> opr_success (fst (unfreeze_checked p st s))"
  using assms
  by (auto dest: start_time_pair simp: unfreeze_checked_def split: prod.splits option.splits)

lemma unfreeze_checked_success:
  assumes "opr_success (fst (unfreeze_checked p st s))"
  shows "fst (start_time_of p s) \<noteq> Some st \<or>
    sys_trace (snd (unfreeze_checked p st s)) = sys_trace s @ [Signalled (uint p) SIGCONT None]"
  using assms
  by (auto dest: start_time_pair simp: unfreeze_checked_def send_signal_def os_kill_def Let_def split: prod.splits option.splits if_splits)

lemma freeze_checked_success:
  assumes "opr_success (fst (freeze_checked p st s))"
  shows "fst (start_time_of p s) = Some st \<and> unat p < 2 ^ 31 \<and>
    sys_trace (snd (freeze_checked p st s)) = sys_trace s @ [Signalled (uint p) SIGSTOP None]"
  using assms
  by (auto dest: start_time_pair simp: freeze_checked_def send_signal_def os_kill_def Let_def split: prod.splits option.splits if_splits)

text \<open>A process whose start time always reads as \<open>st\<close> is there and is the one recorded: it is
continued.\<close>

definition reads_as :: "os_oracle \<Rightarrow> pid \<Rightarrow> u64 \<Rightarrow> bool" where
  "reads_as os p st \<longleftrightarrow> (\<forall>t. read_start_time (or_read os t (stat_path p)) = Some st) \<and> unat p < 2 ^ 31"

lemma oracle_pair:
  "start_time_of p s = (st, s1) \<Longrightarrow> sys_oracle s1 = sys_oracle s"
  "os_kill t sig s = (r, s2) \<Longrightarrow> sys_oracle s2 = sys_oracle s"
  by (auto simp: start_time_of_def os_read_def os_kill_def Let_def)

lemma checked_oracle [simp]:
  "sys_oracle (snd (unfreeze_checked p st s)) = sys_oracle s"
  "sys_oracle (snd (freeze_checked p st s)) = sys_oracle s"
  by (auto simp: unfreeze_checked_def freeze_checked_def send_signal_def dest!: oracle_pair split: option.splits prod.splits)

lemma unfreeze_checked_sends:
  assumes "reads_as (sys_oracle s) p st"
  shows "\<exists>r. Signalled (uint p) SIGCONT r \<in> set (sys_trace (snd (unfreeze_checked p st s)))"
  using assms
  by (auto simp: reads_as_def unfreeze_checked_def start_time_of_def send_signal_def os_read_def os_kill_def Let_def
      split: option.splits)

text \<open>Without a cast the freezer never addresses a process group; the killer does.\<close>

lemma as_pid_t_small: "unat p < 2 ^ 31 \<Longrightarrow> as_pid_t p = uint p"
proof -
  assume p: "unat p < 2 ^ 31"
  then have "int (unat p) < int (2 ^ 31)" by (simp only: of_nat_less_iff)
  then have hi: "uint p < 2 ^ 31" by simp
  have lo: "- (2 ^ 31) \<le> uint p" by (rule order_trans [of _ 0]) simp_all
  have "sint p = uint p" unfolding sint_uint using signed_take_bit_int_eq_self [of 31 "uint p"] lo hi by simp
  then show ?thesis by (simp add: as_pid_t_def)
qed

lemma as_pid_t_max: "as_pid_t 4294967295 = - 1"
  by (simp add: as_pid_t_def)

end
