(* ===== verification/Registry.thy ===== *)
theory Registry
  imports Executor
begin

text \<open>
  The registries (\<open>mgd/src/executor/registry.rs\<close>): which processes the daemon froze, with the start
  time that identifies them, and which it checkpointed. Each change is written to the state file; the
  file's content is the map itself (the JSON encoding is serde's).
\<close>

section \<open>The interface of a registry\<close>

locale pid_registry =
  fixes put :: "pid \<Rightarrow> 'v \<Rightarrow> 'r \<Rightarrow> 'r"
    and del :: "pid \<Rightarrow> 'r \<Rightarrow> 'r"
    and look :: "'r \<Rightarrow> pid \<Rightarrow> 'v option"
    and card_of :: "'r \<Rightarrow> nat"
    and wf :: "'r \<Rightarrow> bool"
  assumes look_put: "look (put p v r) q = (if q = p then Some v else look r q)"
    and look_del: "look (del p r) q = (if q = p then None else look r q)"
    and wf_put: "wf r \<Longrightarrow> wf (put p v r)"
    and wf_del: "wf r \<Longrightarrow> wf (del p r)"
    and card_del: "wf r \<Longrightarrow> look r p \<noteq> None \<Longrightarrow> card_of r = Suc (card_of (del p r))"
    and card_del_le: "card_of (del p r) \<le> card_of r"
begin

definition del_all :: "pid list \<Rightarrow> 'r \<Rightarrow> 'r" where
  "del_all ps r = foldl (\<lambda>r p. del p r) r ps"

lemma look_del_all: "look (del_all ps r) q = (if q \<in> set ps then None else look r q)"
  by (induction ps arbitrary: r) (auto simp: del_all_def look_del)

lemma wf_del_all: "wf r \<Longrightarrow> wf (del_all ps r)"
  by (induction ps arbitrary: r) (auto simp: del_all_def wf_del)

lemma card_del_all: "wf r \<Longrightarrow> distinct ps \<Longrightarrow> (\<forall>p \<in> set ps. look r p \<noteq> None) \<Longrightarrow>
    card_of r = length ps + card_of (del_all ps r)"
proof (induction ps arbitrary: r)
  case (Cons p ps)
  then have "\<forall>q \<in> set ps. look (del p r) q \<noteq> None" by (auto simp: look_del)
  with Cons wf_del [of r p] card_del [of r p] show ?case by (auto simp: del_all_def)
qed (simp add: del_all_def)

lemma put_del_commute: "p \<noteq> q \<Longrightarrow> look (put p v (del q r)) x = look (del q (put p v r)) x"
  by (simp add: look_put look_del)

end

section \<open>Frozen processes\<close>

definition frozen_put :: "pid \<Rightarrow> string \<times> u64 \<times> u64 \<Rightarrow> frozen_map \<Rightarrow> frozen_map" where
  "frozen_put p e m = hm_insert p e m"

definition frozen_del :: "pid \<Rightarrow> frozen_map \<Rightarrow> frozen_map" where
  "frozen_del p m = hm_remove p m"

definition frozen_save :: "frozen_map \<Rightarrow> sys \<Rightarrow> sys" where
  "frozen_save m s = emit (PersistedFrozen m) (tick s)"

definition state_file :: "string \<Rightarrow> sys \<Rightarrow> string" where
  "state_file name s = home_dir s @ ''/.local/share/mgd/state/'' @ name"

text \<open>Loading takes serde's parser as a parameter; anything unreadable is the empty registry.\<close>

definition registry_load :: "(string \<Rightarrow> ('k \<times> 'v) list option) \<Rightarrow> string \<Rightarrow> sys \<Rightarrow> ('k \<times> 'v) list \<times> sys" where
  "registry_load parse name s =
     (case os_read (state_file name s) s of
        (Some data, s1) \<Rightarrow> ((case parse data of Some m \<Rightarrow> m | None \<Rightarrow> []), s1)
      | (None, s1) \<Rightarrow> ([], s1))"

definition frozen_add :: "pid \<Rightarrow> string \<Rightarrow> frozen_map \<Rightarrow> sys \<Rightarrow> bool \<times> frozen_map \<times> sys" where
  "frozen_add p name m s =
     (case start_time_of p s of
        (None, s1) \<Rightarrow> (False, m, s1)
      | (Some start_time, s1) \<Rightarrow>
          (let (now, s2) = os_unix s1; m' = frozen_put p (name, now, start_time) m
           in (True, m', frozen_save m' s2)))"

definition frozen_remove :: "pid \<Rightarrow> frozen_map \<Rightarrow> sys \<Rightarrow> frozen_map \<times> sys" where
  "frozen_remove p m s =
     (if hm_contains m p then (let m' = frozen_del p m in (m', frozen_save m' s)) else (m, s))"

definition frozen_pids :: "frozen_map \<Rightarrow> pid list" where
  "frozen_pids m = hm_keys m"

definition frozen_at :: "frozen_map \<Rightarrow> pid \<Rightarrow> u64" where
  "frozen_at m p = (case hm_get m p of None \<Rightarrow> 0 | Some (_, ts, _) \<Rightarrow> ts)"

definition frozen_name :: "frozen_map \<Rightarrow> pid \<Rightarrow> string" where
  "frozen_name m p = (case hm_get m p of None \<Rightarrow> [] | Some (n, _, _) \<Rightarrow> n)"

definition frozen_start :: "frozen_map \<Rightarrow> pid \<Rightarrow> u64" where
  "frozen_start m p = (case hm_get m p of None \<Rightarrow> 0 | Some (_, _, st) \<Rightarrow> st)"

definition is_frozen :: "frozen_map \<Rightarrow> pid \<Rightarrow> bool" where
  "is_frozen m p = hm_contains m p"

definition frozen_count :: "frozen_map \<Rightarrow> nat" where
  "frozen_count m = length m"

definition frozen_list :: "frozen_map \<Rightarrow> (pid \<times> string \<times> u64) list" where
  "frozen_list m = map (\<lambda>(p, n, ts, _). (p, n, ts)) m"

section \<open>Checkpointed processes\<close>

definition checkpoint_put :: "pid \<Rightarrow> string \<times> string \<times> kb \<times> u32 \<Rightarrow> checkpoint_map \<Rightarrow> checkpoint_map" where
  "checkpoint_put p e m = hm_insert p e m"

definition checkpoint_del :: "pid \<Rightarrow> checkpoint_map \<Rightarrow> checkpoint_map" where
  "checkpoint_del p m = hm_remove p m"

definition checkpoint_save :: "checkpoint_map \<Rightarrow> sys \<Rightarrow> sys" where
  "checkpoint_save m s = emit (PersistedCheckpoint m) (tick s)"

definition checkpoint_add :: "pid \<Rightarrow> string \<Rightarrow> string \<Rightarrow> kb \<Rightarrow> checkpoint_map \<Rightarrow> sys \<Rightarrow> checkpoint_map \<times> sys" where
  "checkpoint_add p name dir rss m s =
     (let m' = checkpoint_put p (name, dir, rss, 0) m in (m', checkpoint_save m' s))"

definition checkpoint_remove :: "pid \<Rightarrow> checkpoint_map \<Rightarrow> sys \<Rightarrow> checkpoint_map \<times> sys" where
  "checkpoint_remove p m s =
     (if hm_contains m p then (let m' = checkpoint_del p m in (m', checkpoint_save m' s)) else (m, s))"

definition increment_attempts :: "pid \<Rightarrow> checkpoint_map \<Rightarrow> sys \<Rightarrow> checkpoint_map \<times> sys" where
  "increment_attempts p m s =
     (case hm_get m p of
        None \<Rightarrow> (m, s)
      | Some (n, d, rss, attempts) \<Rightarrow>
          (let m' = checkpoint_put p (n, d, rss, attempts + 1) m in (m', checkpoint_save m' s)))"

definition entries_lightest_first :: "checkpoint_map \<Rightarrow> (pid \<times> string \<times> string \<times> kb \<times> u32) list" where
  "entries_lightest_first m = sort_by (\<lambda>(_, _, _, a, _) (_, _, _, b, _). a \<le> b) m"

definition checkpoint_count :: "checkpoint_map \<Rightarrow> nat" where
  "checkpoint_count m = length m"

section \<open>Both registries keep the contract\<close>

interpretation frozen_reg: pid_registry frozen_put frozen_del hm_get frozen_count hm_ok
  by unfold_locales
     (auto simp: frozen_put_def frozen_del_def frozen_count_def hm_simps hm_length_remove_le
        intro!: hm_length_remove simp: hm_contains_get)

interpretation checkpoint_reg: pid_registry checkpoint_put checkpoint_del hm_get checkpoint_count hm_ok
  by unfold_locales
     (auto simp: checkpoint_put_def checkpoint_del_def checkpoint_count_def hm_simps hm_length_remove_le
        intro!: hm_length_remove simp: hm_contains_get)

lemmas registry_simps = is_frozen_def hm_contains_get frozen_reg.look_put frozen_reg.look_del
  checkpoint_reg.look_put checkpoint_reg.look_del

text \<open>A process is recorded exactly when its start time could be read, and then with that start time.\<close>

lemma frozen_add_result:
  assumes "frozen_add p name m s = (ok, m', s')"
  shows "ok \<longleftrightarrow> fst (start_time_of p s) \<noteq> None"
    and "\<not> ok \<Longrightarrow> m' = m"
    and "ok \<Longrightarrow> is_frozen m' p \<and> frozen_name m' p = name \<and> Some (frozen_start m' p) = fst (start_time_of p s)"
    and "q \<noteq> p \<Longrightarrow> hm_get m' q = hm_get m q"
    and "hm_ok m \<Longrightarrow> hm_ok m'"
  using assms
  by (auto simp: frozen_add_def registry_simps frozen_name_def frozen_start_def Let_def frozen_reg.wf_put
      split: prod.splits option.splits)

lemma frozen_add_trace:
  assumes "frozen_add p name m s = (ok, m', s')"
  shows "sys_trace s' = sys_trace s @ (if ok then [PersistedFrozen m'] else [])"
  using assms
  by (auto simp: frozen_add_def frozen_save_def os_unix_def Let_def dest: start_time_pair
      split: prod.splits option.splits)

lemma frozen_remove_result:
  assumes "frozen_remove p m s = (m', s')"
  shows "hm_get m' q = (if q = p then None else hm_get m q)"
    and "hm_ok m \<Longrightarrow> hm_ok m'"
    and "sys_trace s' = sys_trace s @ (if is_frozen m p then [PersistedFrozen m'] else [])"
    and "hm_ok m \<Longrightarrow> frozen_count m = frozen_count m' + (if is_frozen m p then 1 else 0)"
  using assms frozen_reg.card_del [of m p] hm_contains_get [of m p]
  by (auto simp: frozen_remove_def is_frozen_def frozen_reg.look_del frozen_save_def frozen_reg.wf_del Let_def
      simp del: not_None_eq not_Some_eq split: if_splits)

text \<open>
  The state file follows the registry: after any operation the last map written is the one in
  memory, if it was so before; a file that was never written reads as the empty map. A restarted
  daemon finds what the last one knew.
\<close>

fun persisted_frozen :: "effect \<Rightarrow> frozen_map option" where
  "persisted_frozen (PersistedFrozen m) = Some m"
| "persisted_frozen _ = None"

definition last_saved :: "sys \<Rightarrow> frozen_map option" where
  "last_saved s = (case rev (List.map_filter persisted_frozen (sys_trace s)) of [] \<Rightarrow> Some [] | m # _ \<Rightarrow> Some m)"

lemma last_saved_append:
  "sys_trace s' = sys_trace s @ es \<Longrightarrow> last_saved s' =
     (case rev (List.map_filter persisted_frozen es) of [] \<Rightarrow> last_saved s | m # _ \<Rightarrow> Some m)"
  by (auto simp: last_saved_def map_filter_def split: list.splits)

definition not_saved :: "effect \<Rightarrow> bool" where
  "not_saved e \<longleftrightarrow> persisted_frozen e = None"

lemma saved_frame: "extends not_saved s s' \<Longrightarrow> last_saved s' = last_saved s"
proof -
  assume "extends not_saved s s'"
  then obtain es where es: "sys_trace s' = sys_trace s @ es" "\<forall>e \<in> set es. persisted_frozen e = None"
    by (auto simp: extends_def not_saved_def)
  from es(2) have "List.map_filter persisted_frozen es = []" by (auto simp: map_filter_def filter_empty_conv)
  then show ?thesis using last_saved_append [OF es(1)] by simp
qed

lemma signals_not_saved: "only_signals t sg e \<Longrightarrow> not_saved e"
  by (cases e) (auto simp: only_signals_def not_saved_def)

lemma signals_saved: "extends (only_signals t sg) s s' \<Longrightarrow> last_saved s' = last_saved s"
  by (rule saved_frame) (erule extends_mono, rule signals_not_saved)

lemma frozen_add_synced:
  assumes "last_saved s = Some m" "frozen_add p name m s = (ok, m', s')"
  shows "last_saved s' = Some m'"
  using last_saved_append [OF frozen_add_trace [OF assms(2)]] frozen_add_result(2) [OF assms(2)] assms(1)
  by (auto simp: map_filter_def)

lemma frozen_remove_synced:
  assumes "last_saved s = Some m" "frozen_remove p m s = (m', s')"
  shows "last_saved s' = Some m'"
proof (cases "is_frozen m p")
  case True
  then show ?thesis using last_saved_append [OF frozen_remove_result(3) [OF assms(2)]]
    by (auto simp: map_filter_def)
next
  case False
  with assms show ?thesis by (simp add: frozen_remove_def is_frozen_def)
qed

text \<open>The restore queue is the registry, lightest first.\<close>

lemma lightest_first:
  "mset (entries_lightest_first m) = mset m"
  "sorted_wrt (\<lambda>(_, _, _, a, _) (_, _, _, b, _). a \<le> b) (entries_lightest_first m)"
  unfolding entries_lightest_first_def
  by (rule mset_sort_by, rule sorted_sort_by) auto

lemma increment_attempts_result:
  assumes "increment_attempts p m s = (m', s')"
  shows "hm_get m' q = (if q = p then map_option (\<lambda>(n, d, r, a). (n, d, r, a + 1)) (hm_get m p) else hm_get m q)"
  using assms by (auto simp: increment_attempts_def registry_simps Let_def split: option.splits prod.splits)

end
