(* ===== verification/Checkpoint.thy ===== *)
theory Checkpoint
  imports Registry
begin

text \<open>
  Checkpoint and restore through the helper (\<open>mgd/src/executor/checkpoint.rs\<close>): when a process may
  be checkpointed at all, the dump followed by SIGKILL, the restore, and what a failure disables.
\<close>

definition mark_binary_failed :: "string \<Rightarrow> sys \<Rightarrow> sys" where
  "mark_binary_failed name s = s\<lparr>sys_failed_binaries := List.insert name (sys_failed_binaries s)\<rparr>"

definition disable_checkpoint :: "sys \<Rightarrow> sys" where
  "disable_checkpoint s = s\<lparr>sys_checkpoint_disabled := True\<rparr>"

text \<open>The path is probed once and remembered, the absence too.\<close>

definition probe_helper :: "sys \<Rightarrow> string option \<times> sys" where
  "probe_helper s =
     (case os_executable ''/usr/local/bin/mgd-checkpoint'' s of
        (True, s1) \<Rightarrow> (Some ''/usr/local/bin/mgd-checkpoint'', s1)
      | (False, s1) \<Rightarrow>
          (let local_path = home_dir s1 @ ''/.local/bin/mgd-checkpoint'' in
           case os_executable local_path s1 of
             (True, s2) \<Rightarrow> (Some local_path, s2)
           | (False, s2) \<Rightarrow> (None, s2)))"

definition helper_path :: "sys \<Rightarrow> string option \<times> sys" where
  "helper_path s =
     (let (path, s1) = (case sys_helper_path s of
            Some p \<Rightarrow> (p, s)
          | None \<Rightarrow> (let (p, s1) = probe_helper s in (p, s1\<lparr>sys_helper_path := Some p\<rparr>)))
      in (path, if path = None then disable_checkpoint s1 else s1))"

definition is_checkpoint_supported :: "sys \<Rightarrow> bool \<times> sys" where
  "is_checkpoint_supported s = (let (_, s1) = helper_path s in (\<not> sys_checkpoint_disabled s1, s1))"

definition is_checkpoint_eligible :: "string \<Rightarrow> sys \<Rightarrow> bool \<times> sys" where
  "is_checkpoint_eligible name s =
     (let (ok, s1) = is_checkpoint_supported s in (ok \<and> name \<notin> set (sys_failed_binaries s1), s1))"

definition looks_like_privilege_error :: "string \<Rightarrow> bool" where
  "looks_like_privilege_error stderr =
     (let s = to_ascii_lowercase stderr in
      contains_str ''operation not permitted'' s
      \<or> contains_str ''eperm'' s
      \<or> contains_str ''cap_sys_ptrace'' s
      \<or> contains_str ''cap_checkpoint_restore'' s
      \<or> contains_str ''permission denied'' s
      \<or> (contains_str ''ptrace'' s \<and> contains_str ''denied'' s)
      \<or> contains_str ''security error'' s
      \<or> contains_str ''capability warning'' s)"

datatype checkpoint_error = MkdirFailed | HelperNotFound | KillAfterDumpFailed | LacksPrivilege string
  | DumpFailed string | HelperNotRun

record checkpoint_result =
  cpr_pid :: pid
  cpr_success :: bool
  cpr_snapshot_dir :: "string option"
  cpr_error :: "checkpoint_error option"

definition checkpoint_ok :: "pid \<Rightarrow> string \<Rightarrow> checkpoint_result" where
  "checkpoint_ok p dir = \<lparr>cpr_pid = p, cpr_success = True, cpr_snapshot_dir = Some dir, cpr_error = None\<rparr>"

definition checkpoint_err :: "pid \<Rightarrow> checkpoint_error \<Rightarrow> checkpoint_result" where
  "checkpoint_err p e = \<lparr>cpr_pid = p, cpr_success = False, cpr_snapshot_dir = None, cpr_error = Some e\<rparr>"

text \<open>The name of a process may hold any character; in the directory's name only letters, digits and
three signs are kept, and at most 32 of them.\<close>

definition is_ascii_alphanumeric :: "char \<Rightarrow> bool" where
  "is_ascii_alphanumeric c =
     (let n = of_char c :: nat in is_digit c \<or> (65 \<le> n \<and> n \<le> 90) \<or> (97 \<le> n \<and> n \<le> 122))"

definition safe_char :: "char \<Rightarrow> char" where
  "safe_char c =
     (if is_ascii_alphanumeric c \<or> c = CHR ''-'' \<or> c = CHR ''_'' \<or> c = CHR ''.'' then c else CHR ''_'')"

definition safe_name :: "string \<Rightarrow> string" where
  "safe_name name = take 32 (map safe_char name)"

definition snapshot_dir :: "pid \<Rightarrow> string \<Rightarrow> sys \<Rightarrow> string" where
  "snapshot_dir p name s =
     home_dir s @ ''/.local/share/mgd/snapshots/'' @ show_pid p @ ''_'' @ safe_name name"

definition privilege_failure :: "int option \<Rightarrow> string \<Rightarrow> bool" where
  "privilege_failure code stderr = (looks_like_privilege_error stderr \<or> code = Some 2)"

definition checkpoint :: "pid \<Rightarrow> string \<Rightarrow> sys \<Rightarrow> checkpoint_result \<times> sys" where
  "checkpoint p name s =
     (let dir = snapshot_dir p name s in
      case os_mkdir dir s of
        (False, s1) \<Rightarrow> (checkpoint_err p MkdirFailed, s1)
      | (True, s1) \<Rightarrow>
          (case helper_path s1 of
             (None, s2) \<Rightarrow> (checkpoint_err p HelperNotFound, os_remove_dir dir s2)
           | (Some helper, s2) \<Rightarrow>
               (case os_run [helper, ''dump'', show_pid p, dir] s2 of
                  (RunFailed, s3) \<Rightarrow> (checkpoint_err p HelperNotRun, s3)
                | (RunExit code stderr, s3) \<Rightarrow>
                    (if code = Some 0 then
                       (case os_kill (as_pid_t p) SIGKILL s3 of
                          (Some e, s4) \<Rightarrow>
                            if e \<noteq> ESRCH then (checkpoint_err p KillAfterDumpFailed, s4)
                            else (checkpoint_ok p dir, s4)
                        | (None, s4) \<Rightarrow> (checkpoint_ok p dir, s4))
                     else
                       (let s4 = os_remove_dir dir s3; priv = privilege_failure code stderr;
                            s5 = (if priv then disable_checkpoint s4 else s4)
                        in (checkpoint_err p (if priv then LacksPrivilege stderr else DumpFailed stderr), s5))))))"

datatype restore_error = SnapshotMissing | RestoreHelperNotFound | RestoreLacksPrivilege string
  | RestoreFailed string | RestoreNotRun

definition restore :: "string \<Rightarrow> sys \<Rightarrow> restore_error option \<times> sys" where
  "restore dir s =
     (case os_exists dir s of
        (False, s1) \<Rightarrow> (Some SnapshotMissing, s1)
      | (True, s1) \<Rightarrow>
          (case helper_path s1 of
             (None, s2) \<Rightarrow> (Some RestoreHelperNotFound, s2)
           | (Some helper, s2) \<Rightarrow>
               (case os_run [helper, ''restore'', dir] s2 of
                  (RunFailed, s3) \<Rightarrow> (Some RestoreNotRun, s3)
                | (RunExit code stderr, s3) \<Rightarrow>
                    (if code = Some 0 then (None, s3)
                     else (Some (if privilege_failure code stderr then RestoreLacksPrivilege stderr
                                 else RestoreFailed stderr), s3)))))"

section \<open>Facts about checkpoints\<close>

text \<open>The name of the snapshot directory is one path component: no slash survives.\<close>

lemma safe_char_no_slash: "safe_char c \<noteq> CHR ''/''"
  by (auto simp: safe_char_def is_ascii_alphanumeric_def is_digit_def Let_def)

lemma safe_name_component: "CHR ''/'' \<notin> set (safe_name name)" "length (safe_name name) \<le> 32"
  using safe_char_no_slash by (fastforce simp: safe_name_def dest!: in_set_takeD) (simp add: safe_name_def)

text \<open>What a checkpoint does to the system: it makes and removes its own directory, runs the helper
on the process, and the only signal is a SIGKILL to that process, after a successful dump.\<close>

definition checkpoint_effect :: "pid \<Rightarrow> string \<Rightarrow> effect \<Rightarrow> bool" where
  "checkpoint_effect p dir e = (case e of
     MadeDir d \<Rightarrow> d = dir
   | RemovedDir d \<Rightarrow> d = dir
   | Ran args \<Rightarrow> drop 1 args = [''dump'', show_pid p, dir]
   | Signalled t sig _ \<Rightarrow> t = as_pid_t p \<and> sig = SIGKILL
   | _ \<Rightarrow> False)"

lemma trace_disable [simp]: "sys_trace (disable_checkpoint s) = sys_trace s"
  by (simp add: disable_checkpoint_def)

lemma trace_mark_failed [simp]: "sys_trace (mark_binary_failed name s) = sys_trace s"
  by (simp add: mark_binary_failed_def)

lemma probe_helper_trace: "sys_trace (snd (probe_helper s)) = sys_trace s"
  by (simp add: probe_helper_def os_executable_def Let_def split: bool.splits)

lemma helper_path_trace: "helper_path s = (h, s1) \<Longrightarrow> sys_trace s1 = sys_trace s"
  using probe_helper_trace [of s]
  by (auto simp: helper_path_def Let_def split: option.splits prod.splits if_splits)

lemma checkpoint_extends: "extends (checkpoint_effect p (snapshot_dir p name s)) s (snd (checkpoint p name s))"
  by (auto simp: checkpoint_def Let_def os_mkdir_def os_run_def os_kill_def os_remove_dir_def
      extends_def checkpoint_effect_def dest!: helper_path_trace
      split: bool.splits option.splits prod.splits run_result.splits if_splits)

lemma checkpoint_success:
  assumes "checkpoint p name s = (r, s')" "cpr_success r"
  shows "cpr_snapshot_dir r = Some (snapshot_dir p name s)"
    and "\<exists>r. Signalled (as_pid_t p) SIGKILL r \<in> set (sys_trace s') \<and> (r = None \<or> r = Some ESRCH)"
    and "\<exists>h. Ran [h, ''dump'', show_pid p, snapshot_dir p name s] \<in> set (sys_trace s')"
  using assms
  by (auto simp: checkpoint_def Let_def os_mkdir_def os_run_def os_kill_def os_remove_dir_def
      checkpoint_ok_def checkpoint_err_def dest!: helper_path_trace
      split: bool.splits option.splits prod.splits run_result.splits if_splits)

text \<open>A failed attempt leaves the process alone unless the dump succeeded but the kill did not.\<close>

lemma checkpoint_failure_no_signal:
  assumes "checkpoint p name s = (r, s')" "\<not> cpr_success r" "cpr_error r \<noteq> Some KillAfterDumpFailed"
  shows "extends (\<lambda>e. \<forall>t sig x. e \<noteq> Signalled t sig x) s s'"
  using assms
  by (auto simp: checkpoint_def Let_def os_mkdir_def os_run_def os_kill_def os_remove_dir_def
      checkpoint_ok_def checkpoint_err_def extends_def dest!: helper_path_trace
      split: bool.splits option.splits prod.splits run_result.splits if_splits)

text \<open>Without the helper, checkpointing is off for the rest of the session.\<close>

lemma helper_absent_disables: "helper_path s = (None, s1) \<Longrightarrow> sys_checkpoint_disabled s1"
  by (auto simp: helper_path_def disable_checkpoint_def Let_def split: option.splits prod.splits if_splits)

lemma not_supported_stays:
  assumes "sys_checkpoint_disabled s"
  shows "\<not> fst (is_checkpoint_eligible name s)"
  using assms
  by (auto simp: is_checkpoint_eligible_def is_checkpoint_supported_def helper_path_def disable_checkpoint_def
      probe_helper_def os_executable_def tick_def Let_def split: option.splits prod.splits bool.splits)

lemma failed_binary_not_eligible: "\<not> fst (is_checkpoint_eligible name (mark_binary_failed name s))"
  by (auto simp: is_checkpoint_eligible_def is_checkpoint_supported_def helper_path_def disable_checkpoint_def
      mark_binary_failed_def probe_helper_def os_executable_def tick_def Let_def
      split: option.splits prod.splits bool.splits)

end
