(* ===== verification/Cgroup.thy ===== *)
theory Cgroup
  imports Executor
begin

text \<open>
  Writes to the control group file system: reclaiming memory from a leaf group
  (\<open>mgd/src/evictor/reclaim_primitive.rs\<close>), CPU weight and quota, and memory caps (the file
  functions of \<open>mgd/src/throttle.rs\<close>).
\<close>

definition path_join :: "string \<Rightarrow> string \<Rightarrow> string" where
  "path_join a b =
     (if starts_with ''/'' b then b
      else if a = [] \<or> ends_with ''/'' a then a @ b
      else a @ ''/'' @ b)"

definition cgroup_sysfs_path :: "string \<Rightarrow> string \<Rightarrow> string" where
  "cgroup_sysfs_path cgroup attr =
     path_join (path_join ''/sys/fs/cgroup'' (dropWhile (\<lambda>c. c = CHR ''/'') cgroup)) attr"

section \<open>Reclaim\<close>

text \<open>A directory that cannot be read counts as a leaf.\<close>

definition is_cgroup_leaf :: "string \<Rightarrow> sys \<Rightarrow> bool \<times> sys" where
  "is_cgroup_leaf cgroup s =
     (let (r, s1) = os_has_subdir (cgroup_sysfs_path cgroup []) s
      in ((case r of Some has \<Rightarrow> \<not> has | None \<Rightarrow> True), s1))"

definition reclaim_cgroup :: "string \<Rightarrow> u64 \<Rightarrow> sys \<Rightarrow> (io_error + bool) \<times> sys" where
  "reclaim_cgroup cgroup bytes s =
     (if bytes = 0 then (Inr False, s)
      else if cgroup = ''/'' \<or> cgroup = [] then (Inl PermissionDenied, s)
      else
        (case is_cgroup_leaf cgroup s of
           (False, s1) \<Rightarrow> (Inr False, s1)
         | (True, s1) \<Rightarrow>
             (let path = cgroup_sysfs_path cgroup ''memory.reclaim'' in
              case os_exists path s1 of
                (False, s2) \<Rightarrow> (Inl NotFound, s2)
              | (True, s2) \<Rightarrow>
                  (case os_write path (show_nat (unat bytes)) s2 of
                     (None, s3) \<Rightarrow> (Inr True, s3)
                   | (Some e, s3) \<Rightarrow> (if e = PermissionDenied then Inr False else Inl e, s3)))))"

datatype reclaim_outcome = Reclaimed | ReclaimSkipped | ReclaimBlocked | ReclaimFailed io_error

definition try_reclaim_cgroup :: "string \<Rightarrow> u64 \<Rightarrow> sys \<Rightarrow> reclaim_outcome \<times> sys" where
  "try_reclaim_cgroup cgroup bytes s =
     (let (r, s1) = reclaim_cgroup cgroup bytes s in
      ((case r of
          Inr True \<Rightarrow> Reclaimed
        | Inr False \<Rightarrow> ReclaimSkipped
        | Inl e \<Rightarrow> if e = WouldBlock then ReclaimBlocked else ReclaimFailed e), s1))"

section \<open>Limits\<close>

definition write_if_exists :: "string \<Rightarrow> string \<Rightarrow> sys \<Rightarrow> io_error option \<times> sys" where
  "write_if_exists path data s =
     (case os_exists path s of
        (True, s1) \<Rightarrow> os_write path data s1
      | (False, s1) \<Rightarrow> (Some NotFound, s1))"

definition write_cgroup_cpu_weight :: "string \<Rightarrow> u32 \<Rightarrow> sys \<Rightarrow> io_error option \<times> sys" where
  "write_cgroup_cpu_weight cgroup weight s =
     write_if_exists (cgroup_sysfs_path cgroup ''cpu.weight'') (show_nat (unat weight)) s"

definition write_cgroup_cpu_max :: "string \<Rightarrow> string \<Rightarrow> sys \<Rightarrow> io_error option \<times> sys" where
  "write_cgroup_cpu_max cgroup limit s =
     write_if_exists (cgroup_sysfs_path cgroup ''cpu.max'') limit s"

definition restore_cgroup_cpu :: "string \<Rightarrow> sys \<Rightarrow> sys" where
  "restore_cgroup_cpu cgroup s =
     snd (write_cgroup_cpu_max cgroup ''max 100000'' (snd (write_cgroup_cpu_weight cgroup 100 s)))"

definition write_memory_max :: "string \<Rightarrow> u64 \<Rightarrow> sys \<Rightarrow> io_error option \<times> sys" where
  "write_memory_max cgroup bytes s =
     write_if_exists (cgroup_sysfs_path cgroup ''memory.max'') (show_nat (unat bytes) @ [CHR 0x0A]) s"

definition restore_cgroup_memory :: "string \<Rightarrow> sys \<Rightarrow> sys" where
  "restore_cgroup_memory cgroup s =
     snd (write_if_exists (cgroup_sysfs_path cgroup ''memory.max'') (''max'' @ [CHR 0x0A]) s)"

section \<open>Facts about the writes\<close>

definition writes_only :: "string \<Rightarrow> effect \<Rightarrow> bool" where
  "writes_only path e = (case e of Wrote p _ _ \<Rightarrow> p = path | _ \<Rightarrow> False)"

definition is_write :: "effect \<Rightarrow> bool" where
  "is_write e = (case e of Wrote _ _ _ \<Rightarrow> True | _ \<Rightarrow> False)"

lemma writes_only_is_write: "writes_only path e \<Longrightarrow> is_write e"
  by (simp add: writes_only_def is_write_def split: effect.splits)

lemma reclaim_extends:
  "extends (writes_only (cgroup_sysfs_path cgroup ''memory.reclaim'')) s (snd (reclaim_cgroup cgroup bytes s))"
  by (auto simp: reclaim_cgroup_def is_cgroup_leaf_def os_defs Let_def extends_def writes_only_def
      split: option.splits prod.splits bool.splits)

lemma try_reclaim_extends:
  "extends (writes_only (cgroup_sysfs_path cgroup ''memory.reclaim'')) s (snd (try_reclaim_cgroup cgroup bytes s))"
  using reclaim_extends [of cgroup s bytes] by (simp add: try_reclaim_cgroup_def case_prod_unfold Let_def)

lemma write_if_exists_extends: "extends (writes_only path) s (snd (write_if_exists path data s))"
  by (auto simp: write_if_exists_def os_defs Let_def extends_def writes_only_def split: prod.splits bool.splits)

lemma limit_extends [ext]:
  "extends is_write s (snd (write_cgroup_cpu_weight cgroup w s))"
  "extends is_write s (snd (write_cgroup_cpu_max cgroup limit s))"
  "extends is_write s (snd (write_memory_max cgroup bytes s))"
  "extends is_write s (restore_cgroup_memory cgroup s)"
  "extends is_write s (snd (reclaim_cgroup cgroup bytes s))"
  "extends is_write s (snd (try_reclaim_cgroup cgroup bytes s))"
  unfolding write_cgroup_cpu_weight_def write_cgroup_cpu_max_def write_memory_max_def restore_cgroup_memory_def
  by (rule extends_mono [OF write_if_exists_extends] extends_mono [OF reclaim_extends]
      extends_mono [OF try_reclaim_extends], erule writes_only_is_write)+

lemma restore_cpu_extends [ext]: "extends is_write s (restore_cgroup_cpu cgroup s)"
  unfolding restore_cgroup_cpu_def by (rule extends_trans) (rule ext)+

text \<open>The root group and an empty amount are never written, and a group with children is left alone.\<close>

lemma reclaim_guard:
  assumes "bytes = 0 \<or> cgroup = ''/'' \<or> cgroup = [] \<or> fst (os_has_subdir (cgroup_sysfs_path cgroup []) s) = Some True"
  shows "sys_trace (snd (reclaim_cgroup cgroup bytes s)) = sys_trace s \<and> fst (reclaim_cgroup cgroup bytes s) \<noteq> Inr True"
  using assms
  by (auto simp: reclaim_cgroup_def is_cgroup_leaf_def os_defs Let_def split: option.splits prod.splits bool.splits)

lemma reclaim_true:
  assumes "fst (reclaim_cgroup cgroup bytes s) = Inr True"
  shows "sys_trace (snd (reclaim_cgroup cgroup bytes s)) =
    sys_trace s @ [Wrote (cgroup_sysfs_path cgroup ''memory.reclaim'') (show_nat (unat bytes)) None]"
  using assms
  by (auto simp: reclaim_cgroup_def is_cgroup_leaf_def os_defs Let_def
      split: option.splits prod.splits bool.splits if_splits)

end
