(* ===== verification/Execute.thy ===== *)
theory Execute
  imports Decision Checkpoint Cgroup
begin

text \<open>
  Plan execution (\<open>mgd/src/evictor/execute.rs\<close>, \<open>mgd/src/events.rs\<close>, the \<open>ActionSink\<close> of
  \<open>mgd/src/executor/mod.rs\<close>). The sink is the port for destructive effects. Its laws are the locale
  \<open>action_sink\<close>, and the production sink \<open>real_sink\<close> satisfies them.
\<close>

section \<open>The event log\<close>

datatype exec_outcome =
    OutFrozen
  | OutFreezeAborted "string option"
  | OutFreezeFailed string
  | OutTerminating
  | OutKilled
  | OutKillFailed string
  | OutCheckpointed string
  | OutCriuTerminating "checkpoint_error option"
  | OutCriuKilled "checkpoint_error option"
  | OutCriuKillFailed "string option"
  | OutNothing

datatype event_detail = EvOutcome exec_outcome plan_reason | EvLeak string | EvText string

record action_event =
  ev_timestamp :: u64
  ev_action :: log_action
  ev_pid :: pid
  ev_name :: string
  ev_detail :: event_detail

definition max_events :: nat where
  "max_events = 100"

definition push_event ::
  "log_action \<Rightarrow> pid \<Rightarrow> string \<Rightarrow> event_detail \<Rightarrow> action_event list \<Rightarrow> sys \<Rightarrow> action_event list \<times> sys" where
  "push_event a p name detail q s =
     (let (now, s1) = os_unix s;
          e = \<lparr>ev_timestamp = now, ev_action = a, ev_pid = p, ev_name = name, ev_detail = detail\<rparr>;
          q1 = (if max_events \<le> length q then tl q else q)
      in (q1 @ [e], s1))"

definition log_entry :: "log_action \<Rightarrow> pid \<Rightarrow> string \<Rightarrow> sys \<Rightarrow> sys" where
  "log_entry a p name s = emit (Logged a p name) (tick s)"

lemma push_event_bounded: "length q \<le> max_events \<Longrightarrow> length (fst (push_event a p n d q s)) \<le> max_events"
  by (auto simp: push_event_def Let_def max_events_def split: prod.split)

lemma push_event_last: "last (fst (push_event a p n d q s)) =
    \<lparr>ev_timestamp = fst (os_unix s), ev_action = a, ev_pid = p, ev_name = n, ev_detail = d\<rparr>"
  by (simp add: push_event_def Let_def split: prod.split)

lemma push_event_trace [simp]: "sys_trace (snd (push_event a p n d q s)) = sys_trace s"
  by (simp add: push_event_def os_unix_def Let_def)

section \<open>The sink\<close>

record action_sink =
  snk_freeze :: "pid \<Rightarrow> sys \<Rightarrow> op_result \<times> sys"
  snk_unfreeze :: "pid \<Rightarrow> sys \<Rightarrow> op_result \<times> sys"
  snk_terminate :: "pid \<Rightarrow> sys \<Rightarrow> op_result \<times> sys"
  snk_kill :: "pid \<Rightarrow> sys \<Rightarrow> op_result \<times> sys"
  snk_checkpoint :: "pid \<Rightarrow> string \<Rightarrow> sys \<Rightarrow> checkpoint_result \<times> sys"
  snk_reclaim :: "string \<Rightarrow> u64 \<Rightarrow> sys \<Rightarrow> (io_error + bool) \<times> sys"

definition real_freeze :: "pid \<Rightarrow> sys \<Rightarrow> op_result \<times> sys" where
  "real_freeze p s = (case start_time_of p s of
     (Some st, s1) \<Rightarrow> freeze_checked p st s1
   | (None, s1) \<Rightarrow> (op_fail ''process vanished before freeze'', s1))"

definition real_terminate :: "pid \<Rightarrow> sys \<Rightarrow> op_result \<times> sys" where
  \<comment> \<open>The killer runs on a thread of its own.\<close>
  "real_terminate p s = (op_success, emit (SpawnedSigterm p) (tick s))"

definition real_sink :: action_sink where
  "real_sink = \<lparr>snk_freeze = real_freeze, snk_unfreeze = unfreeze_pid, snk_terminate = real_terminate,
     snk_kill = kill_now, snk_checkpoint = checkpoint, snk_reclaim = reclaim_cgroup\<rparr>"

section \<open>One decision\<close>

record exec_state =
  xs_frozen :: frozen_map
  xs_checkpointed :: checkpoint_map
  xs_events :: "action_event list"
  xs_sys :: sys

definition freeze_process :: "action_sink \<Rightarrow> decision \<Rightarrow> frozen_map \<Rightarrow> sys \<Rightarrow> exec_outcome \<times> frozen_map \<times> sys" where
  "freeze_process snk d fm s =
     (let (r, s1) = snk_freeze snk (d_pid d) s in
      if opr_success r then
        (case frozen_add (d_pid d) (d_name d) fm s1 of
           (True, fm', s2) \<Rightarrow> (OutFrozen, fm', s2)
         | (False, fm', s2) \<Rightarrow> (OutFreezeAborted None, fm', snd (snk_unfreeze snk (d_pid d) s2)))
      else
        (let msg = (case opr_error r of None \<Rightarrow> [] | Some e \<Rightarrow> e) in
         if starts_with ''process vanished'' msg then (OutFreezeAborted (Some msg), fm, s1)
         else (OutFreezeFailed msg, fm, s1)))"

definition terminate_process :: "action_sink \<Rightarrow> decision \<Rightarrow> sys \<Rightarrow> exec_outcome \<times> sys" where
  "terminate_process snk d s = (OutTerminating, snd (snk_terminate snk (d_pid d) s))"

definition kill_process :: "action_sink \<Rightarrow> decision \<Rightarrow> sys \<Rightarrow> exec_outcome \<times> sys" where
  "kill_process snk d s =
     (let (r, s1) = snk_kill snk (d_pid d) s in
      ((case opr_error r of None \<Rightarrow> OutKilled | Some e \<Rightarrow> OutKillFailed e), s1))"

definition execute_checkpoint ::
  "action_sink \<Rightarrow> decision \<Rightarrow> checkpoint_map \<Rightarrow> sys \<Rightarrow> (log_action \<times> exec_outcome) \<times> checkpoint_map \<times> sys" where
  "execute_checkpoint snk d cm s =
     (let (r, s1) = snk_checkpoint snk (d_pid d) (d_name d) s in
      if cpr_success r then
        (let dir = (case cpr_snapshot_dir r of Some x \<Rightarrow> x | None \<Rightarrow> []);
             (cm', s2) = checkpoint_add (d_pid d) (d_name d) dir (d_rss d) cm s1
         in ((LaCheckpoint, OutCheckpointed dir), cm', s2))
      else
        (let s2 = mark_binary_failed (d_name d) s1 in
         if 60 \<le> d_prio d then
           ((LaTerminate, OutCriuTerminating (cpr_error r)), cm, snd (terminate_process snk d s2))
         else
           (let (kr, s3) = snk_kill snk (d_pid d) s2 in
            if opr_success kr then ((LaKill, OutCriuKilled (cpr_error r)), cm, s3)
            else ((LaKill, OutCriuKillFailed (opr_error kr)), cm, s3))))"

definition perform :: "action_sink \<Rightarrow> decision \<Rightarrow> exec_state \<Rightarrow> (log_action \<times> exec_outcome) option \<times> exec_state" where
  "perform snk d x = (case d_action d of
     ActNone \<Rightarrow> (None, x)
   | ActFreeze \<Rightarrow>
       (let (out, fm, s) = freeze_process snk d (xs_frozen x) (xs_sys x)
        in (Some (LaFreeze, out), x\<lparr>xs_frozen := fm, xs_sys := s\<rparr>))
   | ActTerminate \<Rightarrow>
       (let (out, s) = terminate_process snk d (xs_sys x) in (Some (LaTerminate, out), x\<lparr>xs_sys := s\<rparr>))
   | ActKill \<Rightarrow>
       (let (out, s) = kill_process snk d (xs_sys x) in (Some (LaKill, out), x\<lparr>xs_sys := s\<rparr>))
   | ActCheckpoint \<Rightarrow>
       (let (res, cm, s) = execute_checkpoint snk d (xs_checkpointed x) (xs_sys x)
        in (Some res, x\<lparr>xs_checkpointed := cm, xs_sys := s\<rparr>)))"

definition execute_decision :: "action_sink \<Rightarrow> decision \<Rightarrow> exec_state \<Rightarrow> exec_outcome \<times> exec_state" where
  "execute_decision snk d x = (case perform snk d x of
     (None, x1) \<Rightarrow> (OutNothing, x1)
   | (Some (la, out), x1) \<Rightarrow>
       (let (evs, s) = push_event la (d_pid d) (d_name d) (EvOutcome out (d_reason d)) (xs_events x1)
                         (log_entry la (d_pid d) (d_name d) (xs_sys x1))
        in (out, x1\<lparr>xs_events := evs, xs_sys := s\<rparr>)))"

section \<open>The plan\<close>

definition plan_proc :: "process list \<Rightarrow> pid \<Rightarrow> process option" where
  "plan_proc procs p = find (\<lambda>q. p_pid q = p) procs"

definition plan_cgroup :: "process list \<Rightarrow> pid \<Rightarrow> string option" where
  "plan_cgroup procs p = Option.bind (plan_proc procs p) p_cgroup_path"

definition post_freeze_reclaim :: "action_sink \<Rightarrow> process list \<Rightarrow> decision \<Rightarrow> exec_outcome \<Rightarrow> sys \<Rightarrow> sys" where
  "post_freeze_reclaim snk procs d out s =
     (if d_action d = ActFreeze \<and> out = OutFrozen then
        (case plan_cgroup procs (d_pid d) of
           None \<Rightarrow> s
         | Some cgroup \<Rightarrow>
             (case snk_reclaim snk cgroup (kb_bytes (d_rss d)) s of
                (Inr True, s1) \<Rightarrow> log_entry LaFreezeReclaim (d_pid d) (d_name d) s1
              | (_, s1) \<Rightarrow> s1))
      else s)"

definition cgroup_file :: "pid \<Rightarrow> string" where
  "cgroup_file p = ''/proc/'' @ show_pid p @ ''/cgroup''"

definition note_killed ::
  "process list \<Rightarrow> decision \<Rightarrow> (string, instant) hmap \<Rightarrow> sys \<Rightarrow> (string, instant) hmap \<times> sys" where
  "note_killed procs d killed s =
     (if d_action d = ActKill \<or> d_action d = ActTerminate then
        (let (cgroup, s1) = (case plan_cgroup procs (d_pid d) of
               Some c \<Rightarrow> (Some c, s)
             | None \<Rightarrow> (let (content, s1) = os_read (cgroup_file (d_pid d)) s
                       in (read_process_cgroup_path content, s1)))
         in case cgroup of
              None \<Rightarrow> (killed, s1)
            | Some c \<Rightarrow> (let (now, s2) = os_clock s1 in (hm_insert c now killed, s2)))
      else (killed, s))"

fun execute_plan ::
  "action_sink \<Rightarrow> process list \<Rightarrow> decision list \<Rightarrow> exec_state \<Rightarrow> (string, instant) hmap \<Rightarrow>
     nat \<times> exec_state \<times> (string, instant) hmap" where
  "execute_plan snk procs [] x killed = (0, x, killed)"
| "execute_plan snk procs (d # ds) x killed =
     (if is_frozen (xs_frozen x) (d_pid d) then execute_plan snk procs ds x killed
      else
        (let (out, x1) = execute_decision snk d x;
             x2 = x1\<lparr>xs_sys := post_freeze_reclaim snk procs d out (xs_sys x1)\<rparr>;
             (killed1, s3) = note_killed procs d killed (xs_sys x2);
             (n, x4, killed2) = execute_plan snk procs ds (x2\<lparr>xs_sys := s3\<rparr>) killed1
         in ((if d_action d = ActKill \<or> d_action d = ActCheckpoint then Suc n else n), x4, killed2)))"

section \<open>Stopped processes\<close>

text \<open>Whether the trace leaves a target stopped: a delivered SIGSTOP does, a SIGCONT undoes it.\<close>

definition stop_step :: "int \<Rightarrow> bool \<Rightarrow> effect \<Rightarrow> bool" where
  "stop_step t b e = (case e of
     Signalled t' sig r \<Rightarrow>
       if t' = t \<and> sig = SIGSTOP \<and> r = None then True
       else if t' = t \<and> sig = SIGCONT then False else b
   | _ \<Rightarrow> b)"

definition stopped :: "effect list \<Rightarrow> int \<Rightarrow> bool" where
  "stopped tr t = foldl (stop_step t) False tr"

definition stop_neutral :: "effect \<Rightarrow> bool" where
  "stop_neutral e = (case e of
     Signalled _ sig r \<Rightarrow> sig \<noteq> SIGSTOP \<or> r \<noteq> None
   | _ \<Rightarrow> True)"

definition no_orphans :: "frozen_map \<Rightarrow> sys \<Rightarrow> bool" where
  "no_orphans fm s \<longleftrightarrow> (\<forall>p. stopped (sys_trace s) (uint p) \<longrightarrow> is_frozen fm p)"

lemma stopped_append: "stopped (tr @ es) t = foldl (stop_step t) (stopped tr t) es"
  by (simp add: stopped_def)

lemma foldl_neutral: "\<forall>e \<in> set es. stop_neutral e \<Longrightarrow> foldl (stop_step t) b es \<Longrightarrow> b"
proof (induction es arbitrary: b)
  case (Cons e es)
  then have "stop_step t b e" by simp
  with Cons.prems(1) show ?case
    by (auto simp: stop_step_def stop_neutral_def split: effect.splits if_splits)
qed simp

lemma no_orphans_neutral: "no_orphans fm s \<Longrightarrow> extends stop_neutral s s' \<Longrightarrow> no_orphans fm s'"
  unfolding no_orphans_def extends_def
  by (metis foldl_neutral stopped_append)

lemma no_orphans_grow: "no_orphans fm s \<Longrightarrow> (\<And>p. is_frozen fm p \<Longrightarrow> is_frozen fm' p) \<Longrightarrow> no_orphans fm' s"
  by (simp add: no_orphans_def)

section \<open>The laws of a sink\<close>

definition effect_target :: "decision \<Rightarrow> effect \<Rightarrow> bool" where
  "effect_target d e = (case e of
     Signalled t _ _ \<Rightarrow> t = uint (d_pid d) \<or> t = as_pid_t (d_pid d)
   | SpawnedSigterm p \<Rightarrow> p = d_pid d
   | PersistedVictims _ \<Rightarrow> False
   | RemovedFile _ \<Rightarrow> False
   | _ \<Rightarrow> True)"

locale action_sink_laws =
  fixes snk :: action_sink
  assumes freeze_ok: "opr_success (fst (snk_freeze snk p s)) \<Longrightarrow>
      unat p < 2 ^ 31 \<and> sys_trace (snd (snk_freeze snk p s)) = sys_trace s @ [Signalled (uint p) SIGSTOP None]"
    and freeze_fail: "\<not> opr_success (fst (snk_freeze snk p s)) \<Longrightarrow>
      extends (\<lambda>e. stop_neutral e \<and> only_signals (uint p) {SIGSTOP} e) s (snd (snk_freeze snk p s))"
    and unfreeze: "unat p < 2 ^ 31 \<Longrightarrow>
      \<exists>r. sys_trace (snd (snk_unfreeze snk p s)) = sys_trace s @ [Signalled (uint p) SIGCONT r]"
    and terminate: "extends (\<lambda>e. e = SpawnedSigterm p) s (snd (snk_terminate snk p s))"
    and kill: "extends (only_signals (as_pid_t p) {SIGKILL}) s (snd (snk_kill snk p s))"
    and checkpoint: "\<exists>dir. extends (checkpoint_effect p dir) s (snd (snk_checkpoint snk p name s))"
    and reclaim: "extends is_write s (snd (snk_reclaim snk cgroup bytes s))"
begin

text \<open>A freeze that the registry could not record is rolled back.\<close>

lemma freeze_process_orphans:
  assumes "no_orphans fm s" "freeze_process snk d fm s = (out, fm', s')"
  shows "no_orphans fm' s'"
proof -
  let ?p = "d_pid d"
  obtain r s1 where 1: "snk_freeze snk ?p s = (r, s1)" by fastforce
  show ?thesis
  proof (cases "opr_success r")
    case False
    then have "extends stop_neutral s s1"
      using freeze_fail [of ?p s] 1 by (auto intro: extends_mono)
    then have "no_orphans fm s1" using assms(1) by (rule no_orphans_neutral [rotated])
    with assms(2) False show ?thesis by (auto simp: freeze_process_def 1 Let_def split: if_splits)
  next
    case True
    with freeze_ok [of ?p s] 1 have p: "unat ?p < 2 ^ 31"
        and t1: "sys_trace s1 = sys_trace s @ [Signalled (uint ?p) SIGSTOP None]" by auto
    obtain ok fm1 s2 where 2: "frozen_add ?p (d_name d) fm s1 = (ok, fm1, s2)" by (metis prod_cases3)
    note t2 = frozen_add_trace [OF 2]
    show ?thesis
    proof (cases ok)
      case True
      have "is_frozen fm1 q" if "stopped (sys_trace s2) (uint q)" for q
      proof (cases "q = ?p")
        case True
        then show ?thesis using frozen_add_result(3) [OF 2] \<open>ok\<close> by simp
      next
        case False
        then have "uint q \<noteq> uint ?p" by (simp add: word_uint_eq_iff)
        with that \<open>ok\<close> have "stopped (sys_trace s) (uint q)"
          by (simp add: t2 t1 stopped_append stop_step_def split: if_splits)
        then have "is_frozen fm q" using assms(1) by (simp add: no_orphans_def)
        then show ?thesis using frozen_add_result(4) [OF 2 False] by (simp add: is_frozen_def hm_contains_get)
      qed
      with True assms(2) \<open>opr_success r\<close> show ?thesis
        by (auto simp: freeze_process_def 1 2 no_orphans_def)
    next
      case False
      obtain x where t3: "sys_trace (snd (snk_unfreeze snk ?p s2)) = sys_trace s2 @ [Signalled (uint ?p) SIGCONT x]"
        using unfreeze [OF p] by blast
      have "is_frozen fm q" if "stopped (sys_trace (snd (snk_unfreeze snk ?p s2))) (uint q)" for q
        using that assms(1) False
        by (auto simp: t3 t2 t1 stopped_append stop_step_def no_orphans_def split: if_splits)
      then show ?thesis using False assms(2) \<open>opr_success r\<close> frozen_add_result(2) [OF 2]
        by (auto simp: freeze_process_def 1 2 no_orphans_def)
    qed
  qed
qed

lemma freeze_step_target: "extends (effect_target d) s (snd (snk_freeze snk (d_pid d) s))"
proof (cases "opr_success (fst (snk_freeze snk (d_pid d) s))")
  case True
  then show ?thesis using freeze_ok by (simp add: extends_def effect_target_def)
next
  case False
  show ?thesis
    by (rule extends_mono [OF freeze_fail [OF False]])
       (auto simp: effect_target_def only_signals_def split: effect.splits)
qed

lemma unfreeze_step_target:
  "unat (d_pid d) < 2 ^ 31 \<Longrightarrow> extends (effect_target d) s (snd (snk_unfreeze snk (d_pid d) s))"
  using unfreeze [of "d_pid d" s] by (auto simp: extends_def effect_target_def)

lemma freeze_process_targets:
  assumes "freeze_process snk d fm s = (out, fm', s')"
  shows "extends (effect_target d) s s'"
proof -
  let ?p = "d_pid d"
  obtain r s1 where 1: "snk_freeze snk ?p s = (r, s1)" by fastforce
  obtain ok fm1 s2 where 2: "frozen_add ?p (d_name d) fm s1 = (ok, fm1, s2)" by (metis prod_cases3)
  have e1: "extends (effect_target d) s s1" using freeze_step_target [of d s] by (simp add: 1)
  have "extends (effect_target d) s1 s2"
    using frozen_add_trace [OF 2] by (simp add: extends_def effect_target_def)
  with e1 have e2: "extends (effect_target d) s s2" by (rule extends_trans)
  show ?thesis
  proof (cases "opr_success r")
    case True
    then have "unat ?p < 2 ^ 31" using freeze_ok [of ?p s] by (simp add: 1)
    from extends_trans [OF e2 unfreeze_step_target [OF this]] True e2 assms show ?thesis
      by (cases ok) (auto simp: freeze_process_def 1 2)
  next
    case False
    then show ?thesis using assms e1 by (auto simp: freeze_process_def 1 Let_def split: if_splits)
  qed
qed

lemma terminate_target: "extends (\<lambda>e. stop_neutral e \<and> effect_target d e) s (snd (snk_terminate snk (d_pid d) s))"
  by (rule extends_mono [OF terminate]) (auto simp: effect_target_def stop_neutral_def)

lemma kill_target: "extends (\<lambda>e. stop_neutral e \<and> effect_target d e) s (snd (snk_kill snk (d_pid d) s))"
  by (rule extends_mono [OF kill])
     (auto simp: effect_target_def stop_neutral_def only_signals_def split: effect.splits)

lemma checkpoint_target:
  "extends (\<lambda>e. stop_neutral e \<and> effect_target d e) s (snd (snk_checkpoint snk (d_pid d) name s))"
  using checkpoint [of "d_pid d" s name]
  by (auto intro: extends_mono simp: checkpoint_effect_def effect_target_def stop_neutral_def split: effect.splits)

lemma execute_checkpoint_target:
  assumes "execute_checkpoint snk d cm s = (res, cm', s')"
  shows "extends (\<lambda>e. stop_neutral e \<and> effect_target d e) s s'"
proof -
  let ?P = "\<lambda>e. stop_neutral e \<and> effect_target d e"
  obtain r s1 where 1: "snk_checkpoint snk (d_pid d) (d_name d) s = (r, s1)" by fastforce
  let ?s2 = "mark_binary_failed (d_name d) s1"
  obtain kr s3 where 3: "snk_kill snk (d_pid d) ?s2 = (kr, s3)" by fastforce
  have e1: "extends ?P s s1" using checkpoint_target [of d s "d_name d"] by (simp add: 1)
  then have e2: "extends ?P s ?s2" by (simp add: extends_def)
  have "extends ?P ?s2 s3" using kill_target [of d ?s2] by (simp add: 3)
  with e2 have e3: "extends ?P s s3" by (rule extends_trans)
  have e4: "extends ?P s (snd (snk_terminate snk (d_pid d) ?s2))"
    using e2 terminate_target by (rule extends_trans)
  have e5: "extends ?P s (checkpoint_save m s1)" for m
    by (rule extends_trans [OF e1]) (simp add: checkpoint_save_def extends_def stop_neutral_def effect_target_def)
  show ?thesis using assms e3 e4 e5
    by (auto simp: execute_checkpoint_def 1 3 Let_def checkpoint_add_def terminate_process_def split: if_splits)
qed

lemma neutral_target: "extends (\<lambda>e. stop_neutral e \<and> effect_target d e) s s' \<Longrightarrow>
    extends stop_neutral s s' \<and> extends (effect_target d) s s'"
  by (auto intro: extends_mono)

lemma perform_cases:
  assumes "perform snk d x = (res, x')"
  shows "(\<exists>out. d_action d = ActFreeze \<and>
      freeze_process snk d (xs_frozen x) (xs_sys x) = (out, xs_frozen x', xs_sys x'))
    \<or> xs_frozen x' = xs_frozen x \<and> extends (\<lambda>e. stop_neutral e \<and> effect_target d e) (xs_sys x) (xs_sys x')"
proof (cases "d_action d")
  case ActFreeze
  obtain a fm s where "freeze_process snk d (xs_frozen x) (xs_sys x) = (a, fm, s)" by (metis prod_cases3)
  then show ?thesis using assms ActFreeze by (auto simp: perform_def)
next
  case ActCheckpoint
  obtain a cm s where e: "execute_checkpoint snk d (xs_checkpointed x) (xs_sys x) = (a, cm, s)" by (metis prod_cases3)
  show ?thesis using assms ActCheckpoint execute_checkpoint_target [OF e] by (auto simp: perform_def e)
next
  case ActTerminate
  then show ?thesis using assms terminate_target [of d "xs_sys x"]
    by (auto simp: perform_def terminate_process_def)
next
  case ActKill
  then show ?thesis using assms kill_target [of d "xs_sys x"]
    by (auto simp: perform_def kill_process_def case_prod_unfold Let_def)
qed (use assms in \<open>auto simp: perform_def\<close>)

lemma execute_decision_extends:
  assumes "execute_decision snk d x = (out, x')"
  shows "extends (effect_target d) (xs_sys x) (xs_sys x')"
    and "no_orphans (xs_frozen x) (xs_sys x) \<Longrightarrow> no_orphans (xs_frozen x') (xs_sys x')"
proof -
  obtain res x1 where 1: "perform snk d x = (res, x1)" by fastforce
  have log: "xs_frozen x' = xs_frozen x1"
      "extends (\<lambda>e. stop_neutral e \<and> effect_target d e) (xs_sys x1) (xs_sys x')"
    using assms
    by (auto simp: execute_decision_def 1 case_prod_unfold Let_def push_event_def os_unix_def log_entry_def
        extends_def stop_neutral_def effect_target_def split: option.splits)
  note log2 = neutral_target [OF log(2), THEN conjunct1] neutral_target [OF log(2), THEN conjunct2]
  from perform_cases [OF 1] have "extends (effect_target d) (xs_sys x) (xs_sys x1)"
    by (auto dest: freeze_process_targets neutral_target)
  then show "extends (effect_target d) (xs_sys x) (xs_sys x')" using log2(2) by (rule extends_trans)
  assume o: "no_orphans (xs_frozen x) (xs_sys x)"
  from perform_cases [OF 1] have "no_orphans (xs_frozen x1) (xs_sys x1)"
  proof (elim disjE exE conjE)
    fix out
    assume "freeze_process snk d (xs_frozen x) (xs_sys x) = (out, xs_frozen x1, xs_sys x1)"
    with o show ?thesis by (rule freeze_process_orphans)
  next
    assume "xs_frozen x1 = xs_frozen x" and e: "extends (\<lambda>e. stop_neutral e \<and> effect_target d e) (xs_sys x) (xs_sys x1)"
    with no_orphans_neutral [OF o neutral_target [OF e, THEN conjunct1]] show ?thesis by simp
  qed
  then show "no_orphans (xs_frozen x') (xs_sys x')" using log2(1) unfolding log(1) by (rule no_orphans_neutral)
qed

lemma post_freeze_extends:
  "extends (\<lambda>e. stop_neutral e \<and> effect_target d e) s (post_freeze_reclaim snk procs d out s)"
proof -
  have "extends (\<lambda>e. stop_neutral e \<and> effect_target d e) s (snd (snk_reclaim snk cg b s))" for cg b
    by (rule extends_mono [OF reclaim]) (auto simp: is_write_def stop_neutral_def effect_target_def split: effect.splits)
  then have r: "snk_reclaim snk cg b s = (r, s1) \<Longrightarrow> extends (\<lambda>e. stop_neutral e \<and> effect_target d e) s s1" for cg b r s1
    by (metis snd_conv)
  have l: "extends (\<lambda>e. stop_neutral e \<and> effect_target d e) s1 (log_entry LaFreezeReclaim p n s1)" for s1 p n
    by (simp add: log_entry_def extends_def stop_neutral_def effect_target_def)
  show ?thesis
    by (auto simp: post_freeze_reclaim_def split: option.splits prod.splits sum.splits bool.splits
        intro: r extends_trans [OF r l])
qed

lemma note_killed_trace: "note_killed procs d killed s = (k', s') \<Longrightarrow> sys_trace s' = sys_trace s"
  by (auto simp: note_killed_def os_read_def os_clock_def Let_def split: option.splits prod.splits if_splits)

text \<open>The whole plan: it acts on planned processes only, and leaves no process stopped that the
registry does not know.\<close>

lemma execute_plan_extends:
  assumes "execute_plan snk procs ds x killed = (n, x', killed')"
  shows "extends (\<lambda>e. \<exists>d \<in> set ds. effect_target d e) (xs_sys x) (xs_sys x')
    \<and> (no_orphans (xs_frozen x) (xs_sys x) \<longrightarrow> no_orphans (xs_frozen x') (xs_sys x'))"
  using assms
proof (induction ds arbitrary: x killed n x' killed')
  case (Cons d ds)
  let ?E = "\<lambda>ds. extends (\<lambda>e. \<exists>d \<in> set ds. effect_target d e)"
  show ?case
  proof (cases "is_frozen (xs_frozen x) (d_pid d)")
    case True
    then have "execute_plan snk procs ds x killed = (n, x', killed')" using Cons.prems by simp
    from Cons.IH [OF this] show ?thesis by (auto intro: extends_mono)
  next
    case False
    obtain out x1 where 1: "execute_decision snk d x = (out, x1)" by fastforce
    let ?s2 = "post_freeze_reclaim snk procs d out (xs_sys x1)"
    obtain k1 s3 where 3: "note_killed procs d killed ?s2 = (k1, s3)" by fastforce
    obtain n' x4 k2 where 4: "execute_plan snk procs ds (x1\<lparr>xs_sys := s3\<rparr>) k1 = (n', x4, k2)" by (metis prod_cases3)
    have x': "x' = x4" using Cons.prems False by (simp add: 1 3 4)
    note d1 = execute_decision_extends [OF 1]
    have d2: "extends (\<lambda>e. stop_neutral e \<and> effect_target d e) (xs_sys x1) s3"
      using post_freeze_extends [of d "xs_sys x1" procs out] note_killed_trace [OF 3]
      by (simp add: extends_def)
    note ih = Cons.IH [OF 4]
    have "?E (d # ds) (xs_sys x) s3"
      using extends_trans [OF d1(1)] neutral_target [OF d2] by (auto intro: extends_mono)
    also have "?E (d # ds) s3 (xs_sys x4)" using ih by (auto intro: extends_mono)
    finally have "?E (d # ds) (xs_sys x) (xs_sys x')" by (simp add: x')
    moreover have "no_orphans (xs_frozen x') (xs_sys x')" if "no_orphans (xs_frozen x) (xs_sys x)"
      using ih d1(2) [OF that] neutral_target [OF d2] by (auto simp: x' intro: no_orphans_neutral)
    ultimately show ?thesis by blast
  qed
qed simp

end

section \<open>The production sink obeys the laws\<close>

lemma real_freeze_ok:
  "opr_success (fst (real_freeze p s)) \<Longrightarrow>
     unat p < 2 ^ 31 \<and> sys_trace (snd (real_freeze p s)) = sys_trace s @ [Signalled (uint p) SIGSTOP None]"
  using freeze_checked_success
  by (fastforce simp: real_freeze_def dest: start_time_pair split: prod.splits option.splits)

lemma send_stop_fail:
  "\<not> opr_success (fst (send_signal p SIGSTOP s)) \<Longrightarrow>
     extends (\<lambda>e. stop_neutral e \<and> only_signals (uint p) {SIGSTOP} e) s (snd (send_signal p SIGSTOP s))"
  by (auto simp: send_signal_def os_kill_def Let_def extends_def stop_neutral_def only_signals_def
      split: option.splits if_splits)

lemma freeze_checked_fail:
  "\<not> opr_success (fst (freeze_checked p st s)) \<Longrightarrow>
     extends (\<lambda>e. stop_neutral e \<and> only_signals (uint p) {SIGSTOP} e) s (snd (freeze_checked p st s))"
  by (auto simp: freeze_checked_def extends_after [OF start_time_pair]
      split: prod.splits option.splits if_splits intro: send_stop_fail)

lemma real_freeze_fail:
  "\<not> opr_success (fst (real_freeze p s)) \<Longrightarrow>
     extends (\<lambda>e. stop_neutral e \<and> only_signals (uint p) {SIGSTOP} e) s (snd (real_freeze p s))"
  by (auto simp: real_freeze_def extends_after [OF start_time_pair]
      split: prod.splits option.splits if_splits intro: freeze_checked_fail)

interpretation real: action_sink_laws real_sink
proof unfold_locales
  show "unat p < 2 ^ 31 \<and>
      sys_trace (snd (snk_freeze real_sink p s)) = sys_trace s @ [Signalled (uint p) SIGSTOP None]"
    if "opr_success (fst (snk_freeze real_sink p s))" for p s
    using that real_freeze_ok [of p s] by (simp add: real_sink_def)
  show "\<exists>r. sys_trace (snd (snk_unfreeze real_sink p s)) = sys_trace s @ [Signalled (uint p) SIGCONT r]"
    if "unat p < 2 ^ 31" for p s
    using that by (auto simp: real_sink_def unfreeze_pid_def send_signal_def os_kill_def Let_def split: option.splits)
  show "extends (\<lambda>e. e = SpawnedSigterm p) s (snd (snk_terminate real_sink p s))" for p s
    by (simp add: real_sink_def real_terminate_def extends_def)
  show "\<exists>dir. extends (checkpoint_effect p dir) s (snd (snk_checkpoint real_sink p name s))" for p name s
    using checkpoint_extends by (auto simp: real_sink_def)
  show "extends (only_signals (as_pid_t p) {SIGKILL}) s (snd (snk_kill real_sink p s))" for p s
    using sigkiller.extends_only by (simp add: real_sink_def)
  show "extends is_write s (snd (snk_reclaim real_sink cgroup bytes s))" for cgroup bytes s
    using limit_extends(5) by (simp add: real_sink_def)
qed (simp_all add: real_sink_def real_freeze_fail)

text \<open>Only synchronous kills and checkpoints count as destructive, whatever their result.\<close>

definition counted :: "frozen_map \<Rightarrow> decision \<Rightarrow> bool" where
  "counted fm d \<longleftrightarrow> \<not> is_frozen fm (d_pid d) \<and> (d_action d = ActKill \<or> d_action d = ActCheckpoint)"

lemma execute_plan_count_le:
  "fst (execute_plan snk procs ds x killed) \<le>
     length (filter (\<lambda>d. d_action d = ActKill \<or> d_action d = ActCheckpoint) ds)"
proof (induction ds arbitrary: x killed)
  case (Cons d ds)
  then show ?case
    by (auto simp: case_prod_unfold Let_def split: prod.splits intro: le_SucI)
qed simp

end
