(* ===== verification/Plugin.thy ===== *)
theory Plugin
  imports Registry
begin

text \<open>
  Plugins: the graphics memory of a process from its DRM file descriptors
  (\<open>mgd-common/src/gpu.rs\<close>), the cache of observations and the foreground process
  (\<open>mgd/src/plugin_server.rs\<close>), and the handling of one message of a plugin
  (\<open>mgd-common/src/protocol.rs\<close>). The JSON encoding of the messages is serde's.
\<close>

section \<open>Graphics memory of a process\<close>

datatype metric = GpuResidentKb | GpuSharedKb | GpuTotalKb | GpuPurgeableKb | RssKb | CustomMetric string

definition parse_mem_kb :: "string \<Rightarrow> u64 option" where
  "parse_mem_kb s = (let parts = split_whitespace s in
     case first_opt parts of None \<Rightarrow> None | Some w \<Rightarrow>
     (case parse_u64 w of None \<Rightarrow> None | Some num \<Rightarrow>
       (case nth_opt 1 parts of
          None \<Rightarrow> Some (num div 1024)
        | Some u \<Rightarrow>
            if u = ''KiB'' then Some num
            else if u = ''MiB'' then Some (sat_mul num 1024)
            else if u = ''GiB'' then Some (sat_mul num (1024 * 1024))
            else if u = ''B'' then Some (num div 1024)
            else None)))"

definition drm_region_kb :: "string \<Rightarrow> u64 option" where
  "drm_region_kb v = (case split_once '':'' v of None \<Rightarrow> None | Some (_, val) \<Rightarrow> parse_mem_kb (trim val))"

definition gpu_zero :: gpu_memory where
  "gpu_zero = \<lparr>gm_total_kb = 0, gm_resident_kb = 0, gm_shared_kb = 0, gm_purgeable_kb = 0\<rparr>"

definition gpu_add :: "gpu_memory \<Rightarrow> gpu_memory \<Rightarrow> gpu_memory" where
  "gpu_add a b = \<lparr>gm_total_kb = sat_add (gm_total_kb a) (gm_total_kb b),
     gm_resident_kb = sat_add (gm_resident_kb a) (gm_resident_kb b),
     gm_shared_kb = sat_add (gm_shared_kb a) (gm_shared_kb b),
     gm_purgeable_kb = sat_add (gm_purgeable_kb a) (gm_purgeable_kb b)\<rparr>"

text \<open>One line of an fdinfo file: the client, the sums so far, and whether a resident line was seen.\<close>

definition drm_stat :: "string \<Rightarrow> string \<Rightarrow> u64 option" where
  "drm_stat prefix line = Option.bind (strip_prefix prefix line) drm_region_kb"

definition fdinfo_line :: "string option \<times> gpu_memory \<times> bool \<Rightarrow> string \<Rightarrow> string option \<times> gpu_memory \<times> bool" where
  "fdinfo_line st line = (let (client, g, seen) = st in
     case strip_prefix ''drm-client-id:'' line of Some v \<Rightarrow> (Some (trim v), g, seen) | None \<Rightarrow>
     (case drm_stat ''drm-resident-'' line of
        Some kb \<Rightarrow> (client, g\<lparr>gm_resident_kb := sat_add (gm_resident_kb g) kb\<rparr>, True) | None \<Rightarrow>
     (case drm_stat ''drm-shared-'' line of
        Some kb \<Rightarrow> (client, g\<lparr>gm_shared_kb := sat_add (gm_shared_kb g) kb\<rparr>, seen) | None \<Rightarrow>
     (case drm_stat ''drm-total-'' line of
        Some kb \<Rightarrow> (client, g\<lparr>gm_total_kb := sat_add (gm_total_kb g) kb\<rparr>, seen) | None \<Rightarrow>
     (case drm_stat ''drm-purgeable-'' line of
        Some kb \<Rightarrow> (client, g\<lparr>gm_purgeable_kb := sat_add (gm_purgeable_kb g) kb\<rparr>, seen) | None \<Rightarrow>
      (client, g, seen))))))"

text \<open>The descriptors of a process, each its name, the target of its link and the content of its
fdinfo. The link is read into nine bytes, so only one that starts with \<open>/dev/dri/\<close> passes.
Descriptors of one client report the same totals and count once: the last one seen stays.\<close>

definition is_drm_link :: "string option \<Rightarrow> bool" where
  "is_drm_link target = (case target of None \<Rightarrow> False | Some t \<Rightarrow> take 9 t = ''/dev/dri/'')"

definition fd_client ::
  "(string, gpu_memory) hmap \<times> bool \<Rightarrow> string \<times> string option \<times> string option \<Rightarrow> (string, gpu_memory) hmap \<times> bool" where
  "fd_client acc fd = (let (per_client, saw) = acc; (name, target, fdinfo) = fd in
     if \<not> is_drm_link target then (per_client, saw)
     else (case fdinfo of
       None \<Rightarrow> (per_client, saw)
     | Some content \<Rightarrow>
         (let (client, g, seen) = foldl fdinfo_line (None, gpu_zero, False) (lines content) in
          if \<not> seen then (per_client, saw)
          else (let key = (case client of Some c \<Rightarrow> c | None \<Rightarrow> ''fd:'' @ [CHR 0x22] @ name @ [CHR 0x22])
                in (hm_insert key g per_client, True)))))"

definition process_gpu_stats :: "(string \<times> string option \<times> string option) list option \<Rightarrow> gpu_memory option" where
  "process_gpu_stats fds = (case fds of
     None \<Rightarrow> None
   | Some entries \<Rightarrow>
       (let (per_client, saw) = foldl fd_client ([], False) entries in
        if saw then Some (foldl gpu_add gpu_zero (hm_values per_client)) else None))"

definition send_gpu_stats :: "string \<Rightarrow> pid \<Rightarrow> gpu_memory \<Rightarrow> (string \<times> metric \<times> pid option \<times> f64) list" where
  "send_gpu_stats plugin p g =
     map (\<lambda>(m, kb). (plugin, m, Some p, f64_of_u64 kb))
       [(GpuResidentKb, gm_resident_kb g), (GpuSharedKb, gm_shared_kb g),
        (GpuTotalKb, gm_total_kb g), (GpuPurgeableKb, gm_purgeable_kb g)]"

section \<open>The cache of observations\<close>

definition gpu_cache_ttl :: duration where
  "gpu_cache_ttl = from_secs 30"

definition gpu_fresh :: "instant \<Rightarrow> instant \<Rightarrow> bool" where
  "gpu_fresh now t0 = (duration_since now t0 < gpu_cache_ttl)"

definition get_gpu_stats :: "pid \<Rightarrow> sys \<Rightarrow> gpu_memory \<times> sys" where
  "get_gpu_stats p s =
     (let (now, s1) = os_clock s in
      ((case hm_get (sys_gpu_cache s1) p of
          Some (g, t0) \<Rightarrow> if gpu_fresh now t0 then g else gpu_zero
        | None \<Rightarrow> gpu_zero), s1))"

definition get_gpu_kb :: "pid \<Rightarrow> sys \<Rightarrow> kb \<times> sys" where
  "get_gpu_kb p s =
     (let (now, s1) = os_clock s in
      ((case hm_get (sys_gpu_cache s1) p of
          Some (g, t0) \<Rightarrow> if gpu_fresh now t0 then gm_resident_kb g else 0
        | None \<Rightarrow> 0), s1))"

definition set_metric :: "metric \<Rightarrow> u64 \<Rightarrow> gpu_memory \<Rightarrow> gpu_memory" where
  "set_metric m kb g = (case m of
     GpuResidentKb \<Rightarrow> g\<lparr>gm_resident_kb := kb\<rparr>
   | GpuSharedKb \<Rightarrow> g\<lparr>gm_shared_kb := kb\<rparr>
   | GpuTotalKb \<Rightarrow> g\<lparr>gm_total_kb := kb\<rparr>
   | GpuPurgeableKb \<Rightarrow> g\<lparr>gm_purgeable_kb := kb\<rparr>
   | _ \<Rightarrow> g)"

definition set_gpu_observation :: "pid \<Rightarrow> metric \<Rightarrow> u64 \<Rightarrow> sys \<Rightarrow> sys" where
  "set_gpu_observation p m kb s =
     (let (now, s1) = os_clock s;
          cache = hm_retain (\<lambda>_ (_, t0). gpu_fresh now t0) (sys_gpu_cache s1);
          g = (case hm_get cache p of Some (g, _) \<Rightarrow> g | None \<Rightarrow> gpu_zero)
      in s1\<lparr>sys_gpu_cache := hm_insert p (set_metric m kb g, now) cache\<rparr>)"

definition gpu_pressure :: "instant \<Rightarrow> (pid, gpu_memory \<times> instant) hmap \<Rightarrow> kb" where
  "gpu_pressure now cache =
     kb_sum (map (\<lambda>(g, _). sat_sub (gm_resident_kb g) (gm_shared_kb g))
       (filter (\<lambda>(_, t0). gpu_fresh now t0) (hm_values cache)))"

definition get_total_gpu_kb :: "sys \<Rightarrow> kb \<times> sys" where
  "get_total_gpu_kb s = (let (now, s1) = os_clock s in (gpu_pressure now (sys_gpu_cache s1), s1))"

definition min_opt :: "nat list \<Rightarrow> nat option" where
  "min_opt xs = (case xs of [] \<Rightarrow> None | y # ys \<Rightarrow> Some (foldl min y ys))"

definition gpu_cache_snapshot :: "sys \<Rightarrow> (nat \<times> kb \<times> nat option) \<times> sys" where
  "gpu_cache_snapshot s =
     (let (now, s1) = os_clock s;
          live = filter (\<lambda>(_, t0). gpu_fresh now t0) (hm_values (sys_gpu_cache s1))
      in (if live = [] then (0, 0, None)
          else (length live,
                kb_sum (map (\<lambda>(g, _). sat_sub (gm_resident_kb g) (gm_shared_kb g)) live),
                min_opt (map (\<lambda>(_, t0). as_secs (duration_since now t0)) live)), s1))"

section \<open>Messages\<close>

datatype plugin_action = RestartProcess string | FreezePid pid | KillPid pid

datatype plugin_message =
    Identify string string "string list"
  | Observation string metric "pid option" f64
  | ActionRequest string plugin_action string
  | QueryGpu pid
  | ActiveWindow "pid option"

datatype core_message =
    PressureChanged string
  | ActionResponse plugin_action bool "string option"
  | GpuObservation pid kb kb kb kb
  | Shutdown
  | ConfigReload

text \<open>What handling a message leaves to a thread of its own: the unfreezing of the window's process, and
the termination a plugin asked for.\<close>

datatype plugin_job = UnfreezeFocused pid u64 | TerminateRequested pid

definition gpu_metric :: "metric \<Rightarrow> bool" where
  "gpu_metric m = (m = GpuResidentKb \<or> m = GpuSharedKb \<or> m = GpuTotalKb \<or> m = GpuPurgeableKb)"

definition process_plugin_message ::
  "plugin_message \<Rightarrow> frozen_map \<Rightarrow> sys \<Rightarrow> core_message list \<times> plugin_job list \<times> sys" where
  "process_plugin_message msg fm s = (case msg of
     Identify _ _ _ \<Rightarrow> ([], [], s)
   | Observation _ m pid value \<Rightarrow>
       (case pid of
          Some p \<Rightarrow> ([], [], if gpu_metric m then set_gpu_observation p m (f64_to_u64 value) s else s)
        | None \<Rightarrow> ([], [], s))
   | ActionRequest _ act _ \<Rightarrow>
       ([ActionResponse act True None], (case act of KillPid p \<Rightarrow> [TerminateRequested p] | _ \<Rightarrow> []), s)
   | QueryGpu p \<Rightarrow>
       (let (g, s1) = get_gpu_stats p s in
        ([GpuObservation p (gm_resident_kb g) (gm_shared_kb g) (gm_total_kb g) (gm_purgeable_kb g)], [], s1))
   | ActiveWindow pid \<Rightarrow>
       (let s1 = s\<lparr>sys_foreground := pid\<rparr> in
        case pid of
          None \<Rightarrow> ([], [], s1)
        | Some p \<Rightarrow> ([], if is_frozen fm p then [UnfreezeFocused p (frozen_start fm p)] else [], s1)))"

definition run_plugin_job :: "plugin_job \<Rightarrow> frozen_map \<Rightarrow> sys \<Rightarrow> frozen_map \<times> sys" where
  "run_plugin_job job fm s = (case job of
     UnfreezeFocused p st \<Rightarrow>
       (let (r, s1) = unfreeze_checked p st s in
        if opr_success r then frozen_remove p fm s1 else (fm, s1))
   | TerminateRequested p \<Rightarrow> (fm, snd (sigterm p s)))"

section \<open>Facts about plugins\<close>

text \<open>A resident figure expires after 30 seconds, and what is cached is what was reported last.\<close>

lemma gpu_expired:
  assumes "hm_get (sys_gpu_cache s) p = Some (g, t0)" "from_secs 30 \<le> fst (os_clock s) - t0"
  shows "fst (get_gpu_kb p s) = 0" "fst (get_gpu_stats p s) = gpu_zero"
  using assms
  by (auto simp: get_gpu_kb_def get_gpu_stats_def os_clock_def gpu_fresh_def gpu_cache_ttl_def
      duration_since_def tick_def)

lemma gpu_observed:
  assumes "fst (os_clock (set_gpu_observation p GpuResidentKb kb s)) - fst (os_clock s) < from_secs 30"
  shows "fst (get_gpu_kb p (set_gpu_observation p GpuResidentKb kb s)) = kb"
  using assms
  by (auto simp: get_gpu_kb_def set_gpu_observation_def os_clock_def gpu_fresh_def gpu_cache_ttl_def
      duration_since_def tick_def hm_simps set_metric_def Let_def split: option.splits)

text \<open>An observation prunes every entry that expired, so the cache holds fresh entries only.\<close>

lemma gpu_cache_pruned:
  assumes "hm_ok (sys_gpu_cache s)"
    and "hm_get (sys_gpu_cache (set_gpu_observation p m kb s)) q = Some (g, t0)"
  shows "gpu_fresh (fst (os_clock s)) t0"
  using assms
  by (auto simp: set_gpu_observation_def os_clock_def tick_def hm_simps gpu_fresh_def duration_since_def
      gpu_cache_ttl_def from_secs_def nanos_per_sec_def split: if_splits option.splits)

lemma gpu_cache_ok: "hm_ok (sys_gpu_cache s) \<Longrightarrow> hm_ok (sys_gpu_cache (set_gpu_observation p m kb s))"
  by (simp add: set_gpu_observation_def os_clock_def tick_def Let_def)

text \<open>Handling a message has no effect of its own, and a termination comes from a request only.\<close>

lemma plugin_message_silent:
  assumes "process_plugin_message msg fm s = (out, jobs, s')"
  shows "sys_trace s' = sys_trace s"
    and "TerminateRequested p \<in> set jobs \<longleftrightarrow> (\<exists>n why. msg = ActionRequest n (KillPid p) why)"
    and "UnfreezeFocused p st \<in> set jobs \<longleftrightarrow> msg = ActiveWindow (Some p) \<and> is_frozen fm p \<and> st = frozen_start fm p"
  using assms
  by (auto simp: process_plugin_message_def set_gpu_observation_def get_gpu_stats_def os_clock_def Let_def
      split: plugin_message.splits option.splits plugin_action.splits if_splits)

text \<open>The units of an fdinfo figure.\<close>

lemma mem_kb_units:
  "parse_mem_kb ''2247000 KiB'' = Some 2247000"
  "parse_mem_kb ''4 MiB'' = Some 4096"
  "parse_mem_kb ''2048 B'' = Some 2"
  "parse_mem_kb ''4096'' = Some 4"
  "parse_mem_kb ''garbage'' = None"
  by (simp_all add: parse_mem_kb_def text_eval sat_mul_def)

text \<open>Descriptors of one client count once: repeating a descriptor changes nothing.\<close>

lemma fd_client_dup:
  assumes "fst (foldl fdinfo_line (None, gpu_zero, False) (lines c)) = Some k"
  shows "fd_client (fd_client acc (n, l, Some c)) (n', l, Some c) = fd_client acc (n, l, Some c)"
  using assms
  by (auto simp: fd_client_def hm_insert_def update_nonempty split: prod.splits option.splits)

text \<open>What \<open>send_gpu_stats\<close> puts on the wire is received as it was, up to \<open>2 ^ 53\<close> kilobytes.\<close>

lemma u64_via_f64: "unat n \<le> 2 ^ 53 \<Longrightarrow> f64_to_u64 (f64_of_u64 n) = n"
proof -
  assume n: "unat n \<le> 2 ^ 53"
  have "unat (f64_to_u64 (Fin (of_nat (unat n)))) = nat (min (2 ^ 64 - 1) \<lfloor>of_nat (unat n) :: rat\<rfloor>)"
    by (rule f64_to_u64_Fin) (simp only: of_nat_0_le_iff)
  also have "\<dots> = unat n"
  proof -
    have "int (unat n) \<le> int (2 ^ 53)" using n by (simp only: of_nat_le_iff)
    then have "\<not> (2 ^ 64 - 1 :: int) \<le> int (unat n)" by simp
    then have "nat (min (2 ^ 64 - 1) (int (unat n))) = unat n" by (simp only: min_def nat_int split: if_split) blast
    then show ?thesis by (simp only: floor_of_nat)
  qed
  finally have "unat (f64_to_u64 (Fin (of_nat (unat n)))) = unat n" .
  then have "f64_to_u64 (Fin (of_nat (unat n))) = n" by (simp only: word_unat_eq_iff)
  then show ?thesis by (simp only: f64_of_u64_def f64_of_nat_exact [OF n])
qed

end
