(* ===== verification/Held.thy ===== *)
theory Held
  imports Execute
begin

text \<open>
  Accounting for stopped processes across the daemon. \<open>held R s\<close>: every process that the trace leaves
  stopped, and that can still be identified by its start time, is one of \<open>R\<close>. Freezing adds a process
  to \<open>R\<close>, continuing it removes it, and every other operation keeps the relation; each component
  shows this for its own operations, and the daemon puts them together.
\<close>

section \<open>The relation\<close>

type_synonym holder = "pid \<Rightarrow> u64 \<Rightarrow> bool"

definition held :: "holder \<Rightarrow> sys \<Rightarrow> bool" where
  "held R s \<longleftrightarrow> (\<forall>p st. reads_as (sys_oracle s) p st \<and> stopped (sys_trace s) (uint p) \<longrightarrow> R p st)"

text \<open>The registry of frozen processes as a holder.\<close>

definition by_registry :: "frozen_map \<Rightarrow> holder" where
  "by_registry fm p st \<longleftrightarrow> (\<exists>n ts. hm_get fm p = Some (n, ts, st))"

lemma by_registry_frozen: "by_registry fm p st \<longleftrightarrow> is_frozen fm p \<and> frozen_start fm p = st"
  by (auto simp: by_registry_def is_frozen_def hm_contains_get frozen_start_def)

text \<open>The registry beside any other holder.\<close>

definition with_registry :: "holder \<Rightarrow> frozen_map \<Rightarrow> holder" where
  "with_registry F fm p st \<longleftrightarrow> F p st \<or> by_registry fm p st"

lemma held_mono: "held R s \<Longrightarrow> (\<And>p st. R p st \<Longrightarrow> R' p st) \<Longrightarrow> held R' s"
  unfolding held_def by blast

lemma held_neutral:
  assumes "held R s" "sys_oracle s' = sys_oracle s" "extends stop_neutral s s'"
  shows "held R s'"
proof -
  obtain es where "sys_trace s' = sys_trace s @ es" "\<forall>e \<in> set es. stop_neutral e"
    using assms(3) by (auto simp: extends_def)
  then have "stopped (sys_trace s) t" if "stopped (sys_trace s') t" for t
    using that foldl_neutral by (auto simp: stopped_append)
  then show ?thesis using assms(1,2) unfolding held_def by auto
qed

lemma held_same: "held R s \<Longrightarrow> sys_oracle s' = sys_oracle s \<Longrightarrow> sys_trace s' = sys_trace s \<Longrightarrow> held R s'"
  by (simp add: held_def)

lemma not_stopped_cont: "sys_trace s' = sys_trace s @ [Signalled t SIGCONT r] \<Longrightarrow>
    stopped (sys_trace s') t' \<longleftrightarrow> t' \<noteq> t \<and> stopped (sys_trace s) t'"
  by (auto simp: stopped_append stop_step_def)

lemma unfreeze_checked_cases:
  obtains "sys_trace (snd (unfreeze_checked p st s)) = sys_trace s" "\<not> reads_as (sys_oracle s) p st"
  | r where "sys_trace (snd (unfreeze_checked p st s)) = sys_trace s @ [Signalled (uint p) SIGCONT r]"
proof (cases "reads_as (sys_oracle s) p st")
  case True
  then have "\<exists>r. sys_trace (snd (unfreeze_checked p st s)) = sys_trace s @ [Signalled (uint p) SIGCONT r]"
    by (auto simp: unfreeze_checked_def start_time_of_def send_signal_def os_read_def os_kill_def
        reads_as_def Let_def split: option.split)
  then show thesis using that(2) by blast
next
  case False
  obtain t s1 where 1: "start_time_of p s = (t, s1)" by fastforce
  have "sys_trace (snd (unfreeze_checked p st s)) = sys_trace s \<or>
      (\<exists>r. sys_trace (snd (unfreeze_checked p st s)) = sys_trace s @ [Signalled (uint p) SIGCONT r])"
    using start_time_pair [OF 1]
    by (auto simp: unfreeze_checked_def 1 send_signal_def os_kill_def Let_def split: option.split)
  then show thesis using that False by blast
qed

text \<open>Continuing a process takes it out of the account.\<close>

lemma held_thaw:
  assumes "held R s"
  shows "held (\<lambda>q st'. R q st' \<and> \<not> (q = p \<and> st' = st)) (snd (unfreeze_checked p st s))"
  using assms
  by (cases rule: unfreeze_checked_cases [of p st s])
     (auto simp: held_def stopped_append stop_step_def)

lemma held_thaw_keep: "held R s \<Longrightarrow> held R (snd (unfreeze_checked p st s))"
  by (erule held_mono [OF held_thaw]) simp

text \<open>Stopping a process brings it in.\<close>

lemma stopped_stop: "sys_trace s' = sys_trace s @ [Signalled t SIGSTOP r] \<Longrightarrow>
    stopped (sys_trace s') t' \<Longrightarrow> t' = t \<or> stopped (sys_trace s) t'"
  by (auto simp: stopped_append stop_step_def split: if_splits)

lemma held_stop:
  assumes "held R s" "freeze_checked p st s = (r, s1)" "opr_success r"
  shows "held (\<lambda>q st'. if q = p then st' = st else R q st') s1"
proof -
  have o: "sys_oracle s1 = sys_oracle s" using checked_oracle(2) [of p st s] assms(2) by simp
  have t: "sys_trace s1 = sys_trace s @ [Signalled (uint p) SIGSTOP None]"
      "fst (start_time_of p s) = Some st"
    using freeze_checked_success [of p st s] assms(2,3) by auto
  have "st' = st" if "reads_as (sys_oracle s) p st'" for st'
    using t(2) that by (simp add: start_time_of_def os_read_def reads_as_def)
  then show ?thesis using assms(1) stopped_stop [OF t(1)] unfolding held_def o
    by (metis word_uint_eqI)
qed

lemma held_stop_fail:
  assumes "held R s" "freeze_checked p st s = (r, s1)" "\<not> opr_success r"
  shows "held R s1"
  using assms checked_oracle(2) [of p st s] freeze_checked_fail [of p st s]
  by (auto intro!: held_neutral [OF assms(1)] intro: extends_mono)

section \<open>The registry\<close>

lemma start_time_reads: "start_time_of p s = (r, s1) \<Longrightarrow> reads_as (sys_oracle s) p st \<Longrightarrow> r = Some st"
  by (auto simp: start_time_of_def os_read_def reads_as_def)

lemma frozen_add_oracle: "frozen_add p name fm s = (ok, fm', s') \<Longrightarrow> sys_oracle s' = sys_oracle s"
  by (auto simp: frozen_add_def frozen_save_def os_unix_def Let_def dest!: oracle_pair(1) split: prod.splits option.splits)

lemma frozen_remove_oracle [simp]: "sys_oracle (snd (frozen_remove p fm s)) = sys_oracle s"
  by (simp add: frozen_remove_def frozen_save_def Let_def)

lemma frozen_remove_neutral: "extends stop_neutral s (snd (frozen_remove p fm s))"
  by (auto simp: frozen_remove_def frozen_save_def extends_def stop_neutral_def Let_def)

text \<open>Recording a stopped process: whatever start time it shows is the one recorded.\<close>

lemma held_record:
  assumes "held (\<lambda>q st. with_registry F fm q st \<or> q = p) s" "frozen_add p name fm s = (True, fm', s')"
  shows "held (with_registry F fm') s'"
proof -
  obtain st s1 where 1: "start_time_of p s = (Some st, s1)"
    using assms(2) by (auto simp: frozen_add_def split: prod.splits option.splits)
  have o: "sys_oracle s' = sys_oracle s" by (rule frozen_add_oracle [OF assms(2)])
  have "by_registry fm' p st'" if "reads_as (sys_oracle s) p st'" for st'
    using start_time_reads [OF 1 that] frozen_add_result(3) [OF assms(2)] 1 by (simp add: by_registry_frozen)
  moreover have "by_registry fm' q st' \<longleftrightarrow> by_registry fm q st'" if "q \<noteq> p" for q st'
    using frozen_add_result(4) [OF assms(2) that] by (simp add: by_registry_def)
  moreover have "stopped (sys_trace s') t \<longleftrightarrow> stopped (sys_trace s) t" for t
    using frozen_add_trace [OF assms(2)] by (simp add: stopped_append stop_step_def)
  ultimately show ?thesis using assms(1) unfolding held_def with_registry_def o by metis
qed

text \<open>Continuing a process of the registry and then removing it, whatever happens between.\<close>

lemma held_unrecord:
  assumes "held (with_registry F fm) s" "s' = snd (unfreeze_checked p (frozen_start fm p) s)"
    "sys_oracle s2 = sys_oracle s'" "extends stop_neutral s' s2" "frozen_remove p fm s2 = (fm', s'')"
  shows "held (with_registry F fm') s'' \<and> sys_oracle s'' = sys_oracle s"
proof -
  have "held (\<lambda>q st. with_registry F fm q st \<and> \<not> (q = p \<and> st = frozen_start fm p)) s'"
    using held_thaw [OF assms(1)] assms(2) by simp
  then have "held (with_registry F fm') s'"
    by (rule held_mono)
       (auto simp: with_registry_def by_registry_def frozen_remove_result(1) [OF assms(5)] frozen_start_def)
  then have "held (with_registry F fm') s2" using assms(3,4) by (rule held_neutral)
  moreover have "s'' = snd (frozen_remove p fm s2)" using assms(5) by simp
  ultimately show ?thesis using frozen_remove_neutral assms(2,3) by (auto intro: held_neutral)
qed

text \<open>A process that shows no start time when it is to be recorded is continued and forgotten; while it
was stopped it could not be identified, so nothing is lost.\<close>

lemma held_unidentified:
  assumes "held (\<lambda>q st. R q st \<or> q = p) s" "frozen_add p name fm s = (False, fm', s')"
  shows "held R s'"
proof -
  have t: "sys_trace s' = sys_trace s" using frozen_add_trace [OF assms(2)] by simp
  have n: "fst (start_time_of p s) = None" using frozen_add_result(1) [OF assms(2)] by simp
  have "\<not> reads_as (sys_oracle s) p st" for st
    using n start_time_reads [of p s _ _ st] by (metis option.distinct(1) prod.collapse)
  then show ?thesis using assms(1) unfolding held_def t frozen_add_oracle [OF assms(2)] by blast
qed

lemma held_unfreeze: "held R s \<Longrightarrow> held R (snd (unfreeze_pid p s))"
  by (auto simp: unfreeze_pid_def send_signal_def os_kill_def Let_def held_def stopped_append stop_step_def
      emit_def tick_def split: option.splits if_splits)

lemma helper_path_oracle: "helper_path s = (r, s1) \<Longrightarrow> sys_oracle s1 = sys_oracle s"
  by (auto simp: helper_path_def probe_helper_def disable_checkpoint_def Let_def os_executable_def
      split: prod.splits bool.splits option.splits if_splits)

lemma run_oracle: "os_run args s = (r, s1) \<Longrightarrow> sys_oracle s1 = sys_oracle s"
  "os_mkdir dir s = (b, s1) \<Longrightarrow> sys_oracle s1 = sys_oracle s"
  "sys_oracle (os_remove_dir dir s) = sys_oracle s" "sys_oracle (disable_checkpoint s) = sys_oracle s"
  by (auto simp: os_run_def os_mkdir_def os_remove_dir_def disable_checkpoint_def Let_def)

lemma checkpoint_oracle: "sys_oracle (snd (checkpoint p name s)) = sys_oracle s"
proof -
  obtain b s1 where 1: "os_mkdir (snapshot_dir p name s) s = (b, s1)" by fastforce
  obtain h s2 where 2: "helper_path s1 = (h, s2)" by fastforce
  obtain r s3 where 3: "os_run [the h, ''dump'', show_pid p, snapshot_dir p name s] s2 = (r, s3)" by fastforce
  obtain e s4 where 4: "os_kill (as_pid_t p) SIGKILL s3 = (e, s4)" by fastforce
  note o = run_oracle(2) [OF 1] helper_path_oracle [OF 2] run_oracle(1) [OF 3] oracle_pair(2) [OF 4]
  show ?thesis
  proof (cases "b \<and> h \<noteq> None")
    case True
    then obtain path where "h = Some path" by auto
    with True 3 o show ?thesis
      by (cases r) (auto simp: checkpoint_def 1 2 4 run_oracle Let_def split: option.split)
  qed (use o in \<open>cases b; auto simp: checkpoint_def 1 2 run_oracle Let_def\<close>)
qed

section \<open>Carrying out a plan\<close>

locale oracle_sink = action_sink_laws +
  assumes keeps_oracle:
    "sys_oracle (snd (snk_freeze snk p s)) = sys_oracle s"
    "sys_oracle (snd (snk_unfreeze snk p s)) = sys_oracle s"
    "sys_oracle (snd (snk_terminate snk p s)) = sys_oracle s"
    "sys_oracle (snd (snk_kill snk p s)) = sys_oracle s"
    "sys_oracle (snd (snk_checkpoint snk p name s)) = sys_oracle s"
    "sys_oracle (snd (snk_reclaim snk cgroup bytes s)) = sys_oracle s"
begin

lemma held_freeze_process:
  assumes "held (with_registry F fm) s" "freeze_process snk d fm s = (out, fm', s')"
  shows "held (with_registry F fm') s' \<and> sys_oracle s' = sys_oracle s"
proof -
  let ?p = "d_pid d" and ?R = "\<lambda>fm. with_registry F fm"
  obtain r s1 where 1: "snk_freeze snk ?p s = (r, s1)" by fastforce
  have o1: "sys_oracle s1 = sys_oracle s" using keeps_oracle(1) [of ?p s] by (simp add: 1)
  show ?thesis
  proof (cases "opr_success r")
    case False
    then have "extends stop_neutral s s1"
      using freeze_fail [of ?p s] 1 by (auto intro: extends_mono)
    then have "held (?R fm) s1" by (rule held_neutral [OF assms(1) o1])
    with assms(2) False o1 show ?thesis by (auto simp: freeze_process_def 1 Let_def split: if_splits)
  next
    case True
    then have "unat ?p < 2 ^ 31 \<and> sys_trace s1 = sys_trace s @ [Signalled (uint ?p) SIGSTOP None]"
      using freeze_ok [of ?p s] by (simp add: 1)
    then have p: "unat ?p < 2 ^ 31" and t1: "sys_trace s1 = sys_trace s @ [Signalled (uint ?p) SIGSTOP None]" by auto
    have h1: "held (\<lambda>q st. ?R fm q st \<or> q = ?p) s1"
      using assms(1) stopped_stop [OF t1] unfolding held_def o1 by (metis word_uint_eqI)
    obtain ok fm1 s2 where 2: "frozen_add ?p (d_name d) fm s1 = (ok, fm1, s2)" by (metis prod_cases3)
    note o2 = frozen_add_oracle [OF 2]
    show ?thesis
    proof (cases ok)
      case True
      have "held (?R fm1) s2" using held_record [where F = F and p = ?p] h1 2 True by auto
      then show ?thesis using assms(2) True \<open>opr_success r\<close> o1 o2 by (simp add: freeze_process_def 1 2)
    next
      case False
      have h2: "held (?R fm) s2" using held_unidentified [where R = "?R fm" and p = ?p] h1 2 False by auto
      obtain x where t3: "sys_trace (snd (snk_unfreeze snk ?p s2)) = sys_trace s2 @ [Signalled (uint ?p) SIGCONT x]"
        using unfreeze [OF p] by blast
      have "held (?R fm) (snd (snk_unfreeze snk ?p s2))"
        using h2 keeps_oracle(2) [of ?p s2] by (simp add: held_def not_stopped_cont [OF t3])
      then show ?thesis
        using assms(2) False \<open>opr_success r\<close> o1 o2 frozen_add_result(2) [OF 2] keeps_oracle(2) [of ?p s2]
        by (simp add: freeze_process_def 1 2)
    qed
  qed
qed

lemma perform_oracle: "sys_oracle (xs_sys (snd (perform snk d x))) = sys_oracle (xs_sys x)"
proof -
  have m: "sys_oracle (mark_binary_failed n s) = sys_oracle s" for n s
    by (simp add: mark_binary_failed_def Let_def)
  have f: "freeze_process snk d fm s = (out, fm', s') \<Longrightarrow> sys_oracle s' = sys_oracle s" for fm s out fm' s'
  proof -
    have "held (with_registry (\<lambda>_ _. True) fm) s" by (simp add: held_def with_registry_def)
    then show "freeze_process snk d fm s = (out, fm', s') \<Longrightarrow> sys_oracle s' = sys_oracle s"
      by (blast dest: held_freeze_process)
  qed
  have k: "snk_freeze snk p s = (fr, s') \<Longrightarrow> sys_oracle s' = sys_oracle s"
    "snk_terminate snk p s = (tr, s') \<Longrightarrow> sys_oracle s' = sys_oracle s"
    "snk_kill snk p s = (kr, s') \<Longrightarrow> sys_oracle s' = sys_oracle s"
    "snk_checkpoint snk p n s = (cr, s') \<Longrightarrow> sys_oracle s' = sys_oracle s" for p s n s' and fr tr kr :: op_result and cr
    using keeps_oracle(1,3,4) [of p s] keeps_oracle(5) [of p n s] by auto
  show ?thesis
    by (auto simp: perform_def execute_checkpoint_def terminate_process_def kill_process_def checkpoint_add_def
        checkpoint_save_def Let_def m keeps_oracle dest!: f k split: action.split prod.splits if_splits option.splits)
qed

lemma execute_decision_oracle: "sys_oracle (xs_sys (snd (execute_decision snk d x))) = sys_oracle (xs_sys x)"
  using perform_oracle [of d x]
  by (auto simp: execute_decision_def push_event_def os_unix_def log_entry_def case_prod_unfold Let_def
      split: option.splits)

lemma held_decision:
  assumes "held (with_registry F (xs_frozen x)) (xs_sys x)" "execute_decision snk d x = (out, x')"
  shows "held (with_registry F (xs_frozen x')) (xs_sys x')"
proof -
  obtain res x1 where 1: "perform snk d x = (res, x1)" by fastforce
  have o1: "sys_oracle (xs_sys x1) = sys_oracle (xs_sys x)" using perform_oracle [of d x] by (simp add: 1)
  have "held (with_registry F (xs_frozen x1)) (xs_sys x1)"
    using perform_cases [OF 1]
  proof (elim disjE exE conjE)
    fix out
    assume "freeze_process snk d (xs_frozen x) (xs_sys x) = (out, xs_frozen x1, xs_sys x1)"
    then show ?thesis using held_freeze_process [OF assms(1)] by blast
  next
    assume "xs_frozen x1 = xs_frozen x" and e: "extends (\<lambda>e. stop_neutral e \<and> effect_target d e) (xs_sys x) (xs_sys x1)"
    with held_neutral [OF assms(1) o1] neutral_target [OF e] show ?thesis by simp
  qed
  moreover have "xs_frozen x' = xs_frozen x1" "extends stop_neutral (xs_sys x1) (xs_sys x')"
      "sys_oracle (xs_sys x') = sys_oracle (xs_sys x1)"
    using assms(2)
    by (auto simp: execute_decision_def 1 case_prod_unfold Let_def push_event_def os_unix_def log_entry_def
        extends_def stop_neutral_def split: option.splits)
  ultimately show ?thesis using held_neutral [of _ "xs_sys x1" "xs_sys x'"] by metis
qed

lemma post_freeze_oracle: "sys_oracle (post_freeze_reclaim snk procs d out s) = sys_oracle s"
proof -
  have "snk_reclaim snk cg b s = (r, s1) \<Longrightarrow> sys_oracle s1 = sys_oracle s" for cg b r s1
    using keeps_oracle(6) [of cg b s] by simp
  then show ?thesis
    by (auto simp: post_freeze_reclaim_def log_entry_def split: option.splits prod.splits sum.splits bool.splits)
qed

lemma note_killed_oracle: "note_killed procs d killed s = (k', s') \<Longrightarrow> sys_oracle s' = sys_oracle s"
  by (auto simp: note_killed_def os_read_def os_clock_def Let_def split: option.splits prod.splits if_splits)

lemma held_execute_plan:
  assumes "execute_plan snk procs ds x killed = (n, x', killed')"
    "held (with_registry F (xs_frozen x)) (xs_sys x)"
  shows "held (with_registry F (xs_frozen x')) (xs_sys x') \<and> sys_oracle (xs_sys x') = sys_oracle (xs_sys x)"
  using assms
proof (induction ds arbitrary: x killed n)
  case (Cons d ds)
  show ?case
  proof (cases "is_frozen (xs_frozen x) (d_pid d)")
    case True
    then show ?thesis using Cons by simp
  next
    case False
    obtain out x1 where 1: "execute_decision snk d x = (out, x1)" by fastforce
    let ?s2 = "post_freeze_reclaim snk procs d out (xs_sys x1)"
    obtain k1 s3 where 3: "note_killed procs d killed ?s2 = (k1, s3)" by fastforce
    obtain n' x4 k2 where 4: "execute_plan snk procs ds (x1\<lparr>xs_sys := s3\<rparr>) k1 = (n', x4, k2)" by (metis prod_cases3)
    have x': "x' = x4" "killed' = k2" using Cons.prems False by (simp_all add: 1 3 4)
    have o: "sys_oracle s3 = sys_oracle (xs_sys x1)" "sys_oracle (xs_sys x1) = sys_oracle (xs_sys x)"
      using note_killed_oracle [OF 3] post_freeze_oracle execute_decision_oracle [of d x] by (simp_all add: 1)
    have "extends stop_neutral (xs_sys x1) s3"
      using post_freeze_extends [of d "xs_sys x1" procs out] note_killed_trace [OF 3]
      by (auto simp: extends_def)
    then have "held (with_registry F (xs_frozen x1)) s3"
      by (rule held_neutral [OF held_decision [OF Cons.prems(2) 1] o(1)])
    then show ?thesis using Cons.IH [OF 4 [folded x']] o by simp
  qed
qed simp

end

interpretation real_os: oracle_sink real_sink
proof unfold_locales
  show "sys_oracle (snd (snk_freeze real_sink p s)) = sys_oracle s" for p s
    by (auto simp: real_sink_def real_freeze_def dest!: oracle_pair(1) split: option.splits prod.splits)
qed (auto simp: real_sink_def unfreeze_pid_def send_signal_def real_terminate_def kill_now_def reclaim_cgroup_def
      is_cgroup_leaf_def checkpoint_oracle os_defs Let_def emit_def tick_def split: option.splits prod.splits bool.splits)

section \<open>Steps that stop nothing and leave the registry and the victims on disk alone\<close>

fun keeps_file :: "effect \<Rightarrow> bool" where
  "keeps_file (PersistedVictims _) = False"
| "keeps_file (RemovedFile _) = False"
| "keeps_file _ = True"

lemma signals_keep_file: "only_signals t sg e \<Longrightarrow> keeps_file e"
  by (cases e) (auto simp: only_signals_def)

definition harmless_effect :: "effect \<Rightarrow> bool" where
  "harmless_effect e \<longleftrightarrow> stop_neutral e \<and> not_saved e \<and> keeps_file e"

definition harmless :: "sys \<Rightarrow> sys \<Rightarrow> bool" where
  "harmless s s' \<longleftrightarrow> sys_oracle s' = sys_oracle s \<and> extends harmless_effect s s'"

lemma harmless_refl [simp, intro]: "harmless s s"
  by (simp add: harmless_def)

lemma harmless_trans [trans]: "harmless s s' \<Longrightarrow> harmless s' s'' \<Longrightarrow> harmless s s''"
  by (auto simp: harmless_def elim: extends_trans)

lemma harmless_same: "sys_oracle s' = sys_oracle s \<Longrightarrow> sys_trace s' = sys_trace s \<Longrightarrow> harmless s s'"
  by (simp add: harmless_def extends_same)

lemma harmless_emit: "stop_neutral e \<Longrightarrow> not_saved e \<Longrightarrow> keeps_file e \<Longrightarrow> harmless s (emit e s)"
  by (simp add: harmless_def harmless_effect_def extends_emit)

lemma harmless_only: "sys_oracle s' = sys_oracle s \<Longrightarrow> extends P s s' \<Longrightarrow>
    (\<And>e. P e \<Longrightarrow> harmless_effect e) \<Longrightarrow> harmless s s'"
  by (auto simp: harmless_def elim: extends_mono)

lemma harmless_held: "harmless s s' \<Longrightarrow> held R s \<Longrightarrow> held R s'"
  by (auto simp: harmless_def harmless_effect_def elim!: held_neutral elim: extends_mono)

lemma harmless_saved: "harmless s s' \<Longrightarrow> last_saved s' = last_saved s"
  unfolding harmless_def by (elim conjE, rule saved_frame, erule extends_mono) (simp add: harmless_effect_def)

lemma harmless_oracle: "harmless s s' \<Longrightarrow> sys_oracle s' = sys_oracle s"
  by (simp add: harmless_def)

lemma harmless_file: "harmless s s' \<Longrightarrow> extends keeps_file s s'"
  unfolding harmless_def by (elim conjE, erule extends_mono) (simp add: harmless_effect_def)

lemma harmless_fold: "(\<And>x s. harmless s (f s x)) \<Longrightarrow> harmless s (foldl f s xs)"
  by (induction xs arbitrary: s) (auto intro: harmless_trans)

end
