(* ===== verification/Recovery.thy ===== *)
theory Recovery
  imports Meminfo Psi Held
begin

text \<open>
  Recovery: the baseline of calm memory (\<open>mgd/src/engine/health.rs\<close>), the loop that unfreezes and
  restores once the pressure is gone (\<open>mgd/src/recovery.rs\<close>), and the unfreezing at shutdown
  (\<open>mgd/src/lifecycle.rs\<close>).
\<close>

section \<open>The baseline\<close>

record health_baseline =
  hb_avg_available_kb :: f64
  hb_samples :: u32

definition health_new :: health_baseline where
  "health_new = \<lparr>hb_avg_available_kb = Fin 0, hb_samples = 0\<rparr>"

definition health_alpha :: f64 where
  "health_alpha = f64_lit (5 / 100)"

definition health_observe :: "kb \<Rightarrow> health_baseline \<Rightarrow> health_baseline" where
  "health_observe available b =
     \<lparr>hb_avg_available_kb =
        (if hb_samples b = 0 then f64_of_u64 available
         else f64_add (f64_mul health_alpha (f64_of_u64 available))
                (f64_mul (f64_sub (Fin 1) health_alpha) (hb_avg_available_kb b))),
      hb_samples = sat_add (hb_samples b) 1\<rparr>"

definition safe_to_restore :: "health_baseline \<Rightarrow> kb \<Rightarrow> kb \<Rightarrow> kb \<Rightarrow> bool" where
  "safe_to_restore b available total_kb process_rss =
     (let after = kb_sub available process_rss in
      if hb_samples b < 10 then total_kb * 10 div 100 < after
      else fl_lt (f64_mul (hb_avg_available_kb b) (f64_lit (85 / 100))) (f64_of_u64 after))"

definition baseline_mb :: "health_baseline \<Rightarrow> f64" where
  "baseline_mb b = f64_div (hb_avg_available_kb b) (Fin 1024)"

section \<open>Reading the state of the machine\<close>

definition current_meminfo :: "sys \<Rightarrow> mem_info \<times> sys" where
  "current_meminfo s = (let (c, s1) = os_read ''/proc/meminfo'' s in (read_meminfo c, s1))"

text \<open>\<open>src\<close> is the pressure file found at startup.\<close>

definition read_pressure :: "string \<Rightarrow> sys \<Rightarrow> (mgd_error + memory_pressure) \<times> sys" where
  "read_pressure src s =
     (let (c, s1) = os_read src s in
      ((case c of None \<Rightarrow> Inl IoError | Some content \<Rightarrow> parse_pressure content), s1))"

section \<open>Waiting for work\<close>

text \<open>The thread sleeps on the condition variable while both registries are empty. \<open>wakes\<close> lists what
each \<open>wait_timeout\<close> finds: the flag and whether a shutdown was requested. \<open>None\<close> is still
waiting; otherwise the result is the flag that is left.\<close>

fun wait_notified :: "bool \<Rightarrow> (bool \<times> bool) list \<Rightarrow> bool option" where
  "wait_notified True wakes = Some False"
| "wait_notified False [] = None"
| "wait_notified False ((flag, shutdown) # wakes) =
     (if shutdown then Some flag else wait_notified flag wakes)"

definition wait_for_work :: "frozen_map \<Rightarrow> checkpoint_map \<Rightarrow> bool \<Rightarrow> (bool \<times> bool) list \<Rightarrow> bool option" where
  "wait_for_work fm cm flag wakes =
     (if frozen_count fm = 0 \<and> checkpoint_count cm = 0 then wait_notified flag wakes else Some flag)"

section \<open>Unfreezing\<close>

definition max_restore_attempts :: u32 where "max_restore_attempts = 3"
definition min_freeze_age_secs :: u64 where "min_freeze_age_secs = 15"
definition max_unfreeze_per_cycle :: nat where "max_unfreeze_per_cycle = 4"

fun unfreeze_loop ::
  "health_baseline \<Rightarrow> mem_info \<Rightarrow> u64 \<Rightarrow> pid list \<Rightarrow> nat \<Rightarrow> frozen_map \<Rightarrow> sys \<Rightarrow> frozen_map \<times> sys" where
  "unfreeze_loop b mi now [] n fm s = (fm, s)"
| "unfreeze_loop b mi now (p # ps) n fm s =
     (if max_unfreeze_per_cycle \<le> n then (fm, s)
      else if \<not> safe_to_restore b (mi_available mi) (mi_total mi) 0 then (fm, s)
      else (let age = sat_sub now (frozen_at fm p) in
            if age < min_freeze_age_secs then unfreeze_loop b mi now ps n fm s
            else (let (r, s1) = unfreeze_checked p (frozen_start fm p) s in
                  if opr_success r then
                    (let s2 = log_entry LaUnfreeze p (frozen_name fm p) s1;
                         (fm', s3) = frozen_remove p fm s2
                     in unfreeze_loop b mi now ps (Suc n) fm' s3)
                  else unfreeze_loop b mi now ps n fm s1)))"

definition unfreeze_pass :: "frozen_map \<Rightarrow> health_baseline \<Rightarrow> mem_info \<Rightarrow> u64 \<Rightarrow> sys \<Rightarrow> frozen_map \<times> sys" where
  "unfreeze_pass fm b mi now s =
     (if frozen_count fm = 0 then (fm, s) else unfreeze_loop b mi now (frozen_pids fm) 0 fm s)"

section \<open>Restoring\<close>

definition restore_pass :: "checkpoint_map \<Rightarrow> health_baseline \<Rightarrow> mem_info \<Rightarrow> sys \<Rightarrow> checkpoint_map \<times> sys" where
  "restore_pass cm b mi s =
     (if checkpoint_count cm = 0 then (cm, s)
      else (case entries_lightest_first cm of
         [] \<Rightarrow> (cm, s)
       | (p, name, dir, rss, attempts) # _ \<Rightarrow>
           if max_restore_attempts \<le> attempts then
             checkpoint_remove p cm (os_remove_dir dir (log_entry LaRestoreAbandon p name s))
           else if safe_to_restore b (mi_available mi) (mi_total mi) rss then
             (case restore dir s of
                (None, s1) \<Rightarrow> checkpoint_remove p cm (os_remove_dir dir (log_entry LaRestore p name s1))
              | (Some e, s1) \<Rightarrow> increment_attempts p cm (log_entry LaRestoreFail p name s1))
           else (cm, s)))"

section \<open>One turn of the loop\<close>

text \<open>The wait is over and no shutdown was requested.\<close>

definition recovery_turn ::
  "string \<Rightarrow> psi_thresholds \<Rightarrow> health_baseline \<Rightarrow> frozen_map \<Rightarrow> checkpoint_map \<Rightarrow> sys \<Rightarrow>
   health_baseline \<times> frozen_map \<times> checkpoint_map \<times> sys" where
  "recovery_turn src psi b fm cm s =
     (case read_pressure src s of
        (Inl _, s1) \<Rightarrow> (b, fm, cm, os_sleep s1)
      | (Inr pr, s1) \<Rightarrow>
          (if pressure_level_with pr psi \<noteq> Normal then (b, fm, cm, os_sleep s1)
           else (let (mi, s2) = current_meminfo s1;
                     b' = health_observe (mi_available mi) b;
                     (now, s3) = os_unix s2;
                     (fm', s4) = unfreeze_pass fm b' mi now s3;
                     (mi', s5) = current_meminfo s4;
                     (cm', s6) = restore_pass cm b' mi' s5
                 in (b', fm', cm', os_sleep s6))))"

section \<open>Shutdown\<close>

definition shutdown_unfreeze :: "frozen_map \<Rightarrow> sys \<Rightarrow> sys" where
  "shutdown_unfreeze fm s =
     foldl (\<lambda>s (p, st). snd (unfreeze_checked p st s)) s (map (\<lambda>p. (p, frozen_start fm p)) (frozen_pids fm))"

section \<open>Facts about the baseline\<close>

text \<open>The average stays a finite number between 0 and \<open>2 ^ 64\<close>: it is never NaN, so the comparison
against it decides.\<close>

definition baseline_ok :: "health_baseline \<Rightarrow> bool" where
  "baseline_ok b = (fl_le (Fin 0) (hb_avg_available_kb b) \<and> fl_le (hb_avg_available_kb b) (Fin (2 ^ 64)))"

lemma baseline_new_ok: "baseline_ok health_new"
  by (simp add: baseline_ok_def health_new_def)

lemma health_alpha_Fin: "\<exists>a. health_alpha = Fin a \<and> 0 \<le> a" "\<exists>c. f64_sub (Fin 1) health_alpha = Fin c \<and> 0 \<le> c"
proof -
  have "fl_le (Fin 0) health_alpha" "fl_le health_alpha (Fin 1)"
    "fl_le (Fin 0) (f64_sub (Fin 1) health_alpha)" "fl_le (f64_sub (Fin 1) health_alpha) (Fin 1)"
    by (simp_all add: health_alpha_def f64_eval)
  then show "\<exists>a. health_alpha = Fin a \<and> 0 \<le> a" "\<exists>c. f64_sub (Fin 1) health_alpha = Fin c \<and> 0 \<le> c"
    by (blast dest: fl_between_Fin)+
qed

lemma health_step_top:
  "f64_add (f64_mul health_alpha (Fin (2 ^ 64))) (f64_mul (f64_sub (Fin 1) health_alpha) (Fin (2 ^ 64))) = Fin (2 ^ 64)"
  by (simp add: health_alpha_def f64_eval)

lemma f64_of_u64_bounds: "fl_le (Fin 0) (f64_of_u64 n)" "fl_le (f64_of_u64 n) (Fin (2 ^ 64))"
proof -
  have n: "(of_nat (unat n) :: rat) \<le> 2 ^ 64"
  proof -
    have "unat n \<le> 2 ^ 64" using unsigned_less [of n, where 'a = nat] by simp
    then have "(of_nat (unat n) :: rat) \<le> of_nat (2 ^ 64)" by (simp only: of_nat_le_iff)
    then show ?thesis by simp
  qed
  have top: "f64_round (2 ^ 64) = Fin (2 ^ 64)" by (simp add: f64_eval)
  show "fl_le (Fin 0) (f64_of_u64 n)"
    using f64_round_mono [OF of_nat_0_le_iff [of "unat n"]]
    by (simp only: f64_of_u64_def f64_of_nat_def f64_round_zero)
  show "fl_le (f64_of_u64 n) (Fin (2 ^ 64))"
    using f64_round_mono [OF n] by (simp only: f64_of_u64_def f64_of_nat_def top)
qed

lemma baseline_observe_ok: "baseline_ok b \<Longrightarrow> baseline_ok (health_observe n b)"
proof -
  assume b: "baseline_ok b"
  obtain a c where ac: "health_alpha = Fin a" "0 \<le> a" "f64_sub (Fin 1) health_alpha = Fin c" "0 \<le> c"
    using health_alpha_Fin by blast
  obtain x where x: "f64_of_u64 n = Fin x" "0 \<le> x" "x \<le> 2 ^ 64"
    using fl_between_Fin [OF f64_of_u64_bounds] by blast
  obtain y where y: "hb_avg_available_kb b = Fin y" "0 \<le> y" "y \<le> 2 ^ 64"
    using b fl_between_Fin [of 0 "hb_avg_available_kb b" "2 ^ 64"] unfolding baseline_ok_def by blast
  let ?new = "f64_add (f64_mul (Fin a) (Fin x)) (f64_mul (Fin c) (Fin y))"
  have nn: "fl_le (Fin 0) (f64_mul (Fin a) (Fin x))" "fl_le (Fin 0) (f64_mul (Fin c) (Fin y))"
    using f64_mul_nonneg [OF ac(2) x(2)] f64_mul_nonneg [OF ac(4) y(2)] .
  have "fl_le ?new (f64_add (f64_mul (Fin a) (Fin (2 ^ 64))) (f64_mul (Fin c) (Fin (2 ^ 64))))"
    using nn ac x y by (intro f64_add_mono f64_mul_mono) auto
  then have "fl_le ?new (Fin (2 ^ 64))"
    using health_step_top unfolding ac(3) unfolding ac(1) by (simp only:)
  moreover have "fl_le (Fin 0) ?new" using nn by (rule f64_add_nonneg)
  moreover have "fl_le (Fin 0) (f64_of_u64 n)" "fl_le (f64_of_u64 n) (Fin (2 ^ 64))"
    by (rule f64_of_u64_bounds)+
  ultimately show ?thesis using x y ac by (simp add: health_observe_def baseline_ok_def)
qed

text \<open>More memory available, or a smaller process, never makes a restore unsafe.\<close>

lemma kb_sub_mono: "a \<le> a' \<Longrightarrow> r' \<le> r \<Longrightarrow> kb_sub a r \<le> kb_sub a' r'"
  by (simp add: kb_sub_def word_le_nat_alt sat_simps)

lemma f64_of_u64_mono: "m \<le> n \<Longrightarrow> fl_le (f64_of_u64 m) (f64_of_u64 n)"
  unfolding f64_of_u64_def f64_of_nat_def by (rule f64_round_mono) (simp only: word_le_nat_alt of_nat_le_iff)

lemma safe_to_restore_mono:
  assumes "safe_to_restore b available total_kb rss" "available \<le> available'" "rss' \<le> rss"
  shows "safe_to_restore b available' total_kb rss'"
proof -
  have le: "kb_sub available rss \<le> kb_sub available' rss'" using assms(2,3) by (rule kb_sub_mono)
  show ?thesis
    using assms(1) le fl_lt_le_trans [OF _ f64_of_u64_mono [OF le]]
    by (auto simp: safe_to_restore_def Let_def split: if_splits)
qed

text \<open>A cold baseline demands that a tenth of the memory stays free.\<close>

lemma safe_to_restore_cold:
  "hb_samples b < 10 \<Longrightarrow> safe_to_restore b available total_kb rss \<longleftrightarrow> total_kb * 10 div 100 < sat_sub available rss"
  by (simp add: safe_to_restore_def kb_sub_def Let_def)

section \<open>Facts about unfreezing\<close>

text \<open>What one pass may do to the system: continue a process of the registry, log it, save the
registry.\<close>

definition thaw_effect :: "pid set \<Rightarrow> effect \<Rightarrow> bool" where
  "thaw_effect ps e = (case e of
     Signalled t sig _ \<Rightarrow> sig = SIGCONT \<and> t \<in> uint ` ps
   | Logged a p _ \<Rightarrow> a = LaUnfreeze \<and> p \<in> ps
   | PersistedFrozen _ \<Rightarrow> True
   | _ \<Rightarrow> False)"

lemma thaw_unfreeze: "p \<in> ps \<Longrightarrow> extends (thaw_effect ps) s (snd (unfreeze_checked p st s))"
  by (rule extends_mono [OF thawer.extends_only])
     (auto simp: only_signals_def thaw_effect_def split: effect.splits)

lemma thaw_log: "p \<in> ps \<Longrightarrow> extends (thaw_effect ps) s (log_entry LaUnfreeze p n s)"
  by (simp add: extends_def log_entry_def thaw_effect_def)

lemma thaw_remove: "extends (thaw_effect ps) s (snd (frozen_remove p fm s))"
  by (auto simp: extends_def frozen_remove_def frozen_save_def thaw_effect_def Let_def)

lemma unfreeze_loop_effects:
  "set ps \<subseteq> P \<Longrightarrow> extends (thaw_effect P) s (snd (unfreeze_loop b mi now ps n fm s))"
proof (induction b mi now ps n fm s rule: unfreeze_loop.induct)
  case (2 b mi now p ps n fm s)
  obtain r s1 where u: "unfreeze_checked p (frozen_start fm p) s = (r, s1)" by fastforce
  let ?s2 = "log_entry LaUnfreeze p (frozen_name fm p) s1"
  obtain fm' s3 where rm: "frozen_remove p fm ?s2 = (fm', s3)" by fastforce
  have e1: "extends (thaw_effect P) s s1" using thaw_unfreeze [of p P s "frozen_start fm p"] "2.prems" by (simp add: u)
  have e2: "extends (thaw_effect P) s1 ?s2" using "2.prems" by (auto intro: thaw_log)
  have e3: "extends (thaw_effect P) ?s2 s3" using thaw_remove [of P ?s2 p fm] by (simp add: rm)
  note e13 = extends_trans [OF e1 extends_trans [OF e2 e3]]
  show ?case
    using 2 u rm e1 e13 by (auto simp: Let_def intro: extends_trans)
qed simp

text \<open>
  The outcome of one pass. At most \<open>4 - n\<close> entries leave, each old enough and each one of those listed;
  the others keep their data, and the state file follows the registry.
\<close>

definition freeze_old :: "u64 \<Rightarrow> frozen_map \<Rightarrow> pid \<Rightarrow> bool" where
  "freeze_old now fm p \<longleftrightarrow> min_freeze_age_secs \<le> sat_sub now (frozen_at fm p)"

lemma frozen_at_look: "hm_get fm' p = hm_get fm p \<Longrightarrow> frozen_at fm' p = frozen_at fm p"
  by (simp add: frozen_at_def)

lemma log_entry_saved: "last_saved (log_entry a p n s) = last_saved s"
  by (simp add: last_saved_def log_entry_def emit_def tick_def map_filter_def)

lemma thaw_saved: "last_saved (snd (unfreeze_checked p st s)) = last_saved s"
  by (rule signals_saved [OF thawer.extends_only])

lemma unfreeze_loop_step:
  obtains (stop) "unfreeze_loop b mi now (p # ps) n fm s = (fm, s)"
  | (skip) s1 where "last_saved s1 = last_saved s"
      "unfreeze_loop b mi now (p # ps) n fm s = unfreeze_loop b mi now ps n fm s1"
      "sys_oracle s1 = sys_oracle s" "\<And>R. held R s \<Longrightarrow> held R s1"
  | (thaw) fm1 s2 s3 where "n < max_unfreeze_per_cycle" "freeze_old now fm p" "last_saved s2 = last_saved s"
      "frozen_remove p fm s2 = (fm1, s3)"
      "unfreeze_loop b mi now (p # ps) n fm s = unfreeze_loop b mi now ps (Suc n) fm1 s3"
      "sys_oracle s3 = sys_oracle s"
      "\<And>F. held (with_registry F fm) s \<Longrightarrow> held (with_registry F fm1) s3"
proof -
  obtain r s1 where u: "unfreeze_checked p (frozen_start fm p) s = (r, s1)" by fastforce
  define s2 where "s2 = log_entry LaUnfreeze p (frozen_name fm p) s1"
  obtain fm1 s3 where rm: "frozen_remove p fm s2 = (fm1, s3)" by fastforce
  have sv: "last_saved s1 = last_saved s" "last_saved s2 = last_saved s"
    using thaw_saved [of p "frozen_start fm p" s] by (simp_all add: u s2_def log_entry_saved)
  have o1: "sys_oracle s1 = sys_oracle s" using checked_oracle(1) [of p "frozen_start fm p" s] by (simp add: u)
  have h1: "held R s1" if "held R s" for R
    using held_thaw_keep [OF that, of p "frozen_start fm p"] by (simp add: u)
  have s12: "s1 = snd (unfreeze_checked p (frozen_start fm p) s)" "sys_oracle s2 = sys_oracle s1" "extends stop_neutral s1 s2"
    by (simp_all add: u s2_def log_entry_def extends_def stop_neutral_def)
  have o3: "sys_oracle s3 = sys_oracle s"
    using frozen_remove_oracle [of p fm s2] s12(2) o1 by (simp add: rm)
  show thesis
  proof (cases "max_unfreeze_per_cycle \<le> n \<or> \<not> safe_to_restore b (mi_available mi) (mi_total mi) 0")
    case True
    then show thesis by (intro stop) auto
  next
    case go: False
    consider "\<not> freeze_old now fm p" | "freeze_old now fm p" "\<not> opr_success r" | "freeze_old now fm p" "opr_success r"
      by blast
    then show thesis
    proof cases
      case 1
      then show thesis using go by (intro skip [of s]) (auto simp: freeze_old_def)
    next
      case 2
      then show thesis using go sv o1 h1 by (intro skip [of s1]) (auto simp: freeze_old_def u not_less [symmetric])
    next
      case 3
      then show thesis using go sv rm o3 held_unrecord [OF _ s12 rm]
        by (intro thaw [of s2 fm1 s3]) (auto simp: freeze_old_def u not_less [symmetric] s2_def Let_def)
    qed
  qed
qed

lemma unfreeze_loop_result:
  assumes "unfreeze_loop b mi now ps n fm s = (fm', s')" "hm_ok fm" "distinct ps" "n \<le> max_unfreeze_per_cycle"
  shows "hm_ok fm' \<and> frozen_count fm \<le> frozen_count fm' + (max_unfreeze_per_cycle - n) \<and>
    (\<forall>q. hm_get fm' q = hm_get fm q \<or> hm_get fm' q = None \<and> q \<in> set ps \<and> freeze_old now fm q) \<and>
    (last_saved s = Some fm \<longrightarrow> last_saved s' = Some fm')"
  using assms
proof (induction ps arbitrary: n fm s)
  case (Cons p ps)
  show ?case
  proof (cases b mi now p ps n fm s rule: unfreeze_loop_step)
    case stop
    with Cons.prems show ?thesis by auto
  next
    case (skip s1)
    then show ?thesis using Cons.IH [of n fm s1] Cons.prems by auto
  next
    case (thaw fm1 s2 s3)
    note res = frozen_remove_result [OF thaw(4)] and sy = frozen_remove_synced [OF _ thaw(4)]
    have ih: "hm_ok fm' \<and> frozen_count fm1 \<le> frozen_count fm' + (max_unfreeze_per_cycle - Suc n) \<and>
        (\<forall>q. hm_get fm' q = hm_get fm1 q \<or> hm_get fm' q = None \<and> q \<in> set ps \<and> freeze_old now fm1 q) \<and>
        (last_saved s3 = Some fm1 \<longrightarrow> last_saved s' = Some fm')"
      using Cons.IH [of "Suc n" fm1 s3] Cons.prems thaw res(2) by auto
    have cnt: "frozen_count fm \<le> Suc (frozen_count fm1)" using res(4) Cons.prems(2) by (auto split: if_splits)
    have keep: "freeze_old now fm q" if "freeze_old now fm1 q" "q \<noteq> p" for q
      using that res(1) [of q] by (simp add: freeze_old_def frozen_at_def)
    have "hm_get fm' q = hm_get fm q \<or> hm_get fm' q = None \<and> q \<in> set (p # ps) \<and> freeze_old now fm q" for q
    proof -
      have "hm_get fm' q = hm_get fm1 q \<or> hm_get fm' q = None \<and> q \<in> set ps \<and> freeze_old now fm1 q"
        using ih by blast
      then show ?thesis using res(1) [of q] thaw(2) keep [of q] by (cases "q = p") auto
    qed
    moreover have "frozen_count fm \<le> frozen_count fm' + (max_unfreeze_per_cycle - n)"
      using ih cnt thaw(1) by linarith
    moreover have "last_saved s = Some fm \<longrightarrow> last_saved s3 = Some fm1"
      using sy thaw(3) by simp
    ultimately show ?thesis using ih by blast
  qed
qed simp

lemma unfreeze_pass_result:
  assumes "unfreeze_pass fm b mi now s = (fm', s')" "hm_ok fm"
  shows "hm_ok fm' \<and> frozen_count fm \<le> frozen_count fm' + max_unfreeze_per_cycle \<and>
    (\<forall>q. hm_get fm' q = hm_get fm q \<or> hm_get fm' q = None \<and> freeze_old now fm q) \<and>
    (last_saved s = Some fm \<longrightarrow> last_saved s' = Some fm')"
proof (cases "frozen_count fm = 0")
  case False
  then have "unfreeze_loop b mi now (frozen_pids fm) 0 fm s = (fm', s')"
    using assms(1) by (simp add: unfreeze_pass_def)
  moreover have "distinct (frozen_pids fm)" using assms(2) by (simp add: frozen_pids_def hm_keys_def hm_ok_def)
  ultimately show ?thesis using unfreeze_loop_result [of b mi now "frozen_pids fm" 0 fm s fm' s'] assms(2) by auto
qed (use assms in \<open>simp add: unfreeze_pass_def\<close>)

lemma unfreeze_pass_effects:
  "extends (thaw_effect (set (frozen_pids fm))) s (snd (unfreeze_pass fm b mi now s))"
  by (auto simp: unfreeze_pass_def intro: unfreeze_loop_effects)

text \<open>No process of the registry is forgotten: one that leaves was continued.\<close>

lemma unfreeze_loop_held:
  assumes "unfreeze_loop b mi now ps n fm s = (fm', s')" "held (with_registry F fm) s"
  shows "held (with_registry F fm') s' \<and> sys_oracle s' = sys_oracle s"
  using assms
proof (induction ps arbitrary: n fm s)
  case (Cons p ps)
  show ?case
  proof (cases b mi now p ps n fm s rule: unfreeze_loop_step)
    case stop
    with Cons.prems show ?thesis by simp
  next
    case (skip s1)
    then show ?thesis using Cons.IH [of n fm s1] Cons.prems by simp
  next
    case (thaw fm1 s2 s3)
    then show ?thesis using Cons.IH [of "Suc n" fm1 s3] Cons.prems by simp
  qed
qed simp

lemma unfreeze_pass_held:
  assumes "unfreeze_pass fm b mi now s = (fm', s')" "held (with_registry F fm) s"
  shows "held (with_registry F fm') s' \<and> sys_oracle s' = sys_oracle s"
  using assms unfreeze_loop_held [OF _ assms(2)] by (auto simp: unfreeze_pass_def split: if_splits)

text \<open>Without headroom nothing is unfrozen.\<close>

lemma unfreeze_pass_no_headroom:
  "\<not> safe_to_restore b (mi_available mi) (mi_total mi) 0 \<Longrightarrow> unfreeze_pass fm b mi now s = (fm, s)"
  by (cases "frozen_pids fm") (simp_all add: unfreeze_pass_def)

section \<open>Facts about restoring\<close>

definition attempts_ok :: "checkpoint_map \<Rightarrow> bool" where
  "attempts_ok cm = list_all (\<lambda>(_, _, _, _, a). a \<le> max_restore_attempts) cm"

lemma lightest_first_in: "entries_lightest_first cm = e # es \<Longrightarrow> e \<in> set cm"
  using lightest_first(1) [of cm] by (metis list.set_intros(1) set_mset_mset)

lemma list_all_update: "list_all P m \<Longrightarrow> P (k, v) \<Longrightarrow> list_all P (hm_insert k v m)"
  by (induction m) (auto simp: hm_insert_def)

lemma list_all_remove: "list_all P m \<Longrightarrow> list_all P (hm_remove k m)"
  by (simp add: list_all_iff hm_remove_def)

lemma attempts_step: "a < max_restore_attempts \<Longrightarrow> a + 1 \<le> max_restore_attempts"
  unfolding max_restore_attempts_def by (simp add: inc_le)

lemma restore_pass_attempts:
  assumes "restore_pass cm b mi s = (cm', s')" "attempts_ok cm" "hm_ok cm"
  shows "attempts_ok cm' \<and> hm_ok cm'"
proof (cases "entries_lightest_first cm")
  case (Cons e es)
  obtain p name dir rss a where e: "e = (p, name, dir, rss, a)" by (cases e) auto
  have look: "hm_get cm p = Some (name, dir, rss, a)"
    using lightest_first_in [OF Cons] assms(3) by (simp add: e hm_get_iff)
  have rm: "checkpoint_remove p cm x = (cm', y) \<Longrightarrow> attempts_ok cm' \<and> hm_ok cm'" for x y
    using assms(2,3)
    by (auto simp: checkpoint_remove_def checkpoint_del_def attempts_ok_def list_all_remove Let_def split: if_splits)
  have inc: "increment_attempts p cm x = (cm', y) \<Longrightarrow> a < max_restore_attempts \<Longrightarrow> attempts_ok cm' \<and> hm_ok cm'" for x y
    using assms(2,3) attempts_step [of a]
    by (auto simp: increment_attempts_def look checkpoint_put_def attempts_ok_def list_all_update Let_def)
  show ?thesis using assms Cons
    by (auto simp: restore_pass_def e Let_def not_le dest: rm inc split: if_splits prod.splits option.splits)
qed (use assms in \<open>simp add: restore_pass_def split: if_splits\<close>)

text \<open>The tries that are left: three restores and the abandonment for each entry. Every pass that
changes the registry uses one up.\<close>

definition tries_left :: "checkpoint_map \<Rightarrow> nat" where
  "tries_left cm = sum_list (map (\<lambda>(_, _, _, _, a). 4 - unat a) cm)"

lemma tries_remove:
  "hm_ok cm \<Longrightarrow> hm_get cm p = Some (n, d, r, a) \<Longrightarrow> tries_left cm = (4 - unat a) + tries_left (hm_remove p cm)"
  unfolding tries_left_def by (frule (1) hm_sum_remove [where f = "\<lambda>(_, _, _, _, a). 4 - unat a"]) simp

lemma restore_pass_tries:
  assumes "restore_pass cm b mi s = (cm', s')" "hm_ok cm" "attempts_ok cm"
  shows "cm' = cm \<or> tries_left cm' < tries_left cm"
proof (cases "entries_lightest_first cm")
  case (Cons e es)
  obtain p name dir rss a where e: "e = (p, name, dir, rss, a)" by (cases e) auto
  have look: "hm_get cm p = Some (name, dir, rss, a)"
    using lightest_first_in [OF Cons] assms(2) by (simp add: e hm_get_iff)
  have a: "unat a \<le> 3"
    using lightest_first_in [OF Cons] assms(3)
    by (auto simp: attempts_ok_def list_all_iff e max_restore_attempts_def word_le_nat_alt)
  note left = tries_remove [OF assms(2) look]
  have rm: "checkpoint_remove p cm x = (cm', y) \<Longrightarrow> tries_left cm' < tries_left cm" for x y
    using left a by (auto simp: checkpoint_remove_def checkpoint_del_def hm_contains_get look Let_def)
  have inc: "increment_attempts p cm x = (cm', y) \<Longrightarrow> a < max_restore_attempts \<Longrightarrow> tries_left cm' < tries_left cm" for x y
  proof -
    assume i: "increment_attempts p cm x = (cm', y)" and "a < max_restore_attempts"
    then have a3: "unat a < 3" by (simp add: max_restore_attempts_def word_less_nat_alt)
    then have up: "unat (a + 1) = unat a + 1" by (simp add: unat_word_ariths)
    have "hm_ok cm'" "hm_get cm' p = Some (name, dir, rss, a + 1)" "hm_remove p cm' = hm_remove p cm"
      using i assms(2) by (auto simp: increment_attempts_def look checkpoint_put_def Let_def hm_simps hm_remove_insert)
    from tries_remove [OF this(1,2)] this(3) left a3 up show ?thesis by simp
  qed
  show ?thesis using assms(1) Cons
    by (auto simp: restore_pass_def e Let_def not_le dest: rm inc split: if_splits prod.splits option.splits)
qed (use assms in \<open>simp add: restore_pass_def split: if_splits\<close>)

text \<open>A snapshot is deleted only when its process was restored from it, or after the last attempt.\<close>

lemma restore_trace_no_removal:
  "restore dir s = (r, s1) \<Longrightarrow> \<exists>es. sys_trace s1 = sys_trace s @ es \<and> (\<forall>d. RemovedDir d \<notin> set es) \<and>
    (\<forall>t sig x. Signalled t sig x \<notin> set es) \<and> fst (restore dir s) = r"
  by (auto simp: restore_def os_exists_def os_run_def Let_def dest!: helper_path_trace
      split: prod.splits bool.splits option.splits run_result.splits if_splits)

lemma restore_pass_removal:
  assumes "restore_pass cm b mi s = (cm', s')"
  shows "extends (\<lambda>e. case e of RemovedDir d \<Rightarrow>
      (\<exists>p name rss a. entries_lightest_first cm \<noteq> [] \<and> hd (entries_lightest_first cm) = (p, name, d, rss, a) \<and>
         (max_restore_attempts \<le> a \<or> fst (restore d s) = None))
    | Signalled _ _ _ \<Rightarrow> False | _ \<Rightarrow> True) s s'"
  using assms
  by (auto simp: restore_pass_def extends_def Let_def checkpoint_remove_def increment_attempts_def
      checkpoint_save_def os_remove_dir_def log_entry_def
      split: if_splits prod.splits option.splits list.splits effect.splits dest!: restore_trace_no_removal)

lemma restore_oracle: "restore dir s = (r, s1) \<Longrightarrow> sys_oracle s1 = sys_oracle s"
  by (auto simp: restore_def os_exists_def Let_def disable_checkpoint_def dest!: helper_path_oracle run_oracle(1)
      split: prod.splits bool.splits option.splits run_result.splits if_splits)

lemma checkpoint_saves:
  "checkpoint_remove p cm s = (cm', s') \<Longrightarrow> sys_oracle s' = sys_oracle s \<and> last_saved s' = last_saved s"
  "increment_attempts p cm s = (cm', s') \<Longrightarrow> sys_oracle s' = sys_oracle s \<and> last_saved s' = last_saved s"
  by (auto simp: checkpoint_remove_def increment_attempts_def checkpoint_save_def last_saved_def map_filter_def Let_def
      split: if_splits option.splits prod.splits)

lemma remove_dir_saved: "last_saved (os_remove_dir d s) = last_saved s"
  by (simp add: os_remove_dir_def last_saved_def map_filter_def)

lemma restore_pass_held:
  assumes "restore_pass cm b mi s = (cm', s')"
  shows "sys_oracle s' = sys_oracle s" "held R s \<Longrightarrow> held R s'" "last_saved s = Some fm \<Longrightarrow> last_saved s' = Some fm"
proof -
  have rs: "last_saved s1 = last_saved s" if "restore dir s = (r, s1)" for dir r s1
    using that
    by (auto simp: restore_def os_exists_def os_run_def Let_def last_saved_def map_filter_def dest!: helper_path_trace
        split: prod.splits bool.splits option.splits run_result.splits if_splits)
  show o: "sys_oracle s' = sys_oracle s"
    using assms
    by (auto simp: restore_pass_def Let_def os_remove_dir_def log_entry_def
        dest!: restore_oracle checkpoint_saves split: if_splits prod.splits option.splits list.splits)
  have "extends stop_neutral s s'"
    using restore_pass_removal [OF assms] by (rule extends_mono) (auto simp: stop_neutral_def split: effect.splits)
  then show "held R s'" if "held R s" using that o by (blast intro: held_neutral)
  show "last_saved s' = Some fm" if "last_saved s = Some fm"
    using assms that
    by (auto simp: restore_pass_def Let_def remove_dir_saved log_entry_saved
        dest!: rs checkpoint_saves split: if_splits prod.splits option.splits list.splits)
qed

section \<open>One turn keeps the invariants\<close>

lemma silent_calls:
  "read_pressure src s = (r, s1) \<Longrightarrow> sys_oracle s1 = sys_oracle s \<and> sys_trace s1 = sys_trace s"
  "current_meminfo s = (mi, s1) \<Longrightarrow> sys_oracle s1 = sys_oracle s \<and> sys_trace s1 = sys_trace s"
  "os_unix s = (now, s1) \<Longrightarrow> sys_oracle s1 = sys_oracle s \<and> sys_trace s1 = sys_trace s"
  "sys_oracle (os_sleep s) = sys_oracle s \<and> sys_trace (os_sleep s) = sys_trace s"
  by (auto simp: read_pressure_def current_meminfo_def os_defs Let_def)

lemma last_saved_trace: "sys_trace s' = sys_trace s \<Longrightarrow> last_saved s' = last_saved s"
  by (simp add: last_saved_def)

lemma recovery_turn_result:
  assumes turn: "recovery_turn src psi b fm cm s = (b', fm', cm', s')"
    and ok: "hm_ok fm" "hm_ok cm" "attempts_ok cm" "baseline_ok b"
    and saved: "last_saved s = Some fm" and h: "held (with_registry F fm) s"
  shows "hm_ok fm' \<and> hm_ok cm' \<and> attempts_ok cm' \<and> baseline_ok b' \<and> last_saved s' = Some fm' \<and>
    held (with_registry F fm') s' \<and> sys_oracle s' = sys_oracle s"
proof -
  obtain r s1 where 1: "read_pressure src s = (r, s1)" by fastforce
  obtain mi s2 where 2: "current_meminfo s1 = (mi, s2)" by fastforce
  define b1 where "b1 = health_observe (mi_available mi) b"
  obtain now s3 where 3: "os_unix s2 = (now, s3)" by fastforce
  obtain fm4 s4 where 4: "unfreeze_pass fm b1 mi now s3 = (fm4, s4)" by fastforce
  obtain mi5 s5 where 5: "current_meminfo s4 = (mi5, s5)" by fastforce
  obtain cm6 s6 where 6: "restore_pass cm b1 mi5 s5 = (cm6, s6)" by fastforce
  have e3: "sys_oracle s3 = sys_oracle s" "sys_trace s3 = sys_trace s"
    using silent_calls(1) [OF 1] silent_calls(2) [OF 2] silent_calls(3) [OF 3] by auto
  note h3 = held_same [OF h e3]
  note p4 = unfreeze_pass_result [OF 4 ok(1)] and h4 = unfreeze_pass_held [OF 4 h3]
  have s4: "last_saved s4 = Some fm4" using p4 saved last_saved_trace [OF e3(2)] by simp
  have e5: "sys_oracle s5 = sys_oracle s4" "sys_trace s5 = sys_trace s4" using silent_calls(2) [OF 5] by auto
  have h5: "held (with_registry F fm4) s5" using h4 e5 by (blast intro: held_same)
  have s5: "last_saved s5 = Some fm4" using s4 last_saved_trace [OF e5(2)] by simp
  note r6 = restore_pass_held [OF 6] and a6 = restore_pass_attempts [OF 6 ok(3,2)]
  have s6: "last_saved (os_sleep s6) = Some fm4" using r6(3) [OF s5] silent_calls(4) last_saved_trace by metis
  have h6: "held (with_registry F fm4) (os_sleep s6)" using held_same [OF r6(2) [OF h5]] silent_calls(4) by blast
  have idle: "last_saved (os_sleep s1) = Some fm" "held (with_registry F fm) (os_sleep s1)"
      "sys_oracle (os_sleep s1) = sys_oracle s"
    using silent_calls(1) [OF 1] silent_calls(4) [of s1] saved last_saved_trace [of "os_sleep s1" s]
      held_same [OF h, of "os_sleep s1"] by auto
  consider "(b', fm', cm', s') = (b, fm, cm, os_sleep s1)" | "(b', fm', cm', s') = (b1, fm4, cm6, os_sleep s6)"
    using turn by (auto simp: recovery_turn_def 1 2 3 4 5 6 b1_def [symmetric] Let_def split: sum.splits if_splits)
  then show ?thesis
  proof cases
    case 1
    then show ?thesis using ok idle by simp
  next
    case 2
    then show ?thesis
      using p4 a6 s6 h6 h4 e3 e5 r6(1) silent_calls(4) [of s6] baseline_observe_ok [OF ok(4)] by (simp add: b1_def)
  qed
qed

section \<open>Facts about waiting and shutdown\<close>

lemma wait_notified_returns: "wait_notified flag wakes \<noteq> None \<longleftrightarrow> flag \<or> (\<exists>w \<in> set wakes. fst w \<or> snd w)"
  by (induction flag wakes rule: wait_notified.induct) auto

definition thaw_all :: "(pid \<times> u64) list \<Rightarrow> sys \<Rightarrow> sys" where
  "thaw_all vs s = foldl (\<lambda>s (p, st). snd (unfreeze_checked p st s)) s vs"

lemma thaw_all_simps [simp]:
  "thaw_all [] s = s" "thaw_all ((p, st) # vs) s = thaw_all vs (snd (unfreeze_checked p st s))"
  by (simp_all add: thaw_all_def)

lemma shutdown_thaw_all: "shutdown_unfreeze fm s = thaw_all (map (\<lambda>p. (p, frozen_start fm p)) (frozen_pids fm)) s"
  by (simp add: shutdown_unfreeze_def thaw_all_def)

lemma thaw_all_effects: "fst ` set vs \<subseteq> P \<Longrightarrow> extends (thaw_effect P) s (thaw_all vs s)"
proof (induction vs arbitrary: s)
  case (Cons v vs)
  obtain p st where v: "v = (p, st)" by fastforce
  show ?case
    using Cons.IH [of "snd (unfreeze_checked p st s)"] thaw_unfreeze [of p P s st] Cons.prems
    by (auto simp: v intro: extends_trans)
qed simp

lemma thaw_all_sends:
  "(p, st) \<in> set vs \<Longrightarrow> reads_as (sys_oracle s) p st \<Longrightarrow>
   \<exists>r. Signalled (uint p) SIGCONT r \<in> set (sys_trace (thaw_all vs s))"
proof (induction vs arbitrary: s)
  case (Cons v vs)
  obtain q st' where v: "v = (q, st')" by fastforce
  consider "v = (p, st)" | "(p, st) \<in> set vs" using Cons.prems(1) by auto
  then show ?case
  proof cases
    case 1
    then show ?thesis
      using unfreeze_checked_sends [OF Cons.prems(2)] extends_keeps [OF thaw_all_effects [OF subset_refl]]
      by auto
  next
    case 2
    then show ?thesis using Cons.IH [of "snd (unfreeze_checked q st' s)"] Cons.prems by (simp add: v)
  qed
qed simp

lemma thaw_all_held: "held (\<lambda>p st. R p st \<or> (p, st) \<in> set vs) s \<Longrightarrow> held R (thaw_all vs s)"
proof (induction vs arbitrary: s)
  case (Cons v vs)
  obtain p st where v: "v = (p, st)" by fastforce
  have "held (\<lambda>q st'. R q st' \<or> (q, st') \<in> set vs) (snd (unfreeze_checked p st s))"
    by (rule held_mono [OF held_thaw [OF Cons.prems, of p st]]) (auto simp: v)
  then show ?case using Cons.IH by (simp add: v)
qed simp

lemma thaw_all_oracle: "sys_oracle (thaw_all vs s) = sys_oracle s"
  by (induction vs arbitrary: s) auto

text \<open>After the shutdown no process of the registry is stopped.\<close>

lemma shutdown_held: "held (with_registry F fm) s \<Longrightarrow> held F (shutdown_unfreeze fm s)"
  unfolding shutdown_thaw_all
proof (rule thaw_all_held, erule held_mono)
  fix p st
  assume "with_registry F fm p st"
  then show "F p st \<or> (p, st) \<in> set (map (\<lambda>p. (p, frozen_start fm p)) (frozen_pids fm))"
    using hm_contains_keys [of fm p] by (auto simp: with_registry_def by_registry_frozen is_frozen_def frozen_pids_def)
qed

end
