(* ===== verification/Spike.thy ===== *)
theory Spike
  imports Execute
begin

text \<open>
  Spike mode: processes whose memory oscillates, as builds do (\<open>mgd/src/spike_mode.rs\<close>), and the
  cycle that carries out the tracker's decisions (\<open>mgd/src/evictor/spike.rs\<close>). The state of the
  tracker belongs to the evictor thread; the scratch buffers are values of one update.
\<close>

section \<open>State\<close>

datatype spike_phase = Observing | Tracking

record spike_victim =
  sv_pid :: pid
  sv_name :: string
  sv_start_time :: u64
  sv_frozen_for :: pid
  sv_frozen_at :: instant

datatype spike_decision =
    FreezeForHeadroom kb
  | ThrottleSpike pid string
  | RestoreThrottle pid string
  | ReleaseVictims "spike_victim list"

record spike_state =
  ss_pid :: pid
  ss_name :: string
  ss_phase :: spike_phase
  ss_samples :: "(kb \<times> instant) list"
  ss_initial_rss :: kb
  ss_rss_max :: kb
  ss_has_peaked :: bool
  ss_has_oscillated :: bool
  ss_cpu_throttled :: bool
  ss_idle_ticks :: u32
  ss_cgroup_path :: "string option"
  ss_force_included :: bool

definition spike_state_new :: "pid \<Rightarrow> string \<Rightarrow> kb \<Rightarrow> string option \<Rightarrow> bool \<Rightarrow> spike_state" where
  "spike_state_new p name baseline cgroup force_included =
     \<lparr>ss_pid = p, ss_name = name, ss_phase = Observing, ss_samples = [], ss_initial_rss = baseline,
      ss_rss_max = baseline, ss_has_peaked = False, ss_has_oscillated = False, ss_cpu_throttled = False,
      ss_idle_ticks = 0, ss_cgroup_path = cgroup, ss_force_included = force_included\<rparr>"

record spike_params =
  sp_window_sec :: u64
  sp_min_rss :: kb
  sp_growth_threshold :: kb
  sp_majflt_threshold :: u64
  sp_oscillation_drop_factor :: f64
  sp_min_samples :: nat
  sp_headroom_factor :: f64
  sp_cpu_threshold_pct :: f32
  sp_idle_cpu_threshold_pct :: f32
  sp_idle_rss_delta :: kb
  sp_idle_ticks_required :: u32
  sp_include :: "regex list"
  sp_exclude :: "regex list"

definition spike_params_from :: "compiled_config \<Rightarrow> spike_params" where
  "spike_params_from cfg =
     \<lparr>sp_window_sec = cc_spike_window_sec cfg, sp_min_rss = cc_spike_min_rss_kb cfg,
      sp_growth_threshold = cc_spike_growth_threshold_kb cfg, sp_majflt_threshold = cc_spike_majflt_threshold cfg,
      sp_oscillation_drop_factor = cc_spike_oscillation_drop_factor cfg, sp_min_samples = cc_spike_min_samples cfg,
      sp_headroom_factor = cc_spike_headroom_factor cfg, sp_cpu_threshold_pct = cc_spike_cpu_threshold_pct cfg,
      sp_idle_cpu_threshold_pct = cc_spike_idle_cpu_threshold_pct cfg, sp_idle_rss_delta = cc_spike_idle_rss_delta_kb cfg,
      sp_idle_ticks_required = cc_spike_idle_ticks_required cfg, sp_include = cc_spike_include cfg,
      sp_exclude = cc_spike_exclude cfg\<rparr>"

record spike_tracker =
  tr_spikes :: "(pid, spike_state) hmap"
  tr_victims :: "(pid, spike_victim) hmap"
  tr_cooldowns :: "(pid, instant) hmap"
  tr_prev_rss :: "(pid, kb) hmap"
  tr_prev_majflt :: "(pid, u64) hmap"

definition spike_tracker_new :: spike_tracker where
  "spike_tracker_new = \<lparr>tr_spikes = [], tr_victims = [], tr_cooldowns = [], tr_prev_rss = [], tr_prev_majflt = []\<rparr>"

section \<open>Registering candidates\<close>

definition rss_deltas :: "process list \<Rightarrow> (pid, kb) hmap \<Rightarrow> (pid, kb) hmap" where
  "rss_deltas procs prev = foldl (\<lambda>m pr.
     hm_insert (p_pid pr) (kb_sub (p_rss pr) (get_or prev (p_pid pr) (p_rss pr))) m) [] procs"

definition majflt_deltas :: "process list \<Rightarrow> (pid, u64) hmap \<Rightarrow> (pid, u64) hmap" where
  "majflt_deltas procs prev = foldl (\<lambda>m pr.
     hm_insert (p_pid pr) (sat_sub (p_majflt pr) (get_or prev (p_pid pr) (p_majflt pr))) m) [] procs"

definition is_behavioral :: "spike_params \<Rightarrow> process \<Rightarrow> kb \<Rightarrow> u64 \<Rightarrow> bool" where
  "is_behavioral p pr rss_delta majflt_delta =
     (sp_min_rss p \<le> p_rss pr \<and> (sp_growth_threshold p < rss_delta \<or> sp_majflt_threshold p < majflt_delta))"

definition register_candidate ::
  "spike_params \<Rightarrow> (pid, kb) hmap \<Rightarrow> (pid, kb) hmap \<Rightarrow> (pid, u64) hmap \<Rightarrow>
   (pid, spike_state) hmap \<Rightarrow> process \<Rightarrow> (pid, spike_state) hmap" where
  "register_candidate p prev_rss rss_d majflt_d spikes pr =
     (if hm_contains spikes (p_pid pr) then spikes
      else if list_ex (\<lambda>re. re (p_name pr)) (sp_exclude p) then spikes
      else (let force_included = list_ex (\<lambda>re. re (p_name pr)) (sp_include p) in
        if force_included \<or> is_behavioral p pr (get_or rss_d (p_pid pr) 0) (get_or majflt_d (p_pid pr) 0)
        then hm_insert (p_pid pr)
               (spike_state_new (p_pid pr) (p_name pr) (get_or prev_rss (p_pid pr) (p_rss pr))
                  (p_cgroup_path pr) force_included) spikes
        else spikes))"

section \<open>Following a candidate\<close>

definition max_rss :: "(kb \<times> instant) list \<Rightarrow> kb \<Rightarrow> kb" where
  "max_rss samples d = (case samples of [] \<Rightarrow> d | x # xs \<Rightarrow> foldl (\<lambda>m y. max m (fst y)) (fst x) xs)"

text \<open>A sample is taken, and the peak and the drop after it are noticed.\<close>

definition take_sample :: "spike_params \<Rightarrow> instant \<Rightarrow> process \<Rightarrow> spike_state \<Rightarrow> spike_state" where
  "take_sample p now pr st =
     (let samples = evict_samples now (from_secs (sp_window_sec p)) (ss_samples st @ [(p_rss pr, now)]);
          rss_max = max_rss samples (p_rss pr);
          peaked = (ss_has_peaked st \<or> sat_add (ss_initial_rss st) (sp_growth_threshold p) < rss_max);
          valley_floor = f64_to_u64 (f64_mul (f64_of_u64 rss_max) (sp_oscillation_drop_factor p));
          oscillated = (ss_has_oscillated st \<or> peaked \<and> p_rss pr < valley_floor)
      in st\<lparr>ss_cgroup_path := p_cgroup_path pr, ss_samples := samples, ss_rss_max := rss_max,
            ss_has_peaked := peaked, ss_has_oscillated := oscillated\<rparr>)"

definition demote_state :: "process \<Rightarrow> spike_state \<Rightarrow> spike_state" where
  "demote_state pr st =
     st\<lparr>ss_phase := Observing, ss_has_peaked := False, ss_has_oscillated := False, ss_idle_ticks := 0,
        ss_samples := [], ss_initial_rss := p_rss pr, ss_rss_max := p_rss pr, ss_cpu_throttled := False\<rparr>"

text \<open>The phase: the new state, the decisions it makes, and whether it was demoted.\<close>

definition step_phase ::
  "spike_params \<Rightarrow> kb \<Rightarrow> process \<Rightarrow> spike_state \<Rightarrow> spike_state \<times> spike_decision list \<times> bool" where
  "step_phase p rss_delta pr st =
     (if ss_phase st = Observing \<and> ss_has_peaked st \<and> ss_has_oscillated st
         \<and> sp_min_samples p \<le> length (ss_samples st)
      then (st\<lparr>ss_phase := Tracking, ss_idle_ticks := 0\<rparr>, [], False)
      else if ss_phase st = Tracking then
        (if fl_lt (p_cpu_pct pr) (sp_idle_cpu_threshold_pct p) \<and> rss_delta < sp_idle_rss_delta p then
           (let st1 = st\<lparr>ss_idle_ticks := ss_idle_ticks st + 1\<rparr> in
            if sp_idle_ticks_required p \<le> ss_idle_ticks st1 then
              (demote_state pr st1,
               (if ss_cpu_throttled st1
                then (case ss_cgroup_path st1 of Some cg \<Rightarrow> [RestoreThrottle (ss_pid st1) cg] | None \<Rightarrow> [])
                else []), True)
            else (st1, [], False))
         else (st\<lparr>ss_idle_ticks := 0\<rparr>, [], False))
      else (st, [], False))"

definition track_process ::
  "spike_params \<Rightarrow> instant \<Rightarrow> (pid, kb) hmap \<Rightarrow> (pid, spike_state) hmap \<times> spike_decision list \<times> bool \<Rightarrow> process \<Rightarrow>
   (pid, spike_state) hmap \<times> spike_decision list \<times> bool" where
  "track_process p now rss_d acc pr = (let (spikes, ds, demoted) = acc in
     case hm_get spikes (p_pid pr) of
       None \<Rightarrow> (spikes, ds, demoted)
     | Some st \<Rightarrow>
         (let (st', new, dem) = step_phase p (get_or rss_d (p_pid pr) 0) pr (take_sample p now pr st)
          in (hm_insert (p_pid pr) st' spikes, ds @ new, demoted \<or> dem)))"

section \<open>Victims\<close>

definition is_tracking :: "spike_tracker \<Rightarrow> bool" where
  "is_tracking tr = list_ex (\<lambda>st. ss_phase st = Tracking) (hm_values (tr_spikes tr))"

definition persist_victims :: "spike_tracker \<Rightarrow> sys \<Rightarrow> sys" where
  "persist_victims tr s =
     emit (PersistedVictims (map (\<lambda>v. (sv_pid v, sv_name v, sv_start_time v)) (hm_values (tr_victims tr)))) (tick s)"

definition drain_if_none_tracking :: "spike_tracker \<Rightarrow> sys \<Rightarrow> spike_victim list \<times> spike_tracker \<times> sys" where
  "drain_if_none_tracking tr s =
     (if tr_victims tr = [] \<or> is_tracking tr then ([], tr, s)
      else (let tr' = tr\<lparr>tr_victims := []\<rparr> in (hm_values (tr_victims tr), tr', persist_victims tr' s)))"

definition on_spike_exit :: "pid \<Rightarrow> spike_tracker \<Rightarrow> sys \<Rightarrow> spike_victim list \<times> spike_tracker \<times> sys" where
  "on_spike_exit sp tr s = drain_if_none_tracking
     (tr\<lparr>tr_spikes := hm_remove sp (tr_spikes tr), tr_prev_rss := hm_remove sp (tr_prev_rss tr),
         tr_prev_majflt := hm_remove sp (tr_prev_majflt tr)\<rparr>) s"

definition spike_pids :: "spike_tracker \<Rightarrow> pid list" where
  "spike_pids tr = hm_keys (tr_spikes tr)"

definition victim_pids :: "spike_tracker \<Rightarrow> pid list" where
  "victim_pids tr = hm_keys (tr_victims tr)"

definition record_victim_frozen :: "spike_victim \<Rightarrow> spike_tracker \<Rightarrow> sys \<Rightarrow> spike_tracker \<times> sys" where
  "record_victim_frozen v tr s =
     (let tr' = tr\<lparr>tr_victims := hm_insert (sv_pid v) v (tr_victims tr)\<rparr> in (tr', persist_victims tr' s))"

text \<open>Taking the victims of a list of PIDs out of the map.\<close>

fun take_victims :: "pid list \<Rightarrow> (pid, spike_victim) hmap \<Rightarrow> spike_victim list \<times> (pid, spike_victim) hmap" where
  "take_victims [] m = ([], m)"
| "take_victims (p # ps) m =
     (case hm_get m p of
        None \<Rightarrow> take_victims ps m
      | Some v \<Rightarrow> (let (vs, m') = take_victims ps (hm_remove p m) in (v # vs, m')))"

definition start_cooldowns :: "instant \<Rightarrow> spike_victim list \<Rightarrow> (pid, instant) hmap \<Rightarrow> (pid, instant) hmap" where
  "start_cooldowns now vs m = foldl (\<lambda>m v. hm_insert (sv_pid v) now m) m vs"

fun timed_out_pids :: "u64 \<Rightarrow> spike_victim list \<Rightarrow> sys \<Rightarrow> pid list \<times> sys" where
  "timed_out_pids max_secs [] s = ([], s)"
| "timed_out_pids max_secs (v # vs) s =
     (let (d, s1) = elapsed (sv_frozen_at v) s; (ps, s2) = timed_out_pids max_secs vs s1
      in (if unat max_secs \<le> as_secs d then sv_pid v # ps else ps, s2))"

definition drain_timed_out_victims :: "u64 \<Rightarrow> spike_tracker \<Rightarrow> sys \<Rightarrow> spike_victim list \<times> spike_tracker \<times> sys" where
  "drain_timed_out_victims max_secs tr s =
     (if max_secs = 0 then ([], tr, s)
      else (let (now, s1) = os_clock s;
                (timed_out, s2) = timed_out_pids max_secs (hm_values (tr_victims tr)) s1 in
            if timed_out = [] then ([], tr, s2)
            else (let (vs, m) = take_victims timed_out (tr_victims tr);
                      tr' = tr\<lparr>tr_victims := m, tr_cooldowns := start_cooldowns now vs (tr_cooldowns tr)\<rparr>
                  in (vs, tr', persist_victims tr' s2))))"

definition release_requested :: "pid list \<Rightarrow> spike_tracker \<Rightarrow> sys \<Rightarrow> spike_victim list \<times> spike_tracker \<times> sys" where
  "release_requested ps tr s =
     (let (vs, m) = take_victims ps (tr_victims tr) in
      if vs = [] then ([], tr\<lparr>tr_victims := m\<rparr>, s)
      else (let (now, s1) = os_clock s;
                tr' = tr\<lparr>tr_victims := m, tr_cooldowns := start_cooldowns now vs (tr_cooldowns tr)\<rparr>
            in (vs, tr', persist_victims tr' s1)))"

definition is_victim_cooldown :: "pid \<Rightarrow> nat \<Rightarrow> spike_tracker \<Rightarrow> sys \<Rightarrow> bool \<times> sys" where
  "is_victim_cooldown p cooldown_sec tr s =
     (case hm_get (tr_cooldowns tr) p of
        None \<Rightarrow> (False, s)
      | Some t \<Rightarrow> (let (d, s1) = elapsed t s in (as_secs d < cooldown_sec, s1)))"

definition throttled_cgroup_paths :: "spike_tracker \<Rightarrow> string list" where
  "throttled_cgroup_paths tr =
     List.map_filter (\<lambda>st. if ss_cpu_throttled st then ss_cgroup_path st else None) (hm_values (tr_spikes tr))"

text \<open>At startup the victims of the last run are continued. serde's parser is a parameter; an entry
has a PID and a start time, each possibly absent.\<close>

definition victims_file :: "sys \<Rightarrow> string" where
  "victims_file s = home_dir s @ ''/.local/share/mgd/state/spike_victims.json''"

definition load_and_unfreeze_victims ::
  "(string \<Rightarrow> (u64 option \<times> u64 option) list option) \<Rightarrow> sys \<Rightarrow> sys" where
  "load_and_unfreeze_victims parse s =
     (case os_read (victims_file s) s of
        (None, s1) \<Rightarrow> s1
      | (Some data, s1) \<Rightarrow>
          (let s2 = emit (RemovedFile (victims_file s)) (tick s1) in
           case parse data of
             None \<Rightarrow> s2
           | Some entries \<Rightarrow>
               foldl (\<lambda>s (p, st).
                 (let pid = ucast (case p of Some n \<Rightarrow> n | None \<Rightarrow> 0) :: pid in
                  if pid = 0 then s
                  else snd (unfreeze_checked pid (case st of Some t \<Rightarrow> t | None \<Rightarrow> 0) s))) s2 entries))"

section \<open>One update\<close>

fun retain_cooldowns :: "(pid, instant) hmap \<Rightarrow> sys \<Rightarrow> (pid, instant) hmap \<times> sys" where
  "retain_cooldowns [] s = ([], s)"
| "retain_cooldowns ((p, t) # m) s =
     (let (d, s1) = elapsed t s; (m', s2) = retain_cooldowns m s1
      in (if as_secs d < 300 then (p, t) # m' else m', s2))"

definition advance_caches :: "process list \<Rightarrow> spike_tracker \<Rightarrow> sys \<Rightarrow> spike_tracker \<times> sys" where
  "advance_caches procs tr s =
     (let live = map p_pid procs;
          rss = foldl (\<lambda>m pr. hm_insert (p_pid pr) (p_rss pr) m) (tr_prev_rss tr) procs;
          majflt = foldl (\<lambda>m pr. hm_insert (p_pid pr) (p_majflt pr) m) (tr_prev_majflt tr) procs;
          (cool, s1) = retain_cooldowns (tr_cooldowns tr) s
      in (tr\<lparr>tr_prev_rss := hm_retain (\<lambda>p _. p \<in> set live) rss,
             tr_prev_majflt := hm_retain (\<lambda>p _. p \<in> set live) majflt, tr_cooldowns := cool\<rparr>, s1))"

definition tracking_rss :: "(pid, spike_state) hmap \<Rightarrow> kb" where
  "tracking_rss spikes = kb_sum (map ss_rss_max (filter (\<lambda>st. ss_phase st = Tracking) (hm_values spikes)))"

definition required_headroom :: "spike_params \<Rightarrow> (pid, spike_state) hmap \<Rightarrow> kb" where
  "required_headroom p spikes = f64_to_u64 (f64_mul (f64_of_u64 (tracking_rss spikes)) (sp_headroom_factor p))"

definition headroom_decision :: "spike_params \<Rightarrow> kb \<Rightarrow> (pid, spike_state) hmap \<Rightarrow> spike_decision list" where
  "headroom_decision p available spikes =
     (if 0 < tracking_rss spikes \<and> available < required_headroom p spikes
      then [FreezeForHeadroom (kb_sub (required_headroom p spikes) available)] else [])"

definition cpu_check ::
  "spike_params \<Rightarrow> pid option \<Rightarrow> (pid, spike_state) hmap \<times> spike_decision list \<Rightarrow> process \<Rightarrow>
   (pid, spike_state) hmap \<times> spike_decision list" where
  "cpu_check p foreground acc pr = (let (spikes, ds) = acc in
     case hm_get spikes (p_pid pr) of
       None \<Rightarrow> (spikes, ds)
     | Some st \<Rightarrow>
         if ss_phase st \<noteq> Tracking then (spikes, ds)
         else if foreground = Some (p_pid pr) then (spikes, ds)
         else (case ss_cgroup_path st of
             None \<Rightarrow> (spikes, ds)
           | Some cg \<Rightarrow>
               if fl_le (sp_cpu_threshold_pct p) (p_cpu_pct pr) \<and> \<not> ss_cpu_throttled st then
                 (hm_insert (p_pid pr) (st\<lparr>ss_cpu_throttled := True\<rparr>) spikes, ds @ [ThrottleSpike (p_pid pr) cg])
               else if fl_lt (p_cpu_pct pr) (sp_cpu_threshold_pct p) \<and> ss_cpu_throttled st then
                 (hm_insert (p_pid pr) (st\<lparr>ss_cpu_throttled := False\<rparr>) spikes, ds @ [RestoreThrottle (p_pid pr) cg])
               else (spikes, ds)))"

definition spike_update ::
  "process list \<Rightarrow> kb \<Rightarrow> spike_params \<Rightarrow> spike_tracker \<Rightarrow> sys \<Rightarrow> spike_decision list \<times> spike_tracker \<times> sys" where
  "spike_update procs available p tr s =
     (let (now, s1) = os_clock s;
          rss_d = rss_deltas procs (tr_prev_rss tr);
          majflt_d = majflt_deltas procs (tr_prev_majflt tr);
          spikes1 = foldl (register_candidate p (tr_prev_rss tr) rss_d majflt_d) (tr_spikes tr) procs;
          (spikes2, ds1, demoted) = foldl (track_process p now rss_d) (spikes1, [], False) procs;
          (tr1, s2) = advance_caches procs (tr\<lparr>tr_spikes := spikes2\<rparr>) s1;
          (released, tr2, s3) = (if demoted then drain_if_none_tracking tr1 s2 else ([], tr1, s2));
          ds2 = (if released = [] then ds1 else ds1 @ [ReleaseVictims released]);
          ds3 = ds2 @ headroom_decision p available (tr_spikes tr2);
          (spikes3, ds4) = foldl (cpu_check p (sys_foreground s3)) (tr_spikes tr2, ds3) procs
      in (ds4, tr2\<lparr>tr_spikes := spikes3\<rparr>, s3))"

section \<open>Facts about the phases\<close>

lemma max_rss_fold: "(foldl (\<lambda>m y. max m (fst y)) a xs) \<in> insert a (fst ` set xs) \<and>
    a \<le> foldl (\<lambda>m y. max m (fst y)) a xs \<and> (\<forall>x \<in> set xs. fst x \<le> foldl (\<lambda>m y. max m (fst y)) a xs)"
  for a :: kb
proof (induction xs arbitrary: a)
  case (Cons x xs)
  from Cons [of "max a (fst x)"] show ?case by (auto simp: max_def split: if_splits intro: order_trans)
qed simp

lemma max_rss_is_max: "samples \<noteq> [] \<Longrightarrow> max_rss samples d \<in> fst ` set samples \<and> (\<forall>x \<in> set samples. fst x \<le> max_rss samples d)"
  using max_rss_fold [of "fst (hd samples)" "tl samples"] by (cases samples) (auto simp: max_rss_def)

lemma take_sample_max:
  "p_rss pr \<le> ss_rss_max (take_sample p now pr st)"
  "ss_rss_max (take_sample p now pr st) \<in> fst ` set (ss_samples (take_sample p now pr st))"
  "\<forall>x \<in> set (ss_samples (take_sample p now pr st)). fst x \<le> ss_rss_max (take_sample p now pr st)"
proof -
  let ?xs = "evict_samples now (from_secs (sp_window_sec p)) (ss_samples st @ [(p_rss pr, now)])"
  have i: "(p_rss pr, now) \<in> set ?xs" by (rule evict_last)
  then have "?xs \<noteq> []" by auto
  from max_rss_is_max [OF this, of "p_rss pr"] i
  show "p_rss pr \<le> ss_rss_max (take_sample p now pr st)"
    "ss_rss_max (take_sample p now pr st) \<in> fst ` set (ss_samples (take_sample p now pr st))"
    "\<forall>x \<in> set (ss_samples (take_sample p now pr st)). fst x \<le> ss_rss_max (take_sample p now pr st)"
    by (auto simp: take_sample_def Let_def)
qed

text \<open>A process is followed only after a peak and a drop from it.\<close>

definition phase_ok :: "spike_state \<Rightarrow> bool" where
  "phase_ok st \<longleftrightarrow> (ss_phase st = Tracking \<longrightarrow> ss_has_peaked st \<and> ss_has_oscillated st)
     \<and> (ss_cpu_throttled st \<longrightarrow> ss_phase st = Tracking)"

lemma phase_ok_take: "phase_ok st \<Longrightarrow> phase_ok (take_sample p now pr st)"
  by (simp add: phase_ok_def take_sample_def Let_def)

lemma phase_ok_step: "phase_ok st \<Longrightarrow> phase_ok (fst (step_phase p d pr st))"
  by (auto simp: phase_ok_def step_phase_def demote_state_def Let_def)

lemma step_phase_pid: "ss_pid (fst (step_phase p d pr st)) = ss_pid st"
  by (simp add: step_phase_def demote_state_def Let_def)

lemma take_sample_pid: "ss_pid (take_sample p now pr st) = ss_pid st"
  by (simp add: take_sample_def Let_def)

definition spikes_ok :: "(pid, spike_state) hmap \<Rightarrow> bool" where
  "spikes_ok m \<longleftrightarrow> hm_ok m \<and> (\<forall>p st. hm_get m p = Some st \<longrightarrow> ss_pid st = p \<and> phase_ok st)"

lemma spikes_ok_insert: "spikes_ok m \<Longrightarrow> ss_pid st = p \<Longrightarrow> phase_ok st \<Longrightarrow> spikes_ok (hm_insert p st m)"
  by (simp add: spikes_ok_def hm_simps)

lemma spikes_ok_remove: "spikes_ok m \<Longrightarrow> spikes_ok (hm_remove p m)"
  by (simp add: spikes_ok_def hm_simps)

lemma spikes_ok_register: "spikes_ok m \<Longrightarrow> spikes_ok (foldl (register_candidate p prev rd md) m procs)"
  by (rule foldl_invariant [where P = spikes_ok])
     (auto simp: register_candidate_def Let_def spike_state_new_def phase_ok_def intro!: spikes_ok_insert)

lemma spikes_ok_track: "spikes_ok (fst acc) \<Longrightarrow> spikes_ok (fst (foldl (track_process p now rd) acc procs))"
proof (rule foldl_invariant [where P = "\<lambda>acc. spikes_ok (fst acc)"])
  fix acc :: "(pid, spike_state) hmap \<times> spike_decision list \<times> bool" and pr
  assume ok: "spikes_ok (fst acc)"
  show "spikes_ok (fst (track_process p now rd acc pr))"
  proof (cases "hm_get (fst acc) (p_pid pr)")
    case None
    then show ?thesis using ok by (simp add: track_process_def case_prod_unfold Let_def)
  next
    case (Some st)
    then have "ss_pid st = p_pid pr" "phase_ok st" using ok by (auto simp: spikes_ok_def)
    then have "spikes_ok (hm_insert (p_pid pr)
        (fst (step_phase p (get_or rd (p_pid pr) 0) pr (take_sample p now pr st))) (fst acc))"
      using ok by (intro spikes_ok_insert) (auto simp: step_phase_pid take_sample_pid intro: phase_ok_step phase_ok_take)
    then show ?thesis by (simp add: track_process_def case_prod_unfold Let_def Some)
  qed
qed

lemma spikes_ok_cpu: "spikes_ok (fst acc) \<Longrightarrow> spikes_ok (fst (foldl (cpu_check p fg) acc procs))"
  by (rule foldl_invariant [where P = "\<lambda>acc. spikes_ok (fst acc)"])
     (auto simp: cpu_check_def spikes_ok_def hm_simps phase_ok_def case_prod_unfold Let_def split: option.splits)

section \<open>Facts about victims\<close>

definition tracker_ok :: "spike_tracker \<Rightarrow> bool" where
  "tracker_ok tr \<longleftrightarrow> spikes_ok (tr_spikes tr) \<and> hm_ok (tr_victims tr)
     \<and> (\<forall>p v. hm_get (tr_victims tr) p = Some v \<longrightarrow> sv_pid v = p)"

lemma tracker_new_ok: "tracker_ok spike_tracker_new"
  by (simp add: tracker_ok_def spike_tracker_new_def spikes_ok_def hm_simps)

text \<open>Victims leave the map into the list that is returned, and nowhere else.\<close>

definition hands_over :: "spike_tracker \<Rightarrow> spike_victim list \<Rightarrow> spike_tracker \<Rightarrow> bool" where
  "hands_over tr vs tr' \<longleftrightarrow>
     (\<forall>p v. hm_get (tr_victims tr) p = Some v \<longrightarrow> hm_get (tr_victims tr') p = Some v \<or> v \<in> set vs)
     \<and> (\<forall>p v. hm_get (tr_victims tr') p = Some v \<longrightarrow> hm_get (tr_victims tr) p = Some v)
     \<and> (\<forall>v \<in> set vs. hm_get (tr_victims tr) (sv_pid v) = Some v)"

lemma take_victims_hands_over:
  assumes "take_victims ps m = (vs, m')" "hm_ok m" "\<forall>p v. hm_get m p = Some v \<longrightarrow> sv_pid v = p"
  shows "hm_ok m' \<and> (\<forall>p. hm_get m' p = (if p \<in> set ps then None else hm_get m p)) \<and>
    (\<forall>p v. hm_get m p = Some v \<and> p \<in> set ps \<longleftrightarrow> v \<in> set vs \<and> sv_pid v = p)"
  using assms
proof (induction ps arbitrary: m vs m')
  case (Cons p ps)
  show ?case
  proof (cases "hm_get m p")
    case None
    then have ih: "hm_ok m' \<and> (\<forall>q. hm_get m' q = (if q \<in> set ps then None else hm_get m q)) \<and>
        (\<forall>q w. hm_get m q = Some w \<and> q \<in> set ps \<longleftrightarrow> w \<in> set vs \<and> sv_pid w = q)"
      using Cons.IH [of m vs m'] Cons.prems by simp
    have "hm_get m q = Some w \<and> q \<in> set (p # ps) \<longleftrightarrow> w \<in> set vs \<and> sv_pid w = q" for q w
    proof -
      have "hm_get m q = Some w \<and> q \<in> set ps \<longleftrightarrow> w \<in> set vs \<and> sv_pid w = q" using ih by blast
      then show ?thesis using None by (cases "q = p") auto
    qed
    then show ?thesis using ih None by auto
  next
    case (Some v)
    obtain vs1 m1 where t: "take_victims ps (hm_remove p m) = (vs1, m1)" by fastforce
    have r: "vs = v # vs1" "m' = m1" using Cons.prems(1) by (auto simp: Some t)
    have "sv_pid v = p" using Cons.prems(3) Some by blast
    have ih: "hm_ok m1 \<and> (\<forall>q. hm_get m1 q = (if q \<in> set ps then None else hm_get (hm_remove p m) q)) \<and>
        (\<forall>q w. hm_get (hm_remove p m) q = Some w \<and> q \<in> set ps \<longleftrightarrow> w \<in> set vs1 \<and> sv_pid w = q)"
      using Cons.IH [OF t] Cons.prems(2,3) by (simp add: hm_simps)
    have "hm_get m q = Some w \<and> q \<in> set (p # ps) \<longleftrightarrow> w \<in> set vs \<and> sv_pid w = q" for q w
    proof -
      have "hm_get (hm_remove p m) q = Some w \<and> q \<in> set ps \<longleftrightarrow> w \<in> set vs1 \<and> sv_pid w = q" using ih by blast
      then show ?thesis using Some \<open>sv_pid v = p\<close> by (cases "q = p") (auto simp: hm_simps r)
    qed
    then show ?thesis using ih by (auto simp: hm_simps r)
  qed
qed simp

lemma trace_elapsed [simp]: "sys_trace (snd (elapsed t s)) = sys_trace s" "sys_oracle (snd (elapsed t s)) = sys_oracle s"
    "sys_foreground (snd (elapsed t s)) = sys_foreground s"
  by (simp_all add: elapsed_def os_clock_def tick_def)

text \<open>An operation that only reads the clock or saves the victims.\<close>

definition quiet :: "sys \<Rightarrow> sys \<Rightarrow> bool" where
  "quiet s s' \<longleftrightarrow> sys_oracle s' = sys_oracle s \<and> sys_foreground s' = sys_foreground s
     \<and> extends (\<lambda>e. \<exists>vs. e = PersistedVictims vs) s s'"

lemma quiet_refl [simp]: "quiet s s"
  by (simp add: quiet_def)

lemma quiet_trans: "quiet s s' \<Longrightarrow> quiet s' s'' \<Longrightarrow> quiet s s''"
  by (auto simp: quiet_def intro: extends_trans)

lemma quiet_clock: "quiet s (snd (os_clock s))" and quiet_elapsed: "quiet s (snd (elapsed t s))"
  by (simp_all add: quiet_def os_clock_def elapsed_def tick_def extends_same)

lemma quiet_persist: "quiet s (persist_victims tr s)"
  by (simp add: quiet_def persist_victims_def extends_def emit_def tick_def)

lemma quiet_timed_out: "quiet s (snd (timed_out_pids n vs s))"
proof (induction vs arbitrary: s)
  case (Cons v vs)
  then show ?case using quiet_trans [OF quiet_elapsed Cons.IH] by (simp add: case_prod_unfold Let_def)
qed simp

lemma quiet_retain: "quiet s (snd (retain_cooldowns m s))"
proof (induction m arbitrary: s)
  case (Cons x m)
  then show ?case using quiet_trans [OF quiet_elapsed Cons.IH] by (cases x) (simp add: case_prod_unfold Let_def)
qed simp

text \<open>Every way of releasing victims hands them over; the batch of the last spike is everyone.\<close>

lemma drain_result:
  assumes "drain_if_none_tracking tr s = (vs, tr', s')" "tracker_ok tr"
  shows "tracker_ok tr' \<and> hands_over tr vs tr' \<and> quiet s s' \<and> tr_spikes tr' = tr_spikes tr"
    and "vs \<noteq> [] \<longleftrightarrow> tr_victims tr \<noteq> [] \<and> \<not> is_tracking tr"
    and "vs \<noteq> [] \<Longrightarrow> tr_victims tr' = [] \<and> vs = hm_values (tr_victims tr)"
proof -
  have v: "hm_get (tr_victims tr) (sv_pid v) = Some v" if h: "v \<in> set (hm_values (tr_victims tr))" for v
  proof -
    obtain p where "(p, v) \<in> set (tr_victims tr)" using h by (force simp: hm_values_def)
    then have "hm_get (tr_victims tr) p = Some v" using assms(2) by (simp add: tracker_ok_def hm_get_iff)
    then show ?thesis using assms(2) by (auto simp: tracker_ok_def)
  qed
  have w: "v \<in> set (hm_values (tr_victims tr))" if "hm_get (tr_victims tr) p = Some v" for p v
    using hm_get_in [OF that] by (force simp: hm_values_def)
  show "tracker_ok tr' \<and> hands_over tr vs tr' \<and> quiet s s' \<and> tr_spikes tr' = tr_spikes tr"
    using assms v w quiet_persist
    by (auto simp: drain_if_none_tracking_def hands_over_def tracker_ok_def hm_simps Let_def split: if_splits)
  show "vs \<noteq> [] \<longleftrightarrow> tr_victims tr \<noteq> [] \<and> \<not> is_tracking tr"
    "vs \<noteq> [] \<Longrightarrow> tr_victims tr' = [] \<and> vs = hm_values (tr_victims tr)"
    using assms(1) by (auto simp: drain_if_none_tracking_def hm_values_def Let_def split: if_splits)
qed

lemma exit_result:
  assumes "on_spike_exit p tr s = (vs, tr', s')" "tracker_ok tr"
  shows "tracker_ok tr' \<and> hands_over tr vs tr' \<and> quiet s s'"
proof -
  let ?tr = "tr\<lparr>tr_spikes := hm_remove p (tr_spikes tr), tr_prev_rss := hm_remove p (tr_prev_rss tr),
         tr_prev_majflt := hm_remove p (tr_prev_majflt tr)\<rparr>"
  have "drain_if_none_tracking ?tr s = (vs, tr', s')" using assms(1) by (simp add: on_spike_exit_def)
  moreover have "tracker_ok ?tr" using assms(2) by (simp add: tracker_ok_def spikes_ok_remove)
  ultimately have "tracker_ok tr' \<and> hands_over ?tr vs tr' \<and> quiet s s'" by (blast dest: drain_result(1))
  then show ?thesis by (simp add: hands_over_def)
qed

lemma hands_over_none: "tr_victims tr' = tr_victims tr \<Longrightarrow> hands_over tr [] tr'"
  by (simp add: hands_over_def)

lemma take_result:
  assumes "take_victims ps (tr_victims tr) = (vs, m)" "tracker_ok tr"
    and "tr_victims tr' = m" "tr_spikes tr' = tr_spikes tr"
  shows "tracker_ok tr' \<and> hands_over tr vs tr'"
proof -
  have t: "hm_ok m" "hm_get m p = (if p \<in> set ps then None else hm_get (tr_victims tr) p)"
    "hm_get (tr_victims tr) p = Some v \<and> p \<in> set ps \<longleftrightarrow> v \<in> set vs \<and> sv_pid v = p" for p v
    using take_victims_hands_over [OF assms(1)] assms(2) by (auto simp: tracker_ok_def)
  have "tracker_ok tr'" using assms(2-4) t(1) by (simp add: tracker_ok_def t(2))
  moreover have "hands_over tr vs tr'"
    unfolding hands_over_def assms(3) using t(2,3) by (metis option.distinct(1))
  ultimately show ?thesis ..
qed

lemma timed_out_result:
  assumes "drain_timed_out_victims n tr s = (vs, tr', s')" "tracker_ok tr"
  shows "tracker_ok tr' \<and> hands_over tr vs tr' \<and> quiet s s'"
proof -
  obtain now s1 where 1: "os_clock s = (now, s1)" by fastforce
  obtain ps s2 where 2: "timed_out_pids n (hm_values (tr_victims tr)) s1 = (ps, s2)" by fastforce
  obtain vs0 m where 3: "take_victims ps (tr_victims tr) = (vs0, m)" by fastforce
  have q: "quiet s s2" using quiet_trans [OF quiet_clock quiet_timed_out, of s n "hm_values (tr_victims tr)"]
    by (simp add: 1 2)
  show ?thesis using assms take_result [OF 3 assms(2)] q quiet_trans [OF q quiet_persist]
    by (auto simp: drain_timed_out_victims_def 1 2 3 Let_def hands_over_none split: if_splits)
qed

lemma requested_result:
  assumes "release_requested ps tr s = (vs, tr', s')" "tracker_ok tr"
  shows "tracker_ok tr' \<and> hands_over tr vs tr' \<and> quiet s s'"
proof -
  obtain now s1 where 1: "os_clock s = (now, s1)" by fastforce
  obtain vs0 m where 3: "take_victims ps (tr_victims tr) = (vs0, m)" by fastforce
  have q: "quiet s s1" using quiet_clock [of s] by (simp add: 1)
  show ?thesis using assms take_result [OF 3 assms(2)] q quiet_trans [OF q quiet_persist]
    by (auto simp: release_requested_def 1 3 Let_def quiet_def split: if_splits)
qed

section \<open>Facts about one update\<close>

lemma advance_caches_result:
  assumes "advance_caches procs tr s = (tr', s')"
  shows "tr_spikes tr' = tr_spikes tr \<and> tr_victims tr' = tr_victims tr \<and> quiet s s'"
  using assms quiet_retain [of s "tr_cooldowns tr"]
  by (auto simp: advance_caches_def Let_def split: prod.splits)

lemma tracker_ok_same: "tracker_ok tr \<Longrightarrow> tr_victims tr' = tr_victims tr \<Longrightarrow> spikes_ok (tr_spikes tr') \<Longrightarrow> tracker_ok tr'"
  by (simp add: tracker_ok_def)

text \<open>The decisions of the two passes over the processes: they restore or throttle, nothing else.\<close>

definition throttle_decision :: "spike_decision \<Rightarrow> bool" where
  "throttle_decision d = (case d of ThrottleSpike _ _ \<Rightarrow> True | RestoreThrottle _ _ \<Rightarrow> True | _ \<Rightarrow> False)"

lemma track_decisions:
  "list_all throttle_decision (fst (snd acc)) \<Longrightarrow>
   list_all throttle_decision (fst (snd (foldl (track_process p now rd) acc procs)))"
  by (rule foldl_invariant [where P = "\<lambda>acc. list_all throttle_decision (fst (snd acc))"])
     (auto simp: track_process_def step_phase_def throttle_decision_def case_prod_unfold Let_def split: option.splits)

lemma cpu_decisions:
  "\<exists>new. snd (foldl (cpu_check p fg) acc procs) = snd acc @ new \<and> list_all throttle_decision new"
proof (rule foldl_invariant [where P = "\<lambda>a. \<exists>new. snd a = snd acc @ new \<and> list_all throttle_decision new"])
  fix a :: "(pid, spike_state) hmap \<times> spike_decision list" and pr
  assume "\<exists>new. snd a = snd acc @ new \<and> list_all throttle_decision new"
  then show "\<exists>new. snd (cpu_check p fg a pr) = snd acc @ new \<and> list_all throttle_decision new"
    by (auto simp: cpu_check_def throttle_decision_def case_prod_unfold Let_def split: option.splits)
qed simp

text \<open>A foreground process is never slowed down.\<close>

lemma cpu_spares_foreground:
  assumes "ThrottleSpike fgp cg \<notin> set (snd acc)"
  shows "ThrottleSpike fgp cg \<notin> set (snd (foldl (cpu_check p (Some fgp)) acc procs))"
  by (rule foldl_invariant [where P = "\<lambda>a. ThrottleSpike fgp cg \<notin> set (snd a)"])
     (use assms in \<open>auto simp: cpu_check_def case_prod_unfold Let_def split: option.splits\<close>)

definition no_throttle :: "spike_decision \<Rightarrow> bool" where
  "no_throttle d = (case d of ThrottleSpike _ _ \<Rightarrow> False | _ \<Rightarrow> True)"

lemma track_no_throttle:
  "list_all no_throttle (fst (snd acc)) \<Longrightarrow>
   list_all no_throttle (fst (snd (foldl (track_process p now rd) acc procs)))"
  by (rule foldl_invariant [where P = "\<lambda>acc. list_all no_throttle (fst (snd acc))"])
     (auto simp: track_process_def step_phase_def no_throttle_def case_prod_unfold Let_def split: option.splits)

text \<open>What an update decides: the victims it hands over, then the memory it asks for, computed from
the spikes that are followed after the update.\<close>

lemma spike_update_result:
  assumes "spike_update procs available p tr s = (ds, tr', s')" "tracker_ok tr"
  obtains pre released need post spikes where
    "ds = pre @ (if released = [] then [] else [ReleaseVictims released]) @ need @ post"
    "list_all throttle_decision pre" "list_all throttle_decision post"
    "list_all no_throttle pre" "\<forall>q cg. sys_foreground s = Some q \<longrightarrow> ThrottleSpike q cg \<notin> set post"
    "need = headroom_decision p available spikes"
    "spikes_ok spikes" "tracker_ok tr'" "hands_over tr released tr'" "quiet s s'"
    "released \<noteq> [] \<Longrightarrow> tracking_rss spikes = 0"
proof -
  obtain now s1 where 1: "os_clock s = (now, s1)" by fastforce
  define rd where "rd = rss_deltas procs (tr_prev_rss tr)"
  define sp1 where "sp1 = foldl (register_candidate p (tr_prev_rss tr) rd (majflt_deltas procs (tr_prev_majflt tr)))
    (tr_spikes tr) procs"
  obtain sp2 pre dem where 2: "foldl (track_process p now rd) (sp1, [], False) procs = (sp2, pre, dem)"
    by (metis prod_cases3)
  obtain tr1 s2 where 3: "advance_caches procs (tr\<lparr>tr_spikes := sp2\<rparr>) s1 = (tr1, s2)" by fastforce
  obtain released tr2 s3 where 4: "(if dem then drain_if_none_tracking tr1 s2 else ([], tr1, s2)) = (released, tr2, s3)"
    by (metis prod_cases3)
  define need where "need = headroom_decision p available (tr_spikes tr2)"
  define ds2 where "ds2 = (if released = [] then pre else pre @ [ReleaseVictims released])"
  obtain sp3 ds4 where 5: "foldl (cpu_check p (sys_foreground s3)) (tr_spikes tr2, ds2 @ need) procs = (sp3, ds4)"
    by fastforce
  have out: "ds = ds4" "tr' = tr2\<lparr>tr_spikes := sp3\<rparr>" "s' = s3"
    using assms(1) 1 2 3 4 5 by (auto simp: spike_update_def Let_def rd_def sp1_def need_def ds2_def)
  have "spikes_ok sp1" using assms(2) spikes_ok_register by (auto simp: sp1_def tracker_ok_def)
  then have "spikes_ok sp2" using spikes_ok_track [of "(sp1, [], False)" p now rd procs] by (simp add: 2)
  moreover note adv = advance_caches_result [OF 3]
  ultimately have ok1: "tracker_ok tr1" using assms(2) by (auto intro: tracker_ok_same)
  have q1: "quiet s s2" using quiet_trans [OF quiet_clock [of s], of s2] adv by (simp add: 1)
  have d: "tracker_ok tr2 \<and> hands_over tr1 released tr2 \<and> quiet s2 s3 \<and> tr_spikes tr2 = tr_spikes tr1
      \<and> (released \<noteq> [] \<longrightarrow> \<not> is_tracking tr2)"
  proof (cases dem)
    case True
    with 4 have "drain_if_none_tracking tr1 s2 = (released, tr2, s3)" by simp
    from drain_result [OF this ok1] show ?thesis by (auto simp: is_tracking_def)
  next
    case False
    with 4 ok1 show ?thesis by (auto simp: hands_over_none)
  qed
  obtain post where post: "ds4 = ds2 @ need @ post" "list_all throttle_decision post"
    using cpu_decisions [of p "sys_foreground s3" "(tr_spikes tr2, ds2 @ need)" procs] by (auto simp: 5)
  show thesis
  proof (rule that [of pre released need post "tr_spikes tr2"])
    show "ds = pre @ (if released = [] then [] else [ReleaseVictims released]) @ need @ post"
      by (simp add: out post ds2_def)
    show "list_all throttle_decision pre"
      using track_decisions [of "(sp1, [], False)" p now rd procs] by (simp add: 2)
    show "list_all throttle_decision post" by (rule post)
    show "need = headroom_decision p available (tr_spikes tr2)" by (rule need_def)
    show pre: "list_all no_throttle pre"
      using track_no_throttle [of "(sp1, [], False)" p now rd procs] by (simp add: 2)
    have "sys_foreground s3 = sys_foreground s" using q1 d by (simp add: quiet_def)
    moreover have "ThrottleSpike q cg \<notin> set (ds2 @ need)" for q cg
      using pre by (auto simp: ds2_def need_def headroom_decision_def no_throttle_def list_all_iff)
    ultimately have "ThrottleSpike q cg \<notin> set ds4" if "sys_foreground s = Some q" for q cg
      using cpu_spares_foreground [of q cg "(tr_spikes tr2, ds2 @ need)" p procs] 5 that by simp
    then show "\<forall>q cg. sys_foreground s = Some q \<longrightarrow> ThrottleSpike q cg \<notin> set post"
      by (auto simp: post(1))
    show "spikes_ok (tr_spikes tr2)" using d unfolding tracker_ok_def by blast
    have "spikes_ok sp3" using spikes_ok_cpu [of "(tr_spikes tr2, ds2 @ need)"] d 5 by (metis fst_conv tracker_ok_def)
    then show "tracker_ok tr'" using d by (auto simp: out intro: tracker_ok_same)
    show "hands_over tr released tr'" using d adv by (simp add: hands_over_def out)
    show "quiet s s'" using quiet_trans [OF q1] d by (simp add: out)
    show "released \<noteq> [] \<Longrightarrow> tracking_rss (tr_spikes tr2) = 0"
      using d by (auto simp: is_tracking_def tracking_rss_def list_ex_iff kb_sum_def filter_empty_conv
          intro: arg_cong [of _ "[]" "\<lambda>xs. foldl kb_add 0 (map ss_rss_max xs)", simplified])
  qed
qed

end
