(* ===== verification/SpikeCycle.thy ===== *)
theory SpikeCycle
  imports Spike Held
begin

text \<open>
  The spike-mode cycle (\<open>mgd/src/evictor/spike.rs\<close>): victims are released when nothing needs their
  memory any more, the tracker is fed, and its decisions are carried out.
\<close>

section \<open>Releasing victims\<close>

fun release_batch :: "log_action \<Rightarrow> spike_victim list \<Rightarrow> sys \<Rightarrow> nat \<times> sys" where
  "release_batch a [] s = (0, s)"
| "release_batch a (v # vs) s =
     (let (r, s1) = unfreeze_checked (sv_pid v) (sv_start_time v) s in
      if opr_success r
      then (let (n, s2) = release_batch a vs (log_entry a (sv_pid v) (sv_name v) s1) in (Suc n, s2))
      else release_batch a vs s1)"

fun release_exited ::
  "process list \<Rightarrow> pid list \<Rightarrow> string option \<Rightarrow> spike_tracker \<Rightarrow> sys \<Rightarrow>
   nat \<times> string option \<times> spike_tracker \<times> sys" where
  "release_exited procs [] last_name tr s = (0, last_name, tr, s)"
| "release_exited procs (p # ps) last_name tr s =
     (let (vs, tr1, s1) = on_spike_exit p tr s;
          last_name' = (case vs of [] \<Rightarrow> last_name
            | v # _ \<Rightarrow> map_option p_name (find (\<lambda>q. p_pid q = sv_frozen_for v) procs));
          (n, s2) = release_batch LaSpikeUnfreeze vs s1;
          (m, last_name'', tr2, s3) = release_exited procs ps last_name' tr1 s2
      in (n + m, last_name'', tr2, s3))"

definition exited_spikes :: "process list \<Rightarrow> spike_tracker \<Rightarrow> pid list" where
  "exited_spikes procs tr = filter (\<lambda>p. p \<notin> set (map p_pid procs)) (spike_pids tr)"

definition notify_resumed :: "string \<Rightarrow> nat \<Rightarrow> sys \<Rightarrow> sys" where
  "notify_resumed title n s = (if 0 < n then emit (Notified title n) (tick s) else s)"

definition release_victims :: "compiled_config \<Rightarrow> process list \<Rightarrow> pid list \<Rightarrow> spike_tracker \<Rightarrow> sys \<Rightarrow> spike_tracker \<times> sys" where
  "release_victims cfg procs manual tr s =
     (let (n, last_name, tr1, s1) = release_exited procs (exited_spikes procs tr) None tr s;
          s2 = notify_resumed (case last_name of Some n \<Rightarrow> n | None \<Rightarrow> ''build'') n s1;
          (timed_out, tr3, s3) = drain_timed_out_victims (cc_spike_max_victim_freeze_sec cfg) tr1 s2;
          s4 = snd (release_batch LaSpikeUnfreezeTimeout timed_out s3);
          (orphans, tr5, s5) = drain_if_none_tracking tr3 s4;
          s6 = snd (release_batch LaSpikeUnfreezeOrphan orphans s5)
      in if manual = [] then (tr5, s6)
         else (let (requested, tr7, s7) = release_requested manual tr5 s6
               in (tr7, snd (release_batch LaSpikeUnfreezeManual requested s7))))"

section \<open>Freezing for headroom\<close>

definition excluded_pids :: "frozen_map \<Rightarrow> spike_tracker \<Rightarrow> bool \<Rightarrow> pid list" where
  "excluded_pids fm tr include_spike_pids =
     frozen_pids fm @ victim_pids tr @ (if include_spike_pids then spike_pids tr else [])"

text \<open>The filters in their order; the cooldown reads the clock.\<close>

fun headroom_candidates ::
  "compiled_config \<Rightarrow> spike_tracker \<Rightarrow> pid list \<Rightarrow> pid option \<Rightarrow> process list \<Rightarrow> sys \<Rightarrow> process list \<times> sys" where
  "headroom_candidates cfg tr exclude active [] s = ([], s)"
| "headroom_candidates cfg tr exclude active (q # qs) s =
     (if p_pid q \<in> set exclude \<or> active = Some (p_pid q) then headroom_candidates cfg tr exclude active qs s
      else (let (cool, s1) = is_victim_cooldown (p_pid q) 60 tr s;
                (cs, s2) = headroom_candidates cfg tr exclude active qs s1
            in if \<not> cool \<and> cc_spike_victim_min_rss_kb cfg \<le> kb_add (p_rss q) (p_swap q)
                  \<and> 60 \<le> get_priority (p_name q) (p_exe_basename q) cfg
                  \<and> \<not> list_ex (\<lambda>re. re (p_name q)) (cc_spike_victim_exclude cfg)
               then (q # cs, s2) else (cs, s2)))"

definition headroom_le :: "compiled_config \<Rightarrow> process \<Rightarrow> process \<Rightarrow> bool" where
  "headroom_le cfg a b =
     (let pa = get_priority (p_name a) (p_exe_basename a) cfg; pb = get_priority (p_name b) (p_exe_basename b) cfg
      in pb < pa \<or> pb = pa \<and> p_rss b \<le> p_rss a)"

text \<open>\<open>initiator\<close> is the spike a victim is recorded for; it is informational.\<close>

fun freeze_for_headroom ::
  "pid \<Rightarrow> process list \<Rightarrow> kb \<Rightarrow> spike_tracker \<Rightarrow> sys \<Rightarrow> spike_tracker \<times> sys" where
  "freeze_for_headroom initiator [] needed tr s = (tr, s)"
| "freeze_for_headroom initiator (q # qs) needed tr s =
     (if needed = 0 then (tr, s)
      else (case start_time_of (p_pid q) s of
          (None, s1) \<Rightarrow> freeze_for_headroom initiator qs needed tr s1
        | (Some st, s1) \<Rightarrow>
            (let (r, s2) = freeze_checked (p_pid q) st s1 in
             if opr_success r then
               (let s3 = log_entry LaSpikeFreeze (p_pid q) (p_name q) s2;
                    (now, s4) = os_clock s3;
                    (tr', s5) = record_victim_frozen
                      \<lparr>sv_pid = p_pid q, sv_name = p_name q, sv_start_time = st,
                       sv_frozen_for = initiator, sv_frozen_at = now\<rparr> tr s4;
                    s6 = (case p_cgroup_path q of
                        Some cg \<Rightarrow> snd (reclaim_cgroup cg (kb_bytes (p_rss q)) s5) | None \<Rightarrow> s5)
                in freeze_for_headroom initiator qs (kb_sub needed (p_rss q)) tr' s6)
             else freeze_for_headroom initiator qs needed tr s2)))"

definition run_spike_decision ::
  "compiled_config \<Rightarrow> frozen_map \<Rightarrow> process list \<Rightarrow> spike_decision \<Rightarrow> spike_tracker \<Rightarrow> sys \<Rightarrow> spike_tracker \<times> sys" where
  "run_spike_decision cfg fm procs d tr s = (case d of
     ReleaseVictims victims \<Rightarrow>
       (let (n, s1) = release_batch LaSpikeUnfreeze victims s in (tr, notify_resumed ''build'' n s1))
   | FreezeForHeadroom needed \<Rightarrow>
       (let (cs, s1) = headroom_candidates cfg tr (excluded_pids fm tr True) (sys_foreground s) procs s
        in freeze_for_headroom (case spike_pids tr of [] \<Rightarrow> pid_none | p # _ \<Rightarrow> p)
             (sort_by (headroom_le cfg) cs) needed tr s1)
   | ThrottleSpike _ cg \<Rightarrow> (tr, snd (write_cgroup_cpu_weight cg (cc_spike_throttled_cpu_weight cfg) s))
   | RestoreThrottle _ cg \<Rightarrow> (tr, snd (write_cgroup_cpu_weight cg 100 s)))"

fun run_spike_decisions ::
  "compiled_config \<Rightarrow> frozen_map \<Rightarrow> process list \<Rightarrow> spike_decision list \<Rightarrow> spike_tracker \<Rightarrow> sys \<Rightarrow> spike_tracker \<times> sys" where
  "run_spike_decisions cfg fm procs [] tr s = (tr, s)"
| "run_spike_decisions cfg fm procs (d # ds) tr s =
     (let (tr1, s1) = run_spike_decision cfg fm procs d tr s in run_spike_decisions cfg fm procs ds tr1 s1)"

definition run_spike_cycle ::
  "compiled_config \<Rightarrow> frozen_map \<Rightarrow> kb \<Rightarrow> process list \<Rightarrow> pid list \<Rightarrow> spike_tracker \<Rightarrow> sys \<Rightarrow> spike_tracker \<times> sys" where
  "run_spike_cycle cfg fm available procs manual tr s =
     (let (tr1, s1) = release_victims cfg procs manual tr s;
          (ds, tr2, s2) = (if cc_spike_mode_enabled cfg
             then spike_update procs available (spike_params_from cfg) tr1 s1 else ([], tr1, s1))
      in run_spike_decisions cfg fm procs ds tr2 s2)"

section \<open>No victim is forgotten\<close>

text \<open>
  Going from one state to the other, every victim is still a victim or was continued. Being
  continued is claimed of a process that can be read and still is the one that was frozen.
\<close>

definition continued :: "spike_victim \<Rightarrow> sys \<Rightarrow> bool" where
  "continued v s \<longleftrightarrow> (\<exists>r. Signalled (uint (sv_pid v)) SIGCONT r \<in> set (sys_trace s))"

text \<open>The victims as holders of stopped processes, beside any other holder.\<close>

definition victims_in :: "spike_victim list \<Rightarrow> holder" where
  "victims_in vs p st \<longleftrightarrow> (\<exists>v \<in> set vs. sv_pid v = p \<and> sv_start_time v = st)"

definition with_victims :: "holder \<Rightarrow> spike_tracker \<Rightarrow> holder" where
  "with_victims F tr p st \<longleftrightarrow> F p st \<or> (\<exists>v. hm_get (tr_victims tr) p = Some v \<and> sv_start_time v = st)"

definition accounted :: "spike_tracker \<Rightarrow> sys \<Rightarrow> spike_tracker \<Rightarrow> sys \<Rightarrow> bool" where
  "accounted tr s tr' s' \<longleftrightarrow> sys_oracle s' = sys_oracle s \<and> extends not_saved s s'
     \<and> (\<forall>p v. hm_get (tr_victims tr) p = Some v \<longrightarrow>
          hm_get (tr_victims tr') p = Some v \<or> (reads_as (sys_oracle s) p (sv_start_time v) \<longrightarrow> continued v s'))
     \<and> (\<forall>F. held (with_victims F tr) s \<longrightarrow> held (with_victims F tr') s')"

lemma continued_mono: "extends not_saved s s' \<Longrightarrow> continued v s \<Longrightarrow> continued v s'"
  unfolding continued_def by (blast dest: extends_keeps)

lemma accountedI:
  assumes "sys_oracle s' = sys_oracle s" "extends not_saved s s'"
    "\<And>p v. hm_get (tr_victims tr) p = Some v \<Longrightarrow> reads_as (sys_oracle s) p (sv_start_time v) \<Longrightarrow>
      hm_get (tr_victims tr') p = Some v \<or> continued v s'"
    "\<And>F. held (with_victims F tr) s \<Longrightarrow> held (with_victims F tr') s'"
  shows "accounted tr s tr' s'"
  unfolding accounted_def using assms by (intro conjI allI impI) blast+

lemma accountedD:
  assumes "accounted tr s tr' s'"
  shows "sys_oracle s' = sys_oracle s" "extends not_saved s s'"
    "hm_get (tr_victims tr) p = Some v \<Longrightarrow> reads_as (sys_oracle s) p (sv_start_time v) \<Longrightarrow>
      hm_get (tr_victims tr') p = Some v \<or> continued v s'"
    "held (with_victims F tr) s \<Longrightarrow> held (with_victims F tr') s'"
  using assms unfolding accounted_def by (elim conjE, assumption | blast)+

lemma accounted_trans:
  assumes a: "accounted tr s tr' s'" and b: "accounted tr' s' tr'' s''"
  shows "accounted tr s tr'' s''"
proof (rule accountedI)
  note o = accountedD(1) [OF a] and e = accountedD(2) [OF a] accountedD(2) [OF b]
  show "sys_oracle s'' = sys_oracle s" using accountedD(1) [OF b] o by simp
  show "extends not_saved s s''" using e by (rule extends_trans)
  show "held (with_victims F tr'') s''" if "held (with_victims F tr) s" for F
    by (rule accountedD(4) [OF b], rule accountedD(4) [OF a that])
  show "hm_get (tr_victims tr'') p = Some v \<or> continued v s''"
    if "hm_get (tr_victims tr) p = Some v" "reads_as (sys_oracle s) p (sv_start_time v)" for p v
    using accountedD(3) [OF a that]
  proof
    assume "hm_get (tr_victims tr') p = Some v"
    then show ?thesis by (rule accountedD(3) [OF b]) (simp add: o that)
  qed (use continued_mono [OF e(2)] in blast)
qed

lemma with_victims_same: "tr_victims tr' = tr_victims tr \<Longrightarrow> with_victims F tr' = with_victims F tr"
  by (simp add: with_victims_def fun_eq_iff)

lemma accounted_same: "sys_oracle s' = sys_oracle s \<Longrightarrow> extends (\<lambda>e. stop_neutral e \<and> not_saved e) s s' \<Longrightarrow>
    tr_victims tr' = tr_victims tr \<Longrightarrow> accounted tr s tr' s'"
  by (auto simp: accounted_def with_victims_same [of tr' tr] intro: extends_mono held_neutral)

lemma quiet_any: "quiet s s' \<Longrightarrow> sys_oracle s' = sys_oracle s \<and> extends not_saved s s'"
  by (auto simp: quiet_def not_saved_def elim!: extends_mono)

lemma quiet_held: "quiet s s' \<Longrightarrow> held R s \<Longrightarrow> held R s'"
proof -
  assume q: "quiet s s'" and h: "held R s"
  from q have "sys_oracle s' = sys_oracle s" "extends stop_neutral s s'"
    by (auto simp: quiet_def stop_neutral_def elim!: extends_mono)
  with h show ?thesis by (rule held_neutral)
qed

lemma hands_over_held:
  assumes "hands_over tr vs tr1" "tracker_ok tr" "held (with_victims F tr) s"
  shows "held (\<lambda>p st. with_victims F tr1 p st \<or> victims_in vs p st) s"
  using assms(3)
proof (rule held_mono)
  fix p st
  assume "with_victims F tr p st"
  then consider "F p st" | v where "hm_get (tr_victims tr) p = Some v" "sv_start_time v = st"
    by (auto simp: with_victims_def)
  then show "with_victims F tr1 p st \<or> victims_in vs p st"
  proof cases
    case 2
    then have "sv_pid v = p" "hm_get (tr_victims tr1) p = Some v \<or> v \<in> set vs"
      using assms(1,2) unfolding tracker_ok_def hands_over_def by blast+
    then show ?thesis using 2 by (auto simp: with_victims_def victims_in_def)
  qed (simp add: with_victims_def)
qed

lemma log_oracle [simp]: "sys_oracle (log_entry a p n s) = sys_oracle s"
  by (simp add: log_entry_def)

lemma log_any: "extends not_saved s (log_entry a p n s)"
  by (simp add: log_entry_def extends_def not_saved_def)

lemma thaw_any: "extends not_saved s (snd (unfreeze_checked p st s))"
  by (rule extends_mono [OF thawer.extends_only]) (rule signals_not_saved)

lemma release_batch_result:
  "sys_oracle (snd (release_batch a vs s)) = sys_oracle s \<and> extends not_saved s (snd (release_batch a vs s)) \<and>
   (\<forall>v \<in> set vs. reads_as (sys_oracle s) (sv_pid v) (sv_start_time v) \<longrightarrow> continued v (snd (release_batch a vs s)))"
proof (induction vs arbitrary: s)
  case (Cons v vs)
  obtain r s1 where u: "unfreeze_checked (sv_pid v) (sv_start_time v) s = (r, s1)" by fastforce
  let ?s2 = "if opr_success r then log_entry a (sv_pid v) (sv_name v) s1 else s1"
  have step: "snd (release_batch a (v # vs) s) = snd (release_batch a vs ?s2)"
    by (simp add: u case_prod_unfold Let_def)
  have o: "sys_oracle ?s2 = sys_oracle s" using checked_oracle(1) [of "sv_pid v" "sv_start_time v" s] by (simp add: u)
  have e1: "extends not_saved s s1" using thaw_any [of s "sv_pid v" "sv_start_time v"] by (simp add: u)
  then have e: "extends not_saved s ?s2" using log_any by (auto intro: extends_trans)
  have "continued v (snd (release_batch a vs ?s2))" if "reads_as (sys_oracle s) (sv_pid v) (sv_start_time v)"
  proof -
    have "continued v s1" using unfreeze_checked_sends [OF that] by (simp add: u continued_def)
    then have "continued v ?s2" using continued_mono [OF log_any] by simp
    then show ?thesis using Cons.IH [of ?s2] by (blast intro: continued_mono)
  qed
  then show ?case using Cons.IH [of ?s2] o extends_trans [OF e] unfolding step by auto
qed simp

lemma release_batch_held:
  "held (\<lambda>p st. R p st \<or> victims_in vs p st) s \<Longrightarrow> held R (snd (release_batch a vs s))"
proof (induction vs arbitrary: s)
  case (Cons v vs)
  obtain r s1 where u: "unfreeze_checked (sv_pid v) (sv_start_time v) s = (r, s1)" by fastforce
  let ?s2 = "if opr_success r then log_entry a (sv_pid v) (sv_name v) s1 else s1"
  have step: "snd (release_batch a (v # vs) s) = snd (release_batch a vs ?s2)"
    by (simp add: u case_prod_unfold Let_def)
  have "held (\<lambda>p st. R p st \<or> victims_in vs p st) s1"
    using held_thaw [OF Cons.prems, of "sv_pid v" "sv_start_time v"]
    by (simp add: u) (erule held_mono, auto simp: victims_in_def)
  then have "held (\<lambda>p st. R p st \<or> victims_in vs p st) ?s2"
    by (auto intro: held_neutral simp: log_entry_def extends_def stop_neutral_def)
  then show ?case unfolding step by (rule Cons.IH)
qed (simp add: victims_in_def)

text \<open>A batch that was handed over and then released is accounted for.\<close>

lemma accounted_release:
  assumes "hands_over tr vs tr1" "tracker_ok tr" "quiet s s1"
  shows "accounted tr s tr1 (snd (release_batch a vs s1))"
proof -
  note b = release_batch_result [of a vs s1] and q = quiet_any [OF assms(3)]
  have "hm_get (tr_victims tr1) p = Some v \<or>
      (reads_as (sys_oracle s) p (sv_start_time v) \<longrightarrow> continued v (snd (release_batch a vs s1)))"
    if "hm_get (tr_victims tr) p = Some v" for p v
  proof -
    have "hm_get (tr_victims tr1) p = Some v \<or> v \<in> set vs" using assms(1) that unfolding hands_over_def by blast
    moreover have "sv_pid v = p" using assms(2) that unfolding tracker_ok_def by blast
    ultimately show ?thesis using b q by auto
  qed
  moreover have "held (with_victims F tr1) (snd (release_batch a vs s1))" if "held (with_victims F tr) s" for F
    using hands_over_held [OF assms(1,2) that] quiet_held [OF assms(3)] release_batch_held by blast
  ultimately show ?thesis using b q unfolding accounted_def by (auto intro: extends_trans)
qed

lemma release_exited_result:
  assumes "release_exited procs ps nm tr s = (n, nm', tr', s')" "tracker_ok tr"
  shows "tracker_ok tr' \<and> accounted tr s tr' s'"
  using assms
proof (induction ps arbitrary: nm tr s n nm')
  case (Cons p ps)
  obtain vs tr1 s1 where 1: "on_spike_exit p tr s = (vs, tr1, s1)" by (metis prod_cases3)
  obtain k s2 where 2: "release_batch LaSpikeUnfreeze vs s1 = (k, s2)" by fastforce
  note r = exit_result [OF 1 Cons.prems(2)]
  have a: "accounted tr s tr1 s2" using accounted_release [of tr vs tr1 s s1] r Cons.prems(2) by (metis 2 snd_conv)
  obtain m nm2 nm3 where "release_exited procs ps nm2 tr1 s2 = (m, nm3, tr', s')"
    using Cons.prems(1) by (auto simp: 1 2 Let_def split: prod.splits)
  then have "tracker_ok tr' \<and> accounted tr1 s2 tr' s'" using Cons.IH r by metis
  then show ?case using accounted_trans [OF a] by blast
qed (simp add: accounted_same)

lemma notify_result [simp]:
  "sys_oracle (notify_resumed t n s) = sys_oracle s" "extends not_saved s (notify_resumed t n s)"
  "extends stop_neutral s (notify_resumed t n s)"
  "extends (\<lambda>e. stop_neutral e \<and> not_saved e) s (notify_resumed t n s)"
  by (simp_all add: notify_resumed_def extends_def stop_neutral_def not_saved_def)

lemma release_victims_result:
  assumes "release_victims cfg procs manual tr s = (tr', s')" "tracker_ok tr"
  shows "tracker_ok tr' \<and> accounted tr s tr' s'"
proof -
  obtain n nm tr1 s1 where 1: "release_exited procs (exited_spikes procs tr) None tr s = (n, nm, tr1, s1)"
    by (metis prod_cases4)
  define s2 where "s2 = notify_resumed (case nm of Some n \<Rightarrow> n | None \<Rightarrow> ''build'') n s1"
  obtain vs3 tr3 s3 where 3: "drain_timed_out_victims (cc_spike_max_victim_freeze_sec cfg) tr1 s2 = (vs3, tr3, s3)"
    by (metis prod_cases3)
  obtain k4 s4 where 4: "release_batch LaSpikeUnfreezeTimeout vs3 s3 = (k4, s4)" by fastforce
  obtain vs5 tr5 s5 where 5: "drain_if_none_tracking tr3 s4 = (vs5, tr5, s5)" by (metis prod_cases3)
  obtain k6 s6 where 6: "release_batch LaSpikeUnfreezeOrphan vs5 s5 = (k6, s6)" by fastforce
  obtain vs7 tr7 s7 where 7: "release_requested manual tr5 s6 = (vs7, tr7, s7)" by (metis prod_cases3)
  have out: "(tr', s') = (if manual = [] then (tr5, s6)
      else (tr7, snd (release_batch LaSpikeUnfreezeManual vs7 s7)))"
    using assms(1) by (simp add: release_victims_def 1 3 4 5 6 7 s2_def [symmetric] Let_def cong: if_cong)
  have a1: "tracker_ok tr1 \<and> accounted tr s tr1 s1" using release_exited_result [OF 1 assms(2)] .
  have "accounted tr1 s1 tr1 s2" by (simp add: accounted_same s2_def)
  with a1 have a2: "accounted tr s tr1 s2" by (blast intro: accounted_trans)
  have r3: "tracker_ok tr3 \<and> hands_over tr1 vs3 tr3 \<and> quiet s2 s3" using timed_out_result [OF 3] a1 by blast
  then have a4: "accounted tr s tr3 s4"
    using accounted_trans [OF a2 accounted_release] a1 4 by (metis snd_conv)
  have r5: "tracker_ok tr5 \<and> hands_over tr3 vs5 tr5 \<and> quiet s4 s5" using drain_result(1) [OF 5] r3 by blast
  then have a6: "accounted tr s tr5 s6"
    using accounted_trans [OF a4 accounted_release] r3 6 by (metis snd_conv)
  have r7: "tracker_ok tr7 \<and> hands_over tr5 vs7 tr7 \<and> quiet s6 s7" using requested_result [OF 7] r5 by blast
  then have "accounted tr s tr7 (snd (release_batch LaSpikeUnfreezeManual vs7 s7))"
    using accounted_trans [OF a6 accounted_release] r5 by simp
  then show ?thesis using out a6 r5 r7 by (auto split: if_splits)
qed

lemma accounted_saved: "accounted tr s tr' s' \<Longrightarrow> last_saved s' = last_saved s"
  by (rule saved_frame) (rule accountedD(2))

section \<open>What is frozen for headroom\<close>

text \<open>A candidate is expendable: a low tier, not in the foreground, not frozen already, no spike, no
victim, not spared by the configuration.\<close>

definition expendable :: "compiled_config \<Rightarrow> pid list \<Rightarrow> pid option \<Rightarrow> process \<Rightarrow> bool" where
  "expendable cfg exclude active q \<longleftrightarrow> p_pid q \<notin> set exclude \<and> active \<noteq> Some (p_pid q)
     \<and> cc_spike_victim_min_rss_kb cfg \<le> kb_add (p_rss q) (p_swap q)
     \<and> 60 \<le> get_priority (p_name q) (p_exe_basename q) cfg
     \<and> \<not> list_ex (\<lambda>re. re (p_name q)) (cc_spike_victim_exclude cfg)"

lemma cooldown_quiet: "quiet s (snd (is_victim_cooldown p n tr s))"
  by (auto simp: is_victim_cooldown_def quiet_elapsed case_prod_unfold Let_def split: option.splits)

lemma headroom_candidates_result:
  assumes "headroom_candidates cfg tr exclude active qs s = (cs, s')"
  shows "quiet s s' \<and> set cs \<subseteq> {q \<in> set qs. expendable cfg exclude active q}"
  using assms
proof (induction qs arbitrary: s cs s')
  case (Cons q qs)
  obtain cool s1 where 1: "is_victim_cooldown (p_pid q) 60 tr s = (cool, s1)" by fastforce
  obtain cs1 s2 where 2: "headroom_candidates cfg tr exclude active qs s1 = (cs1, s2)" by fastforce
  have q1: "quiet s s1" using cooldown_quiet [of s "p_pid q" 60 tr] by (simp add: 1)
  show ?case
  proof (cases "p_pid q \<in> set exclude \<or> active = Some (p_pid q)")
    case True
    then show ?thesis using Cons by auto
  next
    case False
    have "quiet s s2" "set cs1 \<subseteq> {q \<in> set qs. expendable cfg exclude active q}"
      using Cons.IH [OF 2] quiet_trans [OF q1] by auto
    then show ?thesis using Cons.prems False by (auto simp: 1 2 expendable_def Let_def split: if_splits)
  qed
qed simp

text \<open>Freezing stops listed processes only, records each one it stopped, and takes no record away.\<close>

definition headroom_effect :: "pid set \<Rightarrow> effect \<Rightarrow> bool" where
  "headroom_effect ps e \<longleftrightarrow> (case e of Signalled t sig _ \<Rightarrow> sig = SIGSTOP \<and> t \<in> uint ` ps
     | Logged _ p _ \<Rightarrow> p \<in> ps | PersistedVictims _ \<Rightarrow> True | Wrote _ _ _ \<Rightarrow> True | _ \<Rightarrow> False)"

definition stops_recorded :: "pid list \<Rightarrow> spike_tracker \<Rightarrow> sys \<Rightarrow> bool" where
  "stops_recorded fs tr s \<longleftrightarrow>
     (\<forall>p. stopped (sys_trace s) (uint p) \<longrightarrow> p \<in> set fs \<or> hm_contains (tr_victims tr) p)"

lemma stops_recorded_neutral: "stops_recorded fs tr s \<Longrightarrow> extends stop_neutral s s' \<Longrightarrow> stops_recorded fs tr s'"
  unfolding stops_recorded_def extends_def by (metis foldl_neutral stopped_append)

lemma reclaim_neutral: "extends stop_neutral s (snd (reclaim_cgroup cg n s))"
  using reclaim_extends [of cg s n] by (rule extends_mono) (auto simp: stop_neutral_def writes_only_def split: effect.splits)

lemma failed_freeze_neutral:
  "\<not> opr_success (fst (freeze_checked p st s)) \<Longrightarrow> extends stop_neutral s (snd (freeze_checked p st s))"
  by (rule extends_mono [OF freeze_checked_fail]) simp_all

lemma reclaim_oracle [simp]: "sys_oracle (snd (reclaim_cgroup cg n s)) = sys_oracle s"
  by (auto simp: reclaim_cgroup_def is_cgroup_leaf_def os_defs tick_def emit_def Let_def split: option.splits prod.splits bool.splits)

definition headroom_victim :: "pid \<Rightarrow> process \<Rightarrow> u64 \<Rightarrow> instant \<Rightarrow> spike_victim" where
  "headroom_victim initiator q st now =
     \<lparr>sv_pid = p_pid q, sv_name = p_name q, sv_start_time = st, sv_frozen_for = initiator, sv_frozen_at = now\<rparr>"

text \<open>One candidate: it is passed over, or stopped and recorded.\<close>

lemma freeze_step:
  assumes "needed \<noteq> 0"
  obtains (skip) s1 where "sys_oracle s1 = sys_oracle s" "extends stop_neutral s s1"
      "extends (headroom_effect {p_pid q}) s s1"
      "freeze_for_headroom initiator (q # qs) needed tr s = freeze_for_headroom initiator qs needed tr s1"
  | (stop) st now tr1 s1 where "sys_oracle s1 = sys_oracle s" "extends (headroom_effect {p_pid q}) s s1"
      "tr1 = tr\<lparr>tr_victims := hm_insert (p_pid q) (headroom_victim initiator q st now) (tr_victims tr)\<rparr>"
      "\<And>t. stopped (sys_trace s1) t \<Longrightarrow> stopped (sys_trace s) t \<or> t = uint (p_pid q)"
      "freeze_for_headroom initiator (q # qs) needed tr s =
         freeze_for_headroom initiator qs (kb_sub needed (p_rss q)) tr1 s1"
      "\<And>R. held R s \<Longrightarrow> held (\<lambda>p st'. if p = p_pid q then st' = st else R p st') s1"
proof (cases "fst (start_time_of (p_pid q) s)")
  case None
  then obtain s1 where 1: "start_time_of (p_pid q) s = (None, s1)" by (metis prod.collapse)
  show thesis
  proof (rule skip [of s1])
    show "extends stop_neutral s s1" "extends (headroom_effect {p_pid q}) s s1"
      using start_time_pair [OF 1] by (auto intro: extends_same)
  qed (use assms oracle_pair(1) [OF 1] in \<open>simp_all add: 1\<close>)
next
  case (Some st)
  then obtain s1 where 1: "start_time_of (p_pid q) s = (Some st, s1)" by (metis prod.collapse)
  obtain r s2 where 2: "freeze_checked (p_pid q) st s1 = (r, s2)" by fastforce
  have tr1: "sys_trace s1 = sys_trace s" by (rule start_time_pair [OF 1])
  have o2: "sys_oracle s2 = sys_oracle s"
    using oracle_pair(1) [OF 1] checked_oracle(2) [of "p_pid q" st s1] by (simp add: 2)
  have e2: "extends (headroom_effect {p_pid q}) s s2"
  proof -
    have "extends (headroom_effect {p_pid q}) s1 (snd (freeze_checked (p_pid q) st s1))"
      by (rule extends_mono [OF freezer.extends_only])
         (auto simp: only_signals_def headroom_effect_def split: effect.splits)
    then show ?thesis by (simp add: 2 extends_after [OF tr1])
  qed
  show thesis
  proof (cases "opr_success r")
    case False
    then have "extends stop_neutral s s2"
      using failed_freeze_neutral [of "p_pid q" st s1] by (simp add: 2 extends_after [OF tr1])
    then show thesis using False assms o2 e2 by (intro skip [of s2]) (simp_all add: 1 2)
  next
    case True
    define s3 where "s3 = log_entry LaSpikeFreeze (p_pid q) (p_name q) s2"
    obtain now s4 where 4: "os_clock s3 = (now, s4)" by fastforce
    let ?tr = "tr\<lparr>tr_victims := hm_insert (p_pid q) (headroom_victim initiator q st now) (tr_victims tr)\<rparr>"
    obtain s5 where 5: "record_victim_frozen (headroom_victim initiator q st now) tr s4 = (?tr, s5)"
      by (simp add: record_victim_frozen_def headroom_victim_def Let_def)
    define s6 where "s6 = (case p_cgroup_path q of
        Some cg \<Rightarrow> snd (reclaim_cgroup cg (kb_bytes (p_rss q)) s5) | None \<Rightarrow> s5)"
    have t5: "\<exists>vs. sys_trace s5 = sys_trace s2 @ [Logged LaSpikeFreeze (p_pid q) (p_name q), PersistedVictims vs]"
      using 4 5 by (auto simp: s3_def log_entry_def os_clock_def record_victim_frozen_def persist_victims_def Let_def)
    have o6: "sys_oracle s6 = sys_oracle s"
      using 4 5 o2 by (auto simp: s6_def s3_def os_clock_def record_victim_frozen_def persist_victims_def Let_def split: option.splits)
    have "extends is_write s5 s6"
      by (auto simp: s6_def split: option.splits intro: extends_mono [OF reclaim_extends] writes_only_is_write)
    then obtain ws where ws: "sys_trace s6 = sys_trace s5 @ ws" "\<forall>e \<in> set ws. is_write e" by (auto simp: extends_def)
    have wn: "is_write e \<Longrightarrow> stop_neutral e \<and> headroom_effect {p_pid q} e" for e
      by (auto simp: is_write_def stop_neutral_def headroom_effect_def split: effect.splits)
    have t2: "sys_trace s2 = sys_trace s @ [Signalled (uint (p_pid q)) SIGSTOP None]"
      using freeze_checked_success [of "p_pid q" st s1] True by (simp add: 2 tr1)
    show thesis
    proof (rule stop [of s6 ?tr st now])
      show "sys_oracle s6 = sys_oracle s" by (rule o6)
      show "extends (headroom_effect {p_pid q}) s s6"
        using e2 t5 ws wn by (auto simp: extends_def headroom_effect_def)
      show "stopped (sys_trace s) t \<or> t = uint (p_pid q)" if "stopped (sys_trace s6) t" for t
      proof -
        obtain vs where "sys_trace s6 = sys_trace s2 @ Logged LaSpikeFreeze (p_pid q) (p_name q) # PersistedVictims vs # ws"
          using t5 ws(1) by auto
        moreover have "\<forall>e \<in> set (Logged LaSpikeFreeze (p_pid q) (p_name q) # PersistedVictims vs # ws). stop_neutral e"
          using ws(2) wn by (auto simp: stop_neutral_def)
        ultimately have "stopped (sys_trace s2) t" using that foldl_neutral by (metis stopped_append)
        then show ?thesis by (auto simp: t2 stopped_append stop_step_def split: if_splits)
      qed
      show "held (\<lambda>p st'. if p = p_pid q then st' = st else R p st') s6" if "held R s" for R
      proof -
        have "held R s1" using that oracle_pair(1) [OF 1] tr1 by (auto intro: held_same)
        then have "held (\<lambda>p st'. if p = p_pid q then st' = st else R p st') s2" using 2 True by (rule held_stop)
        moreover have "extends stop_neutral s2 s6"
          using t5 ws wn by (auto simp: extends_def stop_neutral_def)
        moreover have "sys_oracle s6 = sys_oracle s2" using o6 o2 by simp
        ultimately show ?thesis by (blast intro: held_neutral)
      qed
    qed (use True assms 4 5 in \<open>simp_all add: 1 2 s3_def [symmetric] s6_def headroom_victim_def Let_def\<close>)
  qed
qed

lemma freeze_for_headroom_result:
  assumes "freeze_for_headroom initiator qs needed tr s = (tr', s')" "tracker_ok tr"
  shows "tracker_ok tr' \<and> sys_oracle s' = sys_oracle s \<and> tr_spikes tr' = tr_spikes tr \<and>
    extends (headroom_effect (p_pid ` set qs)) s s' \<and>
    (\<forall>p v. hm_get (tr_victims tr) p = Some v \<and> p \<notin> p_pid ` set qs \<longrightarrow> hm_get (tr_victims tr') p = Some v) \<and>
    (\<forall>p. hm_contains (tr_victims tr) p \<longrightarrow> hm_contains (tr_victims tr') p) \<and>
    (stops_recorded fs tr s \<longrightarrow> stops_recorded fs tr' s') \<and>
    (\<forall>F. held (with_victims F tr) s \<longrightarrow> held (with_victims F tr') s')"
  using assms
proof (induction qs arbitrary: needed tr s)
  case (Cons q qs)
  have mono: "extends (headroom_effect A) x y \<Longrightarrow> A \<subseteq> B \<Longrightarrow> extends (headroom_effect B) x y" for A B x y
    by (erule extends_mono) (auto simp: headroom_effect_def split: effect.splits)
  show ?case
  proof (cases "needed = 0")
    case True
    with Cons.prems show ?thesis by auto
  next
    case False
    then show ?thesis
    proof (cases rule: freeze_step [where q = q and s = s and initiator = initiator and qs = qs and tr = tr])
      case (skip s1)
      have "freeze_for_headroom initiator qs needed tr s1 = (tr', s')" using Cons.prems skip(4) by simp
      from Cons.IH [OF this Cons.prems(2)] skip show ?thesis
        using extends_trans [OF mono [OF skip(3)] mono, of "p_pid ` set (q # qs)" "p_pid ` set qs" s']
          stops_recorded_neutral [OF _ skip(2), of fs tr] held_neutral [OF _ skip(1,2)] by auto
    next
      case (stop st now tr1 s1)
      have run: "freeze_for_headroom initiator qs (kb_sub needed (p_rss q)) tr1 s1 = (tr', s')"
        using Cons.prems stop(5) by simp
      have ok: "tracker_ok tr1"
        using Cons.prems(2) by (simp add: stop(3) tracker_ok_def hm_simps headroom_victim_def)
      have sr: "stops_recorded fs tr s \<Longrightarrow> stops_recorded fs tr1 s1"
        unfolding stops_recorded_def by (auto simp: stop(3) hm_simps intro: word_uint_eqI dest!: stop(4))
      have hd: "held (with_victims F tr1) s1" if "held (with_victims F tr) s" for F
        by (rule held_mono [OF stop(6) [OF that]])
           (auto simp: stop(3) with_victims_def hm_simps headroom_victim_def split: if_splits)
      from Cons.IH [OF run ok] stop(1-3) sr hd show ?thesis
        using extends_trans [OF mono [OF stop(2)] mono, of "p_pid ` set (q # qs)" "p_pid ` set qs" s']
        by (auto simp: hm_simps)
    qed
  qed
qed auto

section \<open>The whole cycle\<close>

lemma write_weight_result:
  "sys_oracle (snd (write_cgroup_cpu_weight cg w s)) = sys_oracle s" "extends (\<lambda>e. stop_neutral e \<and> not_saved e) s (snd (write_cgroup_cpu_weight cg w s))"
  by (auto simp: write_cgroup_cpu_weight_def write_if_exists_def os_defs emit_def tick_def Let_def extends_def
      stop_neutral_def not_saved_def split: bool.splits prod.splits)

definition pending :: "spike_decision list \<Rightarrow> holder" where
  "pending ds p st \<longleftrightarrow> (\<exists>vs. ReleaseVictims vs \<in> set ds \<and> victims_in vs p st)"

lemma victims_of_excluded: "hm_get (tr_victims tr) p = Some v \<Longrightarrow> p \<in> set (excluded_pids fm tr b)"
  using hm_contains_keys [of "tr_victims tr" p] by (simp add: excluded_pids_def victim_pids_def hm_contains_get)

lemma silent_decision:
  assumes "tr' = tr" "s' = snd (write_cgroup_cpu_weight cg w s)" "tracker_ok tr" "\<And>vs. d \<noteq> ReleaseVictims vs"
  shows "tracker_ok tr' \<and> accounted tr s tr' s' \<and> (\<forall>vs v. d = ReleaseVictims vs \<and> v \<in> set vs \<and>
     reads_as (sys_oracle s) (sv_pid v) (sv_start_time v) \<longrightarrow> continued v s')
   \<and> (\<forall>F. held (\<lambda>p st. with_victims F tr p st \<or> pending [d] p st) s \<longrightarrow> held (with_victims F tr') s')"
proof -
  have "pending [d] = (\<lambda>_ _. False)" using assms(4) by (auto simp: pending_def fun_eq_iff)
  moreover have o: "sys_oracle s' = sys_oracle s" and e: "extends (\<lambda>e. stop_neutral e \<and> not_saved e) s s'"
    unfolding assms(2) by (rule write_weight_result)+
  moreover have "accounted tr s tr' s'" using o e by (rule accounted_same) (simp add: assms(1))
  moreover have "held (with_victims F tr) s'" if "held (with_victims F tr) s" for F
    using that o by (rule held_neutral) (rule extends_mono [OF e], simp)
  ultimately show ?thesis using assms(1,3,4) by simp
qed

lemma run_decision_result:
  assumes "run_spike_decision cfg fm procs d tr s = (tr', s')" "tracker_ok tr"
  shows "tracker_ok tr' \<and> accounted tr s tr' s' \<and> (\<forall>vs v. d = ReleaseVictims vs \<and> v \<in> set vs \<and>
     reads_as (sys_oracle s) (sv_pid v) (sv_start_time v) \<longrightarrow> continued v s')
   \<and> (\<forall>F. held (\<lambda>p st. with_victims F tr p st \<or> pending [d] p st) s \<longrightarrow> held (with_victims F tr') s')"
proof (cases d)
  case (FreezeForHeadroom needed)
  obtain cs s1 where 1: "headroom_candidates cfg tr (excluded_pids fm tr True) (sys_foreground s) procs s = (cs, s1)"
    by fastforce
  obtain init where 2: "freeze_for_headroom init (sort_by (headroom_le cfg) cs) needed tr s1 = (tr', s')"
    using assms(1) by (auto simp: run_spike_decision_def FreezeForHeadroom 1)
  note c = headroom_candidates_result [OF 1] and fr = freeze_for_headroom_result [OF 2 assms(2), of "[]"]
  have "extends (headroom_effect (p_pid ` set cs)) s1 s'" using fr by simp
  then have fe: "extends not_saved s1 s'"
    by (rule extends_mono) (auto simp: headroom_effect_def not_saved_def split: effect.splits)
  have f: "tracker_ok tr'" "sys_oracle s' = sys_oracle s1"
    and fh: "\<And>F. held (with_victims F tr) s1 \<Longrightarrow> held (with_victims F tr') s'"
    and fv: "\<And>p v. hm_get (tr_victims tr) p = Some v \<Longrightarrow>
      p \<notin> p_pid ` set (sort_by (headroom_le cfg) cs) \<Longrightarrow> hm_get (tr_victims tr') p = Some v"
    using fr by simp_all
  have "hm_get (tr_victims tr') p = Some v" if v: "hm_get (tr_victims tr) p = Some v" for p v
  proof -
    have "p \<notin> p_pid ` set (sort_by (headroom_le cfg) cs)"
      using c victims_of_excluded [OF v, of fm True] by (auto simp: expendable_def)
    with v show ?thesis by (rule fv)
  qed
  moreover have q: "quiet s s1" using c by blast
  moreover have "held (with_victims F tr') s'" if "held (with_victims F tr) s" for F
    by (rule fh) (rule quiet_held [OF q that])
  moreover have "extends not_saved s s'" using quiet_any [OF q] fe extends_trans by blast
  ultimately have "accounted tr s tr' s'"
    using f(2) quiet_any [OF q] by (simp add: accounted_def)
  moreover have "pending [d] = (\<lambda>_ _. False)" using FreezeForHeadroom by (simp add: pending_def fun_eq_iff)
  ultimately show ?thesis using f(1) FreezeForHeadroom by (simp add: accounted_def)
next
  case (ReleaseVictims vs)
  obtain n s1 where 1: "release_batch LaSpikeUnfreeze vs s = (n, s1)" by fastforce
  have out: "tr' = tr" "s' = notify_resumed ''build'' n s1"
    using assms(1) by (simp_all add: run_spike_decision_def ReleaseVictims 1)
  note b = release_batch_result [of LaSpikeUnfreeze vs s]
  have os: "sys_oracle s' = sys_oracle s" "extends not_saved s s'" using b by (auto simp: 1 out intro: extends_trans)
  have cont: "continued v s'" if "v \<in> set vs" "reads_as (sys_oracle s) (sv_pid v) (sv_start_time v)" for v
    using b that continued_mono [OF notify_result(2)] by (auto simp: 1 out)
  have h: "held (with_victims F tr) s'"
    if "held (\<lambda>p st. with_victims F tr p st \<or> pending [d] p st) s" for F
  proof -
    have "held (with_victims F tr) s1"
      using release_batch_held [of "with_victims F tr" vs s LaSpikeUnfreeze] that
      by (simp add: pending_def ReleaseVictims 1)
    then show ?thesis unfolding out by (rule held_neutral) simp_all
  qed
  have "accounted tr s tr' s'"
  proof (rule accountedI)
    show "held (with_victims F tr') s'" if "held (with_victims F tr) s" for F
      unfolding out(1) by (rule h, rule held_mono [OF that]) simp
  qed (use os in \<open>simp_all add: out(1)\<close>)
  then show ?thesis using assms(2) cont h by (simp add: ReleaseVictims out(1))
next
  case (ThrottleSpike q cg)
  show ?thesis
    by (rule silent_decision [where cg = cg and w = "cc_spike_throttled_cpu_weight cfg"])
       (use assms in \<open>simp_all add: run_spike_decision_def ThrottleSpike\<close>)
next
  case (RestoreThrottle q cg)
  show ?thesis
    by (rule silent_decision [where cg = cg and w = 100])
       (use assms in \<open>simp_all add: run_spike_decision_def RestoreThrottle\<close>)
qed

lemma run_decisions_result:
  assumes "run_spike_decisions cfg fm procs ds tr s = (tr', s')" "tracker_ok tr"
  shows "tracker_ok tr' \<and> accounted tr s tr' s' \<and> (\<forall>vs v. ReleaseVictims vs \<in> set ds \<and> v \<in> set vs \<and>
     reads_as (sys_oracle s) (sv_pid v) (sv_start_time v) \<longrightarrow> continued v s')
   \<and> (\<forall>F. held (\<lambda>p st. with_victims F tr p st \<or> pending ds p st) s \<longrightarrow> held (with_victims F tr') s')"
  using assms
proof (induction ds arbitrary: tr s)
  case (Cons d ds)
  obtain tr1 s1 where 1: "run_spike_decision cfg fm procs d tr s = (tr1, s1)" by fastforce
  note d = run_decision_result [OF 1 Cons.prems(2)]
  have "run_spike_decisions cfg fm procs ds tr1 s1 = (tr', s')" using Cons.prems(1) by (simp add: 1)
  with d have ih: "tracker_ok tr' \<and> accounted tr1 s1 tr' s' \<and> (\<forall>vs v. ReleaseVictims vs \<in> set ds \<and> v \<in> set vs \<and>
     reads_as (sys_oracle s1) (sv_pid v) (sv_start_time v) \<longrightarrow> continued v s')
   \<and> (\<forall>F. held (\<lambda>p st. with_victims F tr1 p st \<or> pending ds p st) s1 \<longrightarrow> held (with_victims F tr') s')"
    using Cons.IH by blast
  have hd: "held (with_victims F tr') s'"
    if "held (\<lambda>p st. with_victims F tr p st \<or> pending (d # ds) p st) s" for F
  proof -
    let ?F = "\<lambda>p st. F p st \<or> pending ds p st"
    have eq: "with_victims ?F t p st \<longleftrightarrow> with_victims F t p st \<or> pending ds p st" for t p st
      by (auto simp: with_victims_def)
    have "held (\<lambda>p st. with_victims ?F tr p st \<or> pending [d] p st) s"
      unfolding eq by (rule held_mono [OF that]) (auto simp: pending_def)
    then have "held (with_victims ?F tr1) s1" using d by blast
    then show ?thesis using ih unfolding eq by blast
  qed
  have o: "sys_oracle s1 = sys_oracle s" and e: "extends not_saved s1 s'"
    using d ih by (simp_all add: accounted_def)
  have "accounted tr s tr' s'" using d ih by (blast intro: accounted_trans)
  then show ?case using d ih hd continued_mono [OF e] unfolding o by (auto simp only: set_simps insert_iff)
qed (simp add: accounted_same pending_def)

lemma run_spike_cycle_result:
  assumes "run_spike_cycle cfg fm available procs manual tr s = (tr', s')" "tracker_ok tr"
  shows "tracker_ok tr' \<and> accounted tr s tr' s'"
proof -
  obtain tr1 s1 where 1: "release_victims cfg procs manual tr s = (tr1, s1)" by fastforce
  note r = release_victims_result [OF 1 assms(2)]
  obtain ds tr2 s2 where 2: "(if cc_spike_mode_enabled cfg
      then spike_update procs available (spike_params_from cfg) tr1 s1 else ([], tr1, s1)) = (ds, tr2, s2)"
    by (metis prod_cases3)
  have 3: "run_spike_decisions cfg fm procs ds tr2 s2 = (tr', s')"
    using assms(1) by (simp add: run_spike_cycle_def 1 2 cong: if_cong)
  obtain released where rel: "tracker_ok tr2" "hands_over tr1 released tr2" "quiet s1 s2"
      "released = [] \<or> ReleaseVictims released \<in> set ds"
  proof (cases "cc_spike_mode_enabled cfg")
    case True
    then have "spike_update procs available (spike_params_from cfg) tr1 s1 = (ds, tr2, s2)" using 2 by simp
    then show thesis
    proof (rule spike_update_result)
      show "tracker_ok tr1" using r by blast
    qed (rule that, auto)
  next
    case False
    then show thesis using 2 r that [of "[]"] by (simp add: hands_over_none)
  qed
  note d = run_decisions_result [OF 3 rel(1)]
  have o: "sys_oracle s2 = sys_oracle s1" and e: "extends not_saved s1 s2" using quiet_any [OF rel(3)] by auto
  have "hm_get (tr_victims tr') p = Some v \<or> (reads_as (sys_oracle s1) p (sv_start_time v) \<longrightarrow> continued v s')"
    if v: "hm_get (tr_victims tr1) p = Some v" for p v
  proof -
    have "sv_pid v = p" using r v unfolding tracker_ok_def by blast
    moreover have "hm_get (tr_victims tr2) p = Some v \<or> v \<in> set released"
      using rel(2) v unfolding hands_over_def by blast
    ultimately show ?thesis using d rel(4) o unfolding accounted_def by auto
  qed
  moreover have "held (with_victims F tr') s'" if "held (with_victims F tr1) s1" for F
  proof -
    have "held (\<lambda>p st. with_victims F tr2 p st \<or> victims_in released p st) s2"
      using hands_over_held [OF rel(2) _ that] r quiet_held [OF rel(3)] by blast
    then have "held (\<lambda>p st. with_victims F tr2 p st \<or> pending ds p st) s2"
      by (rule held_mono) (use rel(4) in \<open>auto simp: pending_def victims_in_def\<close>)
    then show ?thesis using d by blast
  qed
  ultimately have "accounted tr1 s1 tr' s'" using d o e unfolding accounted_def by (auto intro: extends_trans)
  then show ?thesis using r d by (blast intro: accounted_trans)
qed

end
