(* ===== verification/Leak.thy ===== *)
theory Leak
  imports Execute
begin

text \<open>
  The leak guard (\<open>mgd/src/leak_guard.rs\<close>, \<open>mgd/src/evictor/leak.rs\<close>): a family of processes with one
  command line whose number only grows is cut back to its newest members.
\<close>

section \<open>State\<close>

datatype leak_decision = TerminateStale pid string string

record leak_group =
  lg_samples :: "(nat \<times> instant) list"
  lg_cooldown_until :: "instant option"
  lg_last_display :: string
  lg_last_count :: nat
  lg_last_total_rss :: kb
  lg_last_leaking :: bool

type_synonym leak_tracker = "(string, leak_group) hmap"

record leak_params =
  lp_window_sec :: u64
  lp_min_group_count :: nat
  lp_min_group_rss :: kb
  lp_growth_over_window :: nat
  lp_min_samples :: nat
  lp_keep_newest :: nat
  lp_cooldown_sec :: u64
  lp_exclude :: "regex list"

definition leak_params_from :: "compiled_config \<Rightarrow> leak_params" where
  "leak_params_from cfg =
     \<lparr>lp_window_sec = cc_leak_guard_window_sec cfg, lp_min_group_count = cc_leak_guard_min_group_count cfg,
      lp_min_group_rss = cc_leak_guard_min_group_rss_kb cfg,
      lp_growth_over_window = cc_leak_guard_growth_over_window cfg,
      lp_min_samples = cc_leak_guard_min_samples cfg, lp_keep_newest = cc_leak_guard_keep_newest cfg,
      lp_cooldown_sec = cc_leak_guard_cooldown_sec cfg, lp_exclude = cc_leak_guard_exclude cfg\<rparr>"

definition group_key :: "process \<Rightarrow> string" where
  "group_key p = (if p_cmdline p = [] then ''noargs:'' @ p_name p else p_cmdline p)"

definition group_processes :: "process list \<Rightarrow> (string, process list) hmap" where
  "group_processes procs = foldl (\<lambda>m p. hm_insert (group_key p) (get_or m (group_key p) [] @ [p]) m) [] procs"

section \<open>The judgement of one group\<close>

fun never_shrunk :: "nat option \<Rightarrow> nat list \<Rightarrow> bool" where
  "never_shrunk prev [] = True"
| "never_shrunk prev (c # cs) =
     (case prev of
        Some p \<Rightarrow> if c < p then False else never_shrunk (Some c) cs
      | None \<Rightarrow> never_shrunk (Some c) cs)"

definition grown_enough :: "leak_params \<Rightarrow> nat list \<Rightarrow> bool" where
  "grown_enough p counts = (case counts of
     [] \<Rightarrow> False | c # cs \<Rightarrow> lp_growth_over_window p \<le> last (c # cs) - c)"

definition is_leaking :: "leak_params \<Rightarrow> kb \<Rightarrow> nat list \<Rightarrow> bool" where
  "is_leaking p total_rss counts =
     (lp_min_samples p \<le> length counts \<and> never_shrunk None counts \<and> grown_enough p counts
      \<and> lp_min_group_rss p \<le> total_rss)"

definition new_group :: "string \<Rightarrow> leak_group" where
  "new_group display = \<lparr>lg_samples = [], lg_cooldown_until = None, lg_last_display = display,
     lg_last_count = 0, lg_last_total_rss = 0, lg_last_leaking = False\<rparr>"

definition group_excluded :: "leak_params \<Rightarrow> process \<Rightarrow> bool" where
  "group_excluded p r = list_ex (\<lambda>re. re (p_name r) \<or>
     (case p_exe_basename r of Some e \<Rightarrow> re e | None \<Rightarrow> False)) (lp_exclude p)"

definition display_name :: "process \<Rightarrow> string" where
  "display_name r = (case p_exe_basename r of Some e \<Rightarrow> e | None \<Rightarrow> p_name r)"

definition stale_members :: "nat \<Rightarrow> process list \<Rightarrow> process list" where
  "stale_members keep_newest members = drop keep_newest (sort_by (\<lambda>a b. p_pid b \<le> p_pid a) members)"

definition judge_group ::
  "leak_params \<Rightarrow> instant \<Rightarrow> leak_tracker \<times> leak_decision list \<Rightarrow> string \<times> process list \<Rightarrow>
   leak_tracker \<times> leak_decision list" where
  "judge_group p now acc entry = (let (groups, ds) = acc; (key, members) = entry in
     if length members < lp_min_group_count p then (groups, ds)
     else (case members of
        [] \<Rightarrow> (groups, ds)
      | representative # _ \<Rightarrow>
        if group_excluded p representative then (groups, ds)
        else (let total_rss = kb_sum (map p_rss members);
                  display = display_name representative;
                  st = get_or groups key (new_group display);
                  samples = evict_samples now (from_secs (lp_window_sec p))
                    (lg_samples st @ [(length members, now)]);
                  leaking = is_leaking p total_rss (map fst samples);
                  in_cooldown = (case lg_cooldown_until st of Some t \<Rightarrow> now < t | None \<Rightarrow> False);
                  act = (leaking \<and> \<not> in_cooldown);
                  st' = st\<lparr>lg_samples := samples, lg_last_display := display,
                     lg_last_count := length members, lg_last_total_rss := total_rss, lg_last_leaking := leaking,
                     lg_cooldown_until := (if act then Some (now + from_secs (lp_cooldown_sec p))
                                           else lg_cooldown_until st)\<rparr>;
                  new = (if act then map (\<lambda>m. TerminateStale (p_pid m) (p_name m) display)
                           (stale_members (lp_keep_newest p) members) else [])
              in (hm_insert key st' groups, ds @ new))))"

definition leak_update :: "process list \<Rightarrow> leak_params \<Rightarrow> leak_tracker \<Rightarrow> sys \<Rightarrow> leak_decision list \<times> leak_tracker \<times> sys" where
  "leak_update procs p groups s =
     (let (now, s1) = os_clock s;
          current = group_processes procs;
          kept = hm_retain (\<lambda>key _. lp_min_group_count p \<le> length (get_or current key [])) groups;
          (groups', ds) = foldl (judge_group p now) (kept, []) current
      in (ds, groups', s1))"

section \<open>The cycle\<close>

definition leak_candidates :: "compiled_config \<Rightarrow> process list \<Rightarrow> process list" where
  "leak_candidates cfg procs =
     filter (\<lambda>p. 19 < get_priority (p_name p) (p_exe_basename p) cfg \<and> \<not> is_protected cfg (p_name p)) procs"

fun run_leak_decisions :: "leak_decision list \<Rightarrow> action_event list \<Rightarrow> sys \<Rightarrow> action_event list \<times> sys" where
  "run_leak_decisions [] q s = (q, s)"
| "run_leak_decisions (TerminateStale p name family # ds) q s =
     (let s1 = log_entry LaLeakGuardKill p name (emit (SpawnedSigterm p) (tick s));
          (q1, s2) = push_event LaLeakGuardKill p name (EvLeak family) q s1
      in run_leak_decisions ds q1 s2)"

definition run_leak_guard_cycle ::
  "compiled_config \<Rightarrow> process list \<Rightarrow> leak_tracker \<Rightarrow> action_event list \<Rightarrow> sys \<Rightarrow>
   leak_tracker \<times> action_event list \<times> sys" where
  "run_leak_guard_cycle cfg procs groups q s =
     (if \<not> cc_leak_guard_enabled cfg then (groups, q, s)
      else (let (ds, groups', s1) = leak_update (leak_candidates cfg procs) (leak_params_from cfg) groups s;
                (q', s2) = run_leak_decisions ds q s1
            in (groups', q', s2)))"

section \<open>Facts about groups\<close>

text \<open>The scan over the window decides whether the counts are in ascending order.\<close>

lemma never_shrunk_sorted: "never_shrunk prev cs \<longleftrightarrow> sorted ((case prev of None \<Rightarrow> [] | Some p \<Rightarrow> [p]) @ cs)"
proof (induction prev cs rule: never_shrunk.induct)
  case (2 prev c cs)
  then show ?case by (cases prev) (auto intro: order_trans)
qed (simp split: option.split)

text \<open>Growth and no shrinking: the last count is the largest, so it is the current one that grew.\<close>

lemma is_leaking_counts:
  assumes "is_leaking p rss (c # cs)"
  shows "\<forall>x \<in> set (c # cs). x \<le> last (c # cs)" "c + lp_growth_over_window p \<le> last (c # cs) \<or> lp_growth_over_window p = 0"
proof -
  have "sorted (c # cs)" using assms never_shrunk_sorted [of None "c # cs"] by (simp add: is_leaking_def)
  moreover have split: "c # cs = butlast (c # cs) @ [last (c # cs)]" by simp
  ultimately have "sorted (butlast (c # cs) @ [last (c # cs)])" by (simp only:)
  then have "\<forall>x \<in> set (butlast (c # cs)). x \<le> last (c # cs)" unfolding sorted_append by simp
  moreover have "set (c # cs) = insert (last (c # cs)) (set (butlast (c # cs)))" using arg_cong [OF split, of set] by simp
  ultimately show all: "\<forall>x \<in> set (c # cs). x \<le> last (c # cs)" by simp
  from all show "c + lp_growth_over_window p \<le> last (c # cs) \<or> lp_growth_over_window p = 0"
    using assms by (auto simp: is_leaking_def grown_enough_def)
qed

lemma group_processes_get: "get_or (group_processes procs) k [] = filter (\<lambda>p. group_key p = k) procs"
  by (induction procs rule: rev_induct) (auto simp: group_processes_def get_or_insert, auto simp: get_or_def hm_simps)

lemma group_processes_ok: "hm_ok (group_processes procs)"
  unfolding group_processes_def by (rule foldl_invariant [where P = hm_ok]) simp_all

lemma group_processes_members:
  assumes "(k, members) \<in> set (group_processes procs)"
  shows "members = filter (\<lambda>p. group_key p = k) procs"
  using assms group_processes_ok [of procs] group_processes_get [of procs k]
  by (simp add: hm_get_iff [symmetric] get_or_def)

text \<open>The members kept are the newest: the stale ones are those with the smaller PIDs.\<close>

lemma newest_first: "sorted_wrt (\<lambda>a b. p_pid b \<le> p_pid a) (sort_by (\<lambda>a b. p_pid b \<le> p_pid a) members)"
  by (rule sorted_sort_by) auto

lemma stale_members_result:
  assumes "m \<in> set (stale_members keep members)"
  shows "m \<in> set members" "keep < length (filter (\<lambda>q. p_pid m \<le> p_pid q) members)"
    "keep < length members"
proof -
  let ?xs = "sort_by (\<lambda>a b. p_pid b \<le> p_pid a) members"
  have m: "m \<in> set (drop keep ?xs)" using assms by (simp add: stale_members_def)
  then show "m \<in> set members" by (metis in_set_dropD set_sort_by)
  show k: "keep < length members" using m by (metis drop_all empty_iff length_sort_by list.set(1) not_le)
  have "sorted_wrt (\<lambda>a b. p_pid b \<le> p_pid a) (take keep ?xs @ drop keep ?xs)" using newest_first by simp
  then have "\<forall>q \<in> set (take keep ?xs). p_pid m \<le> p_pid q" using m unfolding sorted_wrt_append by blast
  then have "filter (\<lambda>q. p_pid m \<le> p_pid q) (take keep ?xs) = take keep ?xs" by (simp add: filter_id_conv)
  then have "filter (\<lambda>q. p_pid m \<le> p_pid q) ?xs = take keep ?xs @ filter (\<lambda>q. p_pid m \<le> p_pid q) (drop keep ?xs)"
    by (metis append_take_drop_id filter_append)
  moreover have "filter (\<lambda>q. p_pid m \<le> p_pid q) (drop keep ?xs) \<noteq> []" using m by (auto simp: filter_empty_conv)
  ultimately have "keep < length (filter (\<lambda>q. p_pid m \<le> p_pid q) ?xs)" using k by simp
  moreover have "length (filter P ?xs) = length (filter P members)" for P
    by (metis mset_filter mset_sort_by size_mset)
  ultimately show "keep < length (filter (\<lambda>q. p_pid m \<le> p_pid q) members)" by simp
qed

lemma stale_members_count: "length (stale_members keep members) = length members - keep"
  by (simp add: stale_members_def)

section \<open>Facts about the decisions\<close>

text \<open>What is known of a member that is to be terminated, \<open>procs\<close> being all the candidates.\<close>

definition stale_in :: "leak_params \<Rightarrow> process list \<Rightarrow> process \<Rightarrow> bool" where
  "stale_in p procs m \<longleftrightarrow> m \<in> set procs
     \<and> lp_min_group_count p \<le> length (filter (\<lambda>q. group_key q = group_key m) procs)
     \<and> lp_min_group_rss p \<le> kb_sum (map p_rss (filter (\<lambda>q. group_key q = group_key m) procs))
     \<and> lp_keep_newest p < length (filter (\<lambda>q. group_key q = group_key m \<and> p_pid m \<le> p_pid q) procs)"

definition group_cooling :: "leak_tracker \<Rightarrow> string \<Rightarrow> instant \<Rightarrow> bool" where
  "group_cooling groups key now = (case hm_get groups key of
     None \<Rightarrow> False | Some st \<Rightarrow> (case lg_cooldown_until st of Some t \<Rightarrow> now < t | None \<Rightarrow> False))"

lemma judge_group_result:
  assumes "judge_group p now (groups, ds) (key, members) = (groups', ds')"
  shows "(\<forall>k. k \<noteq> key \<longrightarrow> hm_get groups' k = hm_get groups k) \<and>
    (ds' = ds \<and> (group_cooling groups key now \<longrightarrow> group_cooling groups' key now)
     \<or> ds' = ds @ map (\<lambda>m. TerminateStale (p_pid m) (p_name m) (display_name (hd members)))
                   (stale_members (lp_keep_newest p) members)
       \<and> lp_min_group_count p \<le> length members \<and> lp_min_group_rss p \<le> kb_sum (map p_rss members)
       \<and> \<not> group_cooling groups key now
       \<and> (\<exists>st. hm_get groups' key = Some st \<and> lg_cooldown_until st = Some (now + from_secs (lp_cooldown_sec p))))"
  using assms
  by (auto simp: judge_group_def group_cooling_def get_or_def hm_simps new_group_def is_leaking_def Let_def
      split: list.splits option.splits if_splits)

lemma judge_groups_frame:
  "k \<notin> fst ` set entries \<Longrightarrow> hm_get (fst (foldl (judge_group p now) acc entries)) k = hm_get (fst acc) k"
proof (induction entries arbitrary: acc)
  case (Cons e entries)
  have "hm_get (fst (judge_group p now acc e)) k = hm_get (fst acc) k"
  proof -
    obtain g ds key members g' ds' where "acc = (g, ds)" "e = (key, members)"
      "judge_group p now (g, ds) (key, members) = (g', ds')" by fastforce
    then show ?thesis using judge_group_result Cons.prems by fastforce
  qed
  then show ?case using Cons by simp
qed simp

text \<open>A decision is about a stale member of a group that is not cooling down, and starts its cooldown.\<close>

definition leak_decision_ok :: "leak_params \<Rightarrow> process list \<Rightarrow> instant \<Rightarrow> leak_tracker \<Rightarrow> leak_tracker \<Rightarrow> leak_decision \<Rightarrow> bool" where
  "leak_decision_ok p procs now groups groups' d \<longleftrightarrow> (\<exists>m fam. d = TerminateStale (p_pid m) (p_name m) fam
     \<and> stale_in p procs m \<and> \<not> group_cooling groups (group_key m) now
     \<and> (\<exists>st. hm_get groups' (group_key m) = Some st \<and> lg_cooldown_until st = Some (now + from_secs (lp_cooldown_sec p))))"

lemma judge_groups_sound:
  "list_all (\<lambda>(k, members). members = filter (\<lambda>q. group_key q = k) procs) entries \<Longrightarrow> distinct (map fst entries) \<Longrightarrow>
   foldl (judge_group p now) (groups, ds) entries = (groups', ds') \<Longrightarrow>
   \<exists>new. ds' = ds @ new \<and> list_all (leak_decision_ok p procs now groups groups') new"
proof (induction entries arbitrary: groups ds)
  case (Cons e entries)
  obtain key members where e: "e = (key, members)" by fastforce
  have mem: "members = filter (\<lambda>q. group_key q = key) procs" using Cons.prems(1) by (simp add: e)
  obtain g1 ds1 where 1: "judge_group p now (groups, ds) (key, members) = (g1, ds1)" by fastforce
  note r = judge_group_result [OF 1]
  have tl: "foldl (judge_group p now) (g1, ds1) entries = (groups', ds')" using Cons.prems(3) by (simp add: e 1)
  obtain new where new: "ds' = ds1 @ new" "list_all (leak_decision_ok p procs now g1 groups') new"
    using Cons.IH [OF _ _ tl] Cons.prems(1,2) by auto
  have key': "hm_get groups' key = hm_get g1 key"
    using judge_groups_frame [of key entries p now "(g1, ds1)"] Cons.prems(2) by (simp add: tl e)
  have bk: "\<not> group_cooling groups k now" if "\<not> group_cooling g1 k now" for k
    using r that by (cases "k = key") (auto simp: group_cooling_def)
  have later: "leak_decision_ok p procs now groups groups' d" if "leak_decision_ok p procs now g1 groups' d" for d
    using that bk unfolding leak_decision_ok_def by blast
  obtain new1 where n1: "ds1 = ds @ new1" "list_all (leak_decision_ok p procs now groups groups') new1"
  proof (cases "ds1 = ds")
    case True
    then show thesis using that [of "[]"] by simp
  next
    case False
    with r have a: "ds1 = ds @ map (\<lambda>m. TerminateStale (p_pid m) (p_name m) (display_name (hd members)))
        (stale_members (lp_keep_newest p) members)" "lp_min_group_count p \<le> length members"
      "lp_min_group_rss p \<le> kb_sum (map p_rss members)" "\<not> group_cooling groups key now"
      "\<exists>st. hm_get groups' key = Some st \<and> lg_cooldown_until st = Some (now + from_secs (lp_cooldown_sec p))"
      unfolding key' by auto
    have "leak_decision_ok p procs now groups groups' (TerminateStale (p_pid m) (p_name m) (display_name (hd members)))"
      if m: "m \<in> set (stale_members (lp_keep_newest p) members)" for m
    proof -
      have k: "m \<in> set procs" "group_key m = key" using stale_members_result(1) [OF m] by (auto simp: mem)
      have "filter (\<lambda>q. p_pid m \<le> p_pid q) members = filter (\<lambda>q. group_key q = key \<and> p_pid m \<le> p_pid q) procs"
        by (simp add: mem conj_commute)
      then have "lp_keep_newest p < length (filter (\<lambda>q. group_key q = key \<and> p_pid m \<le> p_pid q) procs)"
        using stale_members_result(2) [OF m] by simp
      then show ?thesis using k a(2-5) unfolding leak_decision_ok_def stale_in_def mem by blast
    qed
    then show thesis by (intro that [OF a(1)]) (auto simp: list_all_iff)
  qed
  have "list_all (leak_decision_ok p procs now groups groups') (new1 @ new)"
    using n1(2) new(2) later by (auto simp: list_all_iff)
  then show ?case using new(1) n1(1) by (intro exI [of _ "new1 @ new"]) simp
qed simp

lemma judge_group_ok: "hm_ok (fst acc) \<Longrightarrow> hm_ok (fst (judge_group p now acc e))"
  by (auto simp: judge_group_def case_prod_unfold Let_def split: list.splits)

lemma leak_update_sound:
  assumes "leak_update procs p groups s = (ds, groups', s')" "hm_ok groups"
  shows "list_all (leak_decision_ok p procs (fst (os_clock s)) groups groups') ds \<and> hm_ok groups' \<and> s' = snd (os_clock s)"
proof -
  let ?now = "fst (os_clock s)"
  let ?kept = "hm_retain (\<lambda>key _. lp_min_group_count p \<le> length (get_or (group_processes procs) key [])) groups"
  have run: "foldl (judge_group p ?now) (?kept, []) (group_processes procs) = (groups', ds)" "s' = snd (os_clock s)"
    using assms(1) by (auto simp: leak_update_def Let_def split: prod.splits)
  have "list_all (\<lambda>(k, members). members = filter (\<lambda>q. group_key q = k) procs) (group_processes procs)"
    using group_processes_members by (fastforce simp: list_all_iff)
  moreover have "distinct (map fst (group_processes procs))" using group_processes_ok by (simp add: hm_ok_def)
  ultimately have "list_all (leak_decision_ok p procs ?now ?kept groups') ds"
    using judge_groups_sound [OF _ _ run(1)] by auto
  moreover have "leak_decision_ok p procs ?now groups groups' d" if "leak_decision_ok p procs ?now ?kept groups' d" for d
  proof -
    have "group_cooling ?kept (group_key m) ?now = group_cooling groups (group_key m) ?now" if "stale_in p procs m" for m
      using that assms(2) by (auto simp: group_cooling_def hm_get_retain group_processes_get stale_in_def split: option.splits)
    then show ?thesis using that unfolding leak_decision_ok_def by blast
  qed
  moreover have "hm_ok groups'"
    using foldl_invariant [where P = "\<lambda>acc. hm_ok (fst acc)" and f = "judge_group p ?now"
        and a = "(?kept, [])" and xs = "group_processes procs"] judge_group_ok assms(2) by (simp add: run)
  ultimately show ?thesis using run(2) by (auto simp: list_all_iff)
qed

text \<open>The cycle terminates stale members that are neither important nor protected, and nothing else.\<close>

definition leak_effect :: "compiled_config \<Rightarrow> process list \<Rightarrow> effect \<Rightarrow> bool" where
  "leak_effect cfg procs e = (case e of
     SpawnedSigterm p \<Rightarrow> list_ex (\<lambda>m. p_pid m = p \<and> stale_in (leak_params_from cfg) (leak_candidates cfg procs) m) procs
   | Logged a _ _ \<Rightarrow> a = LaLeakGuardKill
   | _ \<Rightarrow> False)"

lemma run_leak_decisions_effects:
  "list_all (\<lambda>d. case d of TerminateStale p n f \<Rightarrow> leak_effect cfg procs (SpawnedSigterm p)) ds \<Longrightarrow>
   extends (leak_effect cfg procs) s (snd (run_leak_decisions ds q s))"
proof (induction ds q s rule: run_leak_decisions.induct)
  case (2 p name family ds q s)
  let ?s1 = "log_entry LaLeakGuardKill p name (emit (SpawnedSigterm p) (tick s))"
  obtain q1 s2 where 1: "push_event LaLeakGuardKill p name (EvLeak family) q ?s1 = (q1, s2)" by fastforce
  have "sys_trace s2 = sys_trace ?s1" using push_event_trace [of LaLeakGuardKill p name "EvLeak family" q ?s1] by (simp add: 1)
  then have "sys_trace s2 = sys_trace s @ [SpawnedSigterm p, Logged LaLeakGuardKill p name]" by (simp add: log_entry_def)
  moreover have "leak_effect cfg procs (SpawnedSigterm p)" using "2.prems" by simp
  ultimately have "extends (leak_effect cfg procs) s s2" by (simp add: extends_def leak_effect_def)
  moreover have "extends (leak_effect cfg procs) s2 (snd (run_leak_decisions ds q1 s2))"
    using "2.IH" [OF refl 1 [symmetric]] "2.prems" by simp
  ultimately show ?case by (simp add: 1 Let_def extends_trans)
qed simp

lemma run_leak_guard_effects:
  assumes "hm_ok groups"
  shows "extends (leak_effect cfg procs) s (snd (snd (run_leak_guard_cycle cfg procs groups q s)))"
proof (cases "cc_leak_guard_enabled cfg")
  case True
  let ?c = "leak_candidates cfg procs" and ?p = "leak_params_from cfg"
  obtain ds groups' s1 where 1: "leak_update ?c ?p groups s = (ds, groups', s1)" by (metis prod_cases3)
  note u = leak_update_sound [OF 1 assms]
  have "list_all (\<lambda>d. case d of TerminateStale p n f \<Rightarrow> leak_effect cfg procs (SpawnedSigterm p)) ds"
  proof -
    have "leak_effect cfg procs (SpawnedSigterm (p_pid m))" if "stale_in ?p ?c m" for m
      using that by (auto simp: leak_effect_def list_ex_iff stale_in_def leak_candidates_def)
    then show ?thesis using u by (auto simp: list_all_iff leak_decision_ok_def)
  qed
  then have "extends (leak_effect cfg procs) s1 (snd (run_leak_decisions ds q s1))" by (rule run_leak_decisions_effects)
  moreover have "extends (leak_effect cfg procs) s s1" using u by (auto simp: os_clock_def intro: extends_same)
  ultimately show ?thesis using True by (auto simp: run_leak_guard_cycle_def 1 case_prod_unfold Let_def intro: extends_trans)
qed (simp add: run_leak_guard_cycle_def)

end
