(* ===== verification/Throttle.thy ===== *)
theory Throttle
  imports Decision Cgroup
begin

text \<open>
  CPU throttling and memory caps of background control groups: \<open>ThrottleManager\<close> and
  \<open>MemCapManager\<close> of \<open>mgd/src/throttle.rs\<close>.
\<close>

section \<open>CPU shares\<close>

datatype throttled_state = TNone | WeightOnly | Full

record throttle_manager =
  tm_states :: "(string, throttled_state) hmap"
  tm_tracker :: "(string, instant) hmap"

definition throttle_new :: throttle_manager where
  "throttle_new = \<lparr>tm_states = [], tm_tracker = []\<rparr>"

definition throttle_release_psi_floor :: f64 where
  "throttle_release_psi_floor = Fin 2"

definition should_force_release :: "nat \<Rightarrow> f64 \<Rightarrow> u64 \<Rightarrow> f64 \<Rightarrow> bool" where
  "should_force_release background_duration_secs psi_some_avg10 max_duration_secs psi_floor =
     (unat max_duration_secs \<le> background_duration_secs \<and> fl_lt psi_some_avg10 psi_floor)"

definition find_foreground_cgroup :: "process list \<Rightarrow> pid option \<Rightarrow> string option" where
  "find_foreground_cgroup procs active_pid = (case active_pid of
     None \<Rightarrow> None
   | Some apid \<Rightarrow> (case find (\<lambda>p. p_pid p = apid) procs of Some p \<Rightarrow> p_cgroup_path p | None \<Rightarrow> None))"

definition cgroup_groups :: "process list \<Rightarrow> (string, process list) hmap" where
  "cgroup_groups procs = foldl (\<lambda>m p. case p_cgroup_path p of
      None \<Rightarrow> m | Some path \<Rightarrow> hm_insert path (get_or m path [] @ [p]) m) [] procs"

definition process_priority :: "compiled_config \<Rightarrow> process \<Rightarrow> u8" where
  "process_priority cfg p = get_priority (p_name p) (p_exe_basename p) cfg"

definition min_group_priority :: "compiled_config \<Rightarrow> process list \<Rightarrow> u8" where
  "min_group_priority cfg ps = foldl (\<lambda>m p. if process_priority cfg p < m then process_priority cfg p else m) 100 ps"

definition throttle_excluded :: "compiled_config \<Rightarrow> process list \<Rightarrow> bool" where
  "throttle_excluded cfg ps =
     (cc_throttle_exclude cfg \<noteq> [] \<and> list_ex (\<lambda>p.
        list_ex (\<lambda>re. re (case p_exe_basename p of Some e \<Rightarrow> e | None \<Rightarrow> p_name p) \<or> re (p_name p))
          (cc_throttle_exclude cfg)) ps)"

text \<open>The entry of the tracker, made on the first visit, and the time since.\<close>

definition background_secs :: "string \<Rightarrow> (string, instant) hmap \<Rightarrow> sys \<Rightarrow> nat \<times> (string, instant) hmap \<times> sys" where
  "background_secs path tracker s =
     (case hm_get tracker path of
        Some t \<Rightarrow> (let (d, s1) = elapsed t s in (as_secs d, tracker, s1))
      | None \<Rightarrow> (let (now, s1) = os_clock s; (d, s2) = elapsed now s1
                 in (as_secs d, hm_insert path now tracker, s2)))"

definition throttle_target :: "compiled_config \<Rightarrow> f64 \<Rightarrow> u8 \<Rightarrow> nat \<Rightarrow> throttled_state" where
  "throttle_target cfg psi min_priority secs =
     (if should_force_release secs psi (cc_throttle_max_duration_sec cfg) throttle_release_psi_floor then TNone
      else if 10 \<le> secs then (if 80 \<le> min_priority then Full else WeightOnly)
      else TNone)"

definition apply_throttle :: "throttled_state \<Rightarrow> string \<Rightarrow> sys \<Rightarrow> sys" where
  "apply_throttle target path s = (case target of
     TNone \<Rightarrow> restore_cgroup_cpu path s
   | WeightOnly \<Rightarrow>
       (case write_cgroup_cpu_weight path 1 s of
          (None, s1) \<Rightarrow> snd (write_cgroup_cpu_max path ''max 100000'' s1) | (Some _, s1) \<Rightarrow> s1)
   | Full \<Rightarrow>
       (case write_cgroup_cpu_weight path 1 s of
          (None, s1) \<Rightarrow> snd (write_cgroup_cpu_max path ''50000 100000'' s1) | (Some _, s1) \<Rightarrow> s1))"

text \<open>A group that must not be throttled: what was done to it is undone.\<close>

definition spare_group :: "string \<Rightarrow> throttle_manager \<Rightarrow> sys \<Rightarrow> throttle_manager \<times> sys" where
  "spare_group path tm s =
     (let tracker = hm_remove path (tm_tracker tm) in
      if get_or (tm_states tm) path TNone \<noteq> TNone
      then (tm\<lparr>tm_states := hm_insert path TNone (tm_states tm), tm_tracker := tracker\<rparr>, restore_cgroup_cpu path s)
      else (tm\<lparr>tm_tracker := tracker\<rparr>, s))"

definition throttle_group ::
  "compiled_config \<Rightarrow> f64 \<Rightarrow> string option \<Rightarrow> throttle_manager \<times> sys \<Rightarrow> string \<times> process list \<Rightarrow> throttle_manager \<times> sys" where
  "throttle_group cfg psi foreground acc entry = (let (tm, s) = acc; (path, ps) = entry in
     if Some path = foreground then spare_group path tm s
     else if min_group_priority cfg ps < 60 then spare_group path tm s
     else if throttle_excluded cfg ps then spare_group path tm s
     else (let (secs, tracker, s1) = background_secs path (tm_tracker tm) s;
               target = throttle_target cfg psi (min_group_priority cfg ps) secs;
               tm1 = tm\<lparr>tm_tracker := tracker\<rparr>
           in if target \<noteq> get_or (tm_states tm) path TNone
              then (tm1\<lparr>tm_states := hm_insert path target (tm_states tm1)\<rparr>, apply_throttle target path s1)
              else (tm1, s1)))"

definition restore_all_cpu :: "string list \<Rightarrow> sys \<Rightarrow> sys" where
  "restore_all_cpu paths s = foldl (\<lambda>s path. restore_cgroup_cpu path s) s paths"

definition throttle_update ::
  "process list \<Rightarrow> pid option \<Rightarrow> bool \<Rightarrow> f64 \<Rightarrow> compiled_config \<Rightarrow> throttle_manager \<Rightarrow> sys \<Rightarrow> throttle_manager \<times> sys" where
  "throttle_update procs active_pid active psi cfg tm s =
     (if \<not> active then (throttle_new, restore_all_cpu (hm_keys (tm_states tm)) s)
      else (let groups = cgroup_groups procs;
                live = hm_keys groups;
                tm1 = \<lparr>tm_states = hm_retain (\<lambda>k _. k \<in> set live) (tm_states tm),
                       tm_tracker = hm_retain (\<lambda>k _. k \<in> set live) (tm_tracker tm)\<rparr>
            in foldl (throttle_group cfg psi (find_foreground_cgroup procs active_pid)) (tm1, s) groups))"

definition throttle_restore_all :: "throttle_manager \<Rightarrow> sys \<Rightarrow> sys" where
  "throttle_restore_all tm s = restore_all_cpu (hm_keys (tm_states tm)) s"

section \<open>Memory caps\<close>

record memcap_manager =
  mc_capped :: "(string, u64) hmap"
  mc_tracker :: "(string, instant) hmap"

definition memcap_new :: memcap_manager where
  "memcap_new = \<lparr>mc_capped = [], mc_tracker = []\<rparr>"

definition memcap_groups :: "compiled_config \<Rightarrow> process list \<Rightarrow> (string, u8 \<times> kb) hmap" where
  "memcap_groups cfg procs = foldl (\<lambda>m p. case p_cgroup_path p of
      None \<Rightarrow> m
    | Some path \<Rightarrow> (let (prio, rss) = get_or m path (100, 0)
                    in hm_insert path (min prio (process_priority cfg p), sat_add rss (p_rss p)) m)) [] procs"

definition cap_bytes :: "kb \<Rightarrow> u64" where
  "cap_bytes total_rss = kb_bytes (kb_add total_rss (512 * 1024))"

definition memcap_group ::
  "string option \<Rightarrow> memcap_manager \<times> sys \<Rightarrow> string \<times> u8 \<times> kb \<Rightarrow> memcap_manager \<times> sys" where
  "memcap_group foreground acc entry = (let (mc, s) = acc; (path, min_priority, total_rss) = entry in
     if Some path = foreground \<or> min_priority < 60 then
       (mc\<lparr>mc_capped := hm_remove path (mc_capped mc), mc_tracker := hm_remove path (mc_tracker mc)\<rparr>,
        (if hm_contains (mc_capped mc) path then restore_cgroup_memory path s else s))
     else if hm_contains (mc_capped mc) path then (mc, s)
     else (let (secs, tracker, s1) = background_secs path (mc_tracker mc) s; mc1 = mc\<lparr>mc_tracker := tracker\<rparr> in
       if secs < 10 then (mc1, s1)
       else (case write_memory_max path (cap_bytes total_rss) s1 of
           (None, s2) \<Rightarrow> (mc1\<lparr>mc_capped := hm_insert path (cap_bytes total_rss) (mc_capped mc1)\<rparr>, s2)
         | (Some _, s2) \<Rightarrow> (mc1, s2))))"

definition memcap_update ::
  "process list \<Rightarrow> pid option \<Rightarrow> pressure_level \<Rightarrow> compiled_config \<Rightarrow> memcap_manager \<Rightarrow> sys \<Rightarrow> memcap_manager \<times> sys" where
  "memcap_update procs active_pid level cfg mc s =
     (if level < High then (mc, s)
      else (let groups = memcap_groups cfg procs;
                live = hm_keys groups;
                mc1 = mc\<lparr>mc_tracker := hm_retain (\<lambda>k _. k \<in> set live) (mc_tracker mc)\<rparr>
            in foldl (memcap_group (find_foreground_cgroup procs active_pid)) (mc1, s) groups))"

definition memcap_restore_all :: "memcap_manager \<Rightarrow> sys \<Rightarrow> memcap_manager \<times> sys" where
  "memcap_restore_all mc s = (memcap_new, foldl (\<lambda>s path. restore_cgroup_memory path s) s (hm_keys (mc_capped mc)))"

definition capped_count :: "memcap_manager \<Rightarrow> nat" where
  "capped_count mc = length (mc_capped mc)"

section \<open>Facts about groups\<close>

lemma cgroup_groups_get: "get_or (cgroup_groups procs) path [] = filter (\<lambda>p. p_cgroup_path p = Some path) procs"
proof (induction procs rule: rev_induct)
  case (snoc p procs)
  then show ?case by (auto simp: cgroup_groups_def get_or_insert split: option.split)
qed (simp add: cgroup_groups_def get_or_def hm_simps)

lemma cgroup_groups_ok: "hm_ok (cgroup_groups procs)"
  unfolding cgroup_groups_def by (rule foldl_invariant [where P = hm_ok]) (simp_all split: option.split)

lemma cgroup_groups_members:
  assumes "(path, ps) \<in> set (cgroup_groups procs)"
  shows "ps = filter (\<lambda>p. p_cgroup_path p = Some path) procs"
  using assms cgroup_groups_ok [of procs] cgroup_groups_get [of procs path]
  by (simp add: hm_get_iff [symmetric] get_or_def)

lemma min_group_priority_le: "min_group_priority cfg ps \<le> 100 \<and> (\<forall>p \<in> set ps. min_group_priority cfg ps \<le> process_priority cfg p)"
proof -
  let ?f = "\<lambda>m p. if process_priority cfg p < m then process_priority cfg p else m"
  have "foldl ?f a ps \<le> a \<and> (\<forall>p \<in> set ps. foldl ?f a ps \<le> process_priority cfg p)" for a
  proof (induction ps arbitrary: a)
    case (Cons q ps)
    from Cons [of "?f a q"] show ?case by (auto split: if_splits intro: order_trans)
  qed simp
  then show ?thesis by (simp add: min_group_priority_def)
qed

section \<open>Facts about throttling\<close>

text \<open>Which groups may be slowed down: in the background, every member expendable, not excluded.\<close>

definition may_throttle :: "compiled_config \<Rightarrow> process list \<Rightarrow> string option \<Rightarrow> string \<Rightarrow> bool" where
  "may_throttle cfg procs foreground path \<longleftrightarrow> Some path \<noteq> foreground
     \<and> list_all (\<lambda>p. p_cgroup_path p = Some path \<longrightarrow> 60 \<le> process_priority cfg p) procs
     \<and> \<not> throttle_excluded cfg (filter (\<lambda>p. p_cgroup_path p = Some path) procs)"

definition cpu_effect :: "(string \<Rightarrow> bool) \<Rightarrow> effect \<Rightarrow> bool" where
  "cpu_effect may e = (case e of
     Wrote f d _ \<Rightarrow> (\<exists>path.
       f = cgroup_sysfs_path path ''cpu.weight'' \<and> (d = ''100'' \<or> d = ''1'' \<and> may path)
       \<or> f = cgroup_sysfs_path path ''cpu.max'' \<and> (d = ''max 100000'' \<or> d = ''50000 100000'' \<and> may path))
   | _ \<Rightarrow> False)"

lemma write_if_exists_traces:
  "sys_trace (snd (write_if_exists f d s)) = sys_trace s \<or> (\<exists>r. sys_trace (snd (write_if_exists f d s)) = sys_trace s @ [Wrote f d r])"
  by (auto simp: write_if_exists_def os_exists_def os_write_def Let_def split: bool.splits prod.splits)

lemma weight_effect: "d = ''100'' \<or> d = ''1'' \<and> may path \<Longrightarrow>
    extends (cpu_effect may) s (snd (write_if_exists (cgroup_sysfs_path path ''cpu.weight'') d s))"
  using write_if_exists_traces [of "cgroup_sysfs_path path ''cpu.weight''" d s]
  by (auto simp: extends_def cpu_effect_def)

lemma max_effect: "d = ''max 100000'' \<or> d = ''50000 100000'' \<and> may path \<Longrightarrow>
    extends (cpu_effect may) s (snd (write_if_exists (cgroup_sysfs_path path ''cpu.max'') d s))"
  using write_if_exists_traces [of "cgroup_sysfs_path path ''cpu.max''" d s]
  by (auto simp: extends_def cpu_effect_def)

lemma show_weights: "show_nat (unat (100 :: u32)) = ''100''" "show_nat (unat (1 :: u32)) = ''1''"
proof -
  have "show_nat 100 = ''100''" "show_nat 1 = ''1''" by code_simp+
  then show "show_nat (unat (100 :: u32)) = ''100''" "show_nat (unat (1 :: u32)) = ''1''" by simp_all
qed

lemma restore_cpu_effect: "extends (cpu_effect may) s (restore_cgroup_cpu path s)"
  unfolding restore_cgroup_cpu_def write_cgroup_cpu_max_def write_cgroup_cpu_weight_def show_weights
  by (rule extends_trans [OF weight_effect max_effect]) simp_all

lemma apply_throttle_effect: "may path \<or> target = TNone \<Longrightarrow> extends (cpu_effect may) s (apply_throttle target path s)"
proof -
  assume m: "may path \<or> target = TNone"
  obtain r s1 where 1: "write_cgroup_cpu_weight path 1 s = (r, s1)" by fastforce
  have w: "may path \<Longrightarrow> extends (cpu_effect may) s s1"
    using weight_effect [of "''1''" may path s] 1 unfolding write_cgroup_cpu_weight_def show_weights by simp
  have x: "may path \<Longrightarrow> d = ''max 100000'' \<or> d = ''50000 100000'' \<Longrightarrow>
      extends (cpu_effect may) s1 (snd (write_cgroup_cpu_max path d s1))" for d
    unfolding write_cgroup_cpu_max_def by (rule max_effect) auto
  show ?thesis
    using m w x restore_cpu_effect [of may s path]
    by (auto simp: apply_throttle_def 1 split: throttled_state.splits option.splits intro: extends_trans)
qed

lemma background_secs_silent: "background_secs path tracker s = (n, tracker', s') \<Longrightarrow> sys_trace s' = sys_trace s"
  by (auto simp: background_secs_def os_clock_def elapsed_def split: option.splits)

lemma throttle_group_effect:
  assumes "may_throttle cfg procs foreground path \<longrightarrow> may path" "ps = filter (\<lambda>p. p_cgroup_path p = Some path) procs"
  shows "extends (cpu_effect may) s (snd (throttle_group cfg psi foreground (tm, s) (path, ps)))"
proof -
  obtain secs tracker s1 where 1: "background_secs path (tm_tracker tm) s = (secs, tracker, s1)" by (metis prod_cases3)
  have sp: "extends (cpu_effect may) s (snd (spare_group path tm s))"
    by (simp add: spare_group_def Let_def restore_cpu_effect)
  have m: "may path" if "Some path \<noteq> foreground" "\<not> min_group_priority cfg ps < 60" "\<not> throttle_excluded cfg ps"
  proof -
    have "60 \<le> process_priority cfg p" if "p \<in> set ps" for p
      using that min_group_priority_le [of cfg ps] \<open>\<not> min_group_priority cfg ps < 60\<close> by force
    then show ?thesis using assms that by (auto simp: may_throttle_def list_all_iff)
  qed
  show ?thesis
    using sp m apply_throttle_effect [of may path _ s1] background_secs_silent [OF 1]
    by (auto simp: throttle_group_def 1 Let_def extends_def)
qed

lemma restore_all_cpu_effect: "extends (cpu_effect may) s (restore_all_cpu paths s)"
  unfolding restore_all_cpu_def
  by (rule foldl_invariant [where P = "\<lambda>s'. extends (cpu_effect may) s s'"])
     (auto intro: extends_trans restore_cpu_effect)

lemma throttle_update_effect:
  "extends (cpu_effect (may_throttle cfg procs (find_foreground_cgroup procs active_pid))) s
     (snd (throttle_update procs active_pid active psi cfg tm s))"
proof (cases active)
  case True
  let ?may = "may_throttle cfg procs (find_foreground_cgroup procs active_pid)"
  have "extends (cpu_effect ?may) s (snd (foldl (throttle_group cfg psi (find_foreground_cgroup procs active_pid)) (tm0, s)
      (cgroup_groups procs)))" for tm0
  proof (rule foldl_invariant [where P = "\<lambda>acc. extends (cpu_effect ?may) s (snd acc)"])
    fix acc :: "throttle_manager \<times> sys" and entry
    assume "extends (cpu_effect ?may) s (snd acc)" "entry \<in> set (cgroup_groups procs)"
    then show "extends (cpu_effect ?may) s
        (snd (throttle_group cfg psi (find_foreground_cgroup procs active_pid) acc entry))"
      by (cases acc; cases entry) (auto dest!: cgroup_groups_members intro: extends_trans throttle_group_effect)
  qed simp
  then show ?thesis using True by (simp add: throttle_update_def Let_def)
qed (simp add: throttle_update_def restore_all_cpu_effect)

text \<open>Once the pressure is gone every group on record is restored, and the record is empty. A group
that merely has no listed process left is dropped from the record with no write at all: it keeps
its limits.\<close>

lemma throttle_inactive:
  "throttle_update procs active_pid False psi cfg tm s = (throttle_new, throttle_restore_all tm s)"
  by (simp add: throttle_update_def throttle_restore_all_def)

lemma throttle_forgets: "throttle_update [] active_pid True psi cfg tm s = (throttle_new, s)"
  by (simp add: throttle_update_def cgroup_groups_def hm_keys_def hm_retain_def throttle_new_def Let_def)

lemma restore_cpu_oracle [simp]: "sys_oracle (restore_cgroup_cpu path s) = sys_oracle s"
  by (auto simp: restore_cgroup_cpu_def write_cgroup_cpu_max_def write_cgroup_cpu_weight_def write_if_exists_def
      os_defs tick_def emit_def Let_def split: bool.splits prod.splits)

lemma restore_cpu_writes:
  assumes "\<forall>t f. or_exists (sys_oracle s) t f"
  shows "\<exists>r. Wrote (cgroup_sysfs_path path ''cpu.weight'') ''100'' r \<in> set (sys_trace (restore_cgroup_cpu path s))"
proof -
  let ?s1 = "snd (write_cgroup_cpu_weight path 100 s)"
  have "\<exists>r. Wrote (cgroup_sysfs_path path ''cpu.weight'') ''100'' r \<in> set (sys_trace ?s1)"
    unfolding write_cgroup_cpu_weight_def show_weights
    using assms by (auto simp: write_if_exists_def os_exists_def os_write_def tick_def Let_def)
  moreover have "extends (\<lambda>_. True) ?s1 (restore_cgroup_cpu path s)"
    using write_if_exists_traces [of "cgroup_sysfs_path path ''cpu.max''" "''max 100000''" ?s1]
    by (auto simp: restore_cgroup_cpu_def write_cgroup_cpu_max_def extends_def)
  ultimately show ?thesis by (blast dest: extends_keeps)
qed

lemma restore_all_cpu_writes:
  "path \<in> set paths \<Longrightarrow> \<forall>t f. or_exists (sys_oracle s) t f \<Longrightarrow>
   \<exists>r. Wrote (cgroup_sysfs_path path ''cpu.weight'') ''100'' r \<in> set (sys_trace (restore_all_cpu paths s))"
proof (induction paths arbitrary: s)
  case (Cons q paths)
  have rest: "extends (\<lambda>_. True) (restore_cgroup_cpu q s) (restore_all_cpu paths (restore_cgroup_cpu q s))"
    by (rule extends_mono [OF restore_all_cpu_effect [of "\<lambda>_. True"]]) simp
  show ?case
  proof (cases "path = q")
    case True
    then show ?thesis using restore_cpu_writes [OF Cons.prems(2), of q] extends_keeps [OF rest]
      by (auto simp: restore_all_cpu_def)
  next
    case False
    then show ?thesis using Cons.IH [of "restore_cgroup_cpu q s"] Cons.prems by (simp add: restore_all_cpu_def)
  qed
qed simp

section \<open>Facts about memory caps\<close>

text \<open>The cap never is below what the group holds, and leaves 512 MiB unless it saturates.\<close>

lemma cap_bytes_ge: "kb_bytes r \<le> cap_bytes r"
  by (auto simp: cap_bytes_def word_le_nat_alt sat_simps min_def)

lemma cap_bytes_exact:
  assumes "unat r < 2 ^ 53"
  shows "unat (cap_bytes r) = unat (kb_bytes r) + 512 * 1024 * 1024"
  using assms by (simp add: cap_bytes_def sat_simps)

lemma memcap_groups_get: "get_or (memcap_groups cfg procs) path (100, 0) =
    (min_group_priority cfg (filter (\<lambda>p. p_cgroup_path p = Some path) procs),
     kb_sum (map p_rss (filter (\<lambda>p. p_cgroup_path p = Some path) procs)))"
proof (induction procs rule: rev_induct)
  case (snoc p procs)
  then show ?case
    by (auto simp: memcap_groups_def get_or_insert min_group_priority_def kb_sum_def kb_add_def min_def
        split: option.split prod.splits)
qed (simp add: memcap_groups_def get_or_def hm_simps min_group_priority_def kb_sum_def)

lemma memcap_groups_ok: "hm_ok (memcap_groups cfg procs)"
  unfolding memcap_groups_def
  by (rule foldl_invariant [where P = hm_ok]) (auto simp: Let_def split: option.split prod.split)

lemma memcap_groups_members:
  assumes "(path, prio, rss) \<in> set (memcap_groups cfg procs)"
  shows "prio = min_group_priority cfg (filter (\<lambda>p. p_cgroup_path p = Some path) procs)"
    "rss = kb_sum (map p_rss (filter (\<lambda>p. p_cgroup_path p = Some path) procs))"
  using assms memcap_groups_ok [of cfg procs] memcap_groups_get [of cfg procs path]
  by (simp_all add: hm_get_iff [symmetric] get_or_def)

lemma memcap_groups_keys: "p \<in> set procs \<Longrightarrow> p_cgroup_path p = Some path \<Longrightarrow> hm_contains (memcap_groups cfg procs) path"
  by (induction procs rule: rev_induct)
     (auto simp: memcap_groups_def hm_simps Let_def split: option.splits prod.splits)

definition cap_effect :: "compiled_config \<Rightarrow> process list \<Rightarrow> string option \<Rightarrow> effect \<Rightarrow> bool" where
  "cap_effect cfg procs foreground e = (case e of
     Wrote f d _ \<Rightarrow> (\<exists>path. f = cgroup_sysfs_path path ''memory.max'' \<and>
       (d = ''max'' @ [CHR 0x0A] \<or>
        d = show_nat (unat (cap_bytes (kb_sum (map p_rss (filter (\<lambda>p. p_cgroup_path p = Some path) procs))))) @ [CHR 0x0A]
        \<and> Some path \<noteq> foreground \<and> list_all (\<lambda>p. p_cgroup_path p = Some path \<longrightarrow> 60 \<le> process_priority cfg p) procs))
   | _ \<Rightarrow> False)"

lemma restore_memory_effect: "extends (cap_effect cfg procs fg) s (restore_cgroup_memory path s)"
  using write_if_exists_traces [of "cgroup_sysfs_path path ''memory.max''" "''max'' @ [CHR 0x0A]" s]
  by (auto simp: restore_cgroup_memory_def extends_def cap_effect_def)

lemma memcap_group_effect:
  assumes "(path, prio, rss) \<in> set (memcap_groups cfg procs)"
  shows "extends (cap_effect cfg procs fg) s (snd (memcap_group fg (mc, s) (path, prio, rss)))"
proof -
  note g = memcap_groups_members [OF assms]
  obtain secs tracker s1 where 1: "background_secs path (mc_tracker mc) s = (secs, tracker, s1)" by (metis prod_cases3)
  have "extends (cap_effect cfg procs fg) s1 (snd (write_memory_max path (cap_bytes rss) s1))"
    if "Some path \<noteq> fg" "\<not> prio < 60"
  proof -
    have "list_all (\<lambda>p. p_cgroup_path p = Some path \<longrightarrow> 60 \<le> process_priority cfg p) procs"
      using that min_group_priority_le [of cfg "filter (\<lambda>p. p_cgroup_path p = Some path) procs"]
      by (force simp: list_all_iff g(1) not_less)
    then show ?thesis
      using that write_if_exists_traces [of "cgroup_sysfs_path path ''memory.max''" "show_nat (unat (cap_bytes rss)) @ [CHR 0x0A]" s1]
      by (auto simp: write_memory_max_def extends_def cap_effect_def g(2))
  qed
  then show ?thesis
    using background_secs_silent [OF 1] restore_memory_effect [of cfg procs fg s path]
    by (auto simp: memcap_group_def 1 Let_def extends_def split: option.splits prod.splits)
qed

lemma memcap_update_effect:
  "extends (cap_effect cfg procs (find_foreground_cgroup procs active_pid)) s
     (snd (memcap_update procs active_pid level cfg mc s))"
proof (cases "level < High")
  case False
  let ?fg = "find_foreground_cgroup procs active_pid"
  have "extends (cap_effect cfg procs ?fg) s (snd (foldl (memcap_group ?fg) (mc0, s) (memcap_groups cfg procs)))" for mc0
  proof (rule foldl_invariant [where P = "\<lambda>acc. extends (cap_effect cfg procs ?fg) s (snd acc)"])
    fix acc :: "memcap_manager \<times> sys" and entry
    assume "extends (cap_effect cfg procs ?fg) s (snd acc)" "entry \<in> set (memcap_groups cfg procs)"
    then show "extends (cap_effect cfg procs ?fg) s (snd (memcap_group ?fg acc entry))"
      by (cases acc; cases entry) (auto intro: extends_trans memcap_group_effect)
  qed simp
  then show ?thesis using False by (simp add: memcap_update_def Let_def)
qed (simp add: memcap_update_def)

text \<open>The group in the foreground never keeps a cap.\<close>

lemma memcap_group_keeps_out:
  assumes "fg = Some path" "\<not> hm_contains (mc_capped (fst acc)) path"
  shows "\<not> hm_contains (mc_capped (fst (memcap_group fg acc e))) path"
  using assms
  by (cases acc; cases e) (auto simp: memcap_group_def hm_simps Let_def split: option.splits prod.splits)

lemma memcap_group_puts_out: "\<not> hm_contains (mc_capped (fst (memcap_group (Some path) acc (path, pr)))) path"
  by (cases acc; cases pr) (simp add: memcap_group_def hm_simps)

lemma memcap_foreground_free:
  assumes "hm_contains gs path \<or> \<not> hm_contains (mc_capped (fst acc)) path"
  shows "\<not> hm_contains (mc_capped (fst (foldl (memcap_group (Some path)) acc gs))) path"
  using assms
proof (induction gs arbitrary: acc)
  case (Cons e gs)
  obtain k v where e: "e = (k, v)" by (cases e)
  show ?case
  proof (cases "k = path")
    case True
    then show ?thesis using Cons.IH memcap_group_puts_out by (simp add: e)
  next
    case False
    then have "hm_contains gs path \<or> \<not> hm_contains (mc_capped (fst acc)) path"
      using Cons.prems by (simp add: e hm_contains_keys hm_keys_def)
    then show ?thesis using Cons.IH [of "memcap_group (Some path) acc e"] memcap_group_keeps_out [of "Some path" path acc e] by auto
  qed
qed (simp add: hm_contains_def hm_simps)

lemma memcap_update_foreground:
  assumes "find_foreground_cgroup procs active_pid = Some path" "High \<le> level"
  shows "\<not> hm_contains (mc_capped (fst (memcap_update procs active_pid level cfg mc s))) path"
proof -
  obtain p where "p \<in> set procs" "p_cgroup_path p = Some path"
    using assms(1) by (auto simp: find_foreground_cgroup_def find_Some_iff split: option.splits) (metis nth_mem)
  then have "hm_contains (memcap_groups cfg procs) path" by (rule memcap_groups_keys)
  then show ?thesis using memcap_foreground_free assms by (auto simp: memcap_update_def Let_def)
qed

end
