(* ===== verification/Zram.thy ===== *)
theory Zram
  imports Meminfo Os
begin

text \<open>
  Compressed swap: which devices there are and how full they are (\<open>mgd-common/src/zram.rs\<close>,
  \<open>mgd/src/monitor/zram.rs\<close>), and the privileged helper that pulls their pages back into memory
  (\<open>mgd-zram/src/reclaim.rs\<close>).
\<close>

section \<open>Devices\<close>

definition is_zram_device_path :: "string \<Rightarrow> bool" where
  "is_zram_device_path path = (case strip_prefix ''/dev/zram'' path of
     Some rest \<Rightarrow> rest \<noteq> [] \<and> list_all is_digit rest
   | None \<Rightarrow> False)"

definition last_segment :: "string \<Rightarrow> string" where
  "last_segment path = last (split_char (CHR ''/'') path)"

definition parse_zram_devices :: "string \<Rightarrow> string list" where
  "parse_zram_devices swaps =
     map last_segment (filter is_zram_device_path
       (List.map_filter (\<lambda>line. first_opt (split_whitespace line)) (drop 1 (lines swaps))))"

definition or_empty :: "string option \<Rightarrow> string" where
  "or_empty c = (case c of Some x \<Rightarrow> x | None \<Rightarrow> [])"

definition zram_devices :: "sys \<Rightarrow> string list \<times> sys" where
  "zram_devices s = (let (c, s1) = os_read ''/proc/swaps'' s in (parse_zram_devices (or_empty c), s1))"

definition parse_mem_used_bytes :: "string \<Rightarrow> u64 option" where
  "parse_mem_used_bytes mm_stat = Option.bind (nth_opt 2 (split_whitespace mm_stat)) parse_u64"

definition parse_orig_data_bytes :: "string \<Rightarrow> u64 option" where
  "parse_orig_data_bytes mm_stat = Option.bind (first_opt (split_whitespace mm_stat)) parse_u64"

definition mm_stat_path :: "string \<Rightarrow> string" where
  "mm_stat_path device = ''/sys/block/'' @ device @ ''/mm_stat''"

definition zram_used_mb :: "string \<Rightarrow> sys \<Rightarrow> u64 option \<times> sys" where
  "zram_used_mb device s = (let (c, s1) = os_read (mm_stat_path device) s in
     (map_option (\<lambda>b. b div (1024 * 1024)) (Option.bind c parse_mem_used_bytes), s1))"

definition zram_orig_mb :: "string \<Rightarrow> sys \<Rightarrow> u64 option \<times> sys" where
  "zram_orig_mb device s = (let (c, s1) = os_read (mm_stat_path device) s in
     (map_option (\<lambda>b. b div (1024 * 1024)) (Option.bind c parse_orig_data_bytes), s1))"

text \<open>A sum over the devices that can be read; \<open>sum\<close> on \<open>u64\<close> wraps in the release build.\<close>

fun sum_devices :: "(string \<Rightarrow> sys \<Rightarrow> u64 option \<times> sys) \<Rightarrow> string list \<Rightarrow> u64 \<Rightarrow> sys \<Rightarrow> u64 \<times> sys" where
  "sum_devices f [] acc s = (acc, s)"
| "sum_devices f (d # ds) acc s =
     (let (r, s1) = f d s in sum_devices f ds (case r of Some mb \<Rightarrow> acc + mb | None \<Rightarrow> acc) s1)"

definition zram_used_mb_total :: "sys \<Rightarrow> u64 \<times> sys" where
  "zram_used_mb_total s = (let (ds, s1) = zram_devices s in sum_devices zram_used_mb ds 0 s1)"

definition zram_orig_mb_total :: "sys \<Rightarrow> u64 \<times> sys" where
  "zram_orig_mb_total s = (let (ds, s1) = zram_devices s in sum_devices zram_orig_mb ds 0 s1)"

definition compact_device :: "string \<Rightarrow> sys \<Rightarrow> io_error option \<times> sys" where
  "compact_device device s = os_write (''/sys/block/'' @ device @ ''/compact'') ''1'' s"

section \<open>The helper\<close>

text \<open>
  The helper's system calls are \<open>swapoff\<close> and \<open>swapon\<close>: what they answer may differ at each call
  (the index of the call), and each call and its answer is recorded.
\<close>

record zram_swap =
  zs_path :: string
  zs_priority :: int

datatype swap_call = SwapOff string "errno option" | SwapOn string int "errno option"

record swap_oracle =
  so_off :: "nat \<Rightarrow> string \<Rightarrow> errno option"
  so_on :: "nat \<Rightarrow> string \<Rightarrow> int \<Rightarrow> errno option"

definition exit_ok :: int where "exit_ok = 0"
definition exit_transient :: int where "exit_transient = 1"
definition exit_eperm :: int where "exit_eperm = 2"
definition exit_refused_unsafe :: int where "exit_refused_unsafe = 3"
definition exit_no_meminfo :: int where "exit_no_meminfo = 4"

definition swap_line :: "string \<Rightarrow> zram_swap option" where
  "swap_line line = (let cols = split_whitespace line in
     case first_opt cols of
       None \<Rightarrow> None
     | Some path \<Rightarrow>
         if \<not> is_zram_device_path path then None
         else Some \<lparr>zs_path = path,
           zs_priority = (case Option.bind (nth_opt 4 cols) parse_i32 of Some p \<Rightarrow> p | None \<Rightarrow> - 1)\<rparr>)"

definition parse_zram_swaps :: "string \<Rightarrow> zram_swap list" where
  "parse_zram_swaps swaps = List.map_filter swap_line (drop 1 (lines swaps))"

text \<open>\<open>SWAP_FLAG_PREFER\<close> is \<open>0x8000\<close>, the mask of the priority \<open>0x7fff\<close>.\<close>

definition swapon_flags :: "int \<Rightarrow> int" where
  "swapon_flags priority = (if 0 \<le> priority then 0x8000 + priority mod 0x8000 else 0)"

definition is_headroom_safe :: "u64 \<Rightarrow> u64 \<Rightarrow> bool" where
  "is_headroom_safe avail_mb decompressed_mb = (decompressed_mb < avail_mb)"

definition mem_available_mb :: "string option \<Rightarrow> u64 option" where
  "mem_available_mb meminfo = (case meminfo of
     None \<Rightarrow> None
   | Some content \<Rightarrow>
       (case List.map_filter (strip_prefix ''MemAvailable:'') (lines content) of
          [] \<Rightarrow> None
        | v # _ \<Rightarrow> Some (parse_kb v div 1024)))"

datatype headroom_check = HeadroomSafe | HeadroomUnsafe u64 u64 | HeadroomUnknown

text \<open>\<open>mm_stat\<close> gives the content of a device's statistics.\<close>

definition headroom_safe :: "string option \<Rightarrow> (string \<Rightarrow> string option) \<Rightarrow> zram_swap list \<Rightarrow> headroom_check" where
  "headroom_safe meminfo mm_stat devices = (case mem_available_mb meminfo of
     None \<Rightarrow> HeadroomUnknown
   | Some avail_mb \<Rightarrow>
       (let decompressed_mb = sum_list (List.map_filter (\<lambda>d.
              map_option (\<lambda>b. b div (1024 * 1024))
                (Option.bind (mm_stat (last_segment (zs_path d))) parse_orig_data_bytes)) devices)
        in if is_headroom_safe avail_mb decompressed_mb then HeadroomSafe
           else HeadroomUnsafe avail_mb decompressed_mb))"

datatype reclaim_err = ReclaimEperm | ReclaimOther

text \<open>\<open>swapon\<close> is retried until it works, at most \<open>n\<close> times.\<close>

fun swapon_retry :: "swap_oracle \<Rightarrow> nat \<Rightarrow> string \<Rightarrow> int \<Rightarrow> swap_call list \<Rightarrow> bool \<times> swap_call list" where
  "swapon_retry so 0 path flags tr = (False, tr)"
| "swapon_retry so (Suc n) path flags tr =
     (let r = so_on so (length tr) path flags; tr1 = tr @ [SwapOn path flags r]
      in if r = None then (True, tr1) else swapon_retry so n path flags tr1)"

definition reclaim_one :: "swap_oracle \<Rightarrow> zram_swap \<Rightarrow> swap_call list \<Rightarrow> reclaim_err option \<times> swap_call list" where
  "reclaim_one so dev tr =
     (let r = so_off so (length tr) (zs_path dev); tr1 = tr @ [SwapOff (zs_path dev) r] in
      case r of
        Some e \<Rightarrow> (Some (if e = EPERM then ReclaimEperm else ReclaimOther), tr1)
      | None \<Rightarrow>
          (let (on, tr2) = swapon_retry so 4 (zs_path dev) (swapon_flags (zs_priority dev)) tr1
           in (if on then None else Some ReclaimOther, tr2)))"

fun reclaim_devices :: "swap_oracle \<Rightarrow> zram_swap list \<Rightarrow> nat \<Rightarrow> nat \<Rightarrow> swap_call list \<Rightarrow> nat \<times> nat \<times> swap_call list" where
  "reclaim_devices so [] transient eperm tr = (transient, eperm, tr)"
| "reclaim_devices so (d # ds) transient eperm tr =
     (case reclaim_one so d tr of
        (None, tr1) \<Rightarrow> reclaim_devices so ds transient eperm tr1
      | (Some ReclaimEperm, tr1) \<Rightarrow> reclaim_devices so ds transient (Suc eperm) tr1
      | (Some ReclaimOther, tr1) \<Rightarrow> reclaim_devices so ds (Suc transient) eperm tr1)"

definition reclaim_main ::
  "swap_oracle \<Rightarrow> string option \<Rightarrow> string option \<Rightarrow> (string \<Rightarrow> string option) \<Rightarrow> int \<times> swap_call list" where
  "reclaim_main so swaps meminfo mm_stat =
     (let devices = parse_zram_swaps (or_empty swaps) in
      if devices = [] then (exit_ok, [])
      else (case headroom_safe meminfo mm_stat devices of
          HeadroomUnsafe _ _ \<Rightarrow> (exit_refused_unsafe, [])
        | HeadroomUnknown \<Rightarrow> (exit_no_meminfo, [])
        | HeadroomSafe \<Rightarrow>
            (let (transient, eperm, tr) = reclaim_devices so devices 0 0 [] in
             (if 0 < eperm then exit_eperm else if 0 < transient then exit_transient else exit_ok, tr))))"

section \<open>Facts about the devices\<close>

text \<open>Only \<open>/dev/zram<N>\<close> is ever taken for a device.\<close>

lemma zram_path_iff: "is_zram_device_path p \<longleftrightarrow> (\<exists>ds. p = ''/dev/zram'' @ ds \<and> ds \<noteq> [] \<and> list_all is_digit ds)"
  by (auto simp: is_zram_device_path_def strip_prefix_Some split: option.splits)

lemma parsed_swaps_zram: "d \<in> set (parse_zram_swaps swaps) \<Longrightarrow> is_zram_device_path (zs_path d)"
  by (auto simp: parse_zram_swaps_def swap_line_def map_filter_def Let_def split: option.splits if_splits)

lemma last_segment_zram:
  assumes "is_zram_device_path p"
  shows "p = ''/dev/'' @ last_segment p \<and> CHR ''/'' \<notin> set (last_segment p)"
proof -
  obtain ds where p: "p = ''/dev/zram'' @ ds" and d: "ds \<noteq> []" "list_all is_digit ds"
    using assms unfolding zram_path_iff by blast
  have "\<not> is_digit (CHR ''/'')" by (simp add: is_digit_def)
  then have "CHR ''/'' \<notin> set ds" using d(2) by (auto simp: list_all_iff)
  then have "\<forall>c \<in> set (''zram'' @ ds). \<not> c = CHR ''/''" by auto
  then have "split_by (\<lambda>c. c = CHR ''/'') (''zram'' @ ds) = [''zram'' @ ds]" by (rule split_by_none)
  then have "split_char (CHR ''/'') p = [[], ''dev'', ''zram'' @ ds]"
    by (simp add: split_char_def p)
  then have "last_segment p = ''zram'' @ ds" by (simp add: last_segment_def)
  then show ?thesis using p \<open>CHR ''/'' \<notin> set ds\<close> by simp
qed

text \<open>The devices the daemon finds are those the helper works on.\<close>

lemma devices_agree: "parse_zram_devices swaps = map (\<lambda>d. last_segment (zs_path d)) (parse_zram_swaps swaps)"
proof -
  have "map last_segment (filter is_zram_device_path (List.map_filter (\<lambda>l. first_opt (split_whitespace l)) ls)) =
      map (\<lambda>d. last_segment (zs_path d)) (List.map_filter swap_line ls)" for ls
    by (induction ls) (auto simp: map_filter_def swap_line_def Let_def split: option.splits)
  then show ?thesis by (simp add: parse_zram_devices_def parse_zram_swaps_def)
qed

section \<open>Facts about the helper\<close>

text \<open>A device that was switched off is switched on again, with its priority, unless four attempts
fail; the last call of the run shows which.\<close>

lemma swapon_retry_result:
  "\<exists>k. snd (swapon_retry so n path flags tr) = tr @ k \<and> length k \<le> n \<and> (0 < n \<longrightarrow> k \<noteq> []) \<and>
    (\<forall>c \<in> set k. \<exists>r. c = SwapOn path flags r) \<and>
    (fst (swapon_retry so n path flags tr) \<longrightarrow> last (tr @ k) = SwapOn path flags None) \<and>
    (\<not> fst (swapon_retry so n path flags tr) \<longrightarrow> length k = n \<and> (\<forall>c \<in> set k. c \<noteq> SwapOn path flags None))"
proof (induction n arbitrary: tr)
  case (Suc n)
  let ?r = "so_on so (length tr) path flags"
  show ?case
  proof (cases "?r = None")
    case True
    then show ?thesis by (intro exI [of _ "[SwapOn path flags None]"]) simp
  next
    case False
    obtain k where k: "snd (swapon_retry so n path flags (tr @ [SwapOn path flags ?r])) = (tr @ [SwapOn path flags ?r]) @ k"
      "length k \<le> n" "\<forall>c \<in> set k. \<exists>r. c = SwapOn path flags r"
      "fst (swapon_retry so n path flags (tr @ [SwapOn path flags ?r])) \<longrightarrow>
         last ((tr @ [SwapOn path flags ?r]) @ k) = SwapOn path flags None"
      "\<not> fst (swapon_retry so n path flags (tr @ [SwapOn path flags ?r])) \<longrightarrow>
         length k = n \<and> (\<forall>c \<in> set k. c \<noteq> SwapOn path flags None)"
      using Suc [of "tr @ [SwapOn path flags ?r]"] by blast
    then show ?thesis using False
      by (intro exI [of _ "SwapOn path flags ?r # k"]) (auto simp: Let_def)
  qed
qed simp

lemma reclaim_one_ok:
  assumes "reclaim_one so dev tr = (None, tr')"
  shows "last tr' = SwapOn (zs_path dev) (swapon_flags (zs_priority dev)) None"
proof -
  let ?tr1 = "tr @ [SwapOff (zs_path dev) None]"
  have "so_off so (length tr) (zs_path dev) = None"
      "swapon_retry so 4 (zs_path dev) (swapon_flags (zs_priority dev)) ?tr1 = (True, tr')"
    using assms by (auto simp: reclaim_one_def Let_def split: option.splits prod.splits if_splits)
  then show ?thesis
    using swapon_retry_result [of so 4 "zs_path dev" "swapon_flags (zs_priority dev)" ?tr1] by auto
qed

text \<open>The helper switches only devices of the list, and nothing at all unless the pages fit.\<close>

definition swap_path :: "swap_call \<Rightarrow> string" where
  "swap_path c = (case c of SwapOff p _ \<Rightarrow> p | SwapOn p _ _ \<Rightarrow> p)"

lemma reclaim_one_paths: "\<exists>k. snd (reclaim_one so dev tr) = tr @ k \<and> (\<forall>c \<in> set k. swap_path c = zs_path dev)"
proof (cases "so_off so (length tr) (zs_path dev)")
  case None
  let ?tr1 = "tr @ [SwapOff (zs_path dev) None]"
  obtain k where k: "snd (swapon_retry so 4 (zs_path dev) (swapon_flags (zs_priority dev)) ?tr1) = ?tr1 @ k"
      "\<forall>c \<in> set k. \<exists>r. c = SwapOn (zs_path dev) (swapon_flags (zs_priority dev)) r"
    using swapon_retry_result [of so 4 "zs_path dev" "swapon_flags (zs_priority dev)" ?tr1] by blast
  then have "snd (reclaim_one so dev tr) = tr @ SwapOff (zs_path dev) None # k"
    by (simp add: reclaim_one_def None Let_def case_prod_unfold)
  then show ?thesis using k(2) by (intro exI [of _ "SwapOff (zs_path dev) None # k"]) (auto simp: swap_path_def)
qed (simp add: reclaim_one_def Let_def swap_path_def)

lemma reclaim_devices_paths:
  "\<exists>k. snd (snd (reclaim_devices so ds t e tr)) = tr @ k \<and> (\<forall>c \<in> set k. swap_path c \<in> zs_path ` set ds)"
proof (induction ds arbitrary: t e tr)
  case (Cons d ds)
  obtain r tr1 where 1: "reclaim_one so d tr = (r, tr1)" by fastforce
  obtain k where k: "tr1 = tr @ k" "\<forall>c \<in> set k. swap_path c = zs_path d"
    using reclaim_one_paths [of so d tr] by (auto simp: 1)
  have "\<exists>k'. snd (snd (reclaim_devices so ds t' e' tr1)) = tr @ k' \<and> (\<forall>c \<in> set k'. swap_path c \<in> zs_path ` set (d # ds))" for t' e'
    using Cons.IH [of t' e' tr1] k by (auto intro: exI [of _ "k @ _"])
  then show ?case by (auto simp: 1 split: option.splits reclaim_err.splits)
qed simp

lemma reclaim_main_paths:
  "list_all (\<lambda>c. is_zram_device_path (swap_path c)) (snd (reclaim_main so swaps meminfo mm_stat))"
proof -
  obtain k where "snd (snd (reclaim_devices so (parse_zram_swaps (or_empty swaps)) 0 0 [])) = [] @ k"
      "\<forall>c \<in> set k. swap_path c \<in> zs_path ` set (parse_zram_swaps (or_empty swaps))"
    using reclaim_devices_paths [of so "parse_zram_swaps (or_empty swaps)" 0 0 "[]"] by blast
  then have "\<forall>c \<in> set k. is_zram_device_path (swap_path c)" using parsed_swaps_zram by force
  then show ?thesis using \<open>snd (snd (reclaim_devices so (parse_zram_swaps (or_empty swaps)) 0 0 [])) = [] @ k\<close>
    by (auto simp: reclaim_main_def Let_def list_all_iff split: headroom_check.splits prod.splits)
qed

lemma reclaim_main_refuses:
  assumes "snd (reclaim_main so swaps meminfo mm_stat) \<noteq> []"
  shows "headroom_safe meminfo mm_stat (parse_zram_swaps (or_empty swaps)) = HeadroomSafe"
  using assms by (auto simp: reclaim_main_def Let_def split: headroom_check.splits if_splits)

text \<open>The priority survives: the flags carry it back.\<close>

lemma swapon_flags_priority: "0 \<le> p \<Longrightarrow> p < 0x8000 \<Longrightarrow> swapon_flags p = 0x8000 + p"
  by (simp add: swapon_flags_def)

end
