(* ===== verification/Cache.thy ===== *)
theory Cache
  imports Prelude Text
begin

text \<open>
  Dropping the page cache of configured directory trees (\<open>mgd/src/monitor/cache.rs\<close>). The file
  system is a parameter: what kind of file a path is, what a directory lists, what opening and
  advising a file answers.
\<close>

section \<open>The file system\<close>

datatype file_kind = FkSymlink | FkFile | FkDir | FkOther

record file_view =
  fv_kind :: "string \<Rightarrow> file_kind option"
  fv_entries :: "string \<Rightarrow> string list option"
  fv_exists :: "string \<Rightarrow> bool"
  fv_len :: "string \<Rightarrow> u64 option"
  fv_fadvise :: "string \<Rightarrow> u64 \<Rightarrow> bool"

definition max_depth :: nat where "max_depth = 8"
definition max_files :: nat where "max_files = 50000"

definition child_path :: "string \<Rightarrow> string \<Rightarrow> string" where
  "child_path base name = (if base = ''/'' then base @ name else base @ ''/'' @ name)"

text \<open>\<open>Some\<close> the bytes advised; an empty file is advised without a call.\<close>

definition advise_drop_file :: "file_view \<Rightarrow> string \<Rightarrow> u64 option" where
  "advise_drop_file fv path = (case fv_len fv path of
     None \<Rightarrow> None
   | Some len \<Rightarrow> if len = 0 then Some 0 else if fv_fadvise fv path len then Some len else None)"

record advice =
  ad_budget :: nat
  ad_files :: nat
  ad_bytes :: u64
  ad_paths :: "string list"

text \<open>\<open>levels\<close> counts down what is left of the depth: at 0 the walk is below \<open>max_depth\<close>. The list
\<open>ad_paths\<close> records the files advised.\<close>

fun advise_tree :: "file_view \<Rightarrow> nat \<Rightarrow> string \<Rightarrow> advice \<Rightarrow> advice"
  and advise_entries :: "file_view \<Rightarrow> nat \<Rightarrow> string \<Rightarrow> string list \<Rightarrow> advice \<Rightarrow> advice" where
  "advise_tree fv 0 path a = a"
| "advise_tree fv (Suc levels) path a =
     (if ad_budget a = 0 then a
      else (case fv_kind fv path of
         None \<Rightarrow> a
       | Some FkSymlink \<Rightarrow> a
       | Some FkFile \<Rightarrow>
           (case advise_drop_file fv path of
              None \<Rightarrow> a
            | Some n \<Rightarrow> a\<lparr>ad_files := ad_files a + 1, ad_bytes := ad_bytes a + n,
                           ad_budget := ad_budget a - 1, ad_paths := ad_paths a @ [path]\<rparr>)
       | Some FkDir \<Rightarrow>
           (case fv_entries fv path of
              None \<Rightarrow> a
            | Some names \<Rightarrow> advise_entries fv levels path names a)
       | Some FkOther \<Rightarrow> a))"
| "advise_entries fv levels path [] a = a"
| "advise_entries fv levels path (name # names) a =
     (if ad_budget a = 0 then a
      else advise_entries fv levels path names (advise_tree fv levels (child_path path name) a))"

section \<open>Patterns\<close>

definition segment_matches :: "string \<Rightarrow> string \<Rightarrow> bool" where
  "segment_matches pattern name = (case split_once ''*'' pattern of
     None \<Rightarrow> pattern = name
   | Some (prefix, suffix) \<Rightarrow>
       length prefix + length suffix \<le> length name \<and> starts_with prefix name \<and> ends_with suffix name)"

text \<open>The pattern comes from the configuration; \<open>home\<close> is the home directory, an absolute path.\<close>

definition expand_tilde :: "string \<Rightarrow> string \<Rightarrow> string" where
  "expand_tilde home pattern = (case strip_prefix ''~/'' pattern of
     Some rest \<Rightarrow> home @ ''/'' @ rest
   | None \<Rightarrow> if pattern = ''~'' then home else pattern)"

definition expand_segment :: "file_view \<Rightarrow> string \<Rightarrow> string list \<Rightarrow> string list" where
  "expand_segment fv seg frontier = concat (map (\<lambda>base.
     if CHR ''*'' \<in> set seg then
       (case fv_entries fv base of
          None \<Rightarrow> []
        | Some names \<Rightarrow> map (child_path base) (filter (segment_matches seg) names))
     else (if fv_exists fv (child_path base seg) then [child_path base seg] else [])) frontier)"

fun expand_segments :: "file_view \<Rightarrow> string list \<Rightarrow> string list \<Rightarrow> string list" where
  "expand_segments fv [] frontier = frontier"
| "expand_segments fv (seg # segs) frontier =
     (let next_frontier = expand_segment fv seg frontier in
      if next_frontier = [] then [] else expand_segments fv segs next_frontier)"

definition expand_path :: "file_view \<Rightarrow> string \<Rightarrow> string \<Rightarrow> string list" where
  "expand_path fv home pattern =
     expand_segments fv (filter (\<lambda>s. s \<noteq> []) (split_char (CHR ''/'') (expand_tilde home pattern))) [''/'']"

record cache_drop_result =
  cd_pattern :: string
  cd_files_advised :: nat
  cd_bytes_advised :: u64
  cd_paths :: "string list"

fun advise_roots :: "file_view \<Rightarrow> string list \<Rightarrow> advice \<Rightarrow> advice" where
  "advise_roots fv [] a = a"
| "advise_roots fv (r # rs) a =
     (if ad_budget a = 0 then a else advise_roots fv rs (advise_tree fv (Suc max_depth) r a))"

fun drop_patterns :: "file_view \<Rightarrow> string \<Rightarrow> string list \<Rightarrow> nat \<Rightarrow> cache_drop_result list" where
  "drop_patterns fv home [] budget = []"
| "drop_patterns fv home (p # ps) budget =
     (let a = advise_roots fv (expand_path fv home p)
            \<lparr>ad_budget = budget, ad_files = 0, ad_bytes = 0, ad_paths = []\<rparr>
      in \<lparr>cd_pattern = p, cd_files_advised = ad_files a, cd_bytes_advised = ad_bytes a, cd_paths = ad_paths a\<rparr>
         # drop_patterns fv home ps (ad_budget a))"

definition drop_caches :: "file_view \<Rightarrow> string \<Rightarrow> string list \<Rightarrow> cache_drop_result list" where
  "drop_caches fv home patterns = drop_patterns fv home patterns max_files"

section \<open>Facts about the walk\<close>

text \<open>A walk spends one unit of the budget per file it advises, and a file advised is a regular
file that was reached without following a link.\<close>

inductive reached :: "file_view \<Rightarrow> string \<Rightarrow> nat \<Rightarrow> string \<Rightarrow> bool" for fv r0 where
  reached_root: "reached fv r0 0 r0"
| reached_child: "reached fv r0 n path \<Longrightarrow> fv_kind fv path = Some FkDir \<Longrightarrow> fv_entries fv path = Some names \<Longrightarrow>
    name \<in> set names \<Longrightarrow> reached fv r0 (Suc n) (child_path path name)"

definition spends :: "(string \<Rightarrow> bool) \<Rightarrow> file_view \<Rightarrow> advice \<Rightarrow> advice \<Rightarrow> bool" where
  "spends P fv a a' \<longleftrightarrow> ad_budget a' + ad_files a' = ad_budget a + ad_files a \<and> ad_files a \<le> ad_files a'
     \<and> (\<exists>ps. ad_paths a' = ad_paths a @ ps \<and> length ps + ad_files a = ad_files a' \<and>
          (\<forall>p \<in> set ps. P p \<and> fv_kind fv p = Some FkFile))"

lemma spends_refl [simp]: "spends P fv a a"
  by (simp add: spends_def)

lemma spends_trans: "spends P fv a b \<Longrightarrow> spends P fv b c \<Longrightarrow> spends P fv a c"
  unfolding spends_def by auto

lemma advise_spends:
  "reached fv r0 d path \<Longrightarrow> d + levels \<le> Suc max_depth \<Longrightarrow>
     spends (\<lambda>p. \<exists>n \<le> max_depth. reached fv r0 n p) fv a (advise_tree fv levels path a)"
  "reached fv r0 d path \<Longrightarrow> d + levels \<le> max_depth \<Longrightarrow> fv_kind fv path = Some FkDir \<Longrightarrow>
     fv_entries fv path = Some all \<Longrightarrow> set names \<subseteq> set all \<Longrightarrow>
     spends (\<lambda>p. \<exists>n \<le> max_depth. reached fv r0 n p) fv a (advise_entries fv levels path names a)"
proof (induction fv levels path a and fv levels path names a arbitrary: d and d all rule: advise_tree_advise_entries.induct)
  case (2 fv levels path a)
  have here: "\<exists>n \<le> max_depth. reached fv r0 n path" using "2.prems" by (intro exI [of _ d]) auto
  show ?case
  proof (cases "ad_budget a = 0")
    case False
    show ?thesis
    proof (cases "fv_kind fv path")
      case (Some k)
      show ?thesis
      proof (cases k)
        case FkFile
        then show ?thesis using Some False here
          by (auto simp: spends_def split: option.split)
      next
        case FkDir
        have "spends (\<lambda>p. \<exists>n \<le> max_depth. reached fv r0 n p) fv a (advise_entries fv levels path names a)"
          if "fv_entries fv path = Some names" for names
          using "2.IH" [OF False Some] "2.prems" Some FkDir that by auto
        then show ?thesis using Some False FkDir by (simp split: option.split)
      qed (use Some False in simp_all)
    qed simp
  qed simp
next
  case (4 fv levels path name names a)
  show ?case
  proof (cases "ad_budget a = 0")
    case False
    have "reached fv r0 (Suc d) (child_path path name)" using "4.prems" by (auto intro: reached_child)
    then have "spends (\<lambda>p. \<exists>n \<le> max_depth. reached fv r0 n p) fv a (advise_tree fv levels (child_path path name) a)"
      using "4.IH"(1) [OF False] "4.prems"(2) by auto
    then show ?thesis using "4.IH"(2) [OF False] "4.prems" False by (auto intro: spends_trans)
  qed simp
qed simp_all

lemma advise_roots_spends:
  "spends (\<lambda>p. \<exists>r \<in> set roots. \<exists>n \<le> max_depth. reached fv r n p) fv a (advise_roots fv roots a)"
proof (induction roots arbitrary: a)
  case (Cons r roots)
  let ?P = "\<lambda>p. \<exists>q \<in> set (r # roots). \<exists>n \<le> max_depth. reached fv q n p"
  have mono: "spends P fv x y \<Longrightarrow> (\<And>p. P p \<Longrightarrow> Q p) \<Longrightarrow> spends Q fv x y" for P Q x y
    unfolding spends_def by blast
  have "spends ?P fv a (advise_tree fv (Suc max_depth) r a)"
    by (rule mono [OF advise_spends(1) [OF reached_root]]) auto
  moreover have "spends ?P fv b (advise_roots fv roots b)" for b
    by (rule mono [OF Cons.IH]) auto
  ultimately show ?case by (auto intro: spends_trans)
qed simp

lemma drop_patterns_budget: "sum_list (map cd_files_advised (drop_patterns fv home ps budget)) \<le> budget"
proof (induction ps arbitrary: budget)
  case (Cons p ps)
  let ?a = "advise_roots fv (expand_path fv home p) \<lparr>ad_budget = budget, ad_files = 0, ad_bytes = 0, ad_paths = []\<rparr>"
  have "ad_budget ?a + ad_files ?a = budget"
    using advise_roots_spends [of "expand_path fv home p" fv "\<lparr>ad_budget = budget, ad_files = 0, ad_bytes = 0, ad_paths = []\<rparr>"]
    by (simp add: spends_def)
  then show ?case using Cons [of "ad_budget ?a"] by (simp add: Let_def)
qed simp

lemma drop_patterns_paths:
  "res \<in> set (drop_patterns fv home ps budget) \<Longrightarrow> cd_pattern res \<in> set ps \<and> length (cd_paths res) = cd_files_advised res \<and>
     (\<forall>p \<in> set (cd_paths res). fv_kind fv p = Some FkFile \<and>
        (\<exists>r \<in> set (expand_path fv home (cd_pattern res)). \<exists>n \<le> max_depth. reached fv r n p))"
proof (induction ps arbitrary: budget)
  case (Cons p ps)
  let ?a0 = "\<lparr>ad_budget = budget, ad_files = 0, ad_bytes = 0, ad_paths = []\<rparr>"
  have s: "spends (\<lambda>q. \<exists>r \<in> set (expand_path fv home p). \<exists>n \<le> max_depth. reached fv r n q) fv ?a0
      (advise_roots fv (expand_path fv home p) ?a0)" by (rule advise_roots_spends)
  show ?case using Cons s by (auto simp: Let_def spends_def)
qed simp

section \<open>Facts about patterns\<close>

lemma split_star: "CHR ''*'' \<notin> set prefix \<Longrightarrow> split_once ''*'' (prefix @ CHR ''*'' # suffix) = Some (prefix, suffix)"
  by (induction prefix) auto

lemma no_star: "CHR ''*'' \<notin> set p \<Longrightarrow> split_once ''*'' p = None"
  by (induction p) auto

text \<open>A star stands for any run of characters, and there is one at most; without it the match is exact.\<close>

lemma segment_matches_star:
  assumes "CHR ''*'' \<notin> set prefix"
  shows "segment_matches (prefix @ CHR ''*'' # suffix) name \<longleftrightarrow> (\<exists>mid. name = prefix @ mid @ suffix)"
proof
  assume "segment_matches (prefix @ CHR ''*'' # suffix) name"
  then have l: "length prefix + length suffix \<le> length name" and "starts_with prefix name" "ends_with suffix name"
    by (simp_all add: segment_matches_def split_star [OF assms])
  then obtain a b where n: "name = prefix @ a" "rev name = rev suffix @ b"
    by (auto simp: ends_with_def starts_with_iff)
  then have e: "prefix @ a = rev b @ suffix" by (metis rev_append rev_rev_ident)
  have "length prefix \<le> length (rev b)" using l n(1) e by (metis add_le_cancel_right length_append)
  then obtain mid where "rev b = prefix @ mid" using e by (metis append_eq_append_conv_if append_take_drop_id)
  then show "\<exists>mid. name = prefix @ mid @ suffix" using n e by auto
next
  assume "\<exists>mid. name = prefix @ mid @ suffix"
  then show "segment_matches (prefix @ CHR ''*'' # suffix) name"
    by (auto simp: segment_matches_def split_star [OF assms] starts_with_iff ends_with_def)
qed

lemma segment_matches_exact: "CHR ''*'' \<notin> set p \<Longrightarrow> segment_matches p name \<longleftrightarrow> name = p"
  by (auto simp: segment_matches_def no_star)

end
