(* ===== verification/Reclaims.thy ===== *)
theory Reclaims
  imports Recovery SpikeCycle Zram Cache
begin

text \<open>
  The proactive measures of the evictor: early reclaim, idle reclaim and idle freeze, the page cache
  and the compaction of compressed swap (\<open>mgd/src/evictor/early_reclaim.rs\<close>, \<open>idle_reclaim.rs\<close>,
  \<open>cache_drop.rs\<close>, \<open>compact_zram.rs\<close>, \<open>gates.rs\<close>). Each has a static that records its last run.
\<close>

section \<open>Cooldowns\<close>

definition cooled_down :: "u64 \<Rightarrow> u64 \<Rightarrow> u64 \<Rightarrow> bool" where
  "cooled_down last_run cooldown now \<longleftrightarrow> \<not> (last_run \<noteq> 0 \<and> sat_sub now last_run < cooldown)"

text \<open>The interface of such a static: arming it makes it hold the time, and does nothing else that
an observer of the system could see.\<close>

locale cooldown_gate =
  fixes last_run :: "sys \<Rightarrow> u64"
    and arm :: "u64 \<Rightarrow> sys \<Rightarrow> sys"
  assumes last_arm: "last_run (arm now s) = now"
    and arm_trace: "sys_trace (arm now s) = sys_trace s"
    and arm_oracle: "sys_oracle (arm now s) = sys_oracle s"
begin

lemma arm_extends: "extends P s (arm now s)"
  by (rule extends_same) (rule arm_trace)

text \<open>Two runs are at least the cooldown apart.\<close>

lemma runs_apart:
  assumes "last_run s' = last_run (arm t s)" "t \<noteq> 0" "cooled_down (last_run s') cooldown now"
  shows "cooldown \<le> sat_sub now t"
  using assms by (simp add: cooled_down_def last_arm not_less)

end

definition arm_early :: "u64 \<Rightarrow> sys \<Rightarrow> sys" where
  "arm_early now s = s\<lparr>sys_last_early_reclaim := now\<rparr>"

definition arm_idle :: "u64 \<Rightarrow> sys \<Rightarrow> sys" where
  "arm_idle now s = s\<lparr>sys_last_idle_reclaim := now\<rparr>"

definition arm_cache :: "u64 \<Rightarrow> sys \<Rightarrow> sys" where
  "arm_cache now s = s\<lparr>sys_last_cache_drop := now\<rparr>"

definition arm_compact :: "u64 \<Rightarrow> sys \<Rightarrow> sys" where
  "arm_compact now s = s\<lparr>sys_last_zram_compact := now\<rparr>"

interpretation early_gate: cooldown_gate sys_last_early_reclaim arm_early
  by unfold_locales (simp_all add: arm_early_def)

interpretation idle_gate: cooldown_gate sys_last_idle_reclaim arm_idle
  by unfold_locales (simp_all add: arm_idle_def)

interpretation cache_gate: cooldown_gate sys_last_cache_drop arm_cache
  by unfold_locales (simp_all add: arm_cache_def)

interpretation compact_gate: cooldown_gate sys_last_zram_compact arm_compact
  by unfold_locales (simp_all add: arm_compact_def)

record feature_gates =
  fg_zram_compact_disabled :: bool
  fg_last_zram_compact :: u64
  fg_last_cache_drop :: u64
  fg_last_early_reclaim :: u64
  fg_last_idle_reclaim :: u64

definition feature_gates :: "sys \<Rightarrow> feature_gates" where
  "feature_gates s = \<lparr>fg_zram_compact_disabled = sys_zram_compact_disabled s,
     fg_last_zram_compact = sys_last_zram_compact s, fg_last_cache_drop = sys_last_cache_drop s,
     fg_last_early_reclaim = sys_last_early_reclaim s, fg_last_idle_reclaim = sys_last_idle_reclaim s\<rparr>"

section \<open>Early reclaim\<close>

definition early_target :: "compiled_config \<Rightarrow> pid option \<Rightarrow> process \<Rightarrow> bool" where
  "early_target cfg active p =
     (20000 < p_rss p \<and> Some (p_pid p) \<noteq> active \<and>
      (let prio = get_priority (p_name p) (p_exe_basename p) cfg in 50 \<le> prio \<and> prio < 60))"

definition early_targets :: "compiled_config \<Rightarrow> pid option \<Rightarrow> process list \<Rightarrow> process list" where
  "early_targets cfg active procs =
     take 3 (sort_by (\<lambda>a b. p_rss b \<le> p_rss a) (filter (early_target cfg active) procs))"

fun early_reclaim_all :: "process list \<Rightarrow> sys \<Rightarrow> sys" where
  "early_reclaim_all [] s = s"
| "early_reclaim_all (p # ps) s =
     (case p_cgroup_path p of
        None \<Rightarrow> early_reclaim_all ps s
      | Some cgroup \<Rightarrow>
          (case try_reclaim_cgroup cgroup (kb_bytes (percent_of (p_rss p) 50)) s of
             (Reclaimed, s1) \<Rightarrow> early_reclaim_all ps (log_entry LaEarlyReclaim (p_pid p) (p_name p) s1)
           | (_, s1) \<Rightarrow> early_reclaim_all ps s1))"

definition check_early_process_reclaim ::
  "pressure_level \<Rightarrow> process list \<Rightarrow> pid option \<Rightarrow> compiled_config \<Rightarrow> sys \<Rightarrow> sys" where
  "check_early_process_reclaim level procs active cfg s =
     (if level \<noteq> Elevated then s
      else (let (now, s1) = os_unix s in
            if \<not> cooled_down (sys_last_early_reclaim s1) 30 now then s1
            else early_reclaim_all (early_targets cfg active procs) (arm_early now s1)))"

section \<open>Idle reclaim\<close>

record idle_reclaim_config =
  ic_max_swap_occupancy_pct :: f64
  ic_idle_sec :: u64
  ic_rss_min_mb :: u64
  ic_reclaim_pct :: u64
  ic_important_enabled :: bool
  ic_important_min_priority :: u8
  ic_important_idle_sec :: u64
  ic_important_pct :: u64

definition idle_config_from :: "compiled_config \<Rightarrow> idle_reclaim_config" where
  "idle_config_from cfg =
     \<lparr>ic_max_swap_occupancy_pct = cc_idle_reclaim_max_swap_occupancy_pct cfg, ic_idle_sec = cc_idle_reclaim_sec cfg,
      ic_rss_min_mb = cc_idle_reclaim_rss_min_mb cfg, ic_reclaim_pct = cc_idle_reclaim_pct cfg,
      ic_important_enabled = cc_idle_reclaim_important_enabled cfg,
      ic_important_min_priority = cc_idle_reclaim_important_min_priority cfg,
      ic_important_idle_sec = cc_idle_reclaim_important_idle_sec cfg,
      ic_important_pct = cc_idle_reclaim_important_pct cfg\<rparr>"

definition tracked_secs :: "(pid, instant) hmap \<Rightarrow> pid \<Rightarrow> sys \<Rightarrow> nat \<times> sys" where
  "tracked_secs tracker p s = (case hm_get tracker p of
     None \<Rightarrow> (0, s)
   | Some t \<Rightarrow> (let (d, s1) = elapsed t s in (as_secs d, s1)))"

definition idle_candidate :: "idle_reclaim_config \<Rightarrow> u8 \<Rightarrow> nat \<Rightarrow> process \<Rightarrow> (pid \<times> u64) option" where
  "idle_candidate ic prio duration p =
     (if 50 \<le> prio then
        (if p_rss p < ic_rss_min_mb ic * 1024 then None
         else if duration < unat (ic_idle_sec ic) then None
         else Some (p_pid p, kb_bytes (percent_of (p_rss p) (ic_reclaim_pct ic))))
      else if ic_important_enabled ic \<and> ic_important_min_priority ic \<le> prio then
        (if p_rss p < ic_rss_min_mb ic * 1024 then None
         else if duration < unat (ic_important_idle_sec ic) then None
         else Some (p_pid p, kb_bytes (percent_of (p_rss p) (ic_important_pct ic))))
      else None)"

fun idle_candidates ::
  "idle_reclaim_config \<Rightarrow> compiled_config \<Rightarrow> pid option \<Rightarrow> (pid, instant) hmap \<Rightarrow> process list \<Rightarrow> sys \<Rightarrow>
   (pid \<times> u64) list \<times> sys" where
  "idle_candidates ic cfg active tracker [] s = ([], s)"
| "idle_candidates ic cfg active tracker (p # ps) s =
     (if Some (p_pid p) = active then idle_candidates ic cfg active tracker ps s
      else (let (duration, s1) = tracked_secs tracker (p_pid p) s;
                (cs, s2) = idle_candidates ic cfg active tracker ps s1
            in (case idle_candidate ic (get_priority (p_name p) (p_exe_basename p) cfg) duration p of
                  Some c \<Rightarrow> (c # cs, s2) | None \<Rightarrow> (cs, s2))))"

definition select_idle_candidates ::
  "process list \<Rightarrow> pid option \<Rightarrow> (pid, instant) hmap \<Rightarrow> f64 \<Rightarrow> idle_reclaim_config \<Rightarrow> compiled_config \<Rightarrow> sys \<Rightarrow>
   (pid \<times> u64) list \<times> sys" where
  "select_idle_candidates procs active tracker swap_used ic cfg s =
     (if fl_lt (ic_max_swap_occupancy_pct ic) swap_used then ([], s)
      else idle_candidates ic cfg active tracker procs s)"

fun start_clocks :: "pid option \<Rightarrow> process list \<Rightarrow> (pid, instant) hmap \<Rightarrow> sys \<Rightarrow> (pid, instant) hmap \<times> sys" where
  "start_clocks active [] tracker s = (tracker, s)"
| "start_clocks active (p # ps) tracker s =
     (if Some (p_pid p) = active \<or> hm_contains tracker (p_pid p) then start_clocks active ps tracker s
      else (let (now, s1) = os_clock s in start_clocks active ps (hm_insert (p_pid p) now tracker) s1))"

fun idle_reclaim_all ::
  "process list \<Rightarrow> (pid \<times> u64) list \<Rightarrow> (pid, instant) hmap \<Rightarrow> sys \<Rightarrow> (pid, instant) hmap \<times> sys" where
  "idle_reclaim_all procs [] tracker s = (tracker, s)"
| "idle_reclaim_all procs ((p, bytes) # cs) tracker s =
     (if bytes = 0 then idle_reclaim_all procs cs tracker s
      else (case find (\<lambda>q. p_pid q = p) procs of
          None \<Rightarrow> idle_reclaim_all procs cs tracker s
        | Some q \<Rightarrow>
          (case p_cgroup_path q of
             None \<Rightarrow> idle_reclaim_all procs cs tracker s
           | Some cgroup \<Rightarrow>
             (case try_reclaim_cgroup cgroup bytes s of
                (Reclaimed, s1) \<Rightarrow>
                  (let s2 = log_entry LaEarlyReclaim (p_pid q) (p_name q) s1;
                       (now, s3) = os_clock s2; (unix, s4) = os_unix s3
                   in idle_reclaim_all procs cs (hm_insert p now tracker) (arm_idle unix s4))
              | (ReclaimBlocked, s1) \<Rightarrow>
                  (let (now, s2) = os_clock s1 in idle_reclaim_all procs cs (hm_insert p now tracker) s2)
              | (_, s1) \<Rightarrow> idle_reclaim_all procs cs tracker s1))))"

text \<open>Idle freeze. Two at most per call.\<close>

fun idle_freeze ::
  "u64 \<Rightarrow> u64 \<Rightarrow> pid option \<Rightarrow> process list \<Rightarrow> nat \<Rightarrow> (pid, instant) hmap \<Rightarrow> frozen_map \<Rightarrow> sys \<Rightarrow>
   (pid, instant) hmap \<times> frozen_map \<times> sys" where
  "idle_freeze freeze_secs rss_min_mb active [] n tracker fm s = (tracker, fm, s)"
| "idle_freeze freeze_secs rss_min_mb active (p # ps) n tracker fm s =
     (if 2 \<le> n then (tracker, fm, s)
      else if Some (p_pid p) = active then idle_freeze freeze_secs rss_min_mb active ps n tracker fm s
      else if p_rss p < rss_min_mb * 1024 then idle_freeze freeze_secs rss_min_mb active ps n tracker fm s
      else (let (tracker1, s0) = (if hm_contains tracker (p_pid p) then (tracker, s)
                  else (let (now, s') = os_clock s in (hm_insert (p_pid p) now tracker, s')));
                (secs, s1) = tracked_secs tracker1 (p_pid p) s0 in
        if secs < unat freeze_secs then idle_freeze freeze_secs rss_min_mb active ps n tracker1 fm s1
        else (case start_time_of (p_pid p) s1 of
            (None, s2) \<Rightarrow> idle_freeze freeze_secs rss_min_mb active ps n tracker1 fm s2
          | (Some st, s2) \<Rightarrow>
              (let (r, s3) = freeze_checked (p_pid p) st s2 in
               if \<not> opr_success r then idle_freeze freeze_secs rss_min_mb active ps n tracker1 fm s3
               else (case frozen_add (p_pid p) (p_name p) fm s3 of
                   (True, fm1, s4) \<Rightarrow>
                     idle_freeze freeze_secs rss_min_mb active ps (Suc n) (hm_remove (p_pid p) tracker1) fm1
                       (log_entry LaIdleFreeze (p_pid p) (p_name p) s4)
                 | (False, fm1, s4) \<Rightarrow>
                     idle_freeze freeze_secs rss_min_mb active ps n tracker1 fm1
                       (snd (unfreeze_pid (p_pid p) s4)))))))"

text \<open>With less than 1.5 GB of swap free nothing is done; without swap the occupancy is 0.\<close>

definition swap_too_full :: "mem_info \<Rightarrow> bool" where
  "swap_too_full mi \<longleftrightarrow> 0 < mi_swap_total mi \<and> mi_swap_free mi div 1024 < 1500"

definition idle_swap_used :: "mem_info \<Rightarrow> f64" where
  "idle_swap_used mi = (if 0 < mi_swap_total mi then swap_used_pct mi else Fin 0)"

definition check_idle_process_reclaim ::
  "compiled_config \<Rightarrow> process list \<Rightarrow> pid option \<Rightarrow> (pid, instant) hmap \<Rightarrow> (pid, instant) hmap \<Rightarrow> frozen_map \<Rightarrow> sys \<Rightarrow>
   (pid, instant) hmap \<times> (pid, instant) hmap \<times> frozen_map \<times> sys" where
  "check_idle_process_reclaim cfg procs active tracker freeze_tracker fm s =
     (let (mi, s1) = current_meminfo s in
      if swap_too_full mi then (tracker, freeze_tracker, fm, s1)
      else (let live = map p_pid procs;
                tracker1 = hm_retain (\<lambda>p _. p \<in> set live) tracker;
                (cs, s2) = select_idle_candidates procs active tracker1 (idle_swap_used mi) (idle_config_from cfg) cfg s1;
                (tracker2, s3) = start_clocks active procs tracker1 s2;
                (tracker3, s4) = idle_reclaim_all procs (take 3 cs) tracker2 s3;
                freeze_tracker1 = hm_retain (\<lambda>p _. p \<in> set live) freeze_tracker
            in (case cc_idle_reclaim_freeze_after_sec cfg of
                  None \<Rightarrow> (tracker3, freeze_tracker1, fm, s4)
                | Some freeze_secs \<Rightarrow>
                    (let (freeze_tracker2, fm', s5) = idle_freeze freeze_secs (cc_idle_reclaim_rss_min_mb cfg) active
                           procs 0 freeze_tracker1 fm s4
                     in (tracker3, freeze_tracker2, fm', s5)))))"

text \<open>The calm tick of the evictor: no pressure event came within the timeout.\<close>

record idle_state =
  id_tracker :: "(pid, instant) hmap"
  id_freeze_tracker :: "(pid, instant) hmap"
  id_last_check :: instant

definition idle_timeout_reclaim ::
  "compiled_config \<Rightarrow> process list \<Rightarrow> pid list \<Rightarrow> spike_tracker \<Rightarrow> idle_state \<Rightarrow> frozen_map \<Rightarrow> sys \<Rightarrow>
   spike_tracker \<times> idle_state \<times> frozen_map \<times> sys" where
  "idle_timeout_reclaim cfg procs manual tr st fm s =
     (let (mi, s1) = current_meminfo s;
          (tr1, s2) = run_spike_cycle cfg fm (mi_available mi) procs manual tr s1 in
      if \<not> cc_idle_reclaim_enabled cfg then (tr1, st, fm, s2)
      else (let (now, s3) = os_clock s2 in
            if as_secs (duration_since now (id_last_check st)) < unat (cc_idle_reclaim_global_cooldown_sec cfg)
            then (tr1, st, fm, s3)
            else (let excluded = excluded_pids fm tr1 False;
                      (t, ft, fm', s4) = check_idle_process_reclaim cfg
                        (filter (\<lambda>p. p_pid p \<notin> set excluded) procs) (sys_foreground s3)
                        (id_tracker st) (id_freeze_tracker st) fm s3
                  in (tr1, \<lparr>id_tracker = t, id_freeze_tracker = ft, id_last_check = now\<rparr>, fm', s4))))"

section \<open>Page cache\<close>

fun log_dropped :: "cache_drop_result list \<Rightarrow> sys \<Rightarrow> sys" where
  "log_dropped [] s = s"
| "log_dropped (r # rs) s =
     (let s1 = fold (\<lambda>p s. emit (AdvisedFile p 0) s) (cd_paths r) s
      in log_dropped rs (if 0 < cd_files_advised r then log_entry LaCache 0 (cd_pattern r) s1 else s1))"

definition check_cache_drop :: "file_view \<Rightarrow> pressure_level \<Rightarrow> compiled_config \<Rightarrow> sys \<Rightarrow> sys" where
  "check_cache_drop fv level cfg s =
     (if \<not> cc_cache_drop_enabled cfg \<or> cc_cache_drop_paths cfg = [] then s
      else if level < cc_cache_drop_trigger cfg then s
      else (let (now, s1) = os_unix s in
            if \<not> cooled_down (sys_last_cache_drop s1) (cc_cache_drop_cooldown_secs cfg) now then s1
            else (let s2 = arm_cache now s1
                  in log_dropped (drop_caches fv (home_dir s2) (cc_cache_drop_paths cfg)) s2)))"

section \<open>Compaction\<close>

fun compact_devices :: "u64 \<Rightarrow> string list \<Rightarrow> sys \<Rightarrow> sys" where
  "compact_devices min_used_mb [] s = s"
| "compact_devices min_used_mb (d # ds) s =
     (case zram_used_mb d s of
        (None, s1) \<Rightarrow> compact_devices min_used_mb ds s1
      | (Some before_mb, s1) \<Rightarrow>
          if before_mb < min_used_mb then compact_devices min_used_mb ds s1
          else (case compact_device d s1 of
              (None, s2) \<Rightarrow>
                (let (after_mb, s3) = zram_used_mb d s2;
                     s4 = log_entry LaZram 0 d s3; (now, s5) = os_unix s4
                 in compact_devices min_used_mb ds (arm_compact now s5))
            | (Some PermissionDenied, s2) \<Rightarrow> log_entry LaZram 0 d (s2\<lparr>sys_zram_compact_disabled := True\<rparr>)
            | (Some _, s2) \<Rightarrow> compact_devices min_used_mb ds s2))"

definition compact_zram :: "pressure_level \<Rightarrow> compiled_config \<Rightarrow> sys \<Rightarrow> sys" where
  "compact_zram level cfg s =
     (if level < Elevated then s
      else if sys_zram_compact_disabled s then s
      else if \<not> cc_compact_zram_on_elevated cfg then s
      else (let (ds, s1) = zram_devices s in compact_devices (cc_zram_min_used_mb cfg) ds s1))"

section \<open>Facts about reclaiming\<close>

lemma reclaim_one_write:
  "\<exists>es. sys_trace (snd (try_reclaim_cgroup cg n s)) = sys_trace s @ es \<and> length es \<le> 1 \<and>
     (\<forall>e \<in> set es. writes_only (cgroup_sysfs_path cg ''memory.reclaim'') e)"
  by (auto simp: try_reclaim_cgroup_def reclaim_cgroup_def is_cgroup_leaf_def os_defs Let_def writes_only_def
      split: option.splits prod.splits bool.splits)

lemma try_reclaim_oracle [simp]: "sys_oracle (snd (try_reclaim_cgroup cg n s)) = sys_oracle s"
  by (simp add: try_reclaim_cgroup_def case_prod_unfold Let_def)

text \<open>Reclaiming from a set of processes: writes to the reclaim file of their own groups, and their log
entries.\<close>

definition reclaim_effect :: "process set \<Rightarrow> effect \<Rightarrow> bool" where
  "reclaim_effect ps e \<longleftrightarrow> (\<exists>p \<in> ps. (\<exists>cg. p_cgroup_path p = Some cg \<and> writes_only (cgroup_sysfs_path cg ''memory.reclaim'') e)
     \<or> e = Logged LaEarlyReclaim (p_pid p) (p_name p))"

definition reclaims :: "process set \<Rightarrow> nat \<Rightarrow> sys \<Rightarrow> sys \<Rightarrow> bool" where
  "reclaims ps n s s' \<longleftrightarrow> sys_oracle s' = sys_oracle s \<and>
     (\<exists>es. sys_trace s' = sys_trace s @ es \<and> length (filter is_write es) \<le> n \<and> (\<forall>e \<in> set es. reclaim_effect ps e))"

lemma reclaims_refl: "reclaims ps n s s"
  by (simp add: reclaims_def)

lemma reclaims_silent: "sys_oracle s' = sys_oracle s \<Longrightarrow> sys_trace s' = sys_trace s \<Longrightarrow> reclaims ps n s s'"
  by (simp add: reclaims_def)

lemma reclaims_trans: "reclaims ps m s s' \<Longrightarrow> reclaims ps n s' s'' \<Longrightarrow> reclaims ps (m + n) s s''"
  by (fastforce simp: reclaims_def)

lemma reclaims_mono: "reclaims ps m s s' \<Longrightarrow> ps \<subseteq> qs \<Longrightarrow> m \<le> n \<Longrightarrow> reclaims qs n s s'"
  by (fastforce simp: reclaims_def reclaim_effect_def)

lemma reclaims_try:
  assumes "p \<in> ps" "p_cgroup_path p = Some cg"
  shows "reclaims ps 1 s (snd (try_reclaim_cgroup cg n s))"
proof -
  obtain es where "sys_trace (snd (try_reclaim_cgroup cg n s)) = sys_trace s @ es" "length es \<le> 1"
      "\<forall>e \<in> set es. writes_only (cgroup_sysfs_path cg ''memory.reclaim'') e"
    using reclaim_one_write by blast
  moreover from this(2) have "length (filter is_write es) \<le> 1" by (rule order_trans [OF length_filter_le])
  ultimately show ?thesis using assms by (auto simp: reclaims_def reclaim_effect_def)
qed

lemma reclaims_log: "p \<in> ps \<Longrightarrow> reclaims ps 0 s (log_entry LaEarlyReclaim (p_pid p) (p_name p) s)"
  by (auto simp: reclaims_def reclaim_effect_def log_entry_def is_write_def)

lemma reclaims_neutral: "reclaims ps n s s' \<Longrightarrow> extends stop_neutral s s'"
  by (auto simp: reclaims_def extends_def reclaim_effect_def writes_only_def stop_neutral_def split: effect.splits)

lemma reclaims_saved: "reclaims ps n s s' \<Longrightarrow> last_saved s' = last_saved s"
proof (rule saved_frame)
  have "reclaim_effect ps e \<Longrightarrow> not_saved e" for e
    by (cases e) (auto simp: reclaim_effect_def writes_only_def not_saved_def)
  then show "reclaims ps n s s' \<Longrightarrow> extends not_saved s s'"
    by (auto simp: reclaims_def extends_def)
qed

lemma early_reclaim_all_result: "reclaims (set ps) (length ps) s (early_reclaim_all ps s)"
proof (induction ps arbitrary: s)
  case (Cons p ps)
  have ih: "reclaims (set (p # ps)) (length ps) s1 (early_reclaim_all ps s1)" for s1
    by (rule reclaims_mono [OF Cons.IH]) auto
  show ?case
  proof (cases "p_cgroup_path p")
    case None
    then show ?thesis using reclaims_mono [OF ih [of s] subset_refl, of "length (p # ps)"] by simp
  next
    case (Some cg)
    let ?n = "kb_bytes (percent_of (p_rss p) 50)"
    obtain r s1 where 1: "try_reclaim_cgroup cg ?n s = (r, s1)" by fastforce
    have e1: "reclaims (set (p # ps)) 1 s s1" using reclaims_try [of p "set (p # ps)" cg s ?n] Some by (simp add: 1)
    have e2: "reclaims (set (p # ps)) 1 s (log_entry LaEarlyReclaim (p_pid p) (p_name p) s1)"
      using reclaims_trans [OF e1 reclaims_log [of p]] by simp
    show ?thesis using reclaims_trans [OF e1 ih] reclaims_trans [OF e2 ih]
      by (auto simp: Some 1 split: reclaim_outcome.split)
  qed
qed (simp add: reclaims_refl)

text \<open>Early reclaim touches three background processes at most, each an eligible one, and only at the
elevated level.\<close>

lemma early_targets_result:
  "set (early_targets cfg active procs) \<subseteq> {p \<in> set procs. early_target cfg active p}"
  "length (early_targets cfg active procs) \<le> 3"
  by (auto simp: early_targets_def dest: in_set_takeD)

lemma check_early_result:
  "reclaims {p \<in> set procs. early_target cfg active p} 3 s (check_early_process_reclaim level procs active cfg s)"
  "level \<noteq> Elevated \<Longrightarrow> check_early_process_reclaim level procs active cfg s = s"
proof -
  obtain now s1 where 1: "os_unix s = (now, s1)" by fastforce
  have s1: "reclaims P 0 s s1" "reclaims P 0 s (arm_early now s1)" for P
    using silent_calls(3) [OF 1] early_gate.arm_trace early_gate.arm_oracle by (simp_all add: reclaims_silent)
  note all = reclaims_mono [OF early_reclaim_all_result early_targets_result]
  show "reclaims {p \<in> set procs. early_target cfg active p} 3 s (check_early_process_reclaim level procs active cfg s)"
    using reclaims_trans [OF s1(2) all] reclaims_mono [OF s1(1) subset_refl, of 3]
    by (auto simp: check_early_process_reclaim_def 1 reclaims_refl)
qed (simp add: check_early_process_reclaim_def)

section \<open>Facts about idle processes\<close>

definition idle_eligible :: "idle_reclaim_config \<Rightarrow> compiled_config \<Rightarrow> pid option \<Rightarrow> process \<Rightarrow> bool" where
  "idle_eligible ic cfg active p \<longleftrightarrow> Some (p_pid p) \<noteq> active \<and> ic_rss_min_mb ic * 1024 \<le> p_rss p \<and>
     (let prio = get_priority (p_name p) (p_exe_basename p) cfg in
      50 \<le> prio \<or> ic_important_enabled ic \<and> ic_important_min_priority ic \<le> prio)"

lemma idle_candidate_eligible:
  assumes "idle_candidate ic (get_priority (p_name p) (p_exe_basename p) cfg) d p = Some c" "Some (p_pid p) \<noteq> active"
  shows "fst c = p_pid p \<and> idle_eligible ic cfg active p"
  using assms by (auto simp: idle_candidate_def idle_eligible_def Let_def split: if_splits)

lemma idle_candidates_result:
  assumes "idle_candidates ic cfg active tracker ps s = (cs, s')"
  shows "sys_oracle s' = sys_oracle s \<and> sys_trace s' = sys_trace s \<and>
    fst ` set cs \<subseteq> p_pid ` {p \<in> set ps. idle_eligible ic cfg active p}"
  using assms
proof (induction ps arbitrary: s cs s')
  case (Cons p ps)
  show ?case
  proof (cases "Some (p_pid p) = active")
    case True
    then have "idle_candidates ic cfg active tracker ps s = (cs, s')" using Cons.prems by simp
    from Cons.IH [OF this] show ?thesis by auto
  next
    case False
    obtain d s1 where 1: "tracked_secs tracker (p_pid p) s = (d, s1)" by fastforce
    obtain cs1 s2 where 2: "idle_candidates ic cfg active tracker ps s1 = (cs1, s2)" by fastforce
    have q: "sys_oracle s1 = sys_oracle s \<and> sys_trace s1 = sys_trace s"
      using 1 by (auto simp: tracked_secs_def elapsed_def os_clock_def Let_def split: option.splits)
    note ih = Cons.IH [OF 2]
    have sub: "fst ` set cs1 \<subseteq> p_pid ` {q \<in> set (p # ps). idle_eligible ic cfg active q}"
      by (rule order_trans [OF ih [THEN conjunct2, THEN conjunct2]]) auto
    show ?thesis
    proof (cases "idle_candidate ic (get_priority (p_name p) (p_exe_basename p) cfg) d p")
      case None
      then have "cs = cs1" "s' = s2" using Cons.prems False by (simp_all add: 1 2)
      then show ?thesis using ih q sub by simp
    next
      case (Some c)
      then have "cs = c # cs1" "s' = s2" using Cons.prems False by (simp_all add: 1 2)
      moreover have "fst c \<in> p_pid ` {q \<in> set (p # ps). idle_eligible ic cfg active q}"
        using idle_candidate_eligible [OF Some] False by auto
      ultimately show ?thesis using ih q sub by simp
    qed
  qed
qed simp

lemma start_clocks_result:
  "start_clocks active ps tracker s = (tracker', s') \<Longrightarrow> sys_oracle s' = sys_oracle s \<and> sys_trace s' = sys_trace s"
proof (induction ps arbitrary: tracker s)
  case (Cons p ps)
  obtain now s1 where 1: "os_clock s = (now, s1)" by fastforce
  then have q: "sys_oracle s1 = sys_oracle s \<and> sys_trace s1 = sys_trace s" by (auto simp: os_clock_def)
  have "start_clocks active ps tracker s = (tracker', s') \<or>
      start_clocks active ps (hm_insert (p_pid p) now tracker) s1 = (tracker', s')"
    using Cons.prems by (simp add: 1 split: if_splits)
  then show ?case using Cons.IH q by fastforce
qed simp

lemma idle_reclaim_all_result:
  assumes "idle_reclaim_all procs cs tracker s = (tracker', s')"
  shows "reclaims {p \<in> set procs. p_pid p \<in> fst ` set cs} (length cs) s s'"
  using assms
proof (induction cs arbitrary: tracker s)
  case (Cons c cs)
  obtain p bytes where c: "c = (p, bytes)" by fastforce
  let ?P = "{q \<in> set procs. p_pid q \<in> fst ` set (c # cs)}"
  have ih: "reclaims ?P (length cs) s1 s'" if "idle_reclaim_all procs cs t s1 = (tracker', s')" for t s1
    by (rule reclaims_mono [OF Cons.IH [OF that]]) auto
  have skip: "reclaims ?P (length (c # cs)) s s'" if "idle_reclaim_all procs cs t s = (tracker', s')" for t
    by (rule reclaims_mono [OF ih [OF that] subset_refl]) simp
  show ?case
  proof (cases "bytes = 0 \<or> find (\<lambda>q. p_pid q = p) procs = None")
    case True
    then have "idle_reclaim_all procs cs tracker s = (tracker', s')" using Cons.prems by (auto simp: c split: if_splits)
    then show ?thesis by (rule skip)
  next
    case False
    then obtain q where q: "find (\<lambda>q. p_pid q = p) procs = Some q" by auto
    then have m: "q \<in> ?P" by (auto simp: find_Some_iff c)
    show ?thesis
    proof (cases "p_cgroup_path q")
      case None
      then have "idle_reclaim_all procs cs tracker s = (tracker', s')" using Cons.prems False by (simp add: c q)
      then show ?thesis by (rule skip)
    next
      case (Some cg)
      obtain r s1 where 1: "try_reclaim_cgroup cg bytes s = (r, s1)" by fastforce
      have e1: "reclaims ?P 1 s s1" using reclaims_try [of q ?P cg s bytes] m Some by (simp add: 1)
      define s2 where "s2 = log_entry LaEarlyReclaim (p_pid q) (p_name q) s1"
      obtain now s3 where 3: "os_clock s2 = (now, s3)" by fastforce
      obtain unix s4 where 4: "os_unix s3 = (unix, s4)" by fastforce
      obtain now' s5 where 5: "os_clock s1 = (now', s5)" by fastforce
      have e2: "reclaims ?P 1 s s2" using reclaims_trans [OF e1 reclaims_log [of q]] m by (simp add: s2_def)
      have clock: "os_clock x = (n, y) \<Longrightarrow> reclaims ?P 0 x y" for x n y
        by (auto simp: os_clock_def reclaims_silent)
      have "reclaims ?P 0 s3 (arm_idle unix s4)"
        using silent_calls(3) [OF 4] idle_gate.arm_trace idle_gate.arm_oracle by (simp add: reclaims_silent)
      then have e4: "reclaims ?P 1 s (arm_idle unix s4)"
        using reclaims_trans [OF reclaims_trans [OF e2 clock [OF 3]]] by simp
      have e5: "reclaims ?P 1 s s5" using reclaims_trans [OF e1 clock [OF 5]] by simp
      have "\<exists>t y. idle_reclaim_all procs cs t y = (tracker', s') \<and> reclaims ?P 1 s y"
        using Cons.prems False e1 e4 e5
        by (cases r) (auto simp: c q Some 1 3 4 5 s2_def [symmetric])
      then show ?thesis using reclaims_trans ih by fastforce
    qed
  qed
qed (simp add: reclaims_refl)

section \<open>Facts about the idle freeze\<close>

text \<open>One process of the scan: it is passed over, or it is frozen and recorded.\<close>

lemma quiet_secs: "tracked_secs t p s = (d, s1) \<Longrightarrow> sys_oracle s1 = sys_oracle s \<and> sys_trace s1 = sys_trace s"
  by (auto simp: tracked_secs_def elapsed_def os_clock_def Let_def split: option.splits)

lemma stop_saved: "last_saved (snd (freeze_checked p st s)) = last_saved s"
    "last_saved (snd (unfreeze_pid p s)) = last_saved s"
  by (rule signals_saved [OF freezer.extends_only] signals_saved [OF unfreezer.extends_only])+

lemma unfreeze_oracle [simp]: "sys_oracle (snd (unfreeze_pid p s)) = sys_oracle s"
  by (auto simp: unfreeze_pid_def send_signal_def os_kill_def Let_def split: option.splits)

lemma idle_freeze_run:
  assumes go: "\<not> 2 \<le> n" "Some (p_pid p) \<noteq> active" "\<not> p_rss p < mb * 1024"
    and tr1: "(tr1, s0) = (if hm_contains tr (p_pid p) then (tr, s)
      else (let (now, s') = os_clock s in (hm_insert (p_pid p) now tr, s')))"
    and 1: "tracked_secs tr1 (p_pid p) s0 = (d, s1)" and 2: "start_time_of (p_pid p) s1 = (st, s2)"
  shows "d < unat secs \<Longrightarrow> idle_freeze secs mb active (p # ps) n tr fm s = idle_freeze secs mb active ps n tr1 fm s1"
    "\<not> d < unat secs \<Longrightarrow> st = None \<Longrightarrow>
       idle_freeze secs mb active (p # ps) n tr fm s = idle_freeze secs mb active ps n tr1 fm s2"
    "\<not> d < unat secs \<Longrightarrow> st = Some t \<Longrightarrow> freeze_checked (p_pid p) t s2 = (r, s3) \<Longrightarrow> \<not> opr_success r \<Longrightarrow>
       idle_freeze secs mb active (p # ps) n tr fm s = idle_freeze secs mb active ps n tr1 fm s3"
    "\<not> d < unat secs \<Longrightarrow> st = Some t \<Longrightarrow> freeze_checked (p_pid p) t s2 = (r, s3) \<Longrightarrow> opr_success r \<Longrightarrow>
       frozen_add (p_pid p) (p_name p) fm s3 = (True, fm1, s4) \<Longrightarrow>
       idle_freeze secs mb active (p # ps) n tr fm s = idle_freeze secs mb active ps (Suc n) (hm_remove (p_pid p) tr1) fm1
         (log_entry LaIdleFreeze (p_pid p) (p_name p) s4)"
    "\<not> d < unat secs \<Longrightarrow> st = Some t \<Longrightarrow> freeze_checked (p_pid p) t s2 = (r, s3) \<Longrightarrow> opr_success r \<Longrightarrow>
       frozen_add (p_pid p) (p_name p) fm s3 = (False, fm1, s4) \<Longrightarrow>
       idle_freeze secs mb active (p # ps) n tr fm s =
         idle_freeze secs mb active ps n tr1 fm1 (snd (unfreeze_pid (p_pid p) s4))"
  unfolding idle_freeze.simps(2) tr1 [symmetric] by (simp_all only: go 1 2 if_False if_True Let_def prod.case option.case bool.case simp_thms)

lemma idle_freeze_step:
  obtains (stop) "2 \<le> n" "idle_freeze secs mb active (p # ps) n tr fm s = (tr, fm, s)"
  | (skip) tr1 s1 where "sys_oracle s1 = sys_oracle s" "last_saved s1 = last_saved s" "\<And>R. held R s \<Longrightarrow> held R s1"
      "idle_freeze secs mb active (p # ps) n tr fm s = idle_freeze secs mb active ps n tr1 fm s1"
  | (freeze) tr1 fm1 s0 s1 s2 where "n < 2" "Some (p_pid p) \<noteq> active" "mb * 1024 \<le> p_rss p"
      "frozen_add (p_pid p) (p_name p) fm s0 = (True, fm1, s1)" "sys_oracle s2 = sys_oracle s" "last_saved s0 = last_saved s"
      "last_saved s2 = last_saved s1" "\<And>F. held (with_registry F fm) s \<Longrightarrow> held (with_registry F fm1) s2"
      "idle_freeze secs mb active (p # ps) n tr fm s = idle_freeze secs mb active ps (Suc n) tr1 fm1 s2"
proof (cases "2 \<le> n \<or> Some (p_pid p) = active \<or> p_rss p < mb * 1024")
  case True
  then show thesis using stop skip [of s tr]
    by (cases "2 \<le> n"; cases "Some (p_pid p) = active"; simp)
next
  case go: False
  define tr1 and s0 where
    "tr1 = (if hm_contains tr (p_pid p) then tr else hm_insert (p_pid p) (fst (os_clock s)) tr)" and
    "s0 = (if hm_contains tr (p_pid p) then s else snd (os_clock s))"
  obtain d s1 where 1: "tracked_secs tr1 (p_pid p) s0 = (d, s1)" by fastforce
  have "sys_oracle s0 = sys_oracle s \<and> sys_trace s0 = sys_trace s" by (simp add: s0_def os_clock_def)
  with quiet_secs [OF 1] have e1: "sys_oracle s1 = sys_oracle s" "sys_trace s1 = sys_trace s" by simp_all
  obtain st s2 where 2: "start_time_of (p_pid p) s1 = (st, s2)" by fastforce
  have e2: "sys_oracle s2 = sys_oracle s" "sys_trace s2 = sys_trace s"
    using e1 oracle_pair(1) [OF 2] start_time_pair [OF 2] by simp_all
  obtain r s3 where 3: "freeze_checked (p_pid p) (the st) s2 = (r, s3)" by fastforce
  have o3: "sys_oracle s3 = sys_oracle s" using checked_oracle(2) [of "p_pid p" "the st" s2] e2 by (simp add: 3)
  have sv3: "last_saved s3 = last_saved s" using stop_saved(1) [of "p_pid p" "the st" s2] last_saved_trace [OF e2(2)] by (simp add: 3)
  have tr1: "(tr1, s0) = (if hm_contains tr (p_pid p) then (tr, s)
      else (let (now, s') = os_clock s in (hm_insert (p_pid p) now tr, s')))"
    by (simp add: tr1_def s0_def case_prod_unfold Let_def)
  have g: "n < 2" "Some (p_pid p) \<noteq> active" "mb * 1024 \<le> p_rss p" using go by (simp_all only: not_le not_less de_Morgan_disj simp_thms)
  have "\<not> 2 \<le> n" "Some (p_pid p) \<noteq> active" "\<not> p_rss p < mb * 1024" using go by simp_all
  note run = idle_freeze_run [OF this tr1 1 2]
  show thesis
  proof (cases "d < unat secs \<or> st = None \<or> \<not> opr_success r")
    case True
    have "held R s3" if "held R s" "\<not> opr_success r" for R
      using held_stop_fail [OF held_same [OF that(1) e2] 3 that(2)] .
    note h = this
    consider "d < unat secs" | "\<not> d < unat secs" "st = None" | t where "\<not> d < unat secs" "st = Some t" "\<not> opr_success r"
      using True by auto
    then show thesis
    proof cases
      case 1
      show thesis
        by (rule skip [of s1 tr1, OF e1(1) last_saved_trace [OF e1(2)]]) (rule held_same [OF _ e1], assumption, rule run(1) [OF 1])
    next
      case 2
      show thesis
        by (rule skip [of s2 tr1, OF e2(1) last_saved_trace [OF e2(2)]]) (rule held_same [OF _ e2], assumption, rule run(2) [OF 2])
    next
      case (3 t)
      then have "freeze_checked (p_pid p) t s2 = (r, s3)" using \<open>freeze_checked (p_pid p) (the st) s2 = (r, s3)\<close> by simp
      note run3 = run(3) [OF 3(1,2) this 3(3)]
      show thesis by (rule skip [of s3 tr1, OF o3 sv3]) (rule h [OF _ 3(3)], assumption, rule run3)
    qed
  next
    case False
    then obtain t where st: "st = Some t" and r: "opr_success r" and d: "\<not> d < unat secs" by auto
    have h3: "held (\<lambda>q st'. R q st' \<or> q = p_pid p) s3" if "held R s" for R
      by (rule held_mono [OF held_stop [OF held_same [OF that e2] 3 r]]) (simp split: if_splits)
    obtain ok fm1 s4 where 4: "frozen_add (p_pid p) (p_name p) fm s3 = (ok, fm1, s4)" by (metis prod_cases3)
    note o4 = frozen_add_oracle [OF 4]
    show thesis
    proof (cases ok)
      case True
      let ?s5 = "log_entry LaIdleFreeze (p_pid p) (p_name p) s4"
      have "held (with_registry F fm1) ?s5" if "held (with_registry F fm) s" for F
      proof -
        have "held (with_registry F fm1) s4" using held_record [OF h3 [OF that]] 4 True by simp
        then show ?thesis by (rule held_neutral) (simp_all add: log_entry_def extends_def stop_neutral_def)
      qed
      note held5 = this
      have 4: "frozen_add (p_pid p) (p_name p) fm s3 = (True, fm1, s4)" using 4 True by simp
      have 3: "freeze_checked (p_pid p) t s2 = (r, s3)" using 3 st by simp
      show thesis
      proof (rule freeze [of s3 fm1 s4 ?s5 "hm_remove (p_pid p) tr1"])
        show "held (with_registry F fm1) ?s5" if "held (with_registry F fm) s" for F by (rule held5 [OF that])
      qed (use g o3 o4 sv3 4 in \<open>simp_all only: log_entry_saved run(4) [OF d st 3 r 4] log_oracle simp_thms\<close>)
    next
      case False
      let ?s5 = "snd (unfreeze_pid (p_pid p) s4)"
      have fm1: "fm1 = fm" and sv4: "last_saved s4 = last_saved s3"
        using frozen_add_result(2) [OF 4] frozen_add_trace [OF 4] False last_saved_trace [of s4 s3] by simp_all
      have 4: "frozen_add (p_pid p) (p_name p) fm s3 = (False, fm, s4)" using 4 False fm1 by simp
      have 3: "freeze_checked (p_pid p) t s2 = (r, s3)" using 3 st by simp
      have h5: "held R ?s5" if "held R s" for R
        using held_unfreeze [OF held_unidentified [OF h3 [OF that] 4]] .
      show thesis
      proof (rule skip [of ?s5 tr1])
        show "held R ?s5" if "held R s" for R by (rule h5 [OF that])
      qed (use o3 o4 sv3 sv4 in \<open>simp_all only: stop_saved(2) unfreeze_oracle run(5) [OF d st 3 r 4]\<close>)
    qed
  qed
qed

lemma frozen_put_count: "frozen_count (frozen_put p e fm) \<le> Suc (frozen_count fm)"
  by (induction fm) (auto simp: frozen_count_def frozen_put_def hm_insert_def)

lemma idle_freeze_result:
  assumes "idle_freeze secs mb active ps n tr fm s = (tr', fm', s')" "hm_ok fm"
  shows "hm_ok fm' \<and> sys_oracle s' = sys_oracle s \<and> frozen_count fm' \<le> frozen_count fm + (2 - n) \<and>
    (\<forall>q. hm_get fm' q = hm_get fm q \<or>
       (\<exists>p \<in> set ps. q = p_pid p \<and> Some (p_pid p) \<noteq> active \<and> mb * 1024 \<le> p_rss p)) \<and>
    (last_saved s = Some fm \<longrightarrow> last_saved s' = Some fm') \<and>
    (\<forall>F. held (with_registry F fm) s \<longrightarrow> held (with_registry F fm') s')"
  using assms
proof (induction ps arbitrary: n tr fm s)
  case (Cons p ps)
  show ?case
  proof (cases rule: idle_freeze_step [where n = n and secs = secs and mb = mb and active = active and p = p and ps = ps
        and tr = tr and fm = fm and s = s])
    case stop
    then show ?thesis using Cons.prems by simp
  next
    case (skip tr1 s1)
    have "idle_freeze secs mb active ps n tr1 fm s1 = (tr', fm', s')" using Cons.prems skip(4) by simp
    from Cons.IH [OF this Cons.prems(2)] skip(1-3) show ?thesis by auto
  next
    case (freeze tr1 fm1 s0 s1 s2)
    have run: "idle_freeze secs mb active ps (Suc n) tr1 fm1 s2 = (tr', fm', s')" using Cons.prems freeze(9) by simp
    have cnt: "frozen_count fm1 \<le> Suc (frozen_count fm)"
      using freeze(4) frozen_put_count by (auto simp: frozen_add_def Let_def split: prod.splits option.splits)
    have ok: "hm_ok fm1" using frozen_add_result(5) [OF freeze(4) Cons.prems(2)] .
    note ih = Cons.IH [OF run ok]
    have "hm_get fm' q = hm_get fm q \<or>
       (\<exists>x \<in> set (p # ps). q = p_pid x \<and> Some (p_pid x) \<noteq> active \<and> mb * 1024 \<le> p_rss x)" for q
    proof (cases "q = p_pid p")
      case True
      then show ?thesis using freeze(2,3) by auto
    next
      case False
      then have "hm_get fm1 q = hm_get fm q" using frozen_add_result(4) [OF freeze(4)] by simp
      then show ?thesis using ih by (metis list.set_intros(2))
    qed
    moreover have "last_saved s2 = Some fm1" if "last_saved s = Some fm"
      using frozen_add_synced [OF _ freeze(4)] that freeze(6,7) by simp
    moreover have "frozen_count fm' \<le> frozen_count fm + (2 - n)" using ih cnt freeze(1) by linarith
    moreover have "held (with_registry F fm') s'" if "held (with_registry F fm) s" for F
      using ih freeze(8) [OF that] by blast
    ultimately show ?thesis using ih freeze(5) by simp
  qed
qed auto

text \<open>The whole check: memory is reclaimed from three eligible processes at most, and two at most are
frozen.\<close>

lemma select_idle_result:
  assumes "select_idle_candidates procs active tracker used ic cfg s = (cs, s')"
  shows "sys_oracle s' = sys_oracle s \<and> sys_trace s' = sys_trace s \<and>
    fst ` set cs \<subseteq> p_pid ` {p \<in> set procs. idle_eligible ic cfg active p} \<and>
    (fl_lt (ic_max_swap_occupancy_pct ic) used \<longrightarrow> cs = [])"
  using assms idle_candidates_result [of ic cfg active tracker procs s cs s']
  by (auto simp: select_idle_candidates_def split: if_splits)

definition keeps_account :: "frozen_map \<Rightarrow> sys \<Rightarrow> frozen_map \<Rightarrow> sys \<Rightarrow> bool" where
  "keeps_account fm s fm' s' \<longleftrightarrow> sys_oracle s' = sys_oracle s \<and> (hm_ok fm \<longrightarrow> hm_ok fm') \<and>
     (last_saved s = Some fm \<longrightarrow> last_saved s' = Some fm') \<and> extends keeps_file s s' \<and>
     (\<forall>F. held (with_registry F fm) s \<longrightarrow> held (with_registry F fm') s')"

lemma keeps_account_trans: "keeps_account fm s fm' s' \<Longrightarrow> keeps_account fm' s' fm'' s'' \<Longrightarrow> keeps_account fm s fm'' s''"
  unfolding keeps_account_def by (auto intro: extends_trans)

lemma harmless_keeps: "harmless s s' \<Longrightarrow> keeps_account fm s fm s'"
  using harmless_held [of s s'] harmless_saved [of s s'] harmless_file [of s s']
  by (simp add: keeps_account_def harmless_oracle)

lemma keeps_account_silent: "sys_oracle s' = sys_oracle s \<Longrightarrow> sys_trace s' = sys_trace s \<Longrightarrow> keeps_account fm s fm s'"
  by (rule harmless_keeps) (rule harmless_same)

lemma reclaims_harmless: "reclaims P n s s' \<Longrightarrow> harmless s s'"
proof -
  have "reclaim_effect P e \<Longrightarrow> harmless_effect e" for e
    by (cases e) (auto simp: reclaim_effect_def writes_only_def harmless_effect_def stop_neutral_def not_saved_def)
  then show "reclaims P n s s' \<Longrightarrow> harmless s s'" by (auto simp: reclaims_def harmless_def extends_def)
qed

lemma reclaims_keeps: "reclaims P n s s' \<Longrightarrow> keeps_account fm s fm s'"
  by (rule harmless_keeps) (rule reclaims_harmless)

lemma frozen_add_file: "frozen_add p name m s = (ok, m', s') \<Longrightarrow> extends keeps_file s s'"
  by (drule frozen_add_trace) (auto simp: extends_def split: if_splits)

lemma idle_freeze_file: "extends keeps_file s (snd (snd (idle_freeze secs mb active ps n tr fm s)))"
proof (induction ps arbitrary: n tr fm s)
  case (Cons p ps)
  define tr1 and s0 where
    "tr1 = (if hm_contains tr (p_pid p) then tr else hm_insert (p_pid p) (fst (os_clock s)) tr)" and
    "s0 = (if hm_contains tr (p_pid p) then s else snd (os_clock s))"
  have tr1: "(tr1, s0) = (if hm_contains tr (p_pid p) then (tr, s)
      else (let (now, s') = os_clock s in (hm_insert (p_pid p) now tr, s')))"
    by (simp add: tr1_def s0_def case_prod_unfold Let_def)
  obtain d s1 where 1: "tracked_secs tr1 (p_pid p) s0 = (d, s1)" by fastforce
  obtain st s2 where 2: "start_time_of (p_pid p) s1 = (st, s2)" by fastforce
  have "sys_trace s0 = sys_trace s" by (simp add: s0_def os_clock_def)
  then have e: "extends keeps_file s s1" "extends keeps_file s s2"
    using quiet_secs [OF 1] start_time_pair [OF 2] by (simp_all add: extends_same)
  have stop: "extends keeps_file x (snd (freeze_checked (p_pid p) t x))" "extends keeps_file x (snd (unfreeze_pid (p_pid p) x))" for t x
    by (rule extends_mono [OF freezer.extends_only signals_keep_file], assumption,
        rule extends_mono [OF unfreezer.extends_only signals_keep_file])
  show ?case
  proof (cases "2 \<le> n \<or> Some (p_pid p) = active \<or> p_rss p < mb * 1024")
    case True
    then show ?thesis using Cons.IH by auto
  next
    case False
    then have go: "\<not> 2 \<le> n" "Some (p_pid p) \<noteq> active" "\<not> p_rss p < mb * 1024" by auto
    note run = idle_freeze_run [OF go tr1 1 2, where ps = ps] and ih = extends_trans [OF _ Cons.IH]
    show ?thesis
    proof (cases "d < unat secs \<or> st = None")
      case True
      then show ?thesis using run(1,2) ih [OF e(1)] ih [OF e(2)] by (cases "d < unat secs") auto
    next
      case False
      then obtain t where t: "\<not> d < unat secs" "st = Some t" by auto
      obtain r s3 where 3: "freeze_checked (p_pid p) t s2 = (r, s3)" by fastforce
      have e3: "extends keeps_file s s3" using extends_trans [OF e(2) stop(1)] by (metis 3 snd_conv)
      obtain ok fm1 s4 where 4: "frozen_add (p_pid p) (p_name p) fm s3 = (ok, fm1, s4)" by (metis prod_cases3)
      have e4: "extends keeps_file s s4" by (rule extends_trans [OF e3 frozen_add_file [OF 4]])
      have "extends keeps_file s (log_entry LaIdleFreeze (p_pid p) (p_name p) s4)"
        using e4 by (rule extends_trans) (simp add: log_entry_def extends_def)
      then show ?thesis
        using run(3-5) [OF t 3] 4 ih [OF e3] ih [OF extends_trans [OF e4 stop(2)]] ih
        by (cases "opr_success r"; cases ok) auto
    qed
  qed
qed simp

lemma idle_freeze_keeps:
  "hm_ok fm \<Longrightarrow> idle_freeze secs mb active ps n tr fm s = (tr', fm', s') \<Longrightarrow> keeps_account fm s fm' s'"
  using idle_freeze_result [of secs mb active ps n tr fm s tr' fm' s'] idle_freeze_file [of s secs mb active ps n tr fm]
  unfolding keeps_account_def by (metis snd_conv)

lemma check_idle_result:
  assumes "check_idle_process_reclaim cfg procs active tracker ftracker fm s = (tracker', ftracker', fm', s')" "hm_ok fm"
  obtains s1 where
    "reclaims {p \<in> set procs. idle_eligible (idle_config_from cfg) cfg active p \<or>
        (\<exists>q \<in> set procs. p_pid q = p_pid p \<and> idle_eligible (idle_config_from cfg) cfg active q)} 3 s s1"
    "keeps_account fm s1 fm' s'" "frozen_count fm' \<le> frozen_count fm + 2"
    "cc_idle_reclaim_freeze_after_sec cfg = None \<Longrightarrow> fm' = fm \<and> s' = s1"
    "\<forall>q. hm_get fm' q = hm_get fm q \<or> (\<exists>p \<in> set procs. q = p_pid p \<and> Some (p_pid p) \<noteq> active)"
proof -
  let ?P = "{p \<in> set procs. idle_eligible (idle_config_from cfg) cfg active p \<or>
        (\<exists>q \<in> set procs. p_pid q = p_pid p \<and> idle_eligible (idle_config_from cfg) cfg active q)}"
  obtain mi s1 where 1: "current_meminfo s = (mi, s1)" by fastforce
  have q1: "reclaims ?P 3 s s1" using silent_calls(2) [OF 1] by (simp add: reclaims_silent)
  show thesis
  proof (cases "swap_too_full mi")
    case True
    then have "fm' = fm" "s' = s1" using assms(1) by (simp_all add: check_idle_process_reclaim_def 1)
    then show thesis using that [OF q1] by (simp add: keeps_account_silent)
  next
    case False
    define tr1 where "tr1 = hm_retain (\<lambda>p _. p \<in> p_pid ` set procs) tracker"
    obtain cs s2 where 2: "select_idle_candidates procs active tr1 (idle_swap_used mi) (idle_config_from cfg) cfg s1 = (cs, s2)"
      by fastforce
    obtain tr2 s3 where 3: "start_clocks active procs tr1 s2 = (tr2, s3)" by fastforce
    obtain tr3 s4 where 4: "idle_reclaim_all procs (take 3 cs) tr2 s3 = (tr3, s4)" by fastforce
    define ft1 where "ft1 = hm_retain (\<lambda>p _. p \<in> p_pid ` set procs) ftracker"
    have "reclaims ?P 0 s s3"
      using silent_calls(2) [OF 1] select_idle_result [OF 2] start_clocks_result [OF 3] by (simp add: reclaims_silent)
    moreover have "reclaims ?P 3 s3 s4"
    proof (rule reclaims_mono [OF idle_reclaim_all_result [OF 4]])
      show "{p \<in> set procs. p_pid p \<in> fst ` set (take 3 cs)} \<subseteq> ?P"
        using select_idle_result [OF 2] by (fastforce dest: in_set_takeD)
    qed simp
    ultimately have r: "reclaims ?P 3 s s4" using reclaims_trans by fastforce
    show thesis
    proof (cases "cc_idle_reclaim_freeze_after_sec cfg")
      case None
      then have "fm' = fm" "s' = s4"
        using assms(1) False by (simp_all add: check_idle_process_reclaim_def 1 2 3 4 tr1_def [symmetric] Let_def)
      then show thesis using that [OF r] by (simp add: keeps_account_silent)
    next
      case (Some secs)
      obtain ft2 fm5 s5 where 5: "idle_freeze secs (cc_idle_reclaim_rss_min_mb cfg) active procs 0 ft1 fm s4 = (ft2, fm5, s5)"
        by (metis prod_cases3)
      have "fm' = fm5" "s' = s5"
        using assms(1) False Some
        by (simp_all add: check_idle_process_reclaim_def 1 2 3 4 5 tr1_def [symmetric] ft1_def [symmetric] Let_def)
      moreover note idle_freeze_result [OF 5 assms(2)] idle_freeze_keeps [OF assms(2) 5]
      ultimately show thesis using that [OF r] Some by auto
    qed
  qed
qed

lemma check_idle_keeps:
  assumes "check_idle_process_reclaim cfg procs active tracker ftracker fm s = (tracker', ftracker', fm', s')" "hm_ok fm"
  shows "keeps_account fm s fm' s'"
  by (rule check_idle_result [OF assms]) (blast intro: keeps_account_trans reclaims_keeps)

section \<open>Facts about the page cache and compaction\<close>

lemma advise_oracle [simp]: "sys_oracle (fold (\<lambda>p s. emit (AdvisedFile p 0) s) ps s) = sys_oracle s"
  by (induction ps arbitrary: s) simp_all

lemma advise_harmless: "harmless s (fold (\<lambda>p s. emit (AdvisedFile p 0) s) ps s)"
proof (induction ps arbitrary: s)
  case (Cons p ps)
  have "harmless s (emit (AdvisedFile p 0) s)" by (rule harmless_emit) (simp_all add: stop_neutral_def not_saved_def)
  from harmless_trans [OF this Cons.IH] show ?case by simp
qed simp

lemma log_frame: "harmless s (log_entry a p n s)"
  by (simp add: log_entry_def harmless_def harmless_effect_def extends_def stop_neutral_def not_saved_def)

lemma log_dropped_harmless: "harmless s (log_dropped rs s)"
proof (induction rs arbitrary: s)
  case (Cons r rs)
  have "harmless s (if 0 < cd_files_advised r then log_entry LaCache 0 (cd_pattern r) (fold (\<lambda>p s. emit (AdvisedFile p 0) s) (cd_paths r) s)
      else fold (\<lambda>p s. emit (AdvisedFile p 0) s) (cd_paths r) s)"
    by (simp add: advise_harmless harmless_trans [OF advise_harmless log_frame])
  from harmless_trans [OF this Cons.IH] show ?case by (simp add: Let_def)
qed simp

lemma check_cache_drop_harmless: "harmless s (check_cache_drop fv level cfg s)"
proof -
  obtain now s1 where 1: "os_unix s = (now, s1)" by fastforce
  have "harmless s s1" "harmless s (arm_cache now s1)"
    using silent_calls(3) [OF 1] cache_gate.arm_trace cache_gate.arm_oracle by (simp_all add: harmless_same)
  then show ?thesis
    by (auto simp: check_cache_drop_def 1 Let_def intro: harmless_trans log_dropped_harmless)
qed

lemmas check_cache_drop_keeps = harmless_keeps [OF check_cache_drop_harmless]

lemma compact_devices_harmless: "harmless s (compact_devices n ds s)"
proof (induction ds arbitrary: s)
  case (Cons d ds)
  obtain u s1 where 1: "zram_used_mb d s = (u, s1)" by fastforce
  obtain e s2 where 2: "compact_device d s1 = (e, s2)" by fastforce
  obtain u' s3 where 3: "zram_used_mb d s2 = (u', s3)" by fastforce
  obtain now s5 where 5: "os_unix (log_entry LaZram 0 d s3) = (now, s5)" by fastforce
  have used: "harmless x y" if "zram_used_mb d x = (v, y)" for v x y
    using that by (auto simp: zram_used_mb_def os_read_def Let_def intro!: harmless_same)
  have k1: "harmless s s1" by (rule used [OF 1])
  have "harmless s1 s2"
    using 2 by (auto simp: compact_device_def os_write_def Let_def harmless_def harmless_effect_def extends_def
        stop_neutral_def not_saved_def)
  with k1 have k2: "harmless s s2" by (rule harmless_trans)
  have "harmless (log_entry LaZram 0 d s3) (arm_compact now s5)"
    using silent_calls(3) [OF 5] compact_gate.arm_trace compact_gate.arm_oracle by (simp add: harmless_same)
  then have k5: "harmless s (arm_compact now s5)"
    using k2 used [OF 3] log_frame [of s3] by (blast intro: harmless_trans)
  have "harmless s2 (s2\<lparr>sys_zram_compact_disabled := True\<rparr>)" by (rule harmless_same) simp_all
  then have k6: "harmless s (log_entry LaZram 0 d (s2\<lparr>sys_zram_compact_disabled := True\<rparr>))"
    using k2 log_frame by (blast intro: harmless_trans)
  note ih = harmless_trans [OF _ Cons.IH]
  show ?case using ih [OF k1] ih [OF k2] ih [OF k5] k6
    by (auto simp: 1 2 3 5 Let_def split: option.split io_error.split)
qed simp

lemma compact_zram_harmless: "harmless s (compact_zram level cfg s)"
proof -
  obtain ds s1 where 1: "zram_devices s = (ds, s1)" by fastforce
  then have "harmless s s1" by (auto simp: zram_devices_def os_read_def Let_def intro!: harmless_same)
  then show ?thesis
    by (auto simp: compact_zram_def 1 intro: harmless_trans compact_devices_harmless)
qed

lemmas compact_zram_keeps = harmless_keeps [OF compact_zram_harmless]

text \<open>A refused compaction is not tried again.\<close>

lemma compact_disabled: "sys_zram_compact_disabled s \<Longrightarrow> compact_zram level cfg s = s"
  by (simp add: compact_zram_def)

lemma compact_stops_at_refusal:
  assumes "zram_used_mb d s = (Some used, s1)" "min_used \<le> used" "compact_device d s1 = (Some PermissionDenied, s2)"
  shows "sys_zram_compact_disabled (compact_devices min_used (d # ds) s)
    \<and> sys_trace (compact_devices min_used (d # ds) s) = sys_trace s2 @ [Logged LaZram 0 d]"
  using assms leD [OF assms(2)] by (simp add: log_entry_def emit_def tick_def)

end
