(* ===== verification/Calibrate.thy ===== *)
theory Calibrate
  imports Psi
begin

text \<open>
  Passive calibration (\<open>mgd/src/engine/calibrate.rs\<close>): seconds-weighted histograms of the pressure
  samples taken while the daemon does not intervene, and the thresholds derived from their
  percentiles. The TOML serialiser and parser are arguments, for they are a library the source calls.
\<close>

section \<open>The accumulator\<close>

definition BINS :: nat where "BINS = 100"
definition STALL_FULL_PCT :: f64 where "STALL_FULL_PCT = f64_lit 1"
definition ELEVATED_MARGIN_PCT :: f64 where "ELEVATED_MARGIN_PCT = f64_lit 2"
definition MIN_OBSERVED_SECS :: u64 where "MIN_OBSERVED_SECS = 24 * 3600"
definition MIN_STALL_EVENTS :: u32 where "MIN_STALL_EVENTS = 10"
definition MIN_STALL_SECS :: u64 where "MIN_STALL_SECS = 60"

record calibrator_state =
  benign_secs :: "u64 list"
  stall_secs :: "u64 list"
  full_secs :: "u64 list"
  observed_secs :: u64
  stall_events :: u32
  max_full_avg10 :: f64

definition calibrator_state_default :: calibrator_state where
  "calibrator_state_default = \<lparr>benign_secs = replicate BINS 0, stall_secs = replicate BINS 0,
     full_secs = replicate BINS 0, observed_secs = 0, stall_events = 0, max_full_avg10 = Fin 0\<rparr>"

record suggestion =
  sg_elevated :: f64
  sg_full_critical :: f64
  sg_high :: f64
  sg_critical :: f64
  sg_emergency :: f64
  sg_observed_hours :: f64
  sg_stall_events :: u32
  sg_benign_p95 :: f64
  sg_stall_onset_p10 :: f64

record calibrator =
  cal_state :: calibrator_state
  cal_in_stall :: bool
  cal_dirty :: bool

definition bin :: "f64 \<Rightarrow> nat" where
  "bin pct = min (unat (f64_to_u64 (fl_max pct (Fin 0)))) (BINS - 1)"

definition calibrator_new :: calibrator where
  "calibrator_new = \<lparr>cal_state = calibrator_state_default, cal_in_stall = False, cal_dirty = False\<rparr>"

definition from_state :: "calibrator_state \<Rightarrow> calibrator" where
  "from_state st =
     (if length (benign_secs st) \<noteq> BINS \<or> length (stall_secs st) \<noteq> BINS \<or> length (full_secs st) \<noteq> BINS
      then calibrator_new
      else \<lparr>cal_state = st, cal_in_stall = False, cal_dirty = False\<rparr>)"

definition add_at :: "nat \<Rightarrow> u64 \<Rightarrow> u64 list \<Rightarrow> u64 list" where
  "add_at b w h = h[b := sat_add (h ! b) w]"

definition cal_observe :: "f64 \<Rightarrow> f64 \<Rightarrow> bool \<Rightarrow> u64 \<Rightarrow> calibrator \<Rightarrow> calibrator" where
  "cal_observe some full intervention_active weight c =
     (let stalling = fl_ge full STALL_FULL_PCT in
      if intervention_active then c\<lparr>cal_in_stall := stalling\<rparr>
      else
        let st = cal_state c;
            st = (if stalling \<and> \<not> cal_in_stall c then st\<lparr>stall_events := sat_add (stall_events st) 1\<rparr> else st);
            st = st\<lparr>observed_secs := sat_add (observed_secs st) weight\<rparr>;
            st = (if fl_gt full (max_full_avg10 st) then st\<lparr>max_full_avg10 := full\<rparr> else st);
            st = (if stalling
                  then st\<lparr>stall_secs := add_at (bin some) weight (stall_secs st),
                          full_secs := add_at (bin full) weight (full_secs st)\<rparr>
                  else st\<lparr>benign_secs := add_at (bin some) weight (benign_secs st)\<rparr>)
        in \<lparr>cal_state = st, cal_in_stall = stalling, cal_dirty = True\<rparr>)"

text \<open>\<open>unwrap_or_default\<close> of the serialiser's result, and \<open>ok().map(from_state)\<close> of the parser's.\<close>

definition to_toml :: "(calibrator_state \<Rightarrow> string option) \<Rightarrow> calibrator \<Rightarrow> string \<times> calibrator" where
  "to_toml ser c = (case ser (cal_state c) of None \<Rightarrow> [] | Some t \<Rightarrow> t, c\<lparr>cal_dirty := False\<rparr>)"

definition from_toml :: "(string \<Rightarrow> calibrator_state option) \<Rightarrow> string \<Rightarrow> calibrator option" where
  "from_toml parse s = map_option from_state (parse s)"

section \<open>Percentiles and the suggestion\<close>

text \<open>The sums wrap, as those of a release build do.\<close>

fun percentile_walk :: "u64 \<Rightarrow> nat \<Rightarrow> u64 \<Rightarrow> u64 list \<Rightarrow> f64" where
  "percentile_walk target i cum [] = f64_of_nat BINS"
| "percentile_walk target i cum (w # ws) =
     (if target \<le> cum + w then f64_of_nat (i + 1) else percentile_walk target (i + 1) (cum + w) ws)"

definition percentile :: "u64 list \<Rightarrow> f64 \<Rightarrow> f64 option" where
  "percentile hist pct =
     (let total = sum_list hist in
      if total = 0 then None
      else Some (percentile_walk (f64_to_u64 (f64_ceil (f64_div (f64_mul (f64_of_u64 total) pct) (f64_lit 100)))) 0 0 hist))"

definition suggest :: "calibrator \<Rightarrow> suggestion option" where
  "suggest c =
     (let st = cal_state c; stall_total = sum_list (stall_secs st) in
      if observed_secs st < MIN_OBSERVED_SECS \<or> stall_events st < MIN_STALL_EVENTS \<or> stall_total < MIN_STALL_SECS
      then None
      else
        let benign_p95 = (case percentile (benign_secs st) (f64_lit 95) of None \<Rightarrow> Fin 0 | Some v \<Rightarrow> v);
            stall_onset_p10 = (case percentile (stall_secs st) (f64_lit 10) of None \<Rightarrow> f64_lit 100 | Some v \<Rightarrow> v);
            elevated = fl_clamp (f64_lit 2) (f64_lit 15) (f64_add benign_p95 ELEVATED_MARGIN_PCT);
            elevated = (if fl_lt stall_onset_p10 elevated then fl_max stall_onset_p10 (f64_lit 2) else elevated);
            full_critical =
              fl_clamp (f64_lit 5) (f64_lit 50)
                (case percentile (full_secs st) (f64_lit 95) of None \<Rightarrow> f64_lit 20 | Some v \<Rightarrow> v);
            scale = f64_div elevated (f64_lit 5);
            emergency = fl_min (f64_mul (f64_lit 70) scale) (f64_lit 100);
            critical = fl_min (f64_mul (f64_lit 50) scale) (f64_sub emergency (f64_lit 1));
            high = fl_min (f64_mul (f64_lit 25) scale) (f64_sub critical (f64_lit 1))
        in Some \<lparr>sg_elevated = elevated, sg_full_critical = full_critical, sg_high = high,
             sg_critical = critical, sg_emergency = emergency,
             sg_observed_hours = f64_div (f64_of_u64 (observed_secs st)) (f64_lit 3600),
             sg_stall_events = stall_events st, sg_benign_p95 = benign_p95, sg_stall_onset_p10 = stall_onset_p10\<rparr>)"

text \<open>The thresholds a suggestion stands for.\<close>

definition suggested :: "suggestion \<Rightarrow> psi_thresholds" where
  "suggested s = \<lparr>elevated_pct = sg_elevated s, high_pct = sg_high s, critical_pct = sg_critical s,
     emergency_pct = sg_emergency s, full_critical_pct = sg_full_critical s\<rparr>"

section \<open>The suggestion file\<close>

text \<open>\<open>{:.1}\<close>: the exact value rounded to one decimal, ties to even.\<close>

definition fmt1 :: "f64 \<Rightarrow> string" where
  "fmt1 x = (case x of NaN \<Rightarrow> ''NaN'' | PosInf \<Rightarrow> ''inf'' | NegInf \<Rightarrow> ''-inf''
   | Fin q \<Rightarrow> (let n = nat \<bar>rne (10 * q)\<bar> in
       (if q < 0 then ''-'' else []) @ show_nat (n div 10) @ ''.'' @ show_nat (n mod 10)))"

definition suggestion_lines :: "suggestion \<Rightarrow> psi_thresholds \<Rightarrow> u64 \<Rightarrow> string list" where
  "suggestion_lines s current generated_unix_secs =
      [''# Generated by mgd passive calibration (unix time '' @ show_nat (unat generated_unix_secs) @ '')'',
       ''# Observed: '' @ fmt1 (sg_observed_hours s) @ ''h of untreated pressure, ''
         @ show_nat (unat (sg_stall_events s)) @ '' stall episodes.'',
       ''#   benign some_avg10 p95 (noise ceiling) = '' @ fmt1 (sg_benign_p95 s) @ ''%'',
       ''#   stall-onset some_avg10 p10            = '' @ fmt1 (sg_stall_onset_p10 s) @ ''%'',
       ''#'',
       ''# Review, then paste into ~/.config/mgd/priorities.toml and run: mgctl reload'',
       ''# (elevated_pct also re-arms the kernel trigger on daemon restart only.)'',
       [],
       ''[psi]'',
       ''elevated_pct      = '' @ fmt1 (sg_elevated s) @ ''    # current: '' @ fmt1 (elevated_pct current),
       ''full_critical_pct = '' @ fmt1 (sg_full_critical s) @ ''    # current: '' @ fmt1 (full_critical_pct current),
       [],
       ''# Upper tiers scaled from elevated_pct by the default ratios. Passive'',
       ''# observation can'' @ [CHR 0x27] @ ''t validate them (the daemon'' @ [CHR 0x27] @ ''s own interventions cap'',
       ''# how high pressure climbs) '' @ [CHR 0xE2, CHR 0x80, CHR 0x94] @ '' uncomment only if you trust the scaling.'',
       ''#high_pct      = '' @ fmt1 (sg_high s) @ ''    # current: '' @ fmt1 (high_pct current),
       ''#critical_pct  = '' @ fmt1 (sg_critical s) @ ''    # current: '' @ fmt1 (critical_pct current),
       ''#emergency_pct = '' @ fmt1 (sg_emergency s) @ ''    # current: '' @ fmt1 (emergency_pct current)]"

definition render_suggestion :: "suggestion \<Rightarrow> psi_thresholds \<Rightarrow> u64 \<Rightarrow> string" where
  "render_suggestion s current generated_unix_secs =
     concat (map (\<lambda>l. l @ [CHR 0x0A]) (suggestion_lines s current generated_unix_secs))"

section \<open>The histograms keep their width\<close>

definition calibrator_ok :: "calibrator \<Rightarrow> bool" where
  "calibrator_ok c \<longleftrightarrow> length (benign_secs (cal_state c)) = BINS \<and> length (stall_secs (cal_state c)) = BINS
     \<and> length (full_secs (cal_state c)) = BINS"

lemma bin_bound [simp]: "bin x < BINS"
  by (simp add: bin_def BINS_def)

lemma length_add_at [simp]: "length (add_at b w h) = length h"
  by (simp add: add_at_def)

lemma calibrator_ok_new [simp, intro]: "calibrator_ok calibrator_new"
  by (simp add: calibrator_ok_def calibrator_new_def calibrator_state_default_def)

lemma calibrator_ok_from_state: "calibrator_ok (from_state st)"
  by (simp add: from_state_def) (simp add: calibrator_ok_def)

lemma calibrator_ok_from_toml: "from_toml parse s = Some c \<Longrightarrow> calibrator_ok c"
  by (auto simp: from_toml_def calibrator_ok_from_state)

lemma calibrator_ok_observe: "calibrator_ok c \<Longrightarrow> calibrator_ok (cal_observe some full act w c)"
  by (auto simp: calibrator_ok_def cal_observe_def Let_def)

lemma calibrator_ok_to_toml: "calibrator_ok c \<Longrightarrow> calibrator_ok (snd (to_toml ser c))"
  by (simp add: calibrator_ok_def to_toml_def)

section \<open>What the histograms hold\<close>

text \<open>Their mass as a natural number, saturation aside: the seconds observed.\<close>

definition mass :: "u64 list \<Rightarrow> nat" where
  "mass h = sum_list (map unat h)"

definition accounted_secs :: "calibrator \<Rightarrow> bool" where
  "accounted_secs c \<longleftrightarrow> mass (benign_secs (cal_state c)) + mass (stall_secs (cal_state c))
     = unat (observed_secs (cal_state c)) \<and> mass (full_secs (cal_state c)) = mass (stall_secs (cal_state c))"

lemma mass_split: "b < length h \<Longrightarrow> mass (h[b := v]) + unat (h ! b) = mass h + unat v"
  by (induction h arbitrary: b) (auto simp: mass_def split: nat.split)

lemma mass_ge: "b < length h \<Longrightarrow> unat (h ! b) \<le> mass h"
  unfolding mass_def by (intro member_le_sum_list) auto

lemma sat_add_exact: "unat a + unat b < 2 ^ 64 \<Longrightarrow> unat (sat_add a b :: u64) = unat a + unat b"
  by (simp add: sat_simps)

lemma mass_add_at:
  assumes "b < length h" and "mass h + unat w < 2 ^ 64"
  shows "mass (add_at b w h) = mass h + unat w"
proof -
  have "unat (h ! b) + unat w < 2 ^ 64" using mass_ge [OF assms(1)] assms(2) by simp
  from mass_split [OF assms(1), of "sat_add (h ! b) w"] sat_add_exact [OF this] show ?thesis
    by (simp add: add_at_def)
qed

lemma accounted_observe:
  assumes "calibrator_ok c" and "accounted_secs c" and "unat (observed_secs (cal_state c)) + unat w < 2 ^ 64"
  shows "accounted_secs (cal_observe some full act w c)"
  using assms
  by (auto simp: accounted_secs_def calibrator_ok_def cal_observe_def Let_def mass_add_at sat_add_exact)

lemma mass_replicate [simp]: "mass (replicate n 0) = 0"
  by (induction n) (simp_all add: mass_def)

lemma accounted_new: "accounted_secs calibrator_new"
  by (simp add: accounted_secs_def calibrator_new_def calibrator_state_default_def)

lemma sum_list_mass: "mass h < 2 ^ 64 \<Longrightarrow> unat (sum_list h) = mass h"
proof (induction h)
  case (Cons w h)
  then have "unat (sum_list h) = mass h" "unat w + mass h < 2 ^ 64" by (simp_all add: mass_def)
  then show ?case by (simp add: mass_def unat_word_ariths)
qed (simp add: mass_def)

section \<open>The percentile is the upper edge of the bin that reaches the target\<close>

lemma percentile_walk_spec:
  assumes "unat cum + mass h < 2 ^ 64"
  shows "percentile_walk target i cum h =
    (if \<exists>k. k < length h \<and> unat target \<le> unat cum + mass (take (Suc k) h)
     then f64_of_nat (i + Suc (LEAST k. unat target \<le> unat cum + mass (take (Suc k) h)))
     else f64_of_nat BINS)"
  using assms
proof (induction h arbitrary: i cum)
  case (Cons w h)
  have add: "unat (cum + w) = unat cum + unat w"
    using Cons.prems by (simp add: mass_def unat_word_ariths)
  have step: "unat cum + mass (take (Suc k) (w # h)) = unat (cum + w) + mass (take k h)" for k
    by (simp add: add mass_def)
  show ?case
  proof (cases "target \<le> cum + w")
    case True
    then have "unat target \<le> unat cum + mass (take (Suc 0) (w # h))"
      by (simp add: word_le_nat_alt mass_def add)
    then show ?thesis using True by (auto simp: Least_eq_0)
  next
    case False
    then have no: "\<not> unat target \<le> unat (cum + w) + mass (take 0 h)"
      by (simp add: word_le_nat_alt mass_def)
    have shift: "(LEAST k. unat target \<le> unat cum + mass (take (Suc k) (w # h)))
        = Suc (LEAST k. unat target \<le> unat (cum + w) + mass (take (Suc k) h))"
      if "unat target \<le> unat (cum + w) + mass (take (Suc k) h)" for k
      unfolding step by (rule Least_Suc) (use that no in auto)
    have ex: "(\<exists>k. k < length (w # h) \<and> unat target \<le> unat cum + mass (take (Suc k) (w # h)))
        \<longleftrightarrow> (\<exists>k. k < length h \<and> unat target \<le> unat (cum + w) + mass (take (Suc k) h))"
      unfolding step using no by (metis Suc_less_eq length_Cons not0_implies_Suc)
    have "unat (cum + w) + mass h < 2 ^ 64"
      using Cons.prems by (simp add: add mass_def)
    note ih = Cons.IH [OF this, of "i + 1"]
    show ?thesis
    proof (cases "\<exists>k. k < length h \<and> unat target \<le> unat (cum + w) + mass (take (Suc k) h)")
      case True
      then obtain k where "unat target \<le> unat (cum + w) + mass (take (Suc k) h)" by blast
      with ih True \<open>\<not> target \<le> cum + w\<close> show ?thesis
        unfolding percentile_walk.simps ex by (simp only: shift if_True if_False) simp
    next
      case False
      with ih \<open>\<not> target \<le> cum + w\<close> show ?thesis
        unfolding percentile_walk.simps ex by (simp only: if_False)
    qed
  qed
qed simp

lemma percentile_walk_int:
  "\<exists>k. 1 \<le> k \<and> k \<le> max BINS (i + length h) \<and> percentile_walk target i cum h = f64_of_nat k"
proof (induction h arbitrary: i cum)
  case Nil
  show ?case by (rule exI [of _ BINS]) (simp add: BINS_def)
next
  case (Cons w h)
  from Cons.IH [of "i + 1" "cum + w"] show ?case by (auto intro: exI [of _ "Suc i"])
qed

lemma percentile_int:
  assumes "percentile h pct = Some v" and "length h = BINS"
  shows "\<exists>k. 1 \<le> k \<and> k \<le> 100 \<and> v = Fin (of_nat k)"
proof -
  from assms(1) obtain t where v: "v = percentile_walk t 0 0 h"
    by (auto simp: percentile_def Let_def split: if_splits)
  from percentile_walk_int [of 0 h t 0] assms(2) obtain k
    where k: "1 \<le> k" "k \<le> 100" "v = f64_of_nat k" by (auto simp: v BINS_def)
  then show ?thesis using f64_of_nat_exact [of k] by auto
qed

section \<open>A suggestion is usable\<close>

text \<open>Whatever the histograms hold, the ladder is built from one of fourteen values.\<close>

lemma elevated_int:
  assumes "b = Fin 0 \<or> (\<exists>k \<ge> 1. k \<le> 100 \<and> b = Fin (of_nat k))"
    and "v = f64_lit 100 \<or> (\<exists>k \<ge> 1. k \<le> 100 \<and> v = Fin (of_nat k))"
  defines "e \<equiv> fl_clamp (f64_lit 2) (f64_lit 15) (f64_add b ELEVATED_MARGIN_PCT)"
  shows "\<exists>k. 2 \<le> k \<and> k \<le> 15 \<and> (if fl_lt v e then fl_max v (f64_lit 2) else e) = Fin (of_nat k)"
proof -
  have lits: "f64_lit 2 = Fin 2" "f64_lit 15 = Fin 15" "f64_lit 100 = Fin 100" "ELEVATED_MARGIN_PCT = Fin 2"
    by (simp_all add: ELEVATED_MARGIN_PCT_def f64_eval)
  from assms(1) obtain i where b: "b = Fin (of_nat i)" "i \<le> 100" by (auto intro: that [of 0])
  from assms(2) obtain j where v: "v = Fin (of_nat j)" "j \<le> 100"
    by (auto simp: lits intro: that [of 100])
  have "f64_add b (Fin 2) = f64_of_nat (i + 2)"
    by (simp add: b f64_of_nat_def add.commute)
  also have "\<dots> = Fin (of_nat (i + 2))" using b by (simp add: f64_of_nat_exact)
  finally have sum: "f64_add b (Fin 2) = Fin (of_nat (i + 2))" .
  have e: "e = Fin (of_nat (min 15 (i + 2)))"
    unfolding e_def lits sum by (auto simp: fl_clamp_def min_def)
  show ?thesis
    by (rule exI [of _ "if j < min 15 (i + 2) then max j 2 else min 15 (i + 2)"])
      (auto simp: e v lits fl_max_def max_def)
qed

lemma fl_min_fin [simp]: "fl_min (Fin a) (Fin b) = Fin (min a b)"
  by (simp add: fl_min_def min_def)

lemma rnd64_scaled: "\<bar>m\<bar> \<le> 2 ^ 53 \<Longrightarrow> rnd64 (of_int m / 2) = of_int m / 2"
  "\<bar>m\<bar> \<le> 2 ^ 53 \<Longrightarrow> rnd64 (of_int m / 8) = of_int m / 8"
proof -
  have "(2 powi (- 1) :: rat) = 1 / 2" "(2 powi (- 3) :: rat) = 1 / 8"
    by (simp_all add: power_int_minus)
  then show "\<bar>m\<bar> \<le> 2 ^ 53 \<Longrightarrow> rnd64 (of_int m / 2) = of_int m / 2"
    "\<bar>m\<bar> \<le> 2 ^ 53 \<Longrightarrow> rnd64 (of_int m / 8) = of_int m / 8"
    using rnd_dyadic [of m 53 "- 1074" "- 1"] rnd_dyadic [of m 53 "- 1074" "- 3"]
    by (simp_all add: rnd64_def)
qed

lemma rnd64_ge: "of_int m \<le> x \<Longrightarrow> \<bar>m\<bar> \<le> 2 ^ 53 \<Longrightarrow> of_int m \<le> rnd64 x"
  and rnd64_le: "x \<le> of_int m \<Longrightarrow> \<bar>m\<bar> \<le> 2 ^ 53 \<Longrightarrow> rnd64 x \<le> of_int m"
  by (rule r64.ge_exact; simp) (rule r64.le_exact; simp)

text \<open>Taking one off a small number strictly lowers it, although the result is rounded.\<close>

lemma rnd64_pred:
  assumes "0 \<le> x" and "x \<le> 1000"
  shows "rnd64 (x - 1) < x"
proof -
  define m where "m = \<lceil>2 * (x - 1)\<rceil>"
  have c: "of_int m - 1 < 2 * (x - 1)" "2 * (x - 1) \<le> of_int m"
    using ceiling_correct [of "2 * (x - 1)"] by (simp_all add: m_def)
  define y :: rat where "y = of_int m"
  have y: "y - 1 < 2 * x - 2" "2 * x - 2 \<le> y" using c by (simp_all add: y_def)
  then have "- 2 \<le> y" "y \<le> 2000" using assms by (linarith, linarith)
  then have "- 2 \<le> m" "m \<le> 2000" by (simp_all add: y_def)
  moreover have "x - 1 \<le> y / 2" "y / 2 < x" using y by simp_all
  ultimately have m: "x - 1 \<le> of_int m / 2" "of_int m / 2 < x" "\<bar>m\<bar> \<le> 2 ^ 53"
    by (simp_all add: y_def)
  from r64.le_exact [OF rnd64_scaled(1) [OF m(3)] m(1)] m(2) show ?thesis by linarith
qed

lemma ladder_valid:
  assumes "2 \<le> k" and "k \<le> (15 :: nat)"
  defines "scale \<equiv> f64_div (Fin (of_nat k)) (f64_lit 5)"
  defines "m \<equiv> fl_min (f64_mul (f64_lit 70) scale) (f64_lit 100)"
  defines "c \<equiv> fl_min (f64_mul (f64_lit 50) scale) (f64_sub m (f64_lit 1))"
  defines "h \<equiv> fl_min (f64_mul (f64_lit 25) scale) (f64_sub c (f64_lit 1))"
  shows "fl_lt (Fin (of_nat k)) h \<and> fl_lt h c \<and> fl_lt c m \<and> fl_le m (f64_lit 100)"
proof -
  define r :: rat where "r = of_nat k"
  define s where "s = rnd64 (r / 5)"
  have r: "2 \<le> r" "r \<le> 15" using assms(1,2) by (simp_all add: r_def)
  have "rnd64 (of_int (int k) / 8) \<le> s"
    unfolding s_def using r by (intro r64.mono) (simp add: r_def)
  then have s: "r / 8 \<le> s" "s \<le> 4"
    using r rnd64_scaled(2) [of "int k"] assms(2) rnd64_le [of "r / 5" 4] by (simp_all add: r_def s_def)
  define M where "M = min (rnd64 (70 * s)) 100"
  define C where "C = min (rnd64 (50 * s)) (rnd64 (M - 1))"
  define H where "H = min (rnd64 (25 * s)) (rnd64 (C - 1))"
  have M: "of_int (min (8 * int k) 100) \<le> M" "M \<le> 100"
    using rnd64_ge [of "8 * int k" "70 * s"] s r assms(2) by (auto simp: M_def r_def)
  then have "0 \<le> M" using assms(1) by (simp add: min_def split: if_splits)
  with M(2) have M1: "rnd64 (M - 1) < M" by (intro rnd64_pred) simp_all
  have C: "of_int (min (6 * int k) 99) \<le> C" "C < M"
    using rnd64_ge [of "6 * int k" "50 * s"] rnd64_ge [of "min (8 * int k) 100 - 1" "M - 1"]
      M1 M s r assms(1,2) by (auto simp: C_def r_def min_less_iff_disj)
  then have "0 \<le> C" using assms(1) by (simp add: min_def split: if_splits)
  with C(2) M(2) have C1: "rnd64 (C - 1) < C" by (intro rnd64_pred) simp_all
  have H: "r < H" "H < C"
    using rnd64_ge [of "3 * int k" "25 * s"] rnd64_ge [of "min (6 * int k) 99 - 1" "C - 1"]
      C1 C M s r assms(1,2) by (auto simp: H_def r_def min_less_iff_disj)
  have lits: "f64_lit 5 = Fin 5" "f64_lit 70 = Fin 70" "f64_lit 100 = Fin 100" "f64_lit 50 = Fin 50"
    "f64_lit 25 = Fin 25" "f64_lit 1 = Fin 1"
    by (simp_all add: f64_eval)
  have "scale = Fin s" using r by (simp add: scale_def lits s_def r_def [symmetric] fl_fin)
  moreover from this have "m = Fin M" using s r by (simp add: m_def lits M_def fl_fin)
  moreover from calculation have "c = Fin C" using s r M by (simp add: c_def lits C_def fl_fin)
  moreover from calculation have "h = Fin H" using s r M C by (simp add: h_def lits H_def fl_fin)
  ultimately show ?thesis using M C H by (simp add: lits r_def)
qed

lemma suggest_ladder:
  assumes "calibrator_ok c" and "suggest c = Some s"
  obtains k where "2 \<le> k" "k \<le> 15" "sg_elevated s = Fin (of_nat k)"
    "fl_lt (sg_elevated s) (sg_high s)" "fl_lt (sg_high s) (sg_critical s)"
    "fl_lt (sg_critical s) (sg_emergency s)" "fl_le (sg_emergency s) (f64_lit 100)"
    "fl_le (f64_lit 5) (sg_full_critical s)" "fl_le (sg_full_critical s) (f64_lit 50)"
proof -
  define b where "b = (case percentile (benign_secs (cal_state c)) (f64_lit 95) of None \<Rightarrow> Fin 0 | Some v \<Rightarrow> v)"
  define v where "v = (case percentile (stall_secs (cal_state c)) (f64_lit 10) of None \<Rightarrow> f64_lit 100 | Some v \<Rightarrow> v)"
  define f where "f = (case percentile (full_secs (cal_state c)) (f64_lit 95) of None \<Rightarrow> f64_lit 20 | Some v \<Rightarrow> v)"
  have w: "length (benign_secs (cal_state c)) = BINS" "length (stall_secs (cal_state c)) = BINS"
    "length (full_secs (cal_state c)) = BINS"
    using assms(1) by (simp_all add: calibrator_ok_def)
  have b': "b = Fin 0 \<or> (\<exists>k \<ge> 1. k \<le> 100 \<and> b = Fin (of_nat k))"
    using w(1) by (auto simp: b_def split: option.split dest: percentile_int)
  have v': "v = f64_lit 100 \<or> (\<exists>k \<ge> 1. k \<le> 100 \<and> v = Fin (of_nat k))"
    using w(2) by (auto simp: v_def split: option.split dest: percentile_int)
  have "f \<noteq> NaN"
    using w(3) by (auto simp: f_def f64_lit_def split: option.split dest: percentile_int)
  then have full: "fl_le (f64_lit 5) (fl_clamp (f64_lit 5) (f64_lit 50) f)"
    "fl_le (fl_clamp (f64_lit 5) (f64_lit 50) f) (f64_lit 50)"
    by (cases f; simp add: fl_clamp_def f64_eval)+
  from elevated_int [OF b' v'] obtain k where k: "2 \<le> k" "k \<le> 15"
    "(if fl_lt v (fl_clamp (f64_lit 2) (f64_lit 15) (f64_add b ELEVATED_MARGIN_PCT))
      then fl_max v (f64_lit 2) else fl_clamp (f64_lit 2) (f64_lit 15) (f64_add b ELEVATED_MARGIN_PCT)) = Fin (of_nat k)"
    by blast
  note s = assms(2) [unfolded suggest_def Let_def, folded b_def v_def f_def, unfolded k(3)]
  show thesis
    using s ladder_valid [OF k(1,2)] full
    by (intro that [OF k(1,2)]) (auto split: if_splits)
qed

lemma suggest_valid: "calibrator_ok c \<Longrightarrow> suggest c = Some s \<Longrightarrow> psi_valid (suggested s)"
proof -
  assume "calibrator_ok c" "suggest c = Some s"
  then obtain k where "2 \<le> k" "sg_elevated s = Fin (of_nat k)"
    "fl_lt (sg_elevated s) (sg_high s)" "fl_lt (sg_high s) (sg_critical s)"
    "fl_lt (sg_critical s) (sg_emergency s)" "fl_le (sg_emergency s) (f64_lit 100)"
    "fl_le (f64_lit 5) (sg_full_critical s)"
    by (rule suggest_ladder)
  moreover have "f64_lit 5 = Fin 5" "f64_lit 100 = Fin 100" by (simp_all add: f64_eval)
  ultimately show ?thesis
    by (cases "sg_full_critical s") (auto simp: psi_valid_def suggested_def)
qed

lemma suggest_gates:
  "suggest c \<noteq> None \<longleftrightarrow> 24 * 3600 \<le> unat (observed_secs (cal_state c)) \<and> 10 \<le> unat (stall_events (cal_state c))
     \<and> 60 \<le> unat (sum_list (stall_secs (cal_state c)))"
  by (auto simp: suggest_def Let_def MIN_OBSERVED_SECS_def MIN_STALL_EVENTS_def MIN_STALL_SECS_def
      word_less_nat_alt split: if_splits)

section \<open>Flushing and loading\<close>

lemma flush_load:
  assumes "calibrator_ok c" and "parse (fst (to_toml ser c)) = Some (cal_state c)"
  shows "\<exists>c'. from_toml parse (fst (to_toml ser c)) = Some c' \<and> cal_state c' = cal_state c \<and> suggest c' = suggest c"
  using assms by (auto simp: from_toml_def from_state_def calibrator_ok_def suggest_def)

end
