(* ===== verification/Samples.thy ===== *)
theory Samples
  imports Execute
begin

text \<open>
  A small concrete machine on which the properties are instantiated: a configuration with two applications and a protected one, two processes, and a
  system whose processes all read the same start time and which accepts every call.
\<close>

section \<open>A machine\<close>

definition sample_stat :: string where
  "sample_stat = ''7 (cache) S 1 1 1 0 -1 0 0 0 0 0 0 0 0 0 20 0 1 0 77 0 0''"

definition sample_os :: os_oracle where
  "sample_os = \<lparr>or_read = \<lambda>t path. if ends_with ''/stat'' path then Some sample_stat else None,
     or_write = \<lambda>t path data. None, or_exists = \<lambda>t path. True, or_has_subdir = \<lambda>t path. Some False,
     or_executable = \<lambda>t path. False, or_mkdir = \<lambda>t path. True, or_kill = \<lambda>t p sig. None,
     or_run = \<lambda>t args. RunExit (Some 0) [], or_clock = \<lambda>t. t * nanos_per_sec, or_unix = \<lambda>t. 1000,
     or_home = ''/home/u''\<rparr>"

definition sample_sys :: sys where
  "sample_sys = sys_start sample_os"

definition sample_env :: config_env where
  "sample_env = \<lparr>ce_toml = \<lambda>_. Inl [], ce_regex_new = \<lambda>p. Some (\<lambda>n. n = p), ce_calibration_toml = None,
     ce_proc_meminfo = None, ce_desktop_dirs = [], ce_suggestion = None, ce_user_config = None,
     ce_system_config = None, ce_builtin_config = []\<rparr>"

definition sample_raw :: raw_config where
  "sample_raw = raw_config_default\<lparr>raw_target_available_pct := Some (Fin 15),
     raw_apps := [\<lparr>ae_name = ''Cache'', ae_pattern = ''cache'', ae_priority = 90, ae_checkpoint = None,
        ae_auto_kill_idle_after = Some 60\<rparr>,
       \<lparr>ae_name = ''Editor'', ae_pattern = ''editor'', ae_priority = 65, ae_checkpoint = None,
        ae_auto_kill_idle_after = None\<rparr>],
     raw_protect := [\<lparr>pe_name = ''Shell'', pe_pattern = ''shell''\<rparr>]\<rparr>"

definition sample_config :: compiled_config where
  "sample_config = compile_raw sample_env sample_raw"

definition sample_process :: "pid \<Rightarrow> string \<Rightarrow> kb \<Rightarrow> process" where
  "sample_process p name rss = \<lparr>p_pid = p, p_name = name, p_exe_basename = None, p_rss = rss, p_swap = 0,
     p_oom_score = 0, p_cgroup_path = Some (''/app/'' @ name), p_cpu_pct = Fin 0, p_majflt = 0,
     p_cmdline = name\<rparr>"

definition sample_plan_env :: plan_env where
  "sample_plan_env = \<lparr>pe_active_pid = None, pe_gpu_kb = \<lambda>_. 0, pe_cp_eligible = \<lambda>_. True\<rparr>"

definition sample_procs :: "process list" where
  "sample_procs = [sample_process 8 ''shell'' 900000, sample_process 7 ''cache'' 500000]"

definition sample_freeze :: decision where
  "sample_freeze = make_decision (90, 500000, sample_process 7 ''cache'' 500000) ActFreeze 1400000"

section \<open>What it evaluates to\<close>

lemmas raw_defaults_eval = raw_config_default_def raw_defaults_default_def raw_zram_default_def
  raw_reclaim_default_def raw_cache_drop_default_def raw_idle_reclaim_default_def
  raw_spike_mode_default_def raw_throttle_default_def raw_leak_guard_default_def raw_psi_default_def

lemma sample_config_apps:
  "priority_for sample_config ''cache'' None = 90" "priority_for sample_config ''editor'' None = 65"
  "priority_for sample_config ''shell'' None = 50"
  "is_protected sample_config n \<longleftrightarrow> n = ''shell''" "checkpoint_override sample_config n = None"
  by (auto simp: sample_config_def compile_raw_def sample_raw_def sample_env_def raw_defaults_eval
      priority_for_def is_protected_def checkpoint_override_def desktop_priority_def scan_desktop_files_def
      compile_patterns_def List.map_filter_def hm_get_def)

lemma sample_config_fields:
  "cc_target_available_pct sample_config = Fin 15" "cc_psi sample_config = psi_default"
  "cc_spike_victim_min_rss_kb sample_config = 25600"
  "cc_entries sample_config = [(\<lambda>n. n = ''cache'', 90, None), (\<lambda>n. n = ''editor'', 65, None)]"
  "cc_auto_kill_rules sample_config = [(\<lambda>n. n = ''cache'', 60)]"
proof -
  have "raw_psi_default = psi_default" by (simp add: raw_psi_default_def psi_default_def)
  then show "cc_psi sample_config = psi_default"
    by (simp add: sample_config_def compile_raw_def sample_raw_def raw_config_default_def
        psi_default_valid split: prod.split)
qed (simp_all add: sample_config_def compile_raw_def compile_target_def sample_raw_def sample_env_def
    raw_config_default_def raw_spike_mode_default_def)

lemma sample_start_time [simp]: "read_start_time (Some sample_stat) = Some 77"
  by (simp add: sample_stat_def read_start_time_def text_eval)

lemma sample_reads_as: "reads_as sample_os 7 77"
  by (simp add: reads_as_def sample_os_def stat_path_def ends_with_def starts_with_def show_pid_def)

lemma sample_oracle [simp]: "sys_oracle sample_sys = sample_os" "sys_trace sample_sys = []" "sys_tick sample_sys = 0"
  "sys_foreground sample_sys = None"
  by (simp_all add: sample_sys_def sys_start_def)

lemma sample_plan_walk:
  "plan_walk sample_config sample_plan_env Elevated False 1400000
     [(90, 500000, sample_process 7 ''cache'' 500000), (50, 900000, sample_process 8 ''shell'' 900000)] =
   [sample_freeze]"
  by (simp add: plan_skips_def candidate_action_def sample_process_def sample_config_apps
      determine_process_action_def sample_plan_env_def make_decision_def freed_by_def Let_def i64_wrap_def
      sample_freeze_def)

lemma sample_plan: "plan sample_config sample_plan_env Elevated sample_procs 1000000 16000000 False = [sample_freeze]"
proof -
  have deficit: "calculate_ram_deficit_kb 1000000 16000000 (Fin 15) = 1400000"
    by (simp add: calculate_ram_deficit_kb_def i64_of_u64_def i64_wrap_def f64_eval)
  have cands: "candidates sample_config sample_plan_env False sample_procs =
    [(90, 500000, sample_process 7 ''cache'' 500000), (50, 900000, sample_process 8 ''shell'' 900000)]"
    by (simp add: candidates_def plan_candidate_def effective_priority_def footprint_def sample_process_def
        sample_procs_def sample_config_apps sample_plan_env_def kb_add_def sat_add_def)
  show ?thesis
    by (simp add: plan_def sample_config_fields deficit cands sample_plan_walk level_order del: plan_walk.simps)
qed

end
