(* ===== verification/Harmless.thy ===== *)
theory Harmless
  imports Reclaims Throttle Leak
begin

text \<open>
  Steps that stop nothing and leave the registry on disk alone. Most of what the daemon does is of
  this kind: reading, writing control files, continuing or ending processes, logging. Such a step
  keeps every account of the stopped processes, so the handlers of the maintenance thread, of the
  commands and of the cycle only have to be followed where a step is not harmless.
\<close>

named_theorems harmless_steps \<open>the operations that are harmless\<close>

section \<open>Calls\<close>

text \<open>Reading does nothing at all.\<close>

definition silent :: "sys \<Rightarrow> sys \<Rightarrow> bool" where
  "silent s s' \<longleftrightarrow> sys_oracle s' = sys_oracle s \<and> sys_trace s' = sys_trace s"

lemma silent_refl [simp, intro]: "silent s s"
  by (simp add: silent_def)

lemma silent_trans [trans]: "silent s s' \<Longrightarrow> silent s' s'' \<Longrightarrow> silent s s''"
  by (simp add: silent_def)

lemma silent_harmless: "silent s s' \<Longrightarrow> harmless s s'"
  by (simp add: silent_def harmless_same)

lemma silent_extends: "silent s s' \<Longrightarrow> extends P s s'"
  by (simp add: silent_def extends_same)

lemma silent_reads:
  "os_read path s = (c, s1) \<Longrightarrow> silent s s1"
  "os_exists path s = (b, s1) \<Longrightarrow> silent s s1"
  "os_executable path s = (b, s1) \<Longrightarrow> silent s s1"
  "os_clock s = (i, s1) \<Longrightarrow> silent s s1"
  "os_unix s = (u, s1) \<Longrightarrow> silent s s1"
  "elapsed t s = (i, s1) \<Longrightarrow> silent s s1"
  "start_time_of p s = (st, s1) \<Longrightarrow> silent s s1"
  "current_meminfo s = (mi, s1) \<Longrightarrow> silent s s1"
  "read_pressure src s = (pr, s1) \<Longrightarrow> silent s s1"
  "zram_devices s = (ds, s1) \<Longrightarrow> silent s s1"
  "zram_used_mb d s = (mb, s1) \<Longrightarrow> silent s s1"
  "zram_orig_mb d s = (mb, s1) \<Longrightarrow> silent s s1"
  by (auto simp: silent_def elapsed_def start_time_of_def current_meminfo_def read_pressure_def
      zram_devices_def zram_used_mb_def zram_orig_mb_def os_defs Let_def split: prod.splits)

lemma silent_sum:
  assumes "\<And>d s. silent s (snd (f d s))"
  shows "silent s (snd (sum_devices f ds acc s))"
proof (induction ds arbitrary: acc s)
  case (Cons d ds)
  obtain r s1 where 1: "f d s = (r, s1)" by fastforce
  from silent_trans [OF assms [of s d] Cons.IH] show ?case by (simp add: 1)
qed simp

lemma silent_totals:
  "zram_used_mb_total s = (u, s1) \<Longrightarrow> silent s s1"
  "zram_orig_mb_total s = (u, s1) \<Longrightarrow> silent s s1"
proof -
  have f: "silent s (snd (zram_used_mb d s))" "silent s (snd (zram_orig_mb d s))" for d s
    by (metis silent_reads(11) prod.collapse, metis silent_reads(12) prod.collapse)
  obtain ds s0 where 0: "zram_devices s = (ds, s0)" by fastforce
  note z = silent_reads(10) [OF 0]
  show "zram_used_mb_total s = (u, s1) \<Longrightarrow> silent s s1"
    using silent_trans [OF z silent_sum [of zram_used_mb, OF f(1)], of ds 0]
    by (simp add: zram_used_mb_total_def 0)
  show "zram_orig_mb_total s = (u, s1) \<Longrightarrow> silent s s1"
    using silent_trans [OF z silent_sum [of zram_orig_mb, OF f(2)], of ds 0]
    by (simp add: zram_orig_mb_total_def 0)
qed

lemmas harmless_reads [harmless_steps] = silent_reads [THEN silent_harmless] silent_totals [THEN silent_harmless]

lemma harmless_calls [harmless_steps]:
  "os_mkdir path s = (b, s1) \<Longrightarrow> harmless s s1"
  "os_write path data s = (r, s1) \<Longrightarrow> harmless s s1"
  "os_run args s = (rr, s1) \<Longrightarrow> harmless s s1"
  by (auto simp: os_defs Let_def harmless_def harmless_effect_def extends_def stop_neutral_def not_saved_def)

lemma harmless_kill: "sig \<noteq> SIGSTOP \<Longrightarrow> os_kill t sig s = (r, s1) \<Longrightarrow> harmless s s1"
  by (auto simp: os_kill_def Let_def harmless_def harmless_effect_def extends_def stop_neutral_def not_saved_def)

lemma harmless_log: "harmless s (log_entry a p n s)"
  by (rule log_frame)

lemma harmless_tick: "harmless s (tick s)" and harmless_sleep: "harmless s (os_sleep s)"
  by (simp_all add: harmless_same os_sleep_def)

lemma harmless_after_log: "harmless (log_entry a p n s) s' \<Longrightarrow> harmless s s'"
  by (rule harmless_trans [OF harmless_log])

lemma harmless_push_event [harmless_steps]: "push_event a p n d q s = (q', s1) \<Longrightarrow> harmless s s1"
  by (auto simp: push_event_def Let_def dest: harmless_reads split: prod.splits)

lemma harmless_unfreeze [harmless_steps]: "unfreeze_checked p st s = (r, s1) \<Longrightarrow> harmless s s1"
  using checked_oracle(1) [of p st s] thawer.extends_only [of p s st]
  by (auto intro!: harmless_only [where P = "only_signals (uint p) {SIGCONT}"]
      simp: only_signals_def harmless_effect_def stop_neutral_def not_saved_def split: effect.splits)

text \<open>Writes to control groups.\<close>

lemma harmless_writes: "extends is_write s s' \<Longrightarrow> sys_oracle s' = sys_oracle s \<Longrightarrow> harmless s s'"
  by (rule harmless_only [where P = is_write])
    (auto simp: is_write_def harmless_effect_def stop_neutral_def not_saved_def split: effect.splits)

lemma write_if_exists_oracle [simp]: "sys_oracle (snd (write_if_exists f d s)) = sys_oracle s"
  by (auto simp: write_if_exists_def os_defs Let_def tick_def emit_def split: prod.split bool.split)

lemma harmless_write_file: "harmless s (snd (write_if_exists f d s))"
  by (rule harmless_writes) (auto intro: extends_mono [OF write_if_exists_extends] writes_only_is_write)

lemma harmless_cgroup [harmless_steps]:
  "write_cgroup_cpu_weight cg w s = (r, s1) \<Longrightarrow> harmless s s1"
  "write_cgroup_cpu_max cg l s = (r, s1) \<Longrightarrow> harmless s s1"
  "write_memory_max cg b s = (r, s1) \<Longrightarrow> harmless s s1"
  "reclaim_cgroup cg b s = (rr, s1) \<Longrightarrow> harmless s s1"
  using harmless_write_file harmless_writes [OF limit_extends(5) reclaim_oracle]
  by (metis write_cgroup_cpu_weight_def write_cgroup_cpu_max_def write_memory_max_def snd_conv)+

lemma harmless_restore_cgroup: "harmless s (restore_cgroup_cpu cg s)" "harmless s (restore_cgroup_memory cg s)"
  by (rule harmless_writes [OF restore_cpu_extends restore_cpu_oracle])
    (simp add: restore_cgroup_memory_def harmless_write_file)

end
