(* ===== verification/Maintenance.thy ===== *)
theory Maintenance
  imports Harmless Calibrate Plugin
begin

text \<open>
  The maintenance thread (\<open>mgd/src/maintenance.rs\<close>): ending idle processes, the reclaim of compressed
  swap through the privileged helper with its gates, and the persistence of the calibration. It runs
  once a minute and acts on processes only while the pressure is normal.
\<close>

section \<open>The gates of the reclaim\<close>

definition poll_secs :: u64 where "poll_secs = 60"
definition calibration_flush_secs :: u64 where "calibration_flush_secs = 600"
definition kill_reclaim_cooldown_secs :: u64 where "kill_reclaim_cooldown_secs = 120"

definition reclaim_helper_candidates :: "string list" where
  "reclaim_helper_candidates = [''/usr/local/bin/mgd-zram-reclaim'', ''/usr/bin/mgd-zram-reclaim'']"

record reclaim_gates =
  rg_swap_used_pct :: f64
  rg_zram_used_mb :: u64
  rg_zram_orig_mb :: u64
  rg_mem_available_mb :: u64
  rg_threshold_pct :: f64
  rg_min_zram_used_mb :: u64
  rg_headroom_mult :: f64

text \<open>The reason carries the numbers of its message.\<close>

datatype gate_refusal = SwapBelowThreshold f64 f64 | ZramBelowMinimum u64 u64 | InsufficientHeadroom u64 u64

definition reclaim_gates_pass :: "reclaim_gates \<Rightarrow> gate_refusal + unit" where
  "reclaim_gates_pass g =
     (if fl_lt (rg_swap_used_pct g) (rg_threshold_pct g)
      then Inl (SwapBelowThreshold (rg_swap_used_pct g) (rg_threshold_pct g))
      else if rg_zram_used_mb g < rg_min_zram_used_mb g
      then Inl (ZramBelowMinimum (rg_zram_used_mb g) (rg_min_zram_used_mb g))
      else let required_mb = f64_to_u64 (f64_mul (f64_of_u64 (rg_zram_orig_mb g)) (rg_headroom_mult g)) in
        if rg_mem_available_mb g \<le> required_mb
        then Inl (InsufficientHeadroom (rg_mem_available_mb g) required_mb) else Inr ())"

fun resolve_among :: "string list \<Rightarrow> sys \<Rightarrow> string option \<times> sys" where
  "resolve_among [] s = (None, s)"
| "resolve_among (p # ps) s = (case os_executable p s of
     (True, s1) \<Rightarrow> (Some p, s1) | (False, s1) \<Rightarrow> resolve_among ps s1)"

definition resolve_reclaim_helper :: "sys \<Rightarrow> string option \<times> sys" where
  "resolve_reclaim_helper s = resolve_among reclaim_helper_candidates s"

text \<open>\<open>None\<close> is success; a failure carries the exit code, if there is one.\<close>

definition run_reclaim_helper :: "string \<Rightarrow> sys \<Rightarrow> int option option \<times> sys" where
  "run_reclaim_helper path s = (case os_run [path] s of
     (RunFailed, s1) \<Rightarrow> (Some None, s1)
   | (RunExit code _, s1) \<Rightarrow> (if code = Some 0 then None else Some code, s1))"

definition arm_reclaim :: "u64 \<Rightarrow> sys \<Rightarrow> sys" where
  "arm_reclaim now s = s\<lparr>sys_last_reclaim := now\<rparr>"

definition disable_reclaim :: "sys \<Rightarrow> sys" where
  "disable_reclaim s = s\<lparr>sys_reclaim_disabled := True\<rparr>"

definition log_reclaim :: "sys \<Rightarrow> sys" where
  "log_reclaim s = log_entry LaReclaim 0 ''zram'' s"

definition reclaim_gate :: "sys \<Rightarrow> u64 \<times> bool" where
  "reclaim_gate s = (sys_last_reclaim s, sys_reclaim_disabled s)"

definition read_reclaim_gates :: "compiled_config \<Rightarrow> sys \<Rightarrow> reclaim_gates \<times> sys" where
  "read_reclaim_gates cfg s =
     (let (mi, s1) = current_meminfo s; (used, s2) = zram_used_mb_total s1; (orig, s3) = zram_orig_mb_total s2
      in (\<lparr>rg_swap_used_pct = swap_used_pct mi, rg_zram_used_mb = used, rg_zram_orig_mb = orig,
           rg_mem_available_mb = mi_available mi div 1024, rg_threshold_pct = cc_reclaim_threshold_pct cfg,
           rg_min_zram_used_mb = cc_reclaim_min_zram_used_mb cfg,
           rg_headroom_mult = cc_reclaim_headroom_mult cfg\<rparr>, s3))"

definition check_proactive_reclaim :: "memory_pressure \<Rightarrow> bool \<Rightarrow> compiled_config \<Rightarrow> sys \<Rightarrow> sys" where
  "check_proactive_reclaim pressure skip_calm_gate cfg s =
     (if \<not> cc_proactive_swap_reclaim cfg \<or> sys_reclaim_disabled s then s
      else if \<not> skip_calm_gate \<and> fl_ge (some_avg60 pressure) (f64_lit 5) then s
      else
        let cooldown = (if skip_calm_gate then min (cc_reclaim_cooldown_secs cfg) kill_reclaim_cooldown_secs
                        else cc_reclaim_cooldown_secs cfg);
            (now, s1) = os_unix s
        in if \<not> cooled_down (sys_last_reclaim s1) cooldown now then s1
           else (case resolve_reclaim_helper s1 of
               (None, s2) \<Rightarrow> log_reclaim (disable_reclaim s2)
             | (Some helper, s2) \<Rightarrow>
                 (let (gates, s3) = read_reclaim_gates cfg s2 in
                  case reclaim_gates_pass gates of
                    Inl _ \<Rightarrow> log_reclaim s3
                  | Inr _ \<Rightarrow>
                      (case run_reclaim_helper helper s3 of
                         (None, s4) \<Rightarrow> log_reclaim (snd (current_meminfo (arm_reclaim now s4)))
                       | (Some code, s4) \<Rightarrow>
                           (let s5 = log_reclaim s4 in
                            if code = Some 2 then disable_reclaim s5 else s5)))))"

section \<open>Ending idle processes\<close>

text \<open>The processes that can be identified, by PID and start time. The scan of the process list is the
argument \<open>procs\<close>.\<close>

fun live_keys :: "process list \<Rightarrow> sys \<Rightarrow> (pid \<times> u64, process) hmap \<times> sys" where
  "live_keys [] s = ([], s)"
| "live_keys (p # ps) s =
     (let (st, s1) = start_time_of (p_pid p) s; (m, s2) = live_keys ps s1
      in (case st of None \<Rightarrow> m | Some t \<Rightarrow> ((p_pid p, t), p) # m, s2))"

fun kill_idle ::
  "compiled_config \<Rightarrow> frozen_map \<Rightarrow> instant \<Rightarrow> ((pid \<times> u64) \<times> process) list \<Rightarrow> (pid \<times> u64, instant) hmap \<Rightarrow> sys \<Rightarrow>
     (pid \<times> u64, instant) hmap \<times> sys" where
  "kill_idle cfg fm now [] active s = (active, s)"
| "kill_idle cfg fm now ((key, p) # rest) active s = (case auto_kill_idle_after_for cfg (p_name p) of
     None \<Rightarrow> kill_idle cfg fm now rest active s
   | Some idle_secs \<Rightarrow>
       if is_frozen fm (p_pid p) then kill_idle cfg fm now rest active s
       else
         let active1 = (if fl_gt (p_cpu_pct p) (f32_lit (1 / 10)) then hm_insert key now active
                        else if hm_contains active key then active else hm_insert key now active);
             idle = as_secs (duration_since now (get_or active1 key now))
         in if unat idle_secs \<le> idle
            then kill_idle cfg fm now rest (hm_remove key active1)
                   (log_entry LaKill (p_pid p) (p_name p) (snd (os_kill (as_pid_t (p_pid p)) SIGTERM s)))
            else kill_idle cfg fm now rest active1 s)"

definition check_auto_kill_idle ::
  "compiled_config \<Rightarrow> process list \<Rightarrow> frozen_map \<Rightarrow> (pid \<times> u64, instant) hmap \<Rightarrow> sys \<Rightarrow>
     (pid \<times> u64, instant) hmap \<times> sys" where
  "check_auto_kill_idle cfg procs fm active s =
     (if cc_auto_kill_rules cfg = [] then (active, s)
      else let (now, s1) = os_clock s; (live, s2) = live_keys procs s1; (active1, s3) = kill_idle cfg fm now live active s2
           in (hm_retain (\<lambda>k _. k \<in> set (hm_keys live)) active1, s3))"

section \<open>Persisting the calibration\<close>

definition calibration_state_path :: "sys \<Rightarrow> string" where
  "calibration_state_path s = home_dir s @ ''/.local/share/mgd/calibration_state.toml''"

definition calibration_suggestion_path :: "sys \<Rightarrow> string" where
  "calibration_suggestion_path s = home_dir s @ ''/.local/share/mgd/calibration_suggestion.toml''"

definition load_calibrator :: "(string \<Rightarrow> calibrator_state option) \<Rightarrow> sys \<Rightarrow> calibrator \<times> sys" where
  "load_calibrator parse s =
     (let (content, s1) = os_read (calibration_state_path s) s
      in (case Option.bind content (from_toml parse) of Some c \<Rightarrow> c | None \<Rightarrow> calibrator_new, s1))"

definition flush_calibration ::
  "(calibrator_state \<Rightarrow> string option) \<Rightarrow> psi_thresholds \<Rightarrow> calibrator \<Rightarrow> sys \<Rightarrow> calibrator \<times> sys" where
  "flush_calibration ser psi cal s =
     (if \<not> cal_dirty cal then (cal, s)
      else
        let (state_toml, cal1) = to_toml ser cal; sug = suggest cal1;
            (_, s1) = os_mkdir (home_dir s @ ''/.local/share/mgd'') s
        in (cal1, (case os_write (calibration_state_path s1) state_toml s1 of
              (Some _, s2) \<Rightarrow> s2
            | (None, s2) \<Rightarrow> (case sug of
                None \<Rightarrow> s2
              | Some sg \<Rightarrow>
                  (let (now, s3) = os_unix s2; rendered = render_suggestion sg psi now;
                       path = calibration_suggestion_path s3; (old, s4) = os_read path s3
                   in if old = Some rendered then s4
                      else (case os_write path rendered s4 of
                          (None, s5) \<Rightarrow> log_entry LaCalibrate 0 ''psi'' s5
                        | (Some _, s5) \<Rightarrow> s5))))))"

section \<open>One turn of the thread\<close>

record maintenance =
  mt_last_flush :: instant
  mt_last_active :: "(pid \<times> u64, instant) hmap"

text \<open>\<open>kill_triggered\<close> is the flag the evictor sets, read and cleared at the start of the turn.\<close>

definition is_calm :: "psi_thresholds \<Rightarrow> mgd_error + memory_pressure \<Rightarrow> bool" where
  "is_calm psi pressure = (case pressure of Inl _ \<Rightarrow> False | Inr p \<Rightarrow> pressure_level_with p psi = Normal)"

definition maintenance_turn ::
  "(calibrator_state \<Rightarrow> string option) \<Rightarrow> string \<Rightarrow> compiled_config \<Rightarrow> process list \<Rightarrow> bool \<Rightarrow>
   frozen_map \<Rightarrow> checkpoint_map \<Rightarrow> calibrator \<Rightarrow> maintenance \<Rightarrow> sys \<Rightarrow> calibrator \<times> maintenance \<times> sys" where
  "maintenance_turn ser src cfg procs kill_triggered fm cm cal mt s =
     (let (pressure, s1) = read_pressure src s;
          calm = is_calm (cc_psi cfg) pressure;
          (_, s2) = os_clock s1;
          (active, s3) = (if calm then check_auto_kill_idle cfg procs fm (mt_last_active mt) s2
                          else (mt_last_active mt, s2));
          (cal1, s4) = (case pressure of
             Inr p \<Rightarrow> if calm
                then (cal_observe (some_avg10 p) (full_avg10 p) (0 < frozen_count fm \<or> 0 < checkpoint_count cm)
                        poll_secs cal, check_proactive_reclaim p False cfg s3)
                else (cal, s3)
           | Inl _ \<Rightarrow> (cal, s3));
          (since, s5) = elapsed (mt_last_flush mt) s4;
          (cal2, flushed, s6) =
            (if unat calibration_flush_secs \<le> as_secs since
             then let (now, t1) = os_clock s5; (c, t2) = flush_calibration ser (cc_psi cfg) cal1 t1 in (c, now, t2)
             else (cal1, mt_last_flush mt, s5));
          s7 = (case pressure of
             Inr p \<Rightarrow> if kill_triggered \<and> \<not> calm then check_proactive_reclaim p True cfg s6 else s6
           | Inl _ \<Rightarrow> s6)
      in (cal2, \<lparr>mt_last_flush = flushed, mt_last_active = active\<rparr>, os_sleep (snd (os_clock s7))))"

section \<open>The gates of the daemon imply the check of the helper\<close>

interpretation reclaim_gate: cooldown_gate sys_last_reclaim arm_reclaim
  by unfold_locales (simp_all add: arm_reclaim_def)

lemma required_covers_orig:
  assumes "rg_headroom_mult g = Fin m" "1 \<le> m" "unat (rg_zram_orig_mb g) \<le> 2 ^ 53"
  shows "rg_zram_orig_mb g \<le> f64_to_u64 (f64_mul (f64_of_u64 (rg_zram_orig_mb g)) (rg_headroom_mult g))"
proof -
  define n :: rat where "n = of_nat (unat (rg_zram_orig_mb g))"
  have n: "f64_of_u64 (rg_zram_orig_mb g) = Fin n"
    using assms(3) by (simp add: f64_of_u64_def f64_of_nat_exact n_def)
  have "0 \<le> n" by (simp only: n_def of_nat_0_le_iff)
  then have "n \<le> n * m" using assms(2) mult_left_mono [of 1 m n] by simp
  then have "fl_le (f64_round n) (f64_round (n * m))" by (rule f64_round_mono)
  moreover have "f64_round n = Fin n"
    using n by (simp add: f64_of_u64_def f64_of_nat_def n_def)
  ultimately have "fl_le (f64_of_u64 (rg_zram_orig_mb g)) (f64_mul (f64_of_u64 (rg_zram_orig_mb g)) (rg_headroom_mult g))"
    by (simp add: n assms(1))
  from f64_to_u64_mono [OF this] show ?thesis using u64_via_f64 [OF assms(3)] by simp
qed

lemma gates_headroom:
  assumes "reclaim_gates_pass g = Inr ()" "rg_headroom_mult g = Fin m" "1 \<le> m" "unat (rg_zram_orig_mb g) \<le> 2 ^ 53"
  shows "is_headroom_safe (rg_mem_available_mb g) (rg_zram_orig_mb g)"
  using assms(1) required_covers_orig [OF assms(2-4)]
  by (auto simp: reclaim_gates_pass_def is_headroom_safe_def Let_def not_le split: if_splits)

text \<open>Both read the same files: the parsers of the memory counters and the sums over the devices.\<close>

lemma mem_lines_disjoint: "strip_prefix ''MemAvailable:'' l = Some v \<Longrightarrow> strip_prefix ''MemTotal:'' l = None"
  by (cases l; cases "tl l"; cases "tl (tl l)"; cases "tl (tl (tl l))") (auto split: if_splits)

lemma meminfo_line_available:
  "mi_available (meminfo_line m l) =
     (case strip_prefix ''MemAvailable:'' l of None \<Rightarrow> mi_available m | Some v \<Rightarrow> parse_kb v)"
  by (auto simp: meminfo_line_def mem_lines_disjoint split: option.split)

lemma meminfo_available_last:
  "mi_available (foldl meminfo_line m ls) =
     (case rev (List.map_filter (strip_prefix ''MemAvailable:'') ls) of [] \<Rightarrow> mi_available m | v # _ \<Rightarrow> parse_kb v)"
proof (induction ls rule: rev_induct)
  case (snoc l ls)
  then show ?case
    by (simp add: meminfo_line_available List.map_filter_def split: option.split)
qed (simp add: List.map_filter_def)

lemma mem_available_agree:
  assumes "length (List.map_filter (strip_prefix ''MemAvailable:'') (lines content)) \<le> 1"
    and "mi_available (read_meminfo (Some content)) \<noteq> 0"
  shows "mem_available_mb (Some content) = Some (mi_available (read_meminfo (Some content)) div 1024)"
proof (cases "List.map_filter (strip_prefix ''MemAvailable:'') (lines content)")
  case Nil
  then show ?thesis using assms(2) by (simp add: read_meminfo_def meminfo_available_last mem_info_zero_def)
next
  case (Cons v vs)
  with assms(1) show ?thesis by (simp add: mem_available_mb_def read_meminfo_def meminfo_available_last)
qed

text \<open>A file system that does not change between the reads.\<close>

definition frozen_files :: "(string \<Rightarrow> string option) \<Rightarrow> sys \<Rightarrow> bool" where
  "frozen_files f s \<longleftrightarrow> (\<forall>t path. or_read (sys_oracle s) t path = f path)"

lemma frozen_read: "frozen_files f s \<Longrightarrow> os_read path s = (f path, tick s)" "frozen_files f (tick s) \<longleftrightarrow> frozen_files f s"
  by (simp_all add: frozen_files_def os_read_def)

lemma sum_devices_frozen:
  "frozen_files f s \<Longrightarrow> fst (sum_devices zram_orig_mb ds acc s) = acc + sum_list (List.map_filter (\<lambda>d.
     map_option (\<lambda>b. b div (1024 * 1024)) (Option.bind (f (mm_stat_path d)) parse_orig_data_bytes)) ds)"
proof (induction ds arbitrary: acc s)
  case (Cons d ds)
  have "zram_orig_mb d s = (map_option (\<lambda>b. b div (1024 * 1024)) (Option.bind (f (mm_stat_path d)) parse_orig_data_bytes), tick s)"
    by (simp add: zram_orig_mb_def frozen_read(1) [OF Cons.prems])
  with Cons.IH [of "tick s"] Cons.prems show ?case
    by (simp add: frozen_read(2) List.map_filter_def split: option.split)
qed (simp add: List.map_filter_def)

lemma read_gates_frozen:
  assumes "frozen_files f s" "read_reclaim_gates cfg s = (g, s')"
  shows "rg_mem_available_mb g = mi_available (read_meminfo (f ''/proc/meminfo'')) div 1024"
    and "rg_zram_orig_mb g = sum_list (List.map_filter (\<lambda>d.
       map_option (\<lambda>b. b div (1024 * 1024)) (Option.bind (f (mm_stat_path d)) parse_orig_data_bytes))
         (parse_zram_devices (or_empty (f ''/proc/swaps''))))"
    and "rg_headroom_mult g = cc_reclaim_headroom_mult cfg"
proof -
  obtain mi s1 where 1: "current_meminfo s = (mi, s1)" by fastforce
  obtain u s2 where 2: "zram_used_mb_total s1 = (u, s2)" by fastforce
  obtain orig s3 where 3: "zram_orig_mb_total s2 = (orig, s3)" by fastforce
  have f2: "frozen_files f s2"
    using assms(1) silent_totals(1) [OF 2] silent_reads(8) [OF 1]
    by (simp add: frozen_files_def silent_def)
  have "orig = fst (zram_orig_mb_total s2)" using 3 by simp
  also have "\<dots> = fst (sum_devices zram_orig_mb (parse_zram_devices (or_empty (f ''/proc/swaps''))) 0 (tick s2))"
    by (simp add: zram_orig_mb_total_def zram_devices_def frozen_read(1) [OF f2])
  finally have "orig = sum_list (List.map_filter (\<lambda>d.
       map_option (\<lambda>b. b div (1024 * 1024)) (Option.bind (f (mm_stat_path d)) parse_orig_data_bytes))
         (parse_zram_devices (or_empty (f ''/proc/swaps''))))"
    using f2 by (simp add: sum_devices_frozen frozen_read(2))
  moreover have "mi = read_meminfo (f ''/proc/meminfo'')"
    using 1 by (simp add: current_meminfo_def frozen_read(1) [OF assms(1)])
  ultimately show "rg_mem_available_mb g = mi_available (read_meminfo (f ''/proc/meminfo'')) div 1024"
    "rg_zram_orig_mb g = sum_list (List.map_filter (\<lambda>d.
       map_option (\<lambda>b. b div (1024 * 1024)) (Option.bind (f (mm_stat_path d)) parse_orig_data_bytes))
         (parse_zram_devices (or_empty (f ''/proc/swaps''))))"
    "rg_headroom_mult g = cc_reclaim_headroom_mult cfg"
    using assms(2) by (auto simp: read_reclaim_gates_def 1 2 3)
qed

lemma map_filter_map: "List.map_filter f (map g xs) = List.map_filter (f \<circ> g) xs"
  by (induction xs) (simp_all add: List.map_filter_def)

lemma gates_imply_helper:
  assumes "frozen_files f s" "read_reclaim_gates cfg s = (g, s')" "reclaim_gates_pass g = Inr ()"
    and "cc_reclaim_headroom_mult cfg = Fin m" "1 \<le> m" "unat (rg_zram_orig_mb g) \<le> 2 ^ 53"
    and "f ''/proc/meminfo'' = Some content"
    and "length (List.map_filter (strip_prefix ''MemAvailable:'') (lines content)) \<le> 1"
  shows "headroom_safe (f ''/proc/meminfo'') (\<lambda>d. f (mm_stat_path d)) (parse_zram_swaps (or_empty (f ''/proc/swaps''))) = HeadroomSafe"
proof -
  note g = read_gates_frozen [OF assms(1,2)]
  have safe: "is_headroom_safe (rg_mem_available_mb g) (rg_zram_orig_mb g)"
    using gates_headroom [OF assms(3) _ assms(5,6)] g(3) assms(4) by simp
  then have "mi_available (read_meminfo (Some content)) \<noteq> 0"
    using g(1) assms(7) by (auto simp: is_headroom_safe_def)
  from mem_available_agree [OF assms(8) this]
  have avail: "mem_available_mb (f ''/proc/meminfo'') = Some (rg_mem_available_mb g)"
    by (simp add: assms(7) g(1))
  show ?thesis
    using safe by (simp add: headroom_safe_def avail g(2) devices_agree map_filter_map comp_def)
qed

section \<open>What the thread does to the system\<close>

lemma silent_resolve: "resolve_among ps s = (h, s1) \<Longrightarrow> silent s s1 \<and> (h = None \<or> h \<in> Some ` set ps)"
proof (induction ps arbitrary: s)
  case (Cons p ps)
  obtain b s0 where 0: "os_executable p s = (b, s0)" by fastforce
  show ?case using Cons.prems Cons.IH [of s0] silent_reads(3) [OF 0]
    by (auto simp: 0 split: bool.splits intro: silent_trans)
qed simp

lemma silent_gates: "read_reclaim_gates cfg s = (g, s1) \<Longrightarrow> silent s s1"
  by (auto simp: read_reclaim_gates_def dest!: silent_totals silent_reads split: prod.splits elim!: silent_trans)

lemma harmless_flags: "harmless s (disable_reclaim s)" "harmless s (arm_reclaim now s)" "harmless s (log_reclaim s)"
  using harmless_log by (simp_all add: disable_reclaim_def arm_reclaim_def log_reclaim_def harmless_same)

text \<open>The helper is one of the two candidates, and it runs only when every gate passed and the last run
is the cooldown back.\<close>

definition runs_helper :: "effect \<Rightarrow> bool" where
  "runs_helper e = (case e of Ran args \<Rightarrow> True | _ \<Rightarrow> False)"

lemma check_proactive_result:
  assumes "check_proactive_reclaim pressure skip cfg s = s'"
  shows "harmless s s'"
    and "extends (\<lambda>e. case e of Ran args \<Rightarrow> list_ex (\<lambda>h. args = [h]) reclaim_helper_candidates
       | Logged a _ _ \<Rightarrow> a = LaReclaim | _ \<Rightarrow> False) s s'"
    and "extends (\<lambda>e. \<not> runs_helper e) s s' \<or>
      cc_proactive_swap_reclaim cfg \<and> \<not> sys_reclaim_disabled s \<and>
      (skip \<or> \<not> fl_ge (some_avg60 pressure) (f64_lit 5)) \<and>
      cooled_down (sys_last_reclaim s)
        (if skip then min (cc_reclaim_cooldown_secs cfg) kill_reclaim_cooldown_secs else cc_reclaim_cooldown_secs cfg)
        (fst (os_unix s)) \<and>
      (\<exists>s2 g s3. harmless s s2 \<and> read_reclaim_gates cfg s2 = (g, s3) \<and> reclaim_gates_pass g = Inr ())"
proof -
  let ?cool = "if skip then min (cc_reclaim_cooldown_secs cfg) kill_reclaim_cooldown_secs else cc_reclaim_cooldown_secs cfg"
  let ?P = "\<lambda>e. case e of Ran args \<Rightarrow> list_ex (\<lambda>h. args = [h]) reclaim_helper_candidates
       | Logged a _ _ \<Rightarrow> a = LaReclaim | _ \<Rightarrow> False"
  let ?ran = "cc_proactive_swap_reclaim cfg \<and> \<not> sys_reclaim_disabled s \<and>
      (skip \<or> \<not> fl_ge (some_avg60 pressure) (f64_lit 5)) \<and> cooled_down (sys_last_reclaim s) ?cool (fst (os_unix s)) \<and>
      (\<exists>s2 g s3. harmless s s2 \<and> read_reclaim_gates cfg s2 = (g, s3) \<and> reclaim_gates_pass g = Inr ())"
  obtain now s1 where 1: "os_unix s = (now, s1)" by fastforce
  obtain h s2 where 2: "resolve_reclaim_helper s1 = (h, s2)" by fastforce
  obtain g s3 where 3: "read_reclaim_gates cfg s2 = (g, s3)" by fastforce
  have q1: "silent s s1" "sys_last_reclaim s1 = sys_last_reclaim s"
    using silent_reads(5) [OF 1] 1 by (auto simp: os_unix_def tick_def)
  have q2: "silent s s2" "h = None \<or> h \<in> Some ` set reclaim_helper_candidates"
    using silent_resolve [of reclaim_helper_candidates s1 h s2] 2 q1
    by (auto simp: resolve_reclaim_helper_def intro: silent_trans)
  have q3: "silent s s3" using silent_gates [OF 3] q2(1) by (auto intro: silent_trans)
  have log: "sys_trace (log_reclaim x) = sys_trace x @ [Logged LaReclaim 0 ''zram'']"
      "sys_oracle (log_reclaim x) = sys_oracle x" for x
    by (simp_all add: log_reclaim_def log_entry_def)
  have flags: "sys_trace (disable_reclaim x) = sys_trace x" "sys_oracle (disable_reclaim x) = sys_oracle x"
      "sys_trace (arm_reclaim t x) = sys_trace x" "sys_oracle (arm_reclaim t x) = sys_oracle x" for x t
    by (simp_all add: disable_reclaim_def arm_reclaim_def)
  have mi: "sys_trace (snd (current_meminfo x)) = sys_trace x" "sys_oracle (snd (current_meminfo x)) = sys_oracle x" for x
    using silent_reads(8) [of x "fst (current_meminfo x)" "snd (current_meminfo x)"] by (simp_all add: silent_def)
  have run: "sys_trace s4 = sys_trace s3 @ [Ran [helper]]" "sys_oracle s4 = sys_oracle s3"
    if "run_reclaim_helper helper s3 = (c, s4)" for helper c s4
    using that by (auto simp: run_reclaim_helper_def os_run_def Let_def split: prod.splits run_result.splits if_splits)
  have cand: "h = Some helper \<Longrightarrow> list_ex (\<lambda>h. helper = h) reclaim_helper_candidates" for helper
    using q2(2) by (auto simp: list_ex_iff)
  have "sys_oracle s' = sys_oracle s \<and> (\<exists>es. sys_trace s' = sys_trace s @ es \<and> list_all ?P es \<and>
      (list_all (\<lambda>e. \<not> runs_helper e) es \<or> ?ran))"
  proof (cases "cc_proactive_swap_reclaim cfg \<and> \<not> sys_reclaim_disabled s \<and>
      (skip \<or> \<not> fl_ge (some_avg60 pressure) (f64_lit 5)) \<and> cooled_down (sys_last_reclaim s) ?cool now")
    case False
    then have "silent s s'"
      using assms q1 by (auto simp: check_proactive_reclaim_def 1 Let_def split: if_splits)
    then show ?thesis by (auto simp: silent_def)
  next
    case True
    show ?thesis
    proof (cases "h = None \<or> reclaim_gates_pass g \<noteq> Inr ()")
      case refused: True
      have "s' = log_reclaim (disable_reclaim s2) \<or> s' = log_reclaim s3"
        using assms True q1(2) refused
        by (auto simp: check_proactive_reclaim_def 1 2 3 Let_def split: option.splits sum.splits)
      then show ?thesis
        using q2(1) q3 by (auto simp: silent_def log flags runs_helper_def)
    next
      case passed: False
      then obtain helper where h: "h = Some helper" and g: "reclaim_gates_pass g = Inr ()" by auto
      obtain c s4 where 4: "run_reclaim_helper helper s3 = (c, s4)" by fastforce
      have "s' \<in> {log_reclaim (snd (current_meminfo (arm_reclaim now s4))), log_reclaim s4, disable_reclaim (log_reclaim s4)}"
        using assms True q1(2)
        by (auto simp: check_proactive_reclaim_def 1 2 3 4 h g Let_def split: option.splits)
      then have "sys_trace s' = sys_trace s @ [Ran [helper], Logged LaReclaim 0 ''zram''] \<and> sys_oracle s' = sys_oracle s"
        using q3 run [OF 4] by (auto simp: silent_def log flags mi)
      then show ?thesis
        using True g 3 cand [OF h] silent_harmless [OF q2(1)] by (auto simp: 1)
    qed
  qed
  then obtain es where es: "sys_oracle s' = sys_oracle s" "sys_trace s' = sys_trace s @ es" "list_all ?P es"
      "list_all (\<lambda>e. \<not> runs_helper e) es \<or> ?ran" by blast
  show P: "extends ?P s s'" using es(2,3) by (auto simp: extends_def list_all_iff)
  show "harmless s s'"
    by (rule harmless_only [OF es(1) P]) (auto simp: harmless_effect_def stop_neutral_def not_saved_def split: effect.splits)
  show "extends (\<lambda>e. \<not> runs_helper e) s s' \<or> ?ran"
    using es(2,4) by (auto simp: extends_def list_all_iff)
qed

text \<open>Ending an idle process: its rule matches, it is not frozen, and it was seen idle for the time of
the rule.\<close>

lemma silent_live_keys:
  "live_keys procs s = (m, s1) \<Longrightarrow> silent s s1 \<and> (\<forall>(k, p) \<in> set m. p \<in> set procs)"
proof (induction procs arbitrary: s m s1)
  case (Cons p ps)
  obtain st s0 where 0: "start_time_of (p_pid p) s = (st, s0)" by fastforce
  obtain m' s2 where 2: "live_keys ps s0 = (m', s2)" by fastforce
  from Cons.IH [OF 2] Cons.prems silent_reads(7) [OF 0] show ?case
    by (auto simp: 0 2 split: option.splits intro: silent_trans)
qed simp

definition idle_kill_effect :: "compiled_config \<Rightarrow> frozen_map \<Rightarrow> process list \<Rightarrow> effect \<Rightarrow> bool" where
  "idle_kill_effect cfg fm procs e = (case e of
     Signalled t sig _ \<Rightarrow> sig = SIGTERM \<and> list_ex (\<lambda>p. t = as_pid_t (p_pid p) \<and> \<not> is_frozen fm (p_pid p)
       \<and> auto_kill_idle_after_for cfg (p_name p) \<noteq> None) procs
   | Logged a _ _ \<Rightarrow> a = LaKill
   | _ \<Rightarrow> False)"

lemma kill_idle_result:
  assumes "kill_idle cfg fm now live active s = (active', s')" "\<forall>(k, p) \<in> set live. p \<in> set procs"
  shows "sys_oracle s' = sys_oracle s \<and> extends (idle_kill_effect cfg fm procs) s s'"
  using assms
proof (induction cfg fm now live active s rule: kill_idle.induct)
  case (2 cfg fm now key p rest active s)
  show ?case
  proof (cases "auto_kill_idle_after_for cfg (p_name p)")
    case None
    with 2 show ?thesis by simp
  next
    case (Some idle_secs)
    let ?x = "log_entry LaKill (p_pid p) (p_name p) (snd (os_kill (as_pid_t (p_pid p)) SIGTERM s))"
    show ?thesis
    proof (cases "is_frozen fm (p_pid p)")
      case True
      with 2 Some show ?thesis by simp
    next
      case False
      have "p \<in> set procs" using 2(6) by simp
      then have "extends (idle_kill_effect cfg fm procs) s ?x" "sys_oracle ?x = sys_oracle s"
        using Some False
        by (auto simp: os_kill_def log_entry_def Let_def extends_def idle_kill_effect_def list_ex_iff)
      then show ?thesis using 2 Some False
        by (auto simp: Let_def split: if_splits intro: extends_trans)
    qed
  qed
qed simp

lemma check_auto_kill_result:
  assumes "check_auto_kill_idle cfg procs fm active s = (active', s')"
  shows "harmless s s' \<and> extends (idle_kill_effect cfg fm procs) s s'"
proof (cases "cc_auto_kill_rules cfg = []")
  case False
  obtain now s1 where 1: "os_clock s = (now, s1)" by fastforce
  obtain live s2 where 2: "live_keys procs s1 = (live, s2)" by fastforce
  obtain active1 s3 where 3: "kill_idle cfg fm now live active s2 = (active1, s3)" by fastforce
  have q: "silent s s2" using silent_reads(4) [OF 1] silent_live_keys [OF 2] by (auto intro: silent_trans)
  have k: "sys_oracle s3 = sys_oracle s2 \<and> extends (idle_kill_effect cfg fm procs) s2 s3"
    using silent_live_keys [OF 2] by (intro kill_idle_result [OF 3]) auto
  have "harmless s2 s3"
    using k by (intro harmless_only [where P = "idle_kill_effect cfg fm procs"])
      (auto simp: idle_kill_effect_def harmless_effect_def stop_neutral_def not_saved_def split: effect.splits)
  moreover have "s' = s3" using assms False by (simp add: check_auto_kill_idle_def 1 2 3)
  ultimately show ?thesis
    using k silent_harmless [OF q] silent_extends [OF q] by (auto intro: harmless_trans extends_trans)
qed (use assms in \<open>simp add: check_auto_kill_idle_def\<close>)

lemma flush_result:
  assumes "flush_calibration ser psi cal s = (cal', s')"
  shows "harmless s s' \<and> (calibrator_ok cal \<longrightarrow> calibrator_ok cal') \<and> cal_state cal' = cal_state cal \<and> \<not> cal_dirty cal'"
proof -
  have "calibrator_ok cal \<longrightarrow> calibrator_ok cal'" "cal_state cal' = cal_state cal" "\<not> cal_dirty cal'"
    using assms by (auto simp: flush_calibration_def to_toml_def calibrator_ok_def Let_def split: if_splits prod.splits)
  moreover have "harmless s s'"
    using assms
    by (auto simp: flush_calibration_def to_toml_def Let_def split: if_splits prod.splits option.splits
        dest!: harmless_calls harmless_reads intro: harmless_trans harmless_log elim!: harmless_trans)
  ultimately show ?thesis by simp
qed

lemma maintenance_turn_result:
  assumes "maintenance_turn ser src cfg procs kt fm cm cal mt s = (cal', mt', s')"
  shows "harmless s s' \<and> (calibrator_ok cal \<longrightarrow> calibrator_ok cal')"
proof -
  obtain pr s1 where 1: "read_pressure src s = (pr, s1)" by fastforce
  obtain c0 s2 where 2: "os_clock s1 = (c0, s2)" by fastforce
  define calm where "calm = is_calm (cc_psi cfg) pr"
  obtain act s3 where 3: "(if calm then check_auto_kill_idle cfg procs fm (mt_last_active mt) s2
      else (mt_last_active mt, s2)) = (act, s3)" by fastforce
  obtain cal1 s4 where 4: "(case pr of Inr p \<Rightarrow> if calm
        then (cal_observe (some_avg10 p) (full_avg10 p) (0 < frozen_count fm \<or> 0 < checkpoint_count cm) poll_secs cal,
              check_proactive_reclaim p False cfg s3) else (cal, s3) | Inl _ \<Rightarrow> (cal, s3)) = (cal1, s4)" by fastforce
  obtain since s5 where 5: "elapsed (mt_last_flush mt) s4 = (since, s5)" by fastforce
  obtain cal2 fl s6 where 6: "(if unat calibration_flush_secs \<le> as_secs since
      then let (now, t1) = os_clock s5; (c, t2) = flush_calibration ser (cc_psi cfg) cal1 t1 in (c, now, t2)
      else (cal1, mt_last_flush mt, s5)) = (cal2, fl, s6)" by (metis prod_cases3)
  define s7 where "s7 = (case pr of Inr p \<Rightarrow> if kt \<and> \<not> calm then check_proactive_reclaim p True cfg s6 else s6 | Inl _ \<Rightarrow> s6)"
  have out: "cal' = cal2" "s' = os_sleep (snd (os_clock s7))"
    using assms by (simp_all add: maintenance_turn_def 1 2 calm_def [symmetric] 3 4 5 6 s7_def [symmetric])
  have "harmless s s2" using harmless_reads(9) [OF 1] harmless_reads(4) [OF 2] by (rule harmless_trans)
  also have "harmless s2 s3" using 3 check_auto_kill_result by (auto split: if_splits)
  also have "harmless s3 s4" using 4 check_proactive_result(1) [OF refl] by (auto split: sum.splits if_splits)
  also have "harmless s4 s5" by (rule harmless_reads(6) [OF 5])
  also have "harmless s5 s6" using 6 flush_result
    by (auto split: if_splits prod.splits dest!: harmless_reads(4) intro: harmless_trans)
  also have "harmless s6 s7" using check_proactive_result(1) [OF refl] by (auto simp: s7_def split: sum.splits)
  also have "harmless s7 s'" unfolding out
    by (metis harmless_reads(4) harmless_sleep harmless_trans prod.collapse)
  finally have "harmless s s'" .
  moreover have "calibrator_ok cal \<longrightarrow> calibrator_ok cal1"
    using 4 calibrator_ok_observe by (auto split: sum.splits if_splits)
  moreover have "calibrator_ok cal1 \<longrightarrow> calibrator_ok cal2"
    using 6 flush_result by (auto split: if_splits prod.splits)
  ultimately show ?thesis by (simp add: out)
qed

lemma load_calibrator_ok: "calibrator_ok (fst (load_calibrator parse s))"
  by (auto simp: load_calibrator_def Let_def calibrator_ok_from_toml split: prod.split option.split bind_splits)

end
