(* ===== verification/Machines.thy ===== *)
theory Machines
  imports Samples Maintenance
begin

text \<open>
  A machine with one compressed swap device, for the properties that read the memory files: its
  files hold what the kernel writes there and do not change.
\<close>

definition sample_files :: "string \<Rightarrow> string option" where
  "sample_files path =
     (if path = ''/proc/meminfo'' then Some (''MemTotal: 16000000 kB'' @ [CHR 0x0A] @ ''MemAvailable: 8000000 kB'' @
        [CHR 0x0A] @ ''SwapTotal: 4000000 kB'' @ [CHR 0x0A] @ ''SwapFree: 1000000 kB'' @ [CHR 0x0A])
      else if path = ''/proc/swaps'' then Some (''Filename Type Size Used Priority'' @ [CHR 0x0A] @
        ''/dev/zram0 partition 4000000 3000000 100'' @ [CHR 0x0A])
      else if path = ''/sys/block/zram0/mm_stat'' then Some ''3600000000 2400000000 2500000000 0 0 0 0''
      else None)"

definition sample_disk :: sys where
  "sample_disk = sys_start (sample_os\<lparr>or_read := \<lambda>_. sample_files\<rparr>)"

lemma sample_frozen: "frozen_files sample_files sample_disk"
  by (simp add: frozen_files_def sample_disk_def sys_start_def)

lemma sample_read [simp]:
  "or_read (sys_oracle sample_disk) t path = sample_files path" "or_read (sys_oracle (tick s)) = or_read (sys_oracle s)"
  by (simp_all add: sample_disk_def sys_start_def tick_def)

lemma sample_meminfo: "read_meminfo (sample_files ''/proc/meminfo'') =
    \<lparr>mi_available = 8000000, mi_total = 16000000, mi_swap_free = 1000000, mi_swap_total = 4000000\<rparr>"
  by (simp add: sample_files_def read_meminfo_def meminfo_line_def mem_info_zero_def parse_kb_def text_eval)

lemma sample_available_line: "\<exists>content. sample_files ''/proc/meminfo'' = Some content \<and>
    length (List.map_filter (strip_prefix ''MemAvailable:'') (lines content)) \<le> 1"
  by (simp add: sample_files_def List.map_filter_def text_eval)

lemma sample_mm_stat: "Option.bind (sample_files ''/sys/block/zram0/mm_stat'') parse_orig_data_bytes = Some 3600000000"
  "Option.bind (sample_files ''/sys/block/zram0/mm_stat'') parse_mem_used_bytes = Some 2500000000"
  by (simp_all add: sample_files_def parse_orig_data_bytes_def parse_mem_used_bytes_def text_eval)

lemma sample_zram0: "is_zram_device_path ''/dev/zram0''" "last_segment ''/dev/zram0'' = ''zram0''"
  by (simp_all add: is_zram_device_path_def last_segment_def text_eval is_digit_def)

lemma sample_devices: "parse_zram_devices (or_empty (sample_files ''/proc/swaps'')) = [''zram0'']"
  by (simp add: sample_files_def parse_zram_devices_def or_empty_def text_eval sample_zram0)

lemma sample_reclaim_fields:
  "cc_reclaim_headroom_mult sample_config = f64_lit (15 / 10)" "cc_reclaim_threshold_pct sample_config = f64_lit 30"
  "cc_reclaim_min_zram_used_mb sample_config = 2048"
  by (simp_all add: sample_config_def compile_raw_def sample_raw_def raw_config_default_def raw_reclaim_default_def
      raw_zram_default_def split: prod.split)

definition sample_gates :: reclaim_gates where
  "sample_gates = \<lparr>rg_swap_used_pct = Fin 75, rg_zram_used_mb = 2384, rg_zram_orig_mb = 3433,
     rg_mem_available_mb = 7812, rg_threshold_pct = f64_lit 30, rg_min_zram_used_mb = 2048,
     rg_headroom_mult = f64_lit (15 / 10)\<rparr>"

lemma sample_totals:
  "or_read (sys_oracle s) = (\<lambda>_. sample_files) \<Longrightarrow> fst (zram_used_mb_total s) = 2384"
  "or_read (sys_oracle s) = (\<lambda>_. sample_files) \<Longrightarrow> fst (zram_orig_mb_total s) = 3433"
  by (simp_all add: zram_used_mb_total_def zram_orig_mb_total_def zram_devices_def os_read_def sample_devices
      zram_used_mb_def zram_orig_mb_def mm_stat_path_def sample_mm_stat)

lemma sample_read_gates: "fst (read_reclaim_gates sample_config sample_disk) = sample_gates"
proof -
  obtain mi s1 where 1: "current_meminfo sample_disk = (mi, s1)" by fastforce
  obtain u s2 where 2: "zram_used_mb_total s1 = (u, s2)" by fastforce
  obtain z s3 where 3: "zram_orig_mb_total s2 = (z, s3)" by fastforce
  have "sys_oracle s1 = sys_oracle sample_disk" "sys_oracle s2 = sys_oracle sample_disk"
    using silent_reads(8) [OF 1] silent_totals(1) [OF 2] by (simp_all add: silent_def)
  then have "u = 2384" "z = 3433"
    using sample_totals(1) [of s1] sample_totals(2) [of s2] by (simp_all add: 2 3 fun_eq_iff)
  moreover have "mi = \<lparr>mi_available = 8000000, mi_total = 16000000, mi_swap_free = 1000000, mi_swap_total = 4000000\<rparr>"
    using 1 by (simp add: current_meminfo_def os_read_def sample_meminfo)
  moreover have "swap_used_pct mi = Fin 75" if "mi_swap_total mi = 4000000" "mi_swap_free mi = 1000000" for mi
    using that by (simp add: swap_used_pct_def kb_sub_def sat_sub_def f64_eval)
  ultimately show ?thesis
    by (simp add: read_reclaim_gates_def 1 2 3 sample_gates_def sample_reclaim_fields)
qed

lemma sample_gates_pass: "reclaim_gates_pass sample_gates = Inr ()"
  by (simp add: sample_gates_def reclaim_gates_pass_def f64_eval)

end
