(* ===== verification/Evictor.thy ===== *)
theory Evictor
  imports Maintenance Scoring
begin

text \<open>
  The responder thread (\<open>mgd/src/evictor/mod.rs\<close>): one turn of its loop, from the pressure reading to
  the plan carried out. The state kept by the loop is the record \<open>evictor\<close>, what it shares with the
  other threads under their locks is \<open>shared\<close>, and what it finds outside (the process list, how the
  wait for a pressure event ended, the two flags of the lifecycle) is \<open>turn_input\<close>. Console output
  and the snapshots kept for the status display are left out, except the one of the throttled
  groups, which the cycle itself reads.
\<close>

section \<open>State\<close>

record evictor =
  er_level :: pressure_level
  er_score :: score_tracker
  er_controller :: state_machine
  er_throttle :: throttle_manager
  er_idle :: idle_state
  er_active :: "pid option"
  er_killed :: "(string, instant) hmap"
  er_critical_swap :: "instant option"
  er_memcap :: memcap_manager
  er_emergency :: "instant option"
  er_hibernated :: bool
  er_spikes :: spike_tracker
  er_leaks :: leak_tracker

definition evictor_new :: "string option \<Rightarrow> instant \<Rightarrow> evictor" where
  "evictor_new vmstat now = \<lparr>er_level = Normal, er_score = score_tracker_new vmstat now, er_controller = sm_new,
     er_throttle = throttle_new,
     er_idle = \<lparr>id_tracker = [], id_freeze_tracker = [], id_last_check = now\<rparr>, er_active = None,
     er_killed = [], er_critical_swap = None, er_memcap = memcap_new, er_emergency = None,
     er_hibernated = False, er_spikes = spike_tracker_new, er_leaks = []\<rparr>"

record shared =
  sh_frozen :: frozen_map
  sh_checkpointed :: checkpoint_map
  sh_calibrator :: calibrator
  sh_events :: "action_event list"
  sh_throttled :: "(string, throttled_state) hmap"
  sh_release_requests :: "pid list"
  sh_recovery_wake :: bool
  sh_reclaim_wake :: bool

datatype psi_wait = WaitEvent | WaitTimeout | WaitHelperDied | WaitSlept

record turn_input =
  ti_shutdown :: bool
  ti_wait :: psi_wait
  ti_shutdown_in_wait :: bool
  ti_procs :: "process list"
  ti_pressure_file :: string
  ti_files :: file_view

section \<open>Shutdown\<close>

definition victim_keys :: "spike_tracker \<Rightarrow> (pid \<times> u64) list" where
  "victim_keys tr = map (\<lambda>v. (sv_pid v, sv_start_time v)) (hm_values (tr_victims tr))"

definition evictor_shutdown :: "evictor \<Rightarrow> sys \<Rightarrow> sys" where
  "evictor_shutdown er s =
     (let s1 = throttle_restore_all (er_throttle er) s;
          (_, s2) = memcap_restore_all (er_memcap er) s1;
          s3 = foldl (\<lambda>s cg. snd (write_cgroup_cpu_weight cg 100 s)) s2 (throttled_cgroup_paths (er_spikes er))
      in foldl (\<lambda>s (p, st). snd (unfreeze_checked p st s)) s3 (victim_keys (er_spikes er)))"

section \<open>The pressure level of a turn\<close>

definition swap_exhausted_now :: "mem_info \<Rightarrow> bool" where
  "swap_exhausted_now mi \<longleftrightarrow> 0 < mi_swap_total mi \<and> fl_ge (swap_used_pct mi) (f64_lit 95)"

definition assess ::
  "memory_pressure \<Rightarrow> evictor \<Rightarrow> sys \<Rightarrow> pressure_level \<times> mem_info \<times> instant \<times> evictor \<times> sys" where
  "assess pressure er s =
     (let (mi, s1) = current_meminfo s; (now, s2) = os_clock s1;
          (vmstat, s3) = os_read ''/proc/vmstat'' s2; (gpu_kb, s4) = get_total_gpu_kb s3;
          (score, st) = score_update vmstat gpu_kb (er_score er) (some_avg10 pressure) mi now;
          target = target_state_for (cs_p_score score) (cs_trend score) (some_avg10 pressure) (cs_swap_io_kbs score);
          (_, sm) = advance (er_controller er) target (cs_trend score);
          (level, since) = apply_swap_overrides (to_pressure_level (sm_current sm)) (swap_used_pct mi)
            (mi_swap_total mi) (er_critical_swap er) now
      in (level, mi, now,
          er\<lparr>er_score := st, er_controller := sm, er_critical_swap := since, er_level := level\<rparr>, s4))"

text \<open>The last resort: emergency for longer than the configured time hibernates the machine, once.\<close>

definition note_emergency :: "pressure_level \<Rightarrow> instant \<Rightarrow> compiled_config \<Rightarrow> evictor \<Rightarrow> sys \<Rightarrow> evictor \<times> sys" where
  "note_emergency level now cfg er s =
     (if Emergency \<le> level then
        (let start = (case er_emergency er of None \<Rightarrow> now | Some t \<Rightarrow> t);
             threshold = cc_emergency_hibernate_after_sec cfg in
         if \<not> er_hibernated er \<and> 0 < threshold \<and> unat threshold \<le> as_secs (duration_since now start)
         then (er\<lparr>er_emergency := Some start, er_hibernated := True\<rparr>, emit (Spawned [''systemctl'', ''hibernate'']) (tick s))
         else (er\<lparr>er_emergency := Some start\<rparr>, s))
      else (er\<lparr>er_emergency := None\<rparr>, s))"

section \<open>Background controls\<close>

definition focus_unfreeze :: "pid option \<Rightarrow> frozen_map \<Rightarrow> sys \<Rightarrow> frozen_map \<times> sys" where
  "focus_unfreeze active fm s = (case active of
     None \<Rightarrow> (fm, s)
   | Some p \<Rightarrow>
       if is_frozen fm p then
         (let (r, s1) = unfreeze_checked p (frozen_start fm p) s
          in if opr_success r then frozen_remove p fm s1 else (fm, s1))
       else (fm, s))"

definition run_controls ::
  "compiled_config \<Rightarrow> pressure_level \<Rightarrow> f64 \<Rightarrow> process list \<Rightarrow> bool \<Rightarrow> pid option \<Rightarrow> idle_state \<Rightarrow> evictor \<Rightarrow>
     frozen_map \<Rightarrow> sys \<Rightarrow> evictor \<times> frozen_map \<times> sys" where
  "run_controls cfg level psi procs changed active idle er fm s =
     (let (fm1, s1) = (if changed then focus_unfreeze active fm s else (fm, s));
          excluded = excluded_pids fm1 (er_spikes er) False;
          plan_procs = filter (\<lambda>p. p_pid p \<notin> set excluded) procs;
          (tm, s2) = throttle_update plan_procs active (Elevated \<le> level) psi cfg (er_throttle er) s1;
          (mc, s3) = memcap_update plan_procs active level cfg (er_memcap er) s2;
          er1 = er\<lparr>er_active := active, er_throttle := tm, er_memcap := mc\<rparr>
      in if level = Normal \<and> cc_idle_reclaim_enabled cfg then
           (let (t, ft, fm2, s4) = check_idle_process_reclaim cfg plan_procs active
                  (id_tracker idle) (id_freeze_tracker idle) fm1 s3
            in (er1\<lparr>er_idle := idle\<lparr>id_tracker := t, id_freeze_tracker := ft\<rparr>\<rparr>, fm2, s4))
         else (er1\<lparr>er_idle := idle\<rparr>, fm1, s3))"

text \<open>They run when the foreground changed or the interval of the idle check is over.\<close>

definition background_controls ::
  "compiled_config \<Rightarrow> pressure_level \<Rightarrow> f64 \<Rightarrow> process list \<Rightarrow> evictor \<Rightarrow> frozen_map \<Rightarrow>
     (string, throttled_state) hmap \<Rightarrow> sys \<Rightarrow> evictor \<times> frozen_map \<times> (string, throttled_state) hmap \<times> sys" where
  "background_controls cfg level psi procs er fm throttled s =
     (let active = sys_foreground s; (now, s1) = os_clock s; idle = er_idle er;
          due = unat (cc_idle_reclaim_global_cooldown_sec cfg) \<le> as_secs (duration_since now (id_last_check idle));
          changed = active \<noteq> er_active er
      in if \<not> changed \<and> \<not> due then (er, fm, throttled, s1)
         else
           (let idle1 = (if due then idle\<lparr>id_last_check := now\<rparr> else idle);
                (er1, fm1, s2) = run_controls cfg level psi procs changed active idle1 er fm s1
            in (er1, fm1, tm_states (er_throttle er1), s2)))"

section \<open>Relief\<close>

text \<open>The planner asks the GPU cache and the checkpoint executor; both are read when the plan is made.\<close>

definition plan_env_of :: "sys \<Rightarrow> plan_env" where
  "plan_env_of s = \<lparr>pe_active_pid = sys_foreground s, pe_gpu_kb = \<lambda>p. fst (get_gpu_kb p s),
     pe_cp_eligible = \<lambda>n. fst (is_checkpoint_eligible n s)\<rparr>"

definition largest_first :: "process list \<Rightarrow> process list" where
  "largest_first procs = sort_by (\<lambda>a b. p_rss b \<le> p_rss a) procs"

definition kill_cooldown_secs :: nat where "kill_cooldown_secs = 45"

definition plan_processes :: "frozen_map \<Rightarrow> spike_tracker \<Rightarrow> (string, instant) hmap \<Rightarrow> process list \<Rightarrow> process list" where
  "plan_processes fm tr killed procs =
     (let excluded = excluded_pids fm tr True in
      filter (\<lambda>p. p_pid p \<notin> set excluded \<and>
        (case p_cgroup_path p of None \<Rightarrow> True | Some c \<Rightarrow> \<not> hm_contains killed c)) procs)"

definition relieve ::
  "compiled_config \<Rightarrow> file_view \<Rightarrow> pressure_level \<Rightarrow> mem_info \<Rightarrow> process list \<Rightarrow> evictor \<Rightarrow> shared \<Rightarrow> sys \<Rightarrow>
     evictor \<times> shared \<times> sys" where
  "relieve cfg files level mi procs er sh s =
     (let sorted = largest_first procs; s1 = compact_zram level cfg s; (now, s2) = os_clock s1;
          killed = hm_retain (\<lambda>_ t. as_secs (duration_since now t) < kill_cooldown_secs) (er_killed er);
          plan_procs = plan_processes (sh_frozen sh) (er_spikes er) killed sorted;
          s3 = check_early_process_reclaim level plan_procs (sys_foreground s2) cfg s2;
          s4 = check_cache_drop files level cfg s3;
          decisions = plan cfg (plan_env_of s4) level plan_procs (mi_available mi) (mi_total mi) (swap_exhausted_now mi);
          er1 = er\<lparr>er_killed := killed\<rparr>
      in if decisions = [] then (er1, sh, log_entry LaCycle 0 ''cycle'' s4)
         else
           (let (destructive, x, killed1) = execute_plan real_sink plan_procs decisions
                  \<lparr>xs_frozen = sh_frozen sh, xs_checkpointed = sh_checkpointed sh, xs_events = sh_events sh, xs_sys = s4\<rparr> killed
            in (er1\<lparr>er_killed := killed1\<rparr>,
                sh\<lparr>sh_frozen := xs_frozen x, sh_checkpointed := xs_checkpointed x, sh_events := xs_events x,
                   sh_recovery_wake := True, sh_reclaim_wake := sh_reclaim_wake sh \<or> 0 < destructive\<rparr>,
                log_entry LaCycle 0 ''cycle'' (xs_sys x))))"

section \<open>One turn\<close>

text \<open>No event came: the releases asked for on the command line and the idle measures.\<close>

definition calm_turn :: "compiled_config \<Rightarrow> process list \<Rightarrow> evictor \<Rightarrow> shared \<Rightarrow> sys \<Rightarrow> evictor \<times> shared \<times> sys" where
  "calm_turn cfg procs er sh s =
     (let (tr, idle, fm, s1) = idle_timeout_reclaim cfg procs (sh_release_requests sh) (er_spikes er) (er_idle er) (sh_frozen sh) s
      in (er\<lparr>er_spikes := tr, er_idle := idle\<rparr>, sh\<lparr>sh_frozen := fm, sh_release_requests := []\<rparr>, s1))"

definition observe_turn :: "memory_pressure \<Rightarrow> shared \<Rightarrow> shared" where
  "observe_turn pressure sh = sh\<lparr>sh_calibrator := cal_observe (some_avg10 pressure) (full_avg10 pressure)
     (0 < frozen_count (sh_frozen sh) \<or> 0 < checkpoint_count (sh_checkpointed sh)) 5 (sh_calibrator sh)\<rparr>"

definition run_guards ::
  "compiled_config \<Rightarrow> pressure_level \<Rightarrow> mem_info \<Rightarrow> process list \<Rightarrow> evictor \<Rightarrow> shared \<Rightarrow> sys \<Rightarrow> evictor \<times> shared \<times> sys" where
  "run_guards cfg level mi procs er sh s =
     (let (mc, s1) = (if level < High then memcap_restore_all (er_memcap er) s else (er_memcap er, s));
          (tr, s2) = run_spike_cycle cfg (sh_frozen sh) (mi_available mi) procs (sh_release_requests sh) (er_spikes er) s1;
          (groups, events, s3) = run_leak_guard_cycle cfg procs (er_leaks er) (sh_events sh) s2
      in (er\<lparr>er_memcap := mc, er_spikes := tr, er_leaks := groups\<rparr>,
          sh\<lparr>sh_release_requests := [], sh_events := events\<rparr>, s3))"

text \<open>A pressure reading was made: everything is done in the order of the loop.\<close>

definition pressure_turn ::
  "compiled_config \<Rightarrow> file_view \<Rightarrow> memory_pressure \<Rightarrow> process list \<Rightarrow> evictor \<Rightarrow> shared \<Rightarrow> sys \<Rightarrow> evictor \<times> shared \<times> sys" where
  "pressure_turn cfg files pressure procs er sh s =
     (let (level, mi, now, er1, s1) = assess pressure er s;
          (er2, s2) = note_emergency level now cfg er1 s1;
          sh2 = observe_turn pressure sh;
          (er3, fm, throttled, s3) = background_controls cfg level (some_avg10 pressure) procs er2 (sh_frozen sh2) (sh_throttled sh2) s2;
          (er4, sh4, s4) = run_guards cfg level mi procs er3 (sh2\<lparr>sh_frozen := fm, sh_throttled := throttled\<rparr>) s3
      in if level = Normal then (er4, sh4, s4) else relieve cfg files level mi procs er4 sh4 s4)"

definition watch_turn :: "compiled_config \<Rightarrow> turn_input \<Rightarrow> evictor \<Rightarrow> shared \<Rightarrow> sys \<Rightarrow> evictor \<times> shared \<times> sys" where
  "watch_turn cfg i er sh s = (case read_pressure (ti_pressure_file i) s of
     (Inl _, s1) \<Rightarrow> (er, sh, os_sleep s1)
   | (Inr pressure, s1) \<Rightarrow> pressure_turn cfg (ti_files i) pressure (ti_procs i) er sh s1)"

text \<open>The turn as the loop runs it. The third component tells whether the thread has returned.\<close>

definition evictor_turn :: "compiled_config \<Rightarrow> turn_input \<Rightarrow> evictor \<Rightarrow> shared \<Rightarrow> sys \<Rightarrow> evictor \<times> shared \<times> bool \<times> sys" where
  "evictor_turn cfg i er sh s =
     (if ti_shutdown i then (er, sh, True, evictor_shutdown er s)
      else if er_level er = Normal \<and> ti_wait i = WaitTimeout then
        (let (er1, sh1, s1) = calm_turn cfg (ti_procs i) er sh s in (er1, sh1, False, s1))
      else if er_level er = Normal \<and> ti_wait i = WaitHelperDied \<and> ti_shutdown_in_wait i then (er, sh, False, s)
      else
        (let (er1, sh1, s1) = watch_turn cfg i er sh
               (if er_level er \<noteq> Normal \<or> ti_wait i = WaitSlept then os_sleep s else s)
         in (er1, sh1, False, s1)))"

end
