(* ===== verification/Victims.thy ===== *)
theory Victims
  imports SpikeCycle Recovery Reclaims
begin

text \<open>
  The file of spike victims (\<open>persist_victims\<close> and its callers in \<open>mgd/src/spike_mode.rs\<close>): whenever a
  cycle is over, every victim the tracker holds is in what was last written, so that a daemon that
  starts after a crash can continue it.
\<close>

section \<open>What was last written\<close>

fun persisted_victims :: "effect \<Rightarrow> (pid \<times> string \<times> u64) list option" where
  "persisted_victims (PersistedVictims vs) = Some vs"
| "persisted_victims (RemovedFile _) = Some []"
| "persisted_victims _ = None"

definition last_victims :: "sys \<Rightarrow> (pid \<times> string \<times> u64) list" where
  "last_victims s = (case rev (List.map_filter persisted_victims (sys_trace s)) of [] \<Rightarrow> [] | vs # _ \<Rightarrow> vs)"

lemma last_victims_append:
  "sys_trace s' = sys_trace s @ es \<Longrightarrow> last_victims s' =
     (case rev (List.map_filter persisted_victims es) of [] \<Rightarrow> last_victims s | vs # _ \<Rightarrow> vs)"
  by (auto simp: last_victims_def map_filter_def split: list.splits)

lemma keeps_file_none: "keeps_file e \<Longrightarrow> persisted_victims e = None"
  by (cases e) simp_all

lemma file_frame: "extends keeps_file s s' \<Longrightarrow> last_victims s' = last_victims s"
proof -
  assume "extends keeps_file s s'"
  then obtain es where es: "sys_trace s' = sys_trace s @ es" "\<forall>e \<in> set es. keeps_file e"
    by (auto simp: extends_def)
  from es(2) have "List.map_filter persisted_victims es = []"
    by (auto simp: map_filter_def filter_empty_conv dest: keeps_file_none)
  then show ?thesis using last_victims_append [OF es(1)] by simp
qed

definition victims_saved :: "spike_tracker \<Rightarrow> sys \<Rightarrow> bool" where
  "victims_saved tr s \<longleftrightarrow> (\<forall>p v. hm_get (tr_victims tr) p = Some v \<longrightarrow>
     sv_pid v = p \<and> (p, sv_name v, sv_start_time v) \<in> set (last_victims s))"

lemma victims_saved_frame:
  "victims_saved tr s \<Longrightarrow> extends keeps_file s s' \<Longrightarrow>
   (\<And>p v. hm_get (tr_victims tr') p = Some v \<Longrightarrow> hm_get (tr_victims tr) p = Some v) \<Longrightarrow> victims_saved tr' s'"
  using file_frame [of s s'] unfolding victims_saved_def by metis

lemma victims_saved_same:
  "victims_saved tr s \<Longrightarrow> extends keeps_file s s' \<Longrightarrow> tr_victims tr' = tr_victims tr \<Longrightarrow> victims_saved tr' s'"
  by (erule victims_saved_frame) simp_all

lemma victims_saved_persist:
  assumes "\<And>p v. hm_get (tr_victims tr) p = Some v \<Longrightarrow> sv_pid v = p"
  shows "victims_saved tr (persist_victims tr s)"
proof -
  have "last_victims (persist_victims tr s) = map (\<lambda>v. (sv_pid v, sv_name v, sv_start_time v)) (hm_values (tr_victims tr))"
    by (simp add: last_victims_def persist_victims_def map_filter_def emit_def)
  moreover have "v \<in> set (hm_values (tr_victims tr))" if "hm_get (tr_victims tr) p = Some v" for p v
    using hm_get_in [OF that] by (force simp: hm_values_def)
  ultimately show ?thesis using assms unfolding victims_saved_def by force
qed

lemma victims_saved_none: "tr_victims tr = [] \<Longrightarrow> victims_saved tr s"
  by (simp add: victims_saved_def hm_get_empty)

lemma keyed: "victims_saved tr s \<Longrightarrow> hm_get (tr_victims tr) p = Some v \<Longrightarrow> sv_pid v = p"
  by (simp add: victims_saved_def)

section \<open>Releasing\<close>

lemma thaw_file: "extends keeps_file s (snd (unfreeze_checked p st s))"
  by (rule extends_mono [OF thawer.extends_only]) (rule signals_keep_file)

lemma log_file: "extends keeps_file s (log_entry a p n s)"
  by (simp add: log_entry_def extends_def)

lemma release_batch_file: "extends keeps_file s (snd (release_batch a vs s))"
proof (induction vs arbitrary: s)
  case (Cons v vs)
  obtain r s1 where u: "unfreeze_checked (sv_pid v) (sv_start_time v) s = (r, s1)" by fastforce
  have "extends keeps_file s s1" using thaw_file [of s "sv_pid v" "sv_start_time v"] by (simp add: u)
  then have "extends keeps_file s (if opr_success r then log_entry a (sv_pid v) (sv_name v) s1 else s1)"
    using log_file by (auto intro: extends_trans)
  from extends_trans [OF this Cons.IH] show ?case by (simp add: u case_prod_unfold Let_def split: if_splits)
qed simp

lemma release_batch_saved: "victims_saved tr s \<Longrightarrow> victims_saved tr (snd (release_batch a vs s))"
  by (rule victims_saved_same [OF _ release_batch_file]) simp_all

lemma notify_file: "extends keeps_file s (notify_resumed t n s)"
  by (simp add: notify_resumed_def extends_def)

lemma drain_saved: "drain_if_none_tracking tr s = (vs, tr', s') \<Longrightarrow> victims_saved tr s \<Longrightarrow> victims_saved tr' s'"
  by (auto simp: drain_if_none_tracking_def Let_def victims_saved_none split: if_splits)

lemma exit_saved: "on_spike_exit p tr s = (vs, tr', s') \<Longrightarrow> victims_saved tr s \<Longrightarrow> victims_saved tr' s'"
  unfolding on_spike_exit_def by (erule drain_saved) (erule victims_saved_same, simp_all)

lemma take_victims_sub: "take_victims ps m = (vs, m') \<Longrightarrow> hm_get m' p = Some v \<Longrightarrow> hm_get m p = Some v"
proof (induction ps arbitrary: m vs)
  case (Cons q ps)
  then show ?case by (cases "hm_get m q") (fastforce simp: hm_simps split: prod.splits if_splits)+
qed simp

lemma timed_out_trace: "sys_trace (snd (timed_out_pids n vs s)) = sys_trace s"
  by (induction vs arbitrary: s) (simp_all add: case_prod_unfold Let_def)

lemma clock_trace: "sys_trace (snd (os_clock s)) = sys_trace s"
  by (simp add: os_clock_def)

lemma timed_out_saved:
  assumes "drain_timed_out_victims n tr s = (vs, tr', s')" "victims_saved tr s"
  shows "victims_saved tr' s'"
proof -
  obtain now s1 where 1: "os_clock s = (now, s1)" by fastforce
  obtain ps s2 where 2: "timed_out_pids n (hm_values (tr_victims tr)) s1 = (ps, s2)" by fastforce
  obtain vs0 m where 3: "take_victims ps (tr_victims tr) = (vs0, m)" by fastforce
  have "sys_trace s2 = sys_trace s"
    using clock_trace [of s] timed_out_trace [of n "hm_values (tr_victims tr)" s1] by (simp add: 1 2)
  then have "victims_saved tr s2" using victims_saved_same [OF assms(2) extends_same] by simp
  moreover have "victims_saved t (persist_victims t s2)" if "tr_victims t = m" for t
    by (rule victims_saved_persist) (use that take_victims_sub [OF 3] keyed [OF assms(2)] in auto)
  ultimately show ?thesis using assms
    by (auto simp: drain_timed_out_victims_def 1 2 3 Let_def split: if_splits)
qed

lemma requested_saved:
  assumes "release_requested ps tr s = (vs, tr', s')" "victims_saved tr s"
  shows "victims_saved tr' s'"
proof -
  obtain now s1 where 1: "os_clock s = (now, s1)" by fastforce
  obtain vs0 m where 3: "take_victims ps (tr_victims tr) = (vs0, m)" by fastforce
  have "victims_saved t (persist_victims t s1)" if "tr_victims t = m" for t
    by (rule victims_saved_persist) (use that take_victims_sub [OF 3] keyed [OF assms(2)] in auto)
  moreover have "victims_saved (tr\<lparr>tr_victims := m\<rparr>) s"
    by (rule victims_saved_frame [OF assms(2)]) (use take_victims_sub [OF 3] in simp_all)
  ultimately show ?thesis using assms by (auto simp: release_requested_def 1 3 Let_def split: if_splits)
qed

lemma release_exited_saved:
  "release_exited procs ps nm tr s = (n, nm', tr', s') \<Longrightarrow> victims_saved tr s \<Longrightarrow> victims_saved tr' s'"
proof (induction ps arbitrary: nm tr s n nm')
  case (Cons p ps)
  obtain vs tr1 s1 where 1: "on_spike_exit p tr s = (vs, tr1, s1)" by (metis prod_cases3)
  obtain k s2 where 2: "release_batch LaSpikeUnfreeze vs s1 = (k, s2)" by fastforce
  obtain m nm2 nm3 where r: "release_exited procs ps nm2 tr1 s2 = (m, nm3, tr', s')"
    using Cons.prems(1) by (auto simp: 1 2 Let_def split: prod.splits)
  have "victims_saved tr1 s2"
    using release_batch_saved [OF exit_saved [OF 1 Cons.prems(2)], of LaSpikeUnfreeze vs] by (simp add: 2)
  with r show ?case by (rule Cons.IH)
qed simp

lemma release_victims_saved:
  assumes "release_victims cfg procs manual tr s = (tr', s')" "victims_saved tr s"
  shows "victims_saved tr' s'"
proof -
  obtain n nm tr1 s1 where 1: "release_exited procs (exited_spikes procs tr) None tr s = (n, nm, tr1, s1)"
    by (metis prod_cases4)
  define s2 where "s2 = notify_resumed (case nm of Some n \<Rightarrow> n | None \<Rightarrow> ''build'') n s1"
  obtain vs3 tr3 s3 where 3: "drain_timed_out_victims (cc_spike_max_victim_freeze_sec cfg) tr1 s2 = (vs3, tr3, s3)"
    by (metis prod_cases3)
  obtain k4 s4 where 4: "release_batch LaSpikeUnfreezeTimeout vs3 s3 = (k4, s4)" by fastforce
  obtain vs5 tr5 s5 where 5: "drain_if_none_tracking tr3 s4 = (vs5, tr5, s5)" by (metis prod_cases3)
  obtain k6 s6 where 6: "release_batch LaSpikeUnfreezeOrphan vs5 s5 = (k6, s6)" by fastforce
  obtain vs7 tr7 s7 where 7: "release_requested manual tr5 s6 = (vs7, tr7, s7)" by (metis prod_cases3)
  have out: "(tr', s') = (if manual = [] then (tr5, s6)
      else (tr7, snd (release_batch LaSpikeUnfreezeManual vs7 s7)))"
    using assms(1) by (simp add: release_victims_def 1 3 4 5 6 7 s2_def [symmetric] Let_def cong: if_cong)
  have "victims_saved tr1 s2"
    unfolding s2_def by (rule victims_saved_same [OF release_exited_saved [OF 1 assms(2)] notify_file]) simp
  from release_batch_saved [OF timed_out_saved [OF 3 this]] 4 have "victims_saved tr3 s4" by (metis snd_conv)
  from release_batch_saved [OF drain_saved [OF 5 this]] 6 have v6: "victims_saved tr5 s6" by (metis snd_conv)
  from release_batch_saved [OF requested_saved [OF 7 this]] v6 out show ?thesis by (auto split: if_splits)
qed

section \<open>Updating and freezing\<close>

lemma retain_trace: "sys_trace (snd (retain_cooldowns m s)) = sys_trace s"
  by (induction m arbitrary: s) (auto simp: case_prod_unfold Let_def)

lemma advance_saved: "advance_caches procs tr s = (tr', s') \<Longrightarrow> victims_saved tr s \<Longrightarrow> victims_saved tr' s'"
proof -
  assume a: "advance_caches procs tr s = (tr', s')" and v: "victims_saved tr s"
  from a have "tr_victims tr' = tr_victims tr" "sys_trace s' = sys_trace s"
    using retain_trace [of "tr_cooldowns tr" s] by (auto simp: advance_caches_def Let_def split: prod.splits)
  then show ?thesis using victims_saved_same [OF v extends_same] by blast
qed

lemma spike_update_saved:
  assumes "spike_update procs available p tr s = (ds, tr', s')" "victims_saved tr s"
  shows "victims_saved tr' s'"
proof -
  obtain now s1 where 1: "os_clock s = (now, s1)" by fastforce
  define rd where "rd = rss_deltas procs (tr_prev_rss tr)"
  define sp1 where "sp1 = foldl (register_candidate p (tr_prev_rss tr) rd (majflt_deltas procs (tr_prev_majflt tr)))
    (tr_spikes tr) procs"
  obtain sp2 pre dem where 2: "foldl (track_process p now rd) (sp1, [], False) procs = (sp2, pre, dem)"
    by (metis prod_cases3)
  obtain tr1 s2 where 3: "advance_caches procs (tr\<lparr>tr_spikes := sp2\<rparr>) s1 = (tr1, s2)" by fastforce
  obtain released tr2 s3 where 4: "(if dem then drain_if_none_tracking tr1 s2 else ([], tr1, s2)) = (released, tr2, s3)"
    by (metis prod_cases3)
  have out: "tr_victims tr' = tr_victims tr2" "s' = s3"
    using assms(1) 1 2 3 4 by (auto simp: spike_update_def Let_def rd_def sp1_def split: prod.splits)
  have "sys_trace s1 = sys_trace s" using clock_trace [of s] by (simp add: 1)
  then have "victims_saved (tr\<lparr>tr_spikes := sp2\<rparr>) s1" using victims_saved_same [OF assms(2) extends_same] by simp
  from advance_saved [OF 3 this] have "victims_saved tr2 s3" using 4 drain_saved by (auto split: if_splits)
  then show ?thesis by (rule victims_saved_same) (simp_all add: out)
qed

lemma reclaim_file: "extends keeps_file s (snd (reclaim_cgroup cg n s))"
  using reclaim_extends [of cg s n] by (rule extends_mono) (auto simp: writes_only_def split: effect.splits)

lemma freeze_file: "extends keeps_file s (snd (freeze_checked p st s))"
  by (rule extends_mono [OF freezer.extends_only]) (rule signals_keep_file)

lemma freeze_for_headroom_saved:
  "freeze_for_headroom initiator qs needed tr s = (tr', s') \<Longrightarrow> victims_saved tr s \<Longrightarrow> victims_saved tr' s'"
proof (induction qs arbitrary: needed tr s)
  case (Cons q qs)
  obtain st s1 where 1: "start_time_of (p_pid q) s = (st, s1)" by fastforce
  have v1: "victims_saved tr s1" using victims_saved_same [OF Cons.prems(2) extends_same] start_time_pair [OF 1] by simp
  obtain r s2 where 2: "freeze_checked (p_pid q) (the st) s1 = (r, s2)" by fastforce
  have v2: "victims_saved tr s2" using victims_saved_same [OF v1 freeze_file [of s1 "p_pid q" "the st"]] by (simp add: 2)
  define s3 where "s3 = log_entry LaSpikeFreeze (p_pid q) (p_name q) s2"
  obtain now s4 where 4: "os_clock s3 = (now, s4)" by fastforce
  let ?v = "headroom_victim initiator q (the st) now"
  let ?tr = "tr\<lparr>tr_victims := hm_insert (p_pid q) ?v (tr_victims tr)\<rparr>"
  let ?s5 = "persist_victims ?tr s4"
  define s6 where "s6 = (case p_cgroup_path q of Some cg \<Rightarrow> snd (reclaim_cgroup cg (kb_bytes (p_rss q)) ?s5) | None \<Rightarrow> ?s5)"
  have "victims_saved ?tr ?s5"
    by (rule victims_saved_persist) (use keyed [OF v2] in \<open>auto simp: hm_simps headroom_victim_def split: if_splits\<close>)
  then have v6: "victims_saved ?tr s6"
    unfolding s6_def using victims_saved_same [OF _ reclaim_file] by (auto split: option.split)
  have rec: "record_victim_frozen ?v tr s4 = (?tr, ?s5)"
    by (simp add: record_victim_frozen_def headroom_victim_def Let_def)
  have "needed \<noteq> 0 \<Longrightarrow> st = Some t \<Longrightarrow> opr_success r \<Longrightarrow>
      freeze_for_headroom initiator qs (kb_sub needed (p_rss q)) ?tr s6 = (tr', s')" for t
    using Cons.prems(1) 1 2 4 rec [unfolded headroom_victim_def]
    by (simp add: s3_def [symmetric] s6_def headroom_victim_def Let_def cong: option.case_cong)
  then show ?case
    using Cons.prems Cons.IH [OF _ v1] Cons.IH [OF _ v2] Cons.IH [OF _ v6] 1 2
    by (cases "needed = 0"; cases st; cases "opr_success r") simp_all
qed simp

section \<open>The whole cycle\<close>

lemma cooldown_trace: "sys_trace (snd (is_victim_cooldown p n tr s)) = sys_trace s"
  by (simp add: is_victim_cooldown_def case_prod_unfold Let_def split: option.split)

lemma headroom_candidates_trace: "sys_trace (snd (headroom_candidates cfg tr ex active qs s)) = sys_trace s"
  by (induction qs arbitrary: s) (simp_all add: cooldown_trace case_prod_unfold Let_def)

lemma run_decision_saved:
  assumes "run_spike_decision cfg fm procs d tr s = (tr', s')" "victims_saved tr s"
  shows "victims_saved tr' s'"
proof (cases d)
  case (FreezeForHeadroom needed)
  obtain cs s1 where 1: "headroom_candidates cfg tr (excluded_pids fm tr True) (sys_foreground s) procs s = (cs, s1)"
    by fastforce
  have "sys_trace s1 = sys_trace s"
    using headroom_candidates_trace [of cfg tr "excluded_pids fm tr True" "sys_foreground s" procs s] by (simp add: 1)
  then have "victims_saved tr s1" using victims_saved_same [OF assms(2) extends_same] by simp
  then show ?thesis using assms(1) freeze_for_headroom_saved by (auto simp: run_spike_decision_def FreezeForHeadroom 1)
next
  case (ReleaseVictims vs)
  then show ?thesis
    using assms(1) victims_saved_same [OF release_batch_saved [OF assms(2), of LaSpikeUnfreeze vs] notify_file]
    by (auto simp: run_spike_decision_def case_prod_unfold Let_def)
next
  case (ThrottleSpike q cg)
  have "extends keeps_file s (snd (write_cgroup_cpu_weight cg w s))" for w
    by (rule extends_mono [OF limit_extends(1)]) (auto simp: is_write_def split: effect.splits)
  then show ?thesis using assms victims_saved_same by (auto simp: run_spike_decision_def ThrottleSpike)
next
  case (RestoreThrottle q cg)
  have "extends keeps_file s (snd (write_cgroup_cpu_weight cg w s))" for w
    by (rule extends_mono [OF limit_extends(1)]) (auto simp: is_write_def split: effect.splits)
  then show ?thesis using assms victims_saved_same by (auto simp: run_spike_decision_def RestoreThrottle)
qed

lemma run_decisions_saved:
  "run_spike_decisions cfg fm procs ds tr s = (tr', s') \<Longrightarrow> victims_saved tr s \<Longrightarrow> victims_saved tr' s'"
  by (induction ds arbitrary: tr s) (auto dest: run_decision_saved split: prod.splits)

lemma run_spike_cycle_saved:
  assumes "run_spike_cycle cfg fm available procs manual tr s = (tr', s')" "victims_saved tr s"
  shows "victims_saved tr' s'"
proof -
  obtain tr1 s1 where 1: "release_victims cfg procs manual tr s = (tr1, s1)" by fastforce
  have v1: "victims_saved tr1 s1" by (rule release_victims_saved [OF 1 assms(2)])
  obtain ds tr2 s2 where 2: "(if cc_spike_mode_enabled cfg
      then spike_update procs available (spike_params_from cfg) tr1 s1 else ([], tr1, s1)) = (ds, tr2, s2)"
    by (metis prod_cases3)
  have "run_spike_decisions cfg fm procs ds tr2 s2 = (tr', s')"
    using assms(1) by (simp add: run_spike_cycle_def 1 2 cong: if_cong)
  moreover have "victims_saved tr2 s2" using 2 v1 spike_update_saved [OF _ v1] by (auto split: if_splits)
  ultimately show ?thesis by (rule run_decisions_saved)
qed

section \<open>Nobody else writes the file\<close>

lemma execute_plan_file:
  assumes "execute_plan real_sink procs ds x killed = (n, x', killed')"
  shows "extends keeps_file (xs_sys x) (xs_sys x')"
proof -
  have "effect_target d e \<Longrightarrow> keeps_file e" for d e by (cases e) (auto simp: effect_target_def)
  then show ?thesis using real.execute_plan_extends [OF assms] by (blast intro: extends_mono)
qed

lemma frozen_remove_file: "frozen_remove p m s = (m', s') \<Longrightarrow> extends keeps_file s s'"
  by (drule frozen_remove_result(3)) (auto simp: extends_def split: if_splits)

lemma thaw_all_file: "extends keeps_file s (thaw_all vs s)"
proof (induction vs arbitrary: s)
  case (Cons v vs)
  obtain p st where v: "v = (p, st)" by fastforce
  show ?case using extends_trans [OF thaw_file [of s p st] Cons.IH] by (simp add: v)
qed simp

lemma unfreeze_pass_file: "unfreeze_pass fm b mi now s = (fm', s') \<Longrightarrow> extends keeps_file s s'"
proof -
  have "thaw_effect P e \<Longrightarrow> keeps_file e" for P e by (cases e) (auto simp: thaw_effect_def)
  then have "extends keeps_file s (snd (unfreeze_loop b mi now ps n fm s))" for ps n
    using unfreeze_loop_effects [of ps "set ps" s b mi now n fm] by (blast intro: extends_mono)
  then show "unfreeze_pass fm b mi now s = (fm', s') \<Longrightarrow> extends keeps_file s s'"
    by (auto simp: unfreeze_pass_def split: if_splits) (metis snd_conv)
qed

lemma restore_file: "restore dir s = (e, s1) \<Longrightarrow> extends keeps_file s s1"
  by (auto simp: restore_def os_exists_def os_run_def Let_def extends_def
      dest!: helper_path_trace split: prod.splits bool.splits option.splits run_result.splits if_splits)

lemma restore_pass_file: "restore_pass cm b mi s = (cm', s') \<Longrightarrow> extends keeps_file s s'"
proof -
  assume r: "restore_pass cm b mi s = (cm', s')"
  have rm: "extends keeps_file t u" if "checkpoint_remove p m t = (m', u)" for p m t m' u
    using that by (auto simp: checkpoint_remove_def checkpoint_save_def Let_def extends_def split: if_splits)
  have inc: "extends keeps_file t u" if "increment_attempts p m t = (m', u)" for p m t m' u
    using that by (auto simp: increment_attempts_def checkpoint_save_def Let_def extends_def split: option.splits)
  have dir: "extends keeps_file t (os_remove_dir d (log_entry a p n t))" for d a p n t
    by (simp add: os_remove_dir_def log_entry_def extends_def)
  show ?thesis using r rm inc dir log_file restore_file
    by (auto simp: restore_pass_def split: if_splits list.splits prod.splits option.splits)
      (meson extends_trans)+
qed

lemma recovery_turn_file:
  assumes "recovery_turn src psi b fm cm s = (b', fm', cm', s')"
  shows "extends keeps_file s s'"
proof -
  obtain r s1 where 1: "read_pressure src s = (r, s1)" by fastforce
  obtain mi s2 where 2: "current_meminfo s1 = (mi, s2)" by fastforce
  define b1 where "b1 = health_observe (mi_available mi) b"
  obtain now s3 where 3: "os_unix s2 = (now, s3)" by fastforce
  obtain fm4 s4 where 4: "unfreeze_pass fm b1 mi now s3 = (fm4, s4)" by fastforce
  obtain mi5 s5 where 5: "current_meminfo s4 = (mi5, s5)" by fastforce
  obtain cm6 s6 where 6: "restore_pass cm b1 mi5 s5 = (cm6, s6)" by fastforce
  have "extends keeps_file s s3"
    using silent_calls(1) [OF 1] silent_calls(2) [OF 2] silent_calls(3) [OF 3] by (simp add: extends_same)
  also note unfreeze_pass_file [OF 4]
  also have "extends keeps_file s4 s5" using silent_calls(2) [OF 5] by (simp add: extends_same)
  also note restore_pass_file [OF 6]
  also have "extends keeps_file s6 (os_sleep s6)" using silent_calls(4) [of s6] by (simp add: extends_same)
  finally have long: "extends keeps_file s (os_sleep s6)" .
  have "extends keeps_file s (os_sleep s1)" using silent_calls(1) [OF 1] silent_calls(4) [of s1] by (simp add: extends_same)
  moreover have "s' = os_sleep s1 \<or> s' = os_sleep s6"
    using assms by (auto simp: recovery_turn_def 1 2 3 4 5 6 b1_def [symmetric] Let_def split: sum.splits if_splits)
  ultimately show ?thesis using long by blast
qed

section \<open>The window of a release\<close>

text \<open>
  A release writes the shortened file before it continues the victims it took out: between the two
  they are stopped and in no file.
\<close>

lemma release_window:
  assumes "drain_if_none_tracking tr s = (vs, tr', s1)" "vs \<noteq> []"
  shows "last_victims s1 = [] \<and> (\<forall>t. stopped (sys_trace s1) t = stopped (sys_trace s) t)"
  using assms
  by (auto simp: drain_if_none_tracking_def persist_victims_def last_victims_def map_filter_def hm_values_def
      stopped_append stop_step_def emit_def Let_def split: if_splits)

end
