(* ===== verification/Account.thy ===== *)
theory Account
  imports Evictor Victims
begin

text \<open>
  What every turn of the responder keeps: the registries are well formed, the registry on disk is the
  one in memory, no restore is tried too often, the event log is bounded, and every process left
  stopped is in the registry or among the victims of spike mode.
\<close>

section \<open>Carrying out a plan\<close>

definition exec_ok :: "exec_state \<Rightarrow> bool" where
  "exec_ok x \<longleftrightarrow> hm_ok (xs_frozen x) \<and> last_saved (xs_sys x) = Some (xs_frozen x)
     \<and> hm_ok (xs_checkpointed x) \<and> attempts_ok (xs_checkpointed x) \<and> length (xs_events x) \<le> max_events"

context action_sink_laws
begin

lemma sink_saved:
  "last_saved (snd (snk_freeze snk p s)) = last_saved s"
  "unat p < 2 ^ 31 \<Longrightarrow> last_saved (snd (snk_unfreeze snk p s)) = last_saved s"
  "last_saved (snd (snk_terminate snk p s)) = last_saved s"
  "last_saved (snd (snk_kill snk p s)) = last_saved s"
  "last_saved (snd (snk_checkpoint snk p name s)) = last_saved s"
  "last_saved (snd (snk_reclaim snk cgroup bytes s)) = last_saved s"
proof -
  show "last_saved (snd (snk_freeze snk p s)) = last_saved s"
  proof (cases "opr_success (fst (snk_freeze snk p s))")
    case True
    then show ?thesis using freeze_ok [of p s] by (simp add: last_saved_def map_filter_def)
  next
    case False
    show ?thesis
      by (rule saved_frame, rule extends_mono [OF freeze_fail [OF False]]) (blast dest: signals_not_saved)
  qed
  show "last_saved (snd (snk_unfreeze snk p s)) = last_saved s" if "unat p < 2 ^ 31"
    using unfreeze [OF that, of s] by (auto simp: last_saved_def map_filter_def)
  show "last_saved (snd (snk_terminate snk p s)) = last_saved s"
    by (rule saved_frame, rule extends_mono [OF terminate]) (simp add: not_saved_def)
  show "last_saved (snd (snk_kill snk p s)) = last_saved s"
    by (rule signals_saved [OF kill])
  show "last_saved (snd (snk_checkpoint snk p name s)) = last_saved s"
    using checkpoint [of p s name]
    by (auto simp: checkpoint_effect_def not_saved_def intro!: saved_frame elim!: extends_mono split: effect.splits)
  show "last_saved (snd (snk_reclaim snk cgroup bytes s)) = last_saved s"
    by (rule saved_frame, rule extends_mono [OF reclaim]) (auto simp: is_write_def not_saved_def split: effect.splits)
qed

lemma freeze_process_ok:
  assumes "freeze_process snk d fm s = (out, fm', s')" "hm_ok fm" "last_saved s = Some fm"
  shows "hm_ok fm' \<and> last_saved s' = Some fm'"
proof -
  let ?p = "d_pid d"
  obtain r s1 where 1: "snk_freeze snk ?p s = (r, s1)" by fastforce
  obtain ok fm1 s2 where 2: "frozen_add ?p (d_name d) fm s1 = (ok, fm1, s2)" by (metis prod_cases3)
  have s1: "last_saved s1 = Some fm" using sink_saved(1) [of ?p s] assms(3) by (simp add: 1)
  note a = frozen_add_result(5) [OF 2 assms(2)] frozen_add_synced [OF s1 2]
  have p: "opr_success r \<Longrightarrow> unat ?p < 2 ^ 31" using freeze_ok [of ?p s] by (simp add: 1)
  show ?thesis
    using assms(1,2) s1 a sink_saved(2) [OF p, of s2]
    by (auto simp: freeze_process_def 1 2 Let_def split: if_splits bool.splits)
qed

lemma perform_ok:
  assumes "perform snk d x = (res, x')" "exec_ok x"
  shows "exec_ok x'"
proof (cases "d_action d")
  case ActFreeze
  obtain a fm s where f: "freeze_process snk d (xs_frozen x) (xs_sys x) = (a, fm, s)" by (metis prod_cases3)
  then show ?thesis using freeze_process_ok [OF f] assms ActFreeze by (auto simp: perform_def exec_ok_def)
next
  case ActCheckpoint
  have k: "snk_kill snk p s = (kr, s') \<Longrightarrow> last_saved s' = last_saved s"
    "snk_checkpoint snk p n s = (cr, s') \<Longrightarrow> last_saved s' = last_saved s" for p n s s' kr cr
    using sink_saved(4) [of p s] sink_saved(5) [of p n s] by auto
  have m: "last_saved (mark_binary_failed n s) = last_saved s" "last_saved (checkpoint_save cm s) = last_saved s" for n s cm
    by (simp_all add: last_saved_def map_filter_def checkpoint_save_def)
  show ?thesis using assms ActCheckpoint
    by (auto simp: perform_def execute_checkpoint_def exec_ok_def Let_def checkpoint_add_def terminate_process_def
        m sink_saved checkpoint_put_def attempts_ok_def list_all_update split: if_splits prod.splits dest!: k)
qed (use assms in \<open>auto simp: perform_def exec_ok_def terminate_process_def kill_process_def case_prod_unfold Let_def sink_saved\<close>)

lemma log_saved: "last_saved (snd (push_event a p n e q (log_entry b p' n' s))) = last_saved s"
  by (rule trans [OF last_saved_trace log_entry_saved]) simp

lemma execute_decision_ok:
  assumes "execute_decision snk d x = (out, x')" "exec_ok x"
  shows "exec_ok x'"
proof -
  obtain res x1 where 1: "perform snk d x = (res, x1)" by fastforce
  note ok = perform_ok [OF 1 assms(2)]
  show ?thesis
  proof (cases res)
    case None
    then show ?thesis using assms(1) ok by (simp add: execute_decision_def 1)
  next
    case (Some r)
    obtain la out' where r: "r = (la, out')" by fastforce
    obtain evs s where p: "push_event la (d_pid d) (d_name d) (EvOutcome out' (d_reason d)) (xs_events x1)
        (log_entry la (d_pid d) (d_name d) (xs_sys x1)) = (evs, s)" by fastforce
    have "x' = x1\<lparr>xs_events := evs, xs_sys := s\<rparr>" using assms(1) by (simp add: execute_decision_def 1 Some r p)
    moreover have "last_saved s = last_saved (xs_sys x1)"
      using log_saved [of la "d_pid d" "d_name d"] by (metis p snd_conv)
    moreover have "length evs \<le> max_events"
      using push_event_bounded ok by (metis exec_ok_def fst_conv p)
    ultimately show ?thesis using ok by (simp add: exec_ok_def)
  qed
qed

lemma execute_plan_ok:
  assumes "execute_plan snk procs ds x killed = (n, x', killed')" "exec_ok x"
  shows "exec_ok x'"
  using assms
proof (induction ds arbitrary: x killed n x' killed')
  case (Cons d ds)
  show ?case
  proof (cases "is_frozen (xs_frozen x) (d_pid d)")
    case True
    then show ?thesis using Cons by simp
  next
    case False
    obtain out x1 where 1: "execute_decision snk d x = (out, x1)" by fastforce
    let ?s2 = "post_freeze_reclaim snk procs d out (xs_sys x1)"
    obtain k1 s3 where 3: "note_killed procs d killed ?s2 = (k1, s3)" by fastforce
    obtain n' x4 k2 where 4: "execute_plan snk procs ds (x1\<lparr>xs_sys := s3\<rparr>) k1 = (n', x4, k2)" by (metis prod_cases3)
    have "last_saved ?s2 = last_saved (xs_sys x1)"
      using sink_saved(6)
      by (auto simp: post_freeze_reclaim_def log_entry_saved split: option.splits prod.splits sum.splits bool.splits)
        (metis snd_conv)+
    then have "exec_ok (x1\<lparr>xs_sys := s3\<rparr>)"
      using execute_decision_ok [OF 1 Cons.prems(2)] last_saved_trace [OF note_killed_trace [OF 3]]
      by (simp add: exec_ok_def)
    from Cons.IH [OF 4 this] show ?thesis using Cons.prems(1) False by (simp add: 1 3 4)
  qed
qed simp

end

section \<open>Control groups and the leak guard\<close>

lemma harmless_background: "background_secs path tracker s = (n, t, s1) \<Longrightarrow> harmless s s1"
  by (auto simp: background_secs_def Let_def dest!: harmless_reads split: option.splits prod.splits intro: harmless_trans)

lemma harmless_limit:
  "harmless s (case write_cgroup_cpu_weight path w s of
     (None, s1) \<Rightarrow> snd (write_cgroup_cpu_max path quota s1) | (Some _, s1) \<Rightarrow> s1)"
proof -
  obtain e s1 where 1: "write_cgroup_cpu_weight path w s = (e, s1)" by fastforce
  obtain e' s2 where 2: "write_cgroup_cpu_max path quota s1 = (e', s2)" by fastforce
  show ?thesis using harmless_cgroup(1) [OF 1] harmless_trans [OF harmless_cgroup(1) [OF 1] harmless_cgroup(2) [OF 2]]
    by (simp add: 1 2 split: option.split)
qed

lemma harmless_apply: "harmless s (apply_throttle target path s)"
  by (cases target) (simp_all add: apply_throttle_def harmless_restore_cgroup harmless_limit)

lemma harmless_throttle: "throttle_update procs a active psi cfg tm s = (tm', s1) \<Longrightarrow> harmless s s1"
proof -
  have spare: "harmless s (snd (spare_group path tm s))" for path tm s
    by (simp add: spare_group_def Let_def harmless_restore_cgroup)
  have one: "harmless s (snd (throttle_group cfg psi fg (tm, s) entry))" for fg tm s entry
  proof (cases entry)
    case (Pair path ps)
    obtain n t s1 where 1: "background_secs path (tm_tracker tm) s = (n, t, s1)" by (metis prod_cases3)
    show ?thesis using harmless_trans [OF harmless_background [OF 1] harmless_apply] harmless_background [OF 1] spare
      by (simp add: throttle_group_def Pair 1 Let_def)
  qed
  have "harmless s (snd (foldl (throttle_group cfg psi fg) (tm, s) groups))" for fg tm groups
    by (rule foldl_invariant [where P = "\<lambda>x. harmless s (snd x)"])
      (use one in \<open>auto intro: harmless_trans\<close>)
  moreover have "harmless s (restore_all_cpu paths s)" for paths
    unfolding restore_all_cpu_def by (rule harmless_fold) (rule harmless_restore_cgroup)
  ultimately have "harmless s (snd (throttle_update procs a active psi cfg tm s))"
    by (simp add: throttle_update_def Let_def)
  then show "throttle_update procs a active psi cfg tm s = (tm', s1) \<Longrightarrow> harmless s s1" by simp
qed

lemma harmless_memcap: "memcap_update procs a level cfg mc s = (mc', s1) \<Longrightarrow> harmless s s1"
proof -
  have one: "harmless s (snd (memcap_group fg (mc, s) entry))" for fg mc s entry
  proof (cases entry rule: prod_cases3)
    case (fields path prio rss)
    obtain n t s1 where 1: "background_secs path (mc_tracker mc) s = (n, t, s1)" by (metis prod_cases3)
    obtain e s2 where 2: "write_memory_max path (cap_bytes rss) s1 = (e, s2)" by fastforce
    show ?thesis using harmless_background [OF 1] harmless_trans [OF _ harmless_cgroup(3) [OF 2]]
      by (auto simp: memcap_group_def fields 1 2 Let_def harmless_restore_cgroup split: option.split)
  qed
  have "harmless s (snd (foldl (memcap_group fg) (mc, s) groups))" for fg mc groups
    by (rule foldl_invariant [where P = "\<lambda>x. harmless s (snd x)"])
      (use one in \<open>auto intro: harmless_trans\<close>)
  then have "harmless s (snd (memcap_update procs a level cfg mc s))" by (simp add: memcap_update_def Let_def)
  then show "memcap_update procs a level cfg mc s = (mc', s1) \<Longrightarrow> harmless s s1" by simp
qed

lemma harmless_memcap_restore: "memcap_restore_all mc s = (mc', s1) \<Longrightarrow> harmless s s1"
  by (auto simp: memcap_restore_all_def intro: harmless_fold harmless_restore_cgroup)

lemma run_leak_decisions_result:
  "run_leak_decisions ds q s = (q', s1) \<Longrightarrow> harmless s s1 \<and> (length q \<le> max_events \<longrightarrow> length q' \<le> max_events)"
proof (induction ds q s rule: run_leak_decisions.induct)
  case (2 p n f ds q s)
  let ?s = "log_entry LaLeakGuardKill p n (emit (SpawnedSigterm p) (tick s))"
  obtain q1 s2 where 1: "push_event LaLeakGuardKill p n (EvLeak f) q ?s = (q1, s2)" by fastforce
  have "harmless s (emit (SpawnedSigterm p) (tick s))"
    by (rule harmless_trans [OF harmless_tick harmless_emit]) (simp_all add: stop_neutral_def not_saved_def)
  then have "harmless s s2" using harmless_push_event [OF 1] harmless_log by (blast intro: harmless_trans)
  moreover have "length q \<le> max_events \<longrightarrow> length q1 \<le> max_events" using push_event_bounded by (metis 1 fst_conv)
  ultimately show ?case using "2.IH" [OF refl 1 [symmetric]] "2.prems" by (auto simp: 1 Let_def intro: harmless_trans)
qed simp

lemma leak_cycle_result:
  assumes "run_leak_guard_cycle cfg procs groups q s = (groups', q', s1)"
  shows "harmless s s1 \<and> (length q \<le> max_events \<longrightarrow> length q' \<le> max_events)"
proof (cases "cc_leak_guard_enabled cfg")
  case True
  obtain ds g s2 where 1: "leak_update (leak_candidates cfg procs) (leak_params_from cfg) groups s = (ds, g, s2)"
    by (metis prod_cases3)
  then have "harmless s s2"
    by (auto simp: leak_update_def Let_def split: prod.splits dest!: harmless_reads(4))
  then show ?thesis using assms True run_leak_decisions_result [of ds q s2]
    by (auto simp: run_leak_guard_cycle_def 1 split: prod.splits intro: harmless_trans)
qed (use assms in \<open>simp add: run_leak_guard_cycle_def\<close>)

section \<open>The account of the stopped processes\<close>

definition in_order :: "frozen_map \<Rightarrow> spike_tracker \<Rightarrow> sys \<Rightarrow> bool" where
  "in_order fm tr s \<longleftrightarrow> hm_ok fm \<and> tracker_ok tr \<and> last_saved s = Some fm \<and> victims_saved tr s
     \<and> held (with_registry (with_victims (\<lambda>_ _. False) tr) fm) s"

lemma in_order_keeps: "keeps_account fm s fm' s' \<Longrightarrow> in_order fm tr s \<Longrightarrow> in_order fm' tr s'"
  using victims_saved_same [of tr s s' tr] by (simp add: in_order_def keeps_account_def)

lemma in_order_harmless: "harmless s s' \<Longrightarrow> in_order fm tr s \<Longrightarrow> in_order fm tr s'"
  by (rule in_order_keeps [OF harmless_keeps])

lemma registry_victims_commute: "with_registry (with_victims F tr) fm = with_victims (with_registry F fm) tr"
  by (auto simp: fun_eq_iff with_registry_def with_victims_def)

lemma in_order_spikes:
  assumes "run_spike_cycle cfg fm available procs manual tr s = (tr', s')" "in_order fm tr s"
  shows "in_order fm tr' s'"
proof -
  have "tracker_ok tr' \<and> accounted tr s tr' s'"
    using run_spike_cycle_result [OF assms(1)] assms(2) by (simp add: in_order_def)
  then show ?thesis using assms(2) run_spike_cycle_saved [OF assms(1)] accounted_saved [of tr s tr' s'] accountedD(4) [of tr s tr' s' "with_registry (\<lambda>_ _. False) fm"]
    by (simp add: in_order_def registry_victims_commute)
qed

lemma in_order_check_idle:
  "check_idle_process_reclaim cfg procs active t ft fm s = (t', ft', fm', s') \<Longrightarrow> in_order fm tr s \<Longrightarrow> in_order fm' tr s'"
  using check_idle_keeps in_order_keeps unfolding in_order_def by blast

lemma in_order_focus:
  assumes "focus_unfreeze active fm s = (fm', s')" "in_order fm tr s"
  shows "in_order fm' tr s'"
proof (cases "\<exists>p. active = Some p \<and> is_frozen fm p")
  case True
  then obtain p where p: "active = Some p" "is_frozen fm p" by blast
  obtain r s1 where 1: "unfreeze_checked p (frozen_start fm p) s = (r, s1)" by fastforce
  have h: "harmless s s1" by (rule harmless_unfreeze [OF 1])
  show ?thesis
  proof (cases "opr_success r")
    case True
    then have 2: "frozen_remove p fm s1 = (fm', s')" using assms(1) p by (simp add: focus_unfreeze_def 1)
    have "held (with_registry (with_victims (\<lambda>_ _. False) tr) fm') s'"
      using held_unrecord [where s = s and s' = s1 and ?s2.0 = s1 and p = p and fm = fm] assms(2) 2
      by (auto simp: 1 in_order_def)
    moreover have "extends keeps_file s s'" by (rule extends_trans [OF harmless_file [OF h] frozen_remove_file [OF 2]])
    ultimately show ?thesis using frozen_remove_result(2) [OF 2] frozen_remove_synced [OF _ 2] harmless_saved [OF h] assms(2)
      by (auto simp: in_order_def intro: victims_saved_same)
  next
    case False
    then show ?thesis using assms in_order_harmless [OF h] p by (simp add: focus_unfreeze_def 1)
  qed
qed (use assms in \<open>auto simp: focus_unfreeze_def split: option.splits\<close>)

section \<open>Everything a turn keeps\<close>

definition shared_ok :: "shared \<Rightarrow> bool" where
  "shared_ok sh \<longleftrightarrow> hm_ok (sh_checkpointed sh) \<and> attempts_ok (sh_checkpointed sh) \<and> calibrator_ok (sh_calibrator sh)
     \<and> length (sh_events sh) \<le> max_events"

definition turn_ok :: "evictor \<Rightarrow> shared \<Rightarrow> sys \<Rightarrow> bool" where
  "turn_ok er sh s \<longleftrightarrow> shared_ok sh \<and> in_order (sh_frozen sh) (er_spikes er) s"

lemma assess_result:
  assumes "assess pressure er s = (level, mi, now, er', s')"
  shows "harmless s s' \<and> er_spikes er' = er_spikes er \<and> er_level er' = level"
  using assms
  by (auto simp: assess_def get_total_gpu_kb_def Let_def split: prod.splits dest!: harmless_reads intro: harmless_trans)

lemma note_emergency_result:
  "note_emergency level now cfg er s = (er', s') \<Longrightarrow> harmless s s' \<and> er_spikes er' = er_spikes er \<and> er_level er' = er_level er"
  by (auto simp: note_emergency_def Let_def stop_neutral_def not_saved_def split: if_splits
      intro: harmless_trans [OF harmless_tick harmless_emit])

lemma run_controls_result:
  assumes "run_controls cfg level psi procs changed active idle er fm s = (er', fm', s')" "in_order fm (er_spikes er) s"
  shows "in_order fm' (er_spikes er) s' \<and> er_spikes er' = er_spikes er \<and> er_level er' = er_level er"
proof -
  obtain fm1 s1 where 1: "(if changed then focus_unfreeze active fm s else (fm, s)) = (fm1, s1)" by fastforce
  define ps where "ps = filter (\<lambda>p. p_pid p \<notin> set (excluded_pids fm1 (er_spikes er) False)) procs"
  obtain tm s2 where 2: "throttle_update ps active (Elevated \<le> level) psi cfg (er_throttle er) s1 = (tm, s2)" by fastforce
  obtain mc s3 where 3: "memcap_update ps active level cfg (er_memcap er) s2 = (mc, s3)" by fastforce
  obtain t ft fm2 s4 where 4: "check_idle_process_reclaim cfg ps active (id_tracker idle) (id_freeze_tracker idle) fm1 s3
      = (t, ft, fm2, s4)" by (metis prod_cases4)
  have "in_order fm1 (er_spikes er) s1" using 1 assms(2) in_order_focus by (auto split: if_splits)
  then have o3: "in_order fm1 (er_spikes er) s3"
    by (intro in_order_harmless [OF harmless_memcap [OF 3]] in_order_harmless [OF harmless_throttle [OF 2]])
  show ?thesis
  proof (cases "level = Normal \<and> cc_idle_reclaim_enabled cfg")
    case True
    then show ?thesis using assms(1) in_order_check_idle [OF 4 o3] 2 3 4
      by (auto simp: run_controls_def 1 ps_def [symmetric])
  next
    case False
    then show ?thesis using assms(1) o3 2 3
      by (auto simp: run_controls_def 1 ps_def [symmetric] Let_def)
  qed
qed

lemma background_result:
  assumes "background_controls cfg level psi procs er fm throttled s = (er', fm', throttled', s')"
    "in_order fm (er_spikes er) s"
  shows "in_order fm' (er_spikes er) s' \<and> er_spikes er' = er_spikes er \<and> er_level er' = er_level er"
proof -
  obtain now s1 where 1: "os_clock s = (now, s1)" by fastforce
  have "in_order fm (er_spikes er) s1" by (rule in_order_harmless [OF harmless_reads(4) [OF 1] assms(2)])
  then show ?thesis using assms(1) run_controls_result
    by (auto simp: background_controls_def 1 Let_def split: if_splits prod.splits)
qed

lemma relieve_result:
  assumes "relieve cfg files level mi procs er sh s = (er', sh', s')" "turn_ok er sh s"
  shows "turn_ok er' sh' s'"
proof -
  define s1 where "s1 = compact_zram level cfg s"
  obtain now s2 where 2: "os_clock s1 = (now, s2)" by fastforce
  define killed where "killed = hm_retain (\<lambda>_ t. as_secs (duration_since now t) < kill_cooldown_secs) (er_killed er)"
  define ps where "ps = plan_processes (sh_frozen sh) (er_spikes er) killed (largest_first procs)"
  define s3 where "s3 = check_early_process_reclaim level ps (sys_foreground s2) cfg s2"
  define s4 where "s4 = check_cache_drop files level cfg s3"
  define ds where "ds = plan cfg (plan_env_of s4) level ps (mi_available mi) (mi_total mi) (swap_exhausted_now mi)"
  let ?x = "\<lparr>xs_frozen = sh_frozen sh, xs_checkpointed = sh_checkpointed sh, xs_events = sh_events sh, xs_sys = s4\<rparr>"
  obtain n x k where x: "execute_plan real_sink ps ds ?x killed = (n, x, k)" by (metis prod_cases3)
  note log = in_order_harmless [OF harmless_log]
  have "in_order (sh_frozen sh) (er_spikes er) s1"
    unfolding s1_def using in_order_keeps [OF compact_zram_keeps] assms(2) by (simp add: turn_ok_def)
  then have "in_order (sh_frozen sh) (er_spikes er) s2" by (rule in_order_harmless [OF harmless_reads(4) [OF 2]])
  then have "in_order (sh_frozen sh) (er_spikes er) s3"
    unfolding s3_def by (rule in_order_keeps [OF reclaims_keeps [OF check_early_result(1)]])
  then have o4: "in_order (sh_frozen sh) (er_spikes er) s4"
    unfolding s4_def by (rule in_order_keeps [OF check_cache_drop_keeps])
  have "exec_ok x"
    by (rule real.execute_plan_ok [OF x]) (use o4 assms(2) in \<open>simp add: exec_ok_def in_order_def turn_ok_def shared_ok_def\<close>)
  moreover have "held (with_registry (with_victims (\<lambda>_ _. False) (er_spikes er)) (xs_frozen x)) (xs_sys x)"
    using real_os.held_execute_plan [OF x] o4 by (simp add: in_order_def)
  ultimately have ox: "in_order (xs_frozen x) (er_spikes er) (xs_sys x)" and ok: "exec_ok x"
    using o4 victims_saved_same [OF _ execute_plan_file [OF x], of "er_spikes er" "er_spikes er"]
    by (simp_all add: exec_ok_def in_order_def)
  show ?thesis
  proof (cases "ds = []")
    case True
    then show ?thesis using assms log [OF o4]
      by (auto simp: relieve_def s1_def [symmetric] 2 killed_def [symmetric] ps_def [symmetric] s3_def [symmetric]
          s4_def [symmetric] ds_def [symmetric] turn_ok_def Let_def)
  next
    case False
    then show ?thesis using assms log [OF ox] ok
      by (auto simp: relieve_def s1_def [symmetric] 2 killed_def [symmetric] ps_def [symmetric] s3_def [symmetric]
          s4_def [symmetric] ds_def [symmetric] x turn_ok_def shared_ok_def exec_ok_def Let_def)
  qed
qed

lemma calm_turn_result:
  assumes "calm_turn cfg procs er sh s = (er', sh', s')" "turn_ok er sh s"
  shows "turn_ok er' sh' s' \<and> er_level er' = er_level er"
proof -
  obtain mi s1 where 1: "current_meminfo s = (mi, s1)" by fastforce
  obtain tr s2 where 2: "run_spike_cycle cfg (sh_frozen sh) (mi_available mi) procs (sh_release_requests sh) (er_spikes er) s1 = (tr, s2)"
    by fastforce
  obtain now s3 where 3: "os_clock s2 = (now, s3)" by fastforce
  obtain t ft fm s4 where 4: "check_idle_process_reclaim cfg
      (filter (\<lambda>p. p_pid p \<notin> set (excluded_pids (sh_frozen sh) tr False)) procs) (sys_foreground s3)
      (id_tracker (er_idle er)) (id_freeze_tracker (er_idle er)) (sh_frozen sh) s3 = (t, ft, fm, s4)" by (metis prod_cases4)
  have o2: "in_order (sh_frozen sh) tr s2"
    using in_order_spikes [OF 2] in_order_harmless [OF harmless_reads(8) [OF 1]] assms(2) by (simp add: turn_ok_def)
  then have o3: "in_order (sh_frozen sh) tr s3" by (rule in_order_harmless [OF harmless_reads(4) [OF 3]])
  then have "in_order fm tr s4" by (rule in_order_check_idle [OF 4])
  with o2 o3 show ?thesis
    using assms 4
    by (auto simp: calm_turn_def idle_timeout_reclaim_def 1 2 3 Let_def turn_ok_def shared_ok_def split: if_splits)
qed

lemma run_guards_result:
  assumes "run_guards cfg level mi procs er sh s = (er', sh', s')" "turn_ok er sh s"
  shows "turn_ok er' sh' s'"
proof -
  obtain mc s1 where 1: "(if level < High then memcap_restore_all (er_memcap er) s else (er_memcap er, s)) = (mc, s1)"
    by fastforce
  obtain tr s2 where 2: "run_spike_cycle cfg (sh_frozen sh) (mi_available mi) procs (sh_release_requests sh) (er_spikes er) s1
      = (tr, s2)" by fastforce
  obtain g ev s3 where 3: "run_leak_guard_cycle cfg procs (er_leaks er) (sh_events sh) s2 = (g, ev, s3)"
    by (metis prod_cases3)
  have h: "harmless s s1" using 1 harmless_memcap_restore by (auto split: if_splits)
  have "in_order (sh_frozen sh) tr s2"
    by (rule in_order_spikes [OF 2], rule in_order_harmless [OF h]) (use assms(2) in \<open>simp add: turn_ok_def\<close>)
  then have "in_order (sh_frozen sh) tr s3" using leak_cycle_result [OF 3] by (blast intro: in_order_harmless)
  moreover have "er' = er\<lparr>er_memcap := mc, er_spikes := tr, er_leaks := g\<rparr>"
      "sh' = sh\<lparr>sh_release_requests := [], sh_events := ev\<rparr>" "s' = s3"
    using assms(1) unfolding run_guards_def 1 by (simp_all add: 2 3)
  ultimately show ?thesis
    using leak_cycle_result [OF 3] assms(2) by (simp add: turn_ok_def shared_ok_def)
qed

lemma pressure_turn_result:
  assumes "pressure_turn cfg files pressure procs er sh s = (er', sh', s')" "turn_ok er sh s"
  shows "turn_ok er' sh' s'"
proof -
  obtain level mi now er1 s1 where 1: "assess pressure er s = (level, mi, now, er1, s1)" by (metis prod_cases5)
  obtain er2 s2 where 2: "note_emergency level now cfg er1 s1 = (er2, s2)" by fastforce
  define sh2 where "sh2 = observe_turn pressure sh"
  obtain er3 fm th s3 where 3: "background_controls cfg level (some_avg10 pressure) procs er2 (sh_frozen sh2) (sh_throttled sh2) s2
      = (er3, fm, th, s3)" by (metis prod_cases4)
  obtain er4 sh4 s4 where 4: "run_guards cfg level mi procs er3 (sh2\<lparr>sh_frozen := fm, sh_throttled := th\<rparr>) s3 = (er4, sh4, s4)"
    by (metis prod_cases3)
  have sh2: "sh_frozen sh2 = sh_frozen sh" "shared_ok sh2"
    using assms(2) by (simp_all add: sh2_def observe_turn_def turn_ok_def shared_ok_def calibrator_ok_observe)
  have "in_order (sh_frozen sh2) (er_spikes er2) s2"
    using assess_result [OF 1] note_emergency_result [OF 2] assms(2) by (auto simp: sh2 turn_ok_def intro: in_order_harmless)
  from background_result [OF 3 this] have "in_order fm (er_spikes er3) s3" by simp
  then have "turn_ok er3 (sh2\<lparr>sh_frozen := fm, sh_throttled := th\<rparr>) s3"
    using sh2(2) by (simp add: turn_ok_def shared_ok_def)
  from run_guards_result [OF 4 this] have ok: "turn_ok er4 sh4 s4" .
  have "(er', sh', s') = (if level = Normal then (er4, sh4, s4) else relieve cfg files level mi procs er4 sh4 s4)"
    using assms(1) by (simp add: pressure_turn_def 1 2 sh2_def [symmetric] 3 4)
  then show ?thesis using relieve_result [OF _ ok] ok by (metis prod.inject)
qed

lemma thaw_all_any: "extends not_saved s (thaw_all vs s)"
proof (induction vs arbitrary: s)
  case (Cons v vs)
  obtain p st where v: "v = (p, st)" by fastforce
  show ?case using extends_trans [OF thaw_any [of s p st] Cons.IH] by (simp add: v)
qed simp

text \<open>Every turn keeps the account, except the last one, which leaves only the registry's own
processes stopped.\<close>

lemma shutdown_in_order:
  assumes "turn_ok er sh s"
  shows "in_order (sh_frozen sh) spike_tracker_new (evictor_shutdown er s)"
proof -
  define s1 where "s1 = throttle_restore_all (er_throttle er) s"
  obtain mc s2 where 2: "memcap_restore_all (er_memcap er) s1 = (mc, s2)" by fastforce
  define s3 where "s3 = foldl (\<lambda>s cg. snd (write_cgroup_cpu_weight cg 100 s)) s2 (throttled_cgroup_paths (er_spikes er))"
  have out: "evictor_shutdown er s = thaw_all (victim_keys (er_spikes er)) s3"
    by (simp add: evictor_shutdown_def s1_def [symmetric] 2 s3_def [symmetric] thaw_all_def)
  have "harmless s s1" unfolding s1_def throttle_restore_all_def restore_all_cpu_def
    by (rule harmless_fold) (rule harmless_restore_cgroup)
  also note harmless_memcap_restore [OF 2]
  also have "harmless s2 s3" unfolding s3_def
    by (rule harmless_fold) (metis harmless_cgroup(1) prod.collapse)
  finally have o3: "in_order (sh_frozen sh) (er_spikes er) s3"
    using assms in_order_harmless by (simp add: turn_ok_def)
  have "held (with_registry (\<lambda>_ _. False) (sh_frozen sh)) (thaw_all (victim_keys (er_spikes er)) s3)"
  proof (rule thaw_all_held, rule held_mono)
    show "held (with_registry (with_victims (\<lambda>_ _. False) (er_spikes er)) (sh_frozen sh)) s3"
      using o3 by (simp add: in_order_def)
    fix p st
    assume "with_registry (with_victims (\<lambda>_ _. False) (er_spikes er)) (sh_frozen sh) p st"
    then consider "by_registry (sh_frozen sh) p st"
      | v where "hm_get (tr_victims (er_spikes er)) p = Some v" "sv_start_time v = st"
      by (auto simp: with_registry_def with_victims_def)
    then show "with_registry (\<lambda>_ _. False) (sh_frozen sh) p st \<or> (p, st) \<in> set (victim_keys (er_spikes er))"
    proof cases
      case 2
      then have "v \<in> set (hm_values (tr_victims (er_spikes er)))"
        by (force simp: hm_values_def hm_get_def dest: map_of_SomeD)
      moreover have "sv_pid v = p" using 2 o3 by (auto simp: in_order_def tracker_ok_def)
      ultimately show ?thesis using 2 by (force simp: victim_keys_def)
    qed (simp add: with_registry_def)
  qed
  then have "held (with_registry (with_victims (\<lambda>_ _. False) spike_tracker_new) (sh_frozen sh)) (evictor_shutdown er s)"
    unfolding out by (rule held_mono) (auto simp: with_registry_def)
  moreover have "last_saved (evictor_shutdown er s) = last_saved s3"
    unfolding out by (rule saved_frame [OF thaw_all_any])
  ultimately show ?thesis
    using o3 tracker_new_ok victims_saved_none [of spike_tracker_new] by (simp add: in_order_def spike_tracker_new_def)
qed

lemma watch_turn_result:
  assumes "watch_turn cfg i er sh s = (er', sh', s')" "turn_ok er sh s"
  shows "turn_ok er' sh' s'"
proof -
  obtain pr s1 where 1: "read_pressure (ti_pressure_file i) s = (pr, s1)" by fastforce
  have o1: "turn_ok er sh s1" using harmless_reads(9) [OF 1] assms(2) by (auto simp: turn_ok_def intro: in_order_harmless)
  have o2: "turn_ok er sh (os_sleep s1)" using o1 by (auto simp: turn_ok_def intro: in_order_harmless [OF harmless_sleep])
  show ?thesis
    using assms(1) o2 pressure_turn_result [OF _ o1] by (cases pr) (auto simp: watch_turn_def 1)
qed

lemma evictor_turn_result:
  assumes "evictor_turn cfg i er sh s = (er', sh', done, s')" "turn_ok er sh s"
  shows "done = ti_shutdown i \<and> shared_ok sh' \<and>
    (if done then in_order (sh_frozen sh') spike_tracker_new s' else turn_ok er' sh' s')"
proof (cases "ti_shutdown i")
  case True
  then show ?thesis using assms shutdown_in_order by (auto simp: evictor_turn_def turn_ok_def)
next
  case False
  obtain er1 sh1 s1 where c: "calm_turn cfg (ti_procs i) er sh s = (er1, sh1, s1)" by (metis prod_cases3)
  define s0 where "s0 = (if er_level er \<noteq> Normal \<or> ti_wait i = WaitSlept then os_sleep s else s)"
  obtain er2 sh2 s2 where w: "watch_turn cfg i er sh s0 = (er2, sh2, s2)" by (metis prod_cases3)
  have "turn_ok er sh s0"
    using assms(2) by (auto simp: s0_def turn_ok_def intro: in_order_harmless [OF harmless_sleep])
  note w2 = watch_turn_result [OF w this] and c2 = calm_turn_result [OF c assms(2)]
  consider (calm) "er_level er = Normal" "ti_wait i = WaitTimeout"
    | (died) "er_level er = Normal" "ti_wait i = WaitHelperDied" "ti_shutdown_in_wait i"
    | (watch) "\<not> (er_level er = Normal \<and> ti_wait i = WaitTimeout)"
        "\<not> (er_level er = Normal \<and> ti_wait i = WaitHelperDied \<and> ti_shutdown_in_wait i)" by blast
  then have "\<not> done \<and> turn_ok er' sh' s'"
  proof cases
    case calm
    then show ?thesis using assms(1) False c2 by (simp add: evictor_turn_def c)
  next
    case died
    then show ?thesis using assms False by (simp add: evictor_turn_def)
  next
    case watch
    then have "evictor_turn cfg i er sh s = (er2, sh2, False, s2)"
      using False w by (simp only: evictor_turn_def s0_def [symmetric] if_False split: prod.split) auto
    then show ?thesis using assms(1) w2 by simp
  qed
  then show ?thesis using False by (simp add: turn_ok_def)
qed

end
