(* ===== verification/Ipc.thy ===== *)
theory Ipc
  imports Account
begin

text \<open>
  The command server (\<open>mgd/src/ipc.rs\<close>): one request line in, one reply out. A reply is the data of
  the line or lines that \<open>format!\<close> renders; error texts are given as they are sent. The commands act
  on the registries that the other threads share, and queue the release of spike-mode victims,
  which only the responder may touch.
\<close>

section \<open>Snapshots for the display\<close>

record spike_snapshot =
  sn_active :: "(pid \<times> string \<times> spike_phase \<times> kb \<times> nat \<times> bool) list"
  sn_victims :: "(pid \<times> string \<times> pid) list"

definition spike_snapshot_of :: "spike_tracker \<Rightarrow> spike_snapshot" where
  "spike_snapshot_of tr = \<lparr>
     sn_active = map (\<lambda>s. (ss_pid s, ss_name s, ss_phase s, ss_rss_max s, length (ss_samples s), ss_cpu_throttled s))
       (hm_values (tr_spikes tr)),
     sn_victims = map (\<lambda>v. (sv_pid v, sv_name v, sv_frozen_for v)) (hm_values (tr_victims tr))\<rparr>"

definition leak_snapshot_of :: "leak_tracker \<Rightarrow> (string \<times> nat \<times> kb \<times> bool) list" where
  "leak_snapshot_of groups =
     map (\<lambda>g. (lg_last_display g, lg_last_count g, lg_last_total_rss g, lg_last_leaking g)) (hm_values groups)"

section \<open>Replies\<close>

datatype proc_state = StFrozen | StThrottledHeavy | StThrottledLight | StNormal

datatype op_line = OpDone pid string | OpAlready pid string | OpFailed pid string "string option"

record status_reply =
  sr_pressure :: "(pressure_level \<times> f64) option"
  sr_available_mb :: f64
  sr_total_mb :: f64
  sr_swap_pct :: "f64 option"
  sr_frozen :: nat
  sr_checkpointed :: nat
  sr_throttled :: nat
  sr_zram_compact :: "bool \<times> u64 \<times> bool"
  sr_cache_drop :: "bool \<times> pressure_level \<times> u64"
  sr_early_reclaim :: u64
  sr_idle_reclaim :: "bool \<times> bool \<times> u64"
  sr_proactive_reclaim :: "bool \<times> u64 \<times> bool"
  sr_spike_mode :: "bool \<times> nat \<times> nat"
  sr_leak_guard :: "bool \<times> nat \<times> nat"
  sr_auto_kill_rules :: nat
  sr_hibernate_secs :: u64

datatype list_line =
    LlFrozen pid string u64
  | LlCheckpointed pid string f64 u32
  | LlThrottled pid string proc_state

datatype info_line =
    InfoLive pid string proc_state f64 f64 int u8 "string option"
  | InfoCheckpointed pid string f64 u32

datatype reply =
    ReplyErr string
  | ReplyText string
  | ReplyStatus status_reply
  | ReplyList "list_line list"
  | ReplyPs "(pid \<times> string \<times> f64 \<times> f64 \<times> f32 \<times> u8 \<times> proc_state) list"
  | ReplyInfo "info_line list"
  | ReplyOps "op_line list"
  | ReplyRestored "(pid \<times> string \<times> restore_error option) list"
  | ReplyQueued "pid list"
  | ReplyGpu nat kb "nat option"
  | ReplySpikes spike_snapshot
  | ReplyLeaks "(string \<times> nat \<times> kb \<times> bool) list"
  | ReplyEvents "action_event list"

definition is_ok :: "reply \<Rightarrow> bool" where
  "is_ok r = (case r of ReplyErr _ \<Rightarrow> False | _ \<Rightarrow> True)"

section \<open>Which processes an argument names\<close>

text \<open>A number names a PID only; anything else is looked for in the names, whatever the case.\<close>

definition arg_names :: "string \<Rightarrow> pid \<Rightarrow> string \<Rightarrow> bool" where
  "arg_names arg p name = (case parse_uint arg :: pid option of
     Some t \<Rightarrow> p = t
   | None \<Rightarrow> contains_str (to_ascii_lowercase arg) (to_ascii_lowercase name))"

definition no_match :: "string \<Rightarrow> string \<Rightarrow> reply" where
  "no_match what arg = ReplyErr (what @ '' matching '' @ [CHR 0x27] @ arg @ [CHR 0x27])"

section \<open>Commands that change something\<close>

text \<open>Every command walks over what its argument names, pushing one result per item.\<close>

fun for_each :: "('a \<Rightarrow> 'c \<Rightarrow> sys \<Rightarrow> 'b \<times> 'c \<times> sys) \<Rightarrow> 'a list \<Rightarrow> 'c \<Rightarrow> sys \<Rightarrow> 'b list \<times> 'c \<times> sys" where
  "for_each f [] c s = ([], c, s)"
| "for_each f (x # xs) c s =
     (let (l, c1, s1) = f x c s; (ls, c2, s2) = for_each f xs c1 s1 in (l # ls, c2, s2))"

definition unfreeze_one :: "pid \<times> u64 \<Rightarrow> frozen_map \<Rightarrow> sys \<Rightarrow> op_line \<times> frozen_map \<times> sys" where
  "unfreeze_one e fm s = (let (p, st) = e; (r, s1) = unfreeze_checked p st s in
     if opr_success r then (OpDone p [], frozen_remove p fm s1) else (OpFailed p [] (opr_error r), fm, s1))"

definition frozen_matches :: "string \<Rightarrow> frozen_map \<Rightarrow> (pid \<times> u64) list" where
  "frozen_matches arg fm =
     map (\<lambda>p. (p, frozen_start fm p)) (filter (\<lambda>p. arg_names arg p (frozen_name fm p)) (frozen_pids fm))"

definition victim_matches :: "string \<Rightarrow> spike_snapshot \<Rightarrow> pid list" where
  "victim_matches arg snap = map fst (filter (\<lambda>(p, name, _). arg_names arg p name) (sn_victims snap))"

definition cmd_unfreeze :: "string \<Rightarrow> spike_snapshot \<Rightarrow> shared \<Rightarrow> sys \<Rightarrow> reply \<times> shared \<times> sys" where
  "cmd_unfreeze arg snap sh s =
     (let targets = frozen_matches arg (sh_frozen sh) in
      if targets \<noteq> [] then
        (let (ls, fm, s1) = for_each unfreeze_one targets (sh_frozen sh) s in (ReplyOps ls, sh\<lparr>sh_frozen := fm\<rparr>, s1))
      else
        (let victims = victim_matches arg snap in
         if victims = [] then (no_match ''no frozen process'' arg, sh, s)
         else (ReplyQueued victims, sh\<lparr>sh_release_requests := sh_release_requests sh @ victims\<rparr>, s)))"

definition matching_procs :: "string \<Rightarrow> process list \<Rightarrow> process list" where
  "matching_procs arg procs = filter (\<lambda>p. arg_names arg (p_pid p) (p_name p)) procs"

text \<open>The result of \<open>add\<close> is not looked at: a process whose start time cannot be read stays stopped.\<close>

definition freeze_one :: "process \<Rightarrow> frozen_map \<Rightarrow> sys \<Rightarrow> op_line \<times> frozen_map \<times> sys" where
  "freeze_one p fm s =
     (if is_frozen fm (p_pid p) then (OpAlready (p_pid p) (p_name p), fm, s)
      else
        (let (r, s1) = freeze_pid (p_pid p) s in
         if opr_success r then (OpDone (p_pid p) (p_name p), snd (frozen_add (p_pid p) (p_name p) fm s1))
         else (OpFailed (p_pid p) (p_name p) (opr_error r), fm, s1)))"

definition cmd_freeze :: "string \<Rightarrow> process list \<Rightarrow> shared \<Rightarrow> sys \<Rightarrow> reply \<times> shared \<times> sys" where
  "cmd_freeze arg procs sh s =
     (let candidates = matching_procs arg procs in
      if candidates = [] then (no_match ''no running process'' arg, sh, s)
      else (let (ls, fm, s1) = for_each freeze_one candidates (sh_frozen sh) s in (ReplyOps ls, sh\<lparr>sh_frozen := fm\<rparr>, s1)))"

definition restore_one ::
  "pid \<times> string \<times> string \<Rightarrow> checkpoint_map \<Rightarrow> sys \<Rightarrow> (pid \<times> string \<times> restore_error option) \<times> checkpoint_map \<times> sys" where
  "restore_one entry cm s = (let (p, name, dir) = entry; (e, s1) = restore dir s
     in ((p, name, e), if e = None then checkpoint_remove p cm s1 else (cm, s1)))"

definition checkpoint_matches :: "string \<Rightarrow> checkpoint_map \<Rightarrow> (pid \<times> string \<times> string \<times> kb \<times> u32) list" where
  "checkpoint_matches arg cm = filter (\<lambda>(p, name, _). arg_names arg p name) (entries_lightest_first cm)"

definition cmd_restore :: "string \<Rightarrow> shared \<Rightarrow> sys \<Rightarrow> reply \<times> shared \<times> sys" where
  "cmd_restore arg sh s =
     (let entries = map (\<lambda>(p, name, dir, _). (p, name, dir)) (checkpoint_matches arg (sh_checkpointed sh)) in
      if entries = [] then (no_match ''no checkpointed process'' arg, sh, s)
      else (let (ls, cm, s1) = for_each restore_one entries (sh_checkpointed sh) s
            in (ReplyRestored ls, sh\<lparr>sh_checkpointed := cm\<rparr>, s1)))"

definition kill_one :: "process \<Rightarrow> action_event list \<Rightarrow> sys \<Rightarrow> op_line \<times> action_event list \<times> sys" where
  "kill_one p q s = (let (r, s1) = kill_now (p_pid p) s in
     if opr_success r
     then (OpDone (p_pid p) (p_name p), push_event LaKillManual (p_pid p) (p_name p) (EvText ''killed via mgctl'') q s1)
     else (OpFailed (p_pid p) (p_name p) (opr_error r), q, s1))"

definition cmd_kill :: "string \<Rightarrow> process list \<Rightarrow> shared \<Rightarrow> sys \<Rightarrow> reply \<times> shared \<times> sys" where
  "cmd_kill arg procs sh s =
     (let candidates = matching_procs arg procs in
      if candidates = [] then (no_match ''no running process'' arg, sh, s)
      else (let (ls, q, s1) = for_each kill_one candidates (sh_events sh) s in (ReplyOps ls, sh\<lparr>sh_events := q\<rparr>, s1)))"

section \<open>Commands that show something\<close>

definition throttled_count :: "(string, throttled_state) hmap \<Rightarrow> nat" where
  "throttled_count m = length (filter (\<lambda>st. st \<noteq> TNone) (hm_values m))"

definition cmd_status ::
  "string \<Rightarrow> compiled_config \<Rightarrow> shared \<Rightarrow> spike_snapshot \<Rightarrow> (string \<times> nat \<times> kb \<times> bool) list \<Rightarrow> sys \<Rightarrow> reply \<times> sys" where
  "cmd_status src cfg sh snap leaks s =
     (let (pr, s1) = read_pressure src s; (mi, s2) = current_meminfo s1; g = feature_gates s2;
          (last_reclaim, disabled) = reclaim_gate s2
      in (ReplyStatus \<lparr>
           sr_pressure = (case pr of Inr p \<Rightarrow> Some (pressure_level_with p (cc_psi cfg), some_avg10 p) | Inl _ \<Rightarrow> None),
           sr_available_mb = kb_mib (mi_available mi), sr_total_mb = kb_mib (mi_total mi),
           sr_swap_pct = (if 0 < mi_swap_total mi then Some (swap_used_pct mi) else None),
           sr_frozen = frozen_count (sh_frozen sh), sr_checkpointed = checkpoint_count (sh_checkpointed sh),
           sr_throttled = throttled_count (sh_throttled sh),
           sr_zram_compact = (cc_compact_zram_on_elevated cfg, fg_last_zram_compact g, fg_zram_compact_disabled g),
           sr_cache_drop = (cc_cache_drop_enabled cfg, cc_cache_drop_trigger cfg, fg_last_cache_drop g),
           sr_early_reclaim = fg_last_early_reclaim g,
           sr_idle_reclaim = (cc_idle_reclaim_enabled cfg, cc_idle_reclaim_important_enabled cfg, fg_last_idle_reclaim g),
           sr_proactive_reclaim = (cc_proactive_swap_reclaim cfg, last_reclaim, disabled),
           sr_spike_mode = (cc_spike_mode_enabled cfg, length (sn_active snap), length (sn_victims snap)),
           sr_leak_guard = (cc_leak_guard_enabled cfg, length leaks, length (filter (\<lambda>(_, _, _, l). l) leaks)),
           sr_auto_kill_rules = length (cc_auto_kill_rules cfg),
           sr_hibernate_secs = cc_emergency_hibernate_after_sec cfg\<rparr>, s2))"

definition throttle_tag :: "shared \<Rightarrow> process \<Rightarrow> proc_state option" where
  "throttle_tag sh p = (case Option.bind (p_cgroup_path p) (hm_get (sh_throttled sh)) of
     Some WeightOnly \<Rightarrow> Some StThrottledLight | Some Full \<Rightarrow> Some StThrottledHeavy | _ \<Rightarrow> None)"

definition cmd_list :: "process list \<Rightarrow> shared \<Rightarrow> reply" where
  "cmd_list procs sh =
     (let frozen = map (\<lambda>(p, name, ts). LlFrozen p name ts)
            (sort_by (\<lambda>(p, _) (q, _). p \<le> q) (frozen_list (sh_frozen sh)));
          checkpointed = map (\<lambda>(p, name, _, rss, attempts). LlCheckpointed p name (kb_mib rss) attempts)
            (sort_by (\<lambda>(p, _) (q, _). p \<le> q) (entries_lightest_first (sh_checkpointed sh)));
          throttled = map (\<lambda>(p, name, tag). LlThrottled p name tag)
            (sort_by (\<lambda>(p, _) (q, _). p \<le> q)
              (List.map_filter (\<lambda>p. map_option (\<lambda>tag. (p_pid p, p_name p, tag)) (throttle_tag sh p))
                (filter (\<lambda>p. p_pid p \<notin> set (frozen_pids (sh_frozen sh))) procs)));
          ls = frozen @ checkpointed @ throttled
      in if ls = [] then ReplyText ''(no frozen, checkpointed, or throttled processes)'' else ReplyList ls)"

definition state_of :: "shared \<Rightarrow> process \<Rightarrow> proc_state" where
  "state_of sh p = (if is_frozen (sh_frozen sh) (p_pid p) then StFrozen
     else case throttle_tag sh p of Some tag \<Rightarrow> tag | None \<Rightarrow> StNormal)"

definition cmd_ps :: "compiled_config \<Rightarrow> process list \<Rightarrow> shared \<Rightarrow> reply" where
  "cmd_ps cfg procs sh =
     (if procs = [] then ReplyText ''(no monitored processes)''
      else ReplyPs (map (\<lambda>p. (p_pid p, p_name p, kb_mib (p_rss p), kb_mib (p_swap p), p_cpu_pct p,
             get_priority (p_name p) (p_exe_basename p) cfg, state_of sh p))
             (sort_by (\<lambda>a b. p_rss b \<le> p_rss a) procs)))"

definition cmd_info :: "string \<Rightarrow> compiled_config \<Rightarrow> process list \<Rightarrow> shared \<Rightarrow> reply" where
  "cmd_info arg cfg procs sh =
     (let live = matching_procs arg procs; entries = checkpoint_matches arg (sh_checkpointed sh) in
      if live = [] \<and> entries = [] then no_match ''no process'' arg
      else ReplyInfo (map (\<lambda>p. InfoLive (p_pid p) (p_name p) (state_of sh p) (kb_mib (p_rss p)) (kb_mib (p_swap p))
               (p_oom_score p) (get_priority (p_name p) (p_exe_basename p) cfg) (p_cgroup_path p)) live
             @ map (\<lambda>(p, name, _, rss, attempts). InfoCheckpointed p name (kb_mib rss) attempts) entries))"

definition cmd_gpu_info :: "sys \<Rightarrow> reply \<times> sys" where
  "cmd_gpu_info s = (let ((pids, total, newest), s1) = gpu_cache_snapshot s in (ReplyGpu pids total newest, s1))"

definition cmd_spike_status :: "spike_snapshot \<Rightarrow> reply" where
  "cmd_spike_status snap =
     (if sn_active snap = [] then ReplyText ''idle (no spike candidates active)'' else ReplySpikes snap)"

definition cmd_leak_status :: "(string \<times> nat \<times> kb \<times> bool) list \<Rightarrow> reply" where
  "cmd_leak_status leaks = (if leaks = [] then ReplyText ''idle (no tracked process groups)'' else ReplyLeaks leaks)"

definition cmd_events :: "action_event list \<Rightarrow> reply" where
  "cmd_events q = (if q = [] then ReplyText ''(no events recorded)'' else ReplyEvents q)"

section \<open>The request line\<close>

text \<open>\<open>splitn(2, ' ')\<close>: the command is what is before the first space.\<close>

definition split_request :: "string \<Rightarrow> string \<times> string" where
  "split_request raw = (case split_once '' '' raw of Some (cmd, arg) \<Rightarrow> (cmd, trim arg) | None \<Rightarrow> (raw, []))"

definition usage_of :: "string \<Rightarrow> reply" where
  "usage_of cmd = ReplyErr (''usage: '' @ cmd @ '' <pid|name>'')"

record ipc_view =
  iv_config :: compiled_config
  iv_procs :: "process list"
  iv_pressure_file :: string
  iv_spikes :: spike_snapshot
  iv_leaks :: "(string \<times> nat \<times> kb \<times> bool) list"

text \<open>\<open>reload\<close> replaces the configuration snapshot, which the caller of \<open>dispatch\<close> holds here.\<close>

definition dispatch :: "string \<Rightarrow> ipc_view \<Rightarrow> shared \<Rightarrow> sys \<Rightarrow> reply \<times> shared \<times> sys" where
  "dispatch raw v sh s =
     (let (cmd, arg) = split_request raw in
      if cmd = ''status'' then
        (let (r, s1) = cmd_status (iv_pressure_file v) (iv_config v) sh (iv_spikes v) (iv_leaks v) s in (r, sh, s1))
      else if cmd = ''list'' then (cmd_list (iv_procs v) sh, sh, s)
      else if cmd = ''ps'' then (cmd_ps (iv_config v) (iv_procs v) sh, sh, s)
      else if cmd = ''events'' then (cmd_events (sh_events sh), sh, s)
      else if cmd = ''reload'' then (ReplyText ''config reloaded'', sh, s)
      else if cmd = ''unfreeze'' then
        (if arg = [] then (usage_of cmd, sh, s) else cmd_unfreeze arg (iv_spikes v) sh s)
      else if cmd = ''freeze'' then (if arg = [] then (usage_of cmd, sh, s) else cmd_freeze arg (iv_procs v) sh s)
      else if cmd = ''restore'' then (if arg = [] then (usage_of cmd, sh, s) else cmd_restore arg sh s)
      else if cmd = ''kill'' then (if arg = [] then (usage_of cmd, sh, s) else cmd_kill arg (iv_procs v) sh s)
      else if cmd = ''info'' then
        (if arg = [] then usage_of cmd else cmd_info arg (iv_config v) (iv_procs v) sh, sh, s)
      else if cmd = ''gpu-info'' then (let (r, s1) = cmd_gpu_info s in (r, sh, s1))
      else if cmd = ''spike-status'' then (cmd_spike_status (iv_spikes v), sh, s)
      else if cmd = ''leak-status'' then (cmd_leak_status (iv_leaks v), sh, s)
      else (ReplyErr (''unknown command: '' @ cmd), sh, s))"

text \<open>The first line of a connection decides: JSON is a plugin, an empty line is nothing.\<close>

datatype route = RouteNothing | RoutePlugin string | RouteCommand string

definition route_connection :: "string option \<Rightarrow> route" where
  "route_connection line = (case line of
     None \<Rightarrow> RouteNothing
   | Some l \<Rightarrow> if l = [] then RouteNothing else if starts_with ''{'' l then RoutePlugin l else RouteCommand (trim l))"

definition max_connections :: nat where "max_connections = 32"

text \<open>Accepting: over the limit the connection is dropped; each one served gives its place back.\<close>

definition accept_connection :: "nat \<Rightarrow> bool \<times> nat" where
  "accept_connection active = (if max_connections \<le> active then (False, active) else (True, Suc active))"

datatype bind_result = Bound | BindAddrInUse | BindFailed

text \<open>Binding: a socket nobody listens on is removed and bound again.\<close>

definition bind_socket :: "bind_result \<Rightarrow> bool \<Rightarrow> bind_result \<Rightarrow> bool \<times> bool" where
  "bind_socket first_try someone_listens second_try = (case first_try of
     Bound \<Rightarrow> (True, False)
   | BindFailed \<Rightarrow> (False, False)
   | BindAddrInUse \<Rightarrow> if someone_listens then (False, False) else (second_try = Bound, True))"

section \<open>Facts about the commands\<close>

text \<open>Continuing a process of the registry and dropping it.\<close>

lemma in_order_thaw_remove:
  assumes "unfreeze_checked p st s = (r, s1)" "frozen_remove p fm s1 = (fm', s')" "in_order fm tr s"
    "is_frozen fm p \<Longrightarrow> frozen_start fm p = st"
  shows "in_order fm' tr s'"
proof (cases "is_frozen fm p")
  case False
  then show ?thesis using assms(2,3) in_order_harmless [OF harmless_unfreeze [OF assms(1)]]
    by (simp add: frozen_remove_def is_frozen_def)
next
  case True
  then have st: "st = frozen_start fm p" using assms(4) by simp
  have "held (with_registry (with_victims (\<lambda>_ _. False) tr) fm') s'"
    using held_unrecord [where s = s and s' = s1 and ?s2.0 = s1 and p = p and fm = fm] assms st by (auto simp: in_order_def)
  moreover have "extends keeps_file s s'"
    by (rule extends_trans [OF harmless_file [OF harmless_unfreeze [OF assms(1)]] frozen_remove_file [OF assms(2)]])
  ultimately show ?thesis
    using frozen_remove_result(2) [OF assms(2)] frozen_remove_synced [OF _ assms(2)] assms(3)
      harmless_saved [OF harmless_unfreeze [OF assms(1)]]
    by (auto simp: in_order_def intro: victims_saved_same)
qed

lemma for_each_invariant:
  assumes "for_each f xs c s = (ls, c', s')" "I c s"
    "\<And>x c s l c1 s1. x \<in> set xs \<Longrightarrow> f x c s = (l, c1, s1) \<Longrightarrow> I c s \<Longrightarrow> I c1 s1"
  shows "I c' s'"
  using assms
proof (induction xs arbitrary: c s ls c' s')
  case (Cons x xs)
  obtain l c1 s1 where 1: "f x c s = (l, c1, s1)" by (metis prod_cases3)
  obtain ls1 c2 s2 where 2: "for_each f xs c1 s1 = (ls1, c2, s2)" by (metis prod_cases3)
  have "I c1 s1" by (rule Cons.prems(3) [OF _ 1 Cons.prems(2)]) simp
  then have "I c2 s2" by (rule Cons.IH [OF 2]) (erule Cons.prems(3) [rotated], assumption, simp)
  then show ?case using Cons.prems(1) by (simp add: 1 2)
qed simp

text \<open>An entry of the registry keeps its start time while others are removed.\<close>

definition starts_within :: "frozen_map \<Rightarrow> frozen_map \<Rightarrow> bool" where
  "starts_within fm0 fm \<longleftrightarrow> (\<forall>p. is_frozen fm p \<longrightarrow> frozen_start fm p = frozen_start fm0 p)"

lemma unfreeze_one_result:
  assumes "unfreeze_one (p, frozen_start fm0 p) fm s = (l, fm', s')" "in_order fm tr s \<and> starts_within fm0 fm"
  shows "in_order fm' tr s' \<and> starts_within fm0 fm'"
proof -
  obtain r s1 where 1: "unfreeze_checked p (frozen_start fm0 p) s = (r, s1)" by fastforce
  show ?thesis
  proof (cases "opr_success r")
    case True
    then have 2: "frozen_remove p fm s1 = (fm', s')" using assms(1) by (simp add: unfreeze_one_def 1)
    have "in_order fm' tr s'"
      by (rule in_order_thaw_remove [OF 1 2]) (use assms(2) in \<open>simp_all add: starts_within_def\<close>)
    moreover have "starts_within fm0 fm'"
      using assms(2) frozen_remove_result(1) [OF 2]
      by (auto simp: starts_within_def is_frozen_def hm_contains_get frozen_start_def)
    ultimately show ?thesis ..
  next
    case False
    then show ?thesis using assms in_order_harmless [OF harmless_unfreeze [OF 1]] by (simp add: unfreeze_one_def 1)
  qed
qed

lemma unfreeze_all_result:
  assumes "for_each unfreeze_one (frozen_matches arg fm) fm s = (ls, fm', s')" "in_order fm tr s"
  shows "in_order fm' tr s'"
proof -
  have "in_order fm' tr s' \<and> starts_within fm fm'"
  proof (rule for_each_invariant [OF assms(1), where I = "\<lambda>m s. in_order m tr s \<and> starts_within fm m"])
    show "in_order fm tr s \<and> starts_within fm fm" using assms(2) by (simp add: starts_within_def)
    fix x m s l m1 s1
    assume x: "x \<in> set (frozen_matches arg fm)" and f: "unfreeze_one x m s = (l, m1, s1)"
      and i: "in_order m tr s \<and> starts_within fm m"
    from x obtain p where "x = (p, frozen_start fm p)" by (auto simp: frozen_matches_def)
    with f show "in_order m1 tr s1 \<and> starts_within fm m1" using unfreeze_one_result [OF _ i] by blast
  qed
  then show ?thesis ..
qed

text \<open>Stopping a process and recording it: if it cannot be identified it is not recorded.\<close>

lemma in_order_freeze_add:
  assumes "freeze_pid p s = (r, s1)" "opr_success r" "frozen_add p name fm s1 = (ok, fm', s')" "in_order fm tr s"
  shows "in_order fm' tr s'"
proof -
  let ?V = "with_victims (\<lambda>_ _. False) tr"
  have t: "sys_trace s1 = sys_trace s @ [Signalled (uint p) SIGSTOP None]" and o: "sys_oracle s1 = sys_oracle s"
    using assms(1,2) by (auto simp: freeze_pid_def send_signal_def os_kill_def op_fail_def Let_def split: option.splits if_splits)
  have h: "held (\<lambda>q st. with_registry ?V fm q st \<or> q = p) s1"
    using assms(4) stopped_stop [OF t] unfolding in_order_def held_def o by (metis word_uint_eqI)
  have "held (with_registry ?V fm') s'"
  proof (cases ok)
    case True
    then show ?thesis using held_record [OF h] assms(3) by simp
  next
    case False
    then show ?thesis using held_unidentified [OF h, of name fm fm' s'] assms(3) frozen_add_result(2) [OF assms(3)] by simp
  qed
  moreover have "last_saved s1 = last_saved s" using t by (simp add: last_saved_def map_filter_def)
  moreover have "extends keeps_file s s'"
    by (rule extends_trans [OF _ frozen_add_file [OF assms(3)]]) (simp add: extends_def t)
  ultimately show ?thesis
    using frozen_add_result(5) [OF assms(3)] frozen_add_synced [OF _ assms(3)] assms(4)
    by (auto simp: in_order_def intro: victims_saved_same)
qed

lemma freeze_fail_harmless: "freeze_pid p s = (r, s1) \<Longrightarrow> \<not> opr_success r \<Longrightarrow> harmless s s1"
  using send_stop_fail [of p s]
  by (auto simp: freeze_pid_def harmless_def harmless_effect_def send_signal_def Let_def
      dest: oracle_pair(2) signals_not_saved signals_keep_file
      split: option.splits if_splits prod.splits elim!: extends_mono)

lemma freeze_one_result: "freeze_one p fm s = (l, fm', s') \<Longrightarrow> in_order fm tr s \<Longrightarrow> in_order fm' tr s'"
proof -
  assume f: "freeze_one p fm s = (l, fm', s')" and o: "in_order fm tr s"
  obtain r s1 where 1: "freeze_pid (p_pid p) s = (r, s1)" by fastforce
  obtain ok m t where a: "frozen_add (p_pid p) (p_name p) fm s1 = (ok, m, t)" by (metis prod_cases3)
  show ?thesis
    using f o in_order_freeze_add [OF 1 _ a o] in_order_harmless [OF freeze_fail_harmless [OF 1] o]
    by (auto simp: freeze_one_def 1 a split: if_splits)
qed

lemma freeze_all_result: "for_each freeze_one ps fm s = (ls, fm', s') \<Longrightarrow> in_order fm tr s \<Longrightarrow> in_order fm' tr s'"
  by (rule for_each_invariant [where I = "\<lambda>m s. in_order m tr s"]) (auto intro: freeze_one_result)

text \<open>Restoring and killing stop nothing.\<close>

lemma harmless_helper_path: "helper_path s = (p, s1) \<Longrightarrow> harmless s s1"
  by (rule harmless_same) (auto dest: helper_path_oracle helper_path_trace)

lemma harmless_restore: "restore dir s = (e, s1) \<Longrightarrow> harmless s s1"
  by (auto simp: restore_def Let_def split: prod.splits bool.splits option.splits run_result.splits if_splits
      dest!: harmless_reads harmless_calls harmless_helper_path intro: harmless_trans)

definition cps_ok :: "checkpoint_map \<Rightarrow> bool" where
  "cps_ok cm \<longleftrightarrow> hm_ok cm \<and> attempts_ok cm"

lemma harmless_checkpoint_remove: "checkpoint_remove p cm s = (cm', s') \<Longrightarrow> harmless s s' \<and> (cps_ok cm \<longrightarrow> cps_ok cm')"
  by (auto simp: checkpoint_remove_def checkpoint_save_def checkpoint_del_def cps_ok_def attempts_ok_def list_all_remove
      stop_neutral_def not_saved_def Let_def split: if_splits intro: harmless_trans [OF harmless_tick harmless_emit])

lemma restore_all_result:
  assumes "for_each restore_one es cm s = (ls, cm', s')" "cps_ok cm"
  shows "harmless s s' \<and> cps_ok cm'"
proof (rule for_each_invariant [OF assms(1), where I = "\<lambda>m t. harmless s t \<and> cps_ok m"])
  fix x m t l m1 t1
  assume f: "restore_one x m t = (l, m1, t1)" and i: "harmless s t \<and> cps_ok m"
  obtain p n d where x: "x = (p, n, d)" by (metis prod_cases3)
  obtain e u where 1: "restore d t = (e, u)" by fastforce
  show "harmless s t1 \<and> cps_ok m1"
    using f i harmless_restore [OF 1] harmless_checkpoint_remove [of p m u m1 t1]
    by (auto simp: restore_one_def x 1 split: if_splits intro: harmless_trans)
qed (use assms(2) in simp)

lemma harmless_kill_now: "kill_now p s = (r, s1) \<Longrightarrow> harmless s s1"
  by (auto simp: kill_now_def split: prod.splits option.splits dest!: harmless_kill [rotated])

lemma kill_all_result:
  assumes "for_each kill_one ps q s = (ls, q', s')" "length q \<le> max_events"
  shows "harmless s s' \<and> length q' \<le> max_events"
proof (rule for_each_invariant [OF assms(1), where I = "\<lambda>q t. harmless s t \<and> length q \<le> max_events"])
  fix p q t l q1 t1
  assume f: "kill_one p q t = (l, q1, t1)" and i: "harmless s t \<and> length q \<le> max_events"
  obtain r u where 1: "kill_now (p_pid p) t = (r, u)" by fastforce
  obtain q2 u2 where 2: "push_event LaKillManual (p_pid p) (p_name p) (EvText ''killed via mgctl'') q u = (q2, u2)" by fastforce
  have "length q2 \<le> max_events" using push_event_bounded i by (metis 2 fst_conv)
  then show "harmless s t1 \<and> length q1 \<le> max_events"
    using f i harmless_kill_now [OF 1] harmless_push_event [OF 2]
    by (auto simp: kill_one_def 1 2 split: if_splits intro: harmless_trans)
qed (use assms(2) in simp)

section \<open>A command keeps the account\<close>

lemma harmless_gpu: "gpu_cache_snapshot s = (r, s1) \<Longrightarrow> harmless s s1"
  by (auto simp: gpu_cache_snapshot_def Let_def split: prod.splits dest!: harmless_reads(4))

lemma harmless_status: "cmd_status src cfg sh snap leaks s = (r, s1) \<Longrightarrow> harmless s s1"
  by (auto simp: cmd_status_def Let_def split: prod.splits dest!: harmless_reads intro: harmless_trans)

lemma commands_keep:
  assumes "shared_ok sh" "in_order (sh_frozen sh) tr s"
  shows "cmd_unfreeze arg snap sh s = (r, sh', s') \<Longrightarrow> shared_ok sh' \<and> in_order (sh_frozen sh') tr s'"
    "cmd_freeze arg procs sh s = (r, sh', s') \<Longrightarrow> shared_ok sh' \<and> in_order (sh_frozen sh') tr s'"
    "cmd_restore arg sh s = (r, sh', s') \<Longrightarrow> shared_ok sh' \<and> in_order (sh_frozen sh') tr s'"
    "cmd_kill arg procs sh s = (r, sh', s') \<Longrightarrow> shared_ok sh' \<and> in_order (sh_frozen sh') tr s'"
  using assms
  by (auto simp: cmd_unfreeze_def cmd_freeze_def cmd_restore_def cmd_kill_def shared_ok_def Let_def cps_ok_def
      split: if_splits prod.splits
      dest!: unfreeze_all_result freeze_all_result restore_all_result kill_all_result intro: in_order_harmless)

lemma dispatch_keeps:
  assumes "dispatch raw v sh s = (r, sh', s')" "shared_ok sh" "in_order (sh_frozen sh) tr s"
  shows "shared_ok sh' \<and> in_order (sh_frozen sh') tr s'"
proof -
  obtain cmd arg where "split_request raw = (cmd, arg)" by fastforce
  then show ?thesis
    using assms commands_keep [OF assms(2,3)]
    by (simp add: dispatch_def split: if_splits prod.splits)
      (auto dest!: harmless_status harmless_gpu simp: cmd_gpu_info_def split: prod.splits intro: in_order_harmless)
qed

section \<open>What a command may do\<close>

text \<open>An error reply means that nothing was done, and the commands act only on what their argument names.\<close>

definition named_signal :: "string \<Rightarrow> (pid \<times> string) list \<Rightarrow> effect \<Rightarrow> bool" where
  "named_signal arg ps e = (case e of
     Signalled t _ _ \<Rightarrow> list_ex (\<lambda>(p, name). arg_names arg p name \<and> (t = uint p \<or> t = as_pid_t p)) ps
   | SpawnedSigterm _ \<Rightarrow> False
   | _ \<Rightarrow> True)"

lemma unfreeze_one_named:
  assumes "unfreeze_one (p, st) fm s = (l, fm', s')" "arg_names arg p n" "(p, n) \<in> set ps"
  shows "extends (named_signal arg ps) s s'"
proof -
  obtain r s1 where 1: "unfreeze_checked p st s = (r, s1)" by fastforce
  have "extends (only_signals (uint p) {SIGCONT}) s s1" using thawer.extends_only [of p s st] by (simp add: 1)
  then have e: "extends (named_signal arg ps) s s1"
    by (rule extends_mono) (use assms(2,3) in \<open>auto simp: only_signals_def named_signal_def list_ex_iff split: effect.splits\<close>)
  have "extends (named_signal arg ps) s1 s2" if "frozen_remove p fm s1 = (fm2, s2)" for fm2 s2
    using frozen_remove_result(3) [OF that] by (auto simp: extends_def named_signal_def)
  then show ?thesis using assms(1) e by (auto simp: unfreeze_one_def 1 split: if_splits intro: extends_trans)
qed

lemma freeze_one_named:
  assumes "freeze_one p fm s = (l, fm', s')" "arg_names arg (p_pid p) (p_name p)" "(p_pid p, p_name p) \<in> set ps"
  shows "extends (named_signal arg ps) s s'"
proof -
  obtain r s1 where 1: "freeze_pid (p_pid p) s = (r, s1)" by fastforce
  obtain ok m t where a: "frozen_add (p_pid p) (p_name p) fm s1 = (ok, m, t)" by (metis prod_cases3)
  have "extends (named_signal arg ps) s s1"
    using 1 assms(2,3)
    by (auto simp: freeze_pid_def send_signal_def os_kill_def Let_def extends_def named_signal_def list_ex_iff
        intro!: bexI [of _ "(p_pid p, p_name p)"] split: option.splits if_splits)
  moreover have "extends (named_signal arg ps) s1 t"
    using frozen_add_trace [OF a] by (auto simp: extends_def named_signal_def)
  ultimately show ?thesis using assms(1) by (auto simp: freeze_one_def 1 a split: if_splits intro: extends_trans)
qed

lemma kill_one_named:
  assumes "kill_one p q s = (l, q', s')" "arg_names arg (p_pid p) (p_name p)" "(p_pid p, p_name p) \<in> set ps"
  shows "extends (named_signal arg ps) s s'"
proof -
  obtain r s1 where 1: "kill_now (p_pid p) s = (r, s1)" by fastforce
  have "extends (only_signals (as_pid_t (p_pid p)) {SIGKILL}) s s1"
    using sigkiller.extends_only [of "p_pid p" s] by (simp add: 1)
  then have "extends (named_signal arg ps) s s1"
    by (rule extends_mono) (use assms(2,3) in \<open>auto simp: only_signals_def named_signal_def list_ex_iff split: effect.splits\<close>)
  then show ?thesis using assms(1)
    by (auto simp: kill_one_def 1 extends_def push_event_def os_unix_def Let_def split: if_splits)
qed

lemma for_each_extends:
  assumes "for_each f xs c s = (ls, c', s')" "\<And>x c s l c1 s1. x \<in> set xs \<Longrightarrow> f x c s = (l, c1, s1) \<Longrightarrow> extends P s s1"
  shows "extends P s s'"
  by (rule for_each_invariant [OF assms(1), where I = "\<lambda>_. extends P s"]) (auto intro: assms(2) extends_trans)

lemma restore_all_named: "for_each restore_one es cm s = (ls, cm', s') \<Longrightarrow> extends (named_signal arg ps) s s'"
proof (erule for_each_extends)
  fix e cm s l cm' s'
  assume f: "restore_one e cm s = (l, cm', s')"
  obtain p n d where x: "e = (p, n, d)" by (metis prod_cases3)
  obtain r u where 1: "restore d s = (r, u)" by fastforce
  have "extends (named_signal arg ps) s u"
    using 1 by (auto simp: restore_def os_exists_def os_run_def Let_def extends_def named_signal_def
        dest!: helper_path_trace split: prod.splits bool.splits option.splits run_result.splits if_splits)
  then show "extends (named_signal arg ps) s s'" using f
    by (auto simp: restore_one_def x 1 checkpoint_remove_def checkpoint_save_def Let_def extends_def named_signal_def split: if_splits)
qed

text \<open>The processes a command can name: those listed, and those of the registry.\<close>

definition nameable :: "process list \<Rightarrow> frozen_map \<Rightarrow> (pid \<times> string) list" where
  "nameable procs fm = map (\<lambda>p. (p_pid p, p_name p)) procs @ map (\<lambda>p. (p, frozen_name fm p)) (frozen_pids fm)"

lemma commands_named:
  "cmd_unfreeze arg snap sh s = (r, sh', s') \<Longrightarrow> extends (named_signal arg (nameable procs (sh_frozen sh))) s s'"
  "cmd_freeze arg procs sh s = (r, sh', s') \<Longrightarrow> extends (named_signal arg (nameable procs (sh_frozen sh))) s s'"
  "cmd_kill arg procs sh s = (r, sh', s') \<Longrightarrow> extends (named_signal arg (nameable procs (sh_frozen sh))) s s'"
proof -
  let ?P = "extends (named_signal arg (nameable procs (sh_frozen sh)))"
  show "?P s s'" if c: "cmd_unfreeze arg snap sh s = (r, sh', s')"
  proof -
    have "?P s t" if "for_each unfreeze_one (frozen_matches arg (sh_frozen sh)) (sh_frozen sh) s = (ls, m, t)" for ls m t
      using that by (rule for_each_extends) (force simp: frozen_matches_def nameable_def intro: unfreeze_one_named)
    then show ?thesis using c by (auto simp: cmd_unfreeze_def Let_def split: if_splits prod.splits)
  qed
  show "?P s s'" if c: "cmd_freeze arg procs sh s = (r, sh', s')"
  proof -
    have "?P s t" if "for_each freeze_one (matching_procs arg procs) fm s = (ls, m, t)" for fm ls m t
      using that by (rule for_each_extends) (force simp: matching_procs_def nameable_def intro: freeze_one_named)
    then show ?thesis using c by (auto simp: cmd_freeze_def Let_def split: if_splits prod.splits)
  qed
  show "?P s s'" if c: "cmd_kill arg procs sh s = (r, sh', s')"
  proof -
    have "?P s t" if "for_each kill_one (matching_procs arg procs) q s = (ls, m, t)" for q ls m t
      using that by (rule for_each_extends) (force simp: matching_procs_def nameable_def intro: kill_one_named)
    then show ?thesis using c by (auto simp: cmd_kill_def Let_def split: if_splits prod.splits)
  qed
qed

lemma dispatch_named:
  assumes "dispatch raw v sh s = (r, sh', s')"
  shows "extends (named_signal (snd (split_request raw)) (nameable (iv_procs v) (sh_frozen sh))) s s'"
proof -
  obtain cmd arg where 1: "split_request raw = (cmd, arg)" by fastforce
  let ?P = "extends (named_signal arg (nameable (iv_procs v) (sh_frozen sh)))"
  have restore: "?P s t" if "cmd_restore arg sh s = (r', sh2, t)" for r' sh2 t
    using that by (auto simp: cmd_restore_def Let_def split: if_splits prod.splits intro: restore_all_named)
  have status: "?P s t" if "cmd_status src cfg sh sn lk s = (r', t)" for src cfg sn lk r' t
    using that by (auto simp: cmd_status_def Let_def split: prod.splits
        dest!: silent_reads(8,9) intro: extends_trans silent_extends)
  have gpu: "?P s t" if "cmd_gpu_info s = (r', t)" for r' t
    using that by (auto simp: cmd_gpu_info_def gpu_cache_snapshot_def Let_def split: prod.splits
        dest!: silent_reads(4) intro: silent_extends)
  show ?thesis
    using assms commands_named [where arg = arg and sh = sh and s = s] restore status gpu
    unfolding dispatch_def 1 by (auto split: if_splits prod.splits)
qed

lemma error_silent:
  assumes "dispatch raw v sh s = (r, sh', s')" "\<not> is_ok r"
  shows "sh' = sh \<and> s' = s"
proof -
  obtain cmd arg where 1: "split_request raw = (cmd, arg)" by fastforce
  show ?thesis
    using assms unfolding dispatch_def 1
    by (auto simp: cmd_status_def cmd_gpu_info_def cmd_unfreeze_def cmd_freeze_def cmd_restore_def cmd_kill_def
        is_ok_def Let_def split: if_splits prod.splits)
qed

section \<open>What the command does not check\<close>

text \<open>If the process stops but its start time cannot be read, the command still reports success: the process
is stopped, and the registry does not know it.\<close>

lemma freeze_one_orphan:
  assumes "unat (p_pid p) < 2 ^ 31" "\<not> is_frozen fm (p_pid p)"
    and "or_kill (sys_oracle s) (sys_tick s) (uint (p_pid p)) SIGSTOP = None"
    and "read_start_time (or_read (sys_oracle s) (Suc (sys_tick s)) (stat_path (p_pid p))) = None"
  shows "case freeze_one p fm s of (l, fm', s') \<Rightarrow>
    l = OpDone (p_pid p) (p_name p) \<and> stopped (sys_trace s') (uint (p_pid p)) \<and> fm' = fm"
  using assms
  by (simp add: freeze_one_def freeze_pid_def send_signal_def os_kill_def op_success_def frozen_add_def
      start_time_of_def os_read_def stopped_append stop_step_def tick_def emit_def Let_def)

end
