(* ===== verification/Daemon.thy ===== *)
theory Daemon
  imports Ipc
begin

text \<open>
  The daemon as a whole (\<open>mgd/src/main.rs\<close>, \<open>init.rs\<close>, \<open>lifecycle.rs\<close>): start, the four threads that take
  turns on the shared state, the jobs and terminations they leave to threads of their own, and the
  end. A turn is atomic; which thread moves next, what the process list, the files and the
  configuration hold, and which requests arrive are not determined, so the steps are a relation.
\<close>

section \<open>Start\<close>

text \<open>serde's and the TOML library's parsers.\<close>

record codecs =
  cd_frozen :: "string \<Rightarrow> frozen_map option"
  cd_checkpoints :: "string \<Rightarrow> checkpoint_map option"
  cd_victims :: "string \<Rightarrow> (u64 option \<times> u64 option) list option"
  cd_calibration :: "string \<Rightarrow> calibrator_state option"
  cd_store_calibration :: "calibrator_state \<Rightarrow> string option"

text \<open>Snapshot directories that no entry refers to are removed; the directory listing is the argument.\<close>

fun remove_orphaned :: "string list \<Rightarrow> checkpoint_map \<Rightarrow> sys \<Rightarrow> sys" where
  "remove_orphaned [] cm s = s"
| "remove_orphaned (dir # dirs) cm s =
     remove_orphaned dirs cm (if dir \<in> (\<lambda>(_, _, d, _, _). d) ` set (entries_lightest_first cm) then s else os_remove_dir dir s)"

definition initialize :: "codecs \<Rightarrow> string list option \<Rightarrow> sys \<Rightarrow> shared \<times> sys" where
  "initialize pc dirs s =
     (let (fm, s1) = registry_load (cd_frozen pc) ''frozen.json'' s;
          (cm, s2) = registry_load (cd_checkpoints pc) ''checkpoint.json'' s1;
          s3 = load_and_unfreeze_victims (cd_victims pc) s2;
          s4 = (case dirs of None \<Rightarrow> s3 | Some ds \<Rightarrow> remove_orphaned ds cm s3);
          (_, s5) = helper_path s4;
          (cal, s6) = load_calibrator (cd_calibration pc) s5
      in (\<lparr>sh_frozen = fm, sh_checkpointed = cm, sh_calibrator = cal, sh_events = [], sh_throttled = [],
           sh_release_requests = [], sh_recovery_wake = False, sh_reclaim_wake = False\<rparr>, s6))"

text \<open>With arguments the program is a small command of its own, which knows no registry.\<close>

datatype legacy_outcome = StartDaemon | LegacyUsage string | LegacyBadPid | LegacyDone op_result

definition handle_legacy_cli :: "string list \<Rightarrow> sys \<Rightarrow> legacy_outcome \<times> sys" where
  "handle_legacy_cli args s =
     (if length args < 2 then (StartDaemon, s)
      else if args ! 1 \<in> {''freeze'', ''unfreeze''} then
        (if length args \<noteq> 3 then (LegacyUsage (args ! 1), s)
         else case parse_uint (args ! 2) :: pid option of
             None \<Rightarrow> (LegacyBadPid, s)
           | Some p \<Rightarrow> (let (r, s1) = (if args ! 1 = ''freeze'' then freeze_pid p s else unfreeze_pid p s) in (LegacyDone r, s1)))
      else (LegacyUsage (args ! 1), s))"

text \<open>The number 0 is not refused: it addresses the process group of the caller.\<close>

lemma legacy_group:
  "sys_trace (snd (handle_legacy_cli [exe, ''freeze'', ''0''] s)) =
     sys_trace s @ [Signalled 0 SIGSTOP (or_kill (sys_oracle s) (sys_tick s) 0 SIGSTOP)]"
proof -
  have "parse_uint ''0'' = Some (0 :: pid)" by (simp add: parse_uint_def text_eval)
  then show ?thesis
    by (simp add: handle_legacy_cli_def freeze_pid_def send_signal_def os_kill_def emit_def tick_def Let_def split: option.split)
qed

section \<open>State\<close>

record daemon =
  d_evictor :: "evictor option"
  d_health :: health_baseline
  d_maintenance :: maintenance
  d_shared :: shared
  d_config :: compiled_config
  d_spikes_shown :: spike_snapshot
  d_leaks_shown :: "(string \<times> nat \<times> kb \<times> bool) list"
  d_jobs :: "plugin_job list"
  d_ended :: bool
  d_sys :: sys

definition booted :: "compiled_config \<Rightarrow> string option \<Rightarrow> shared \<Rightarrow> sys \<Rightarrow> daemon" where
  "booted cfg vmstat sh s =
     (let (now, s1) = os_clock s; (flushed, s2) = os_clock s1 in
      \<lparr>d_evictor = Some (evictor_new vmstat now), d_health = health_new,
       d_maintenance = \<lparr>mt_last_flush = flushed, mt_last_active = []\<rparr>, d_shared = sh, d_config = cfg,
       d_spikes_shown = \<lparr>sn_active = [], sn_victims = []\<rparr>, d_leaks_shown = [], d_jobs = [], d_ended = False, d_sys = s2\<rparr>)"

section \<open>Steps\<close>

definition evictor_moves :: "turn_input \<Rightarrow> evictor \<Rightarrow> daemon \<Rightarrow> daemon" where
  "evictor_moves i er d = (case evictor_turn (d_config d) i er (d_shared d) (d_sys d) of (er', sh, returned, s) \<Rightarrow>
     d\<lparr>d_evictor := (if returned then None else Some er'), d_shared := sh,
       d_spikes_shown := spike_snapshot_of (er_spikes er'), d_leaks_shown := leak_snapshot_of (er_leaks er'), d_sys := s\<rparr>)"

definition recovery_moves :: "string \<Rightarrow> bool \<Rightarrow> daemon \<Rightarrow> daemon" where
  "recovery_moves src flag d = (case recovery_turn src (cc_psi (d_config d)) (d_health d)
       (sh_frozen (d_shared d)) (sh_checkpointed (d_shared d)) (d_sys d) of (b, fm, cm, s) \<Rightarrow>
     d\<lparr>d_health := b, d_shared := (d_shared d)\<lparr>sh_frozen := fm, sh_checkpointed := cm, sh_recovery_wake := flag\<rparr>, d_sys := s\<rparr>)"

definition maintenance_moves :: "codecs \<Rightarrow> string \<Rightarrow> process list \<Rightarrow> daemon \<Rightarrow> daemon" where
  "maintenance_moves pc src procs d = (case maintenance_turn (cd_store_calibration pc) src (d_config d) procs
       (sh_reclaim_wake (d_shared d)) (sh_frozen (d_shared d)) (sh_checkpointed (d_shared d))
       (sh_calibrator (d_shared d)) (d_maintenance d) (d_sys d) of (cal, mt, s) \<Rightarrow>
     d\<lparr>d_maintenance := mt, d_shared := (d_shared d)\<lparr>sh_calibrator := cal, sh_reclaim_wake := False\<rparr>, d_sys := s\<rparr>)"

definition command_view :: "process list \<Rightarrow> string \<Rightarrow> daemon \<Rightarrow> ipc_view" where
  "command_view procs src d = \<lparr>iv_config = d_config d, iv_procs = procs, iv_pressure_file = src,
     iv_spikes = d_spikes_shown d, iv_leaks = d_leaks_shown d\<rparr>"

definition command_moves :: "string \<Rightarrow> process list \<Rightarrow> string \<Rightarrow> daemon \<Rightarrow> daemon" where
  "command_moves raw procs src d = (case dispatch raw (command_view procs src d) (d_shared d) (d_sys d) of (r, sh, s) \<Rightarrow>
     d\<lparr>d_shared := sh, d_sys := s\<rparr>)"

definition plugin_moves :: "plugin_message \<Rightarrow> daemon \<Rightarrow> daemon" where
  "plugin_moves msg d = (case process_plugin_message msg (sh_frozen (d_shared d)) (d_sys d) of (out, jobs, s) \<Rightarrow>
     d\<lparr>d_jobs := d_jobs d @ jobs, d_sys := s\<rparr>)"

definition job_moves :: "plugin_job \<Rightarrow> daemon \<Rightarrow> daemon" where
  "job_moves job d = (case run_plugin_job job (sh_frozen (d_shared d)) (d_sys d) of (fm, s) \<Rightarrow>
     d\<lparr>d_jobs := remove1 job (d_jobs d), d_shared := (d_shared d)\<lparr>sh_frozen := fm\<rparr>, d_sys := s\<rparr>)"

text \<open>The entry a job refers to is the one it was made for, if it still is in the registry.\<close>

definition job_current :: "plugin_job \<Rightarrow> frozen_map \<Rightarrow> bool" where
  "job_current job fm = (case job of
     UnfreezeFocused p st \<Rightarrow> is_frozen fm p \<longrightarrow> frozen_start fm p = st | TerminateRequested _ \<Rightarrow> True)"

definition ends :: "codecs \<Rightarrow> daemon \<Rightarrow> daemon" where
  "ends pc d = (let s1 = shutdown_unfreeze (sh_frozen (d_shared d)) (d_sys d);
       (cal, s2) = flush_calibration (cd_store_calibration pc) (cc_psi (d_config d)) (sh_calibrator (d_shared d)) s1
     in d\<lparr>d_ended := True, d_shared := (d_shared d)\<lparr>sh_calibrator := cal\<rparr>, d_sys := s2\<rparr>)"

inductive daemon_step :: "codecs \<Rightarrow> daemon \<Rightarrow> daemon \<Rightarrow> bool" for pc where
  evict: "\<not> d_ended d \<Longrightarrow> d_evictor d = Some er \<Longrightarrow> daemon_step pc d (evictor_moves i er d)"
| recover: "\<not> d_ended d \<Longrightarrow>
    wait_for_work (sh_frozen (d_shared d)) (sh_checkpointed (d_shared d)) (sh_recovery_wake (d_shared d)) wakes = Some flag \<Longrightarrow>
    daemon_step pc d (recovery_moves src flag d)"
| maintain: "\<not> d_ended d \<Longrightarrow> daemon_step pc d (maintenance_moves pc src procs d)"
| command: "\<not> d_ended d \<Longrightarrow> route_connection (Some line) = RouteCommand raw \<Longrightarrow>
    daemon_step pc d (command_moves raw procs src d)"
| reload: "\<not> d_ended d \<Longrightarrow> load_config env = Some cfg \<Longrightarrow> daemon_step pc d (d\<lparr>d_config := cfg\<rparr>)"
| plugin: "\<not> d_ended d \<Longrightarrow> daemon_step pc d (plugin_moves msg d)"
| job: "\<not> d_ended d \<Longrightarrow> j \<in> set (d_jobs d) \<Longrightarrow> job_current j (sh_frozen (d_shared d)) \<Longrightarrow>
    daemon_step pc d (job_moves j d)"
| terminate: "\<not> d_ended d \<Longrightarrow> SpawnedSigterm p \<in> set (sys_trace (d_sys d)) \<Longrightarrow>
    daemon_step pc d (d\<lparr>d_sys := snd (sigterm p (d_sys d))\<rparr>)"
| finish: "\<not> d_ended d \<Longrightarrow> d_evictor d = None \<Longrightarrow> daemon_step pc d (ends pc d)"

text \<open>
  The victims a start finds in their file, as \<open>load_and_unfreeze_victims\<close> reads it after the two
  registries.
\<close>

definition victim_entries :: "codecs \<Rightarrow> string option \<Rightarrow> (pid \<times> u64) list" where
  "victim_entries pc content = (case Option.bind content (cd_victims pc) of
     None \<Rightarrow> []
   | Some es \<Rightarrow> filter (\<lambda>(p, _). p \<noteq> 0) (map (\<lambda>(p, st). (ucast (case p of Some n \<Rightarrow> n | None \<Rightarrow> 0),
        case st of Some t \<Rightarrow> t | None \<Rightarrow> 0)) es))"

definition victims_read :: "codecs \<Rightarrow> sys \<Rightarrow> (pid \<times> u64) list" where
  "victims_read pc s =
     (let (_, s1) = registry_load (cd_frozen pc) ''frozen.json'' s;
          (_, s2) = registry_load (cd_checkpoints pc) ''checkpoint.json'' s1
      in victim_entries pc (fst (os_read (victims_file s2) s2)))"

text \<open>
  The files read back as they were last written: the registry as a whole, and the victims that can
  still be identified. The parsers give well-formed maps.
\<close>

definition reads_back :: "codecs \<Rightarrow> shared \<Rightarrow> sys \<Rightarrow> bool" where
  "reads_back pc sh s \<longleftrightarrow> last_saved s = Some (sh_frozen sh) \<and> hm_ok (sh_frozen sh)
     \<and> hm_ok (sh_checkpointed sh) \<and> attempts_ok (sh_checkpointed sh)
     \<and> (\<forall>p n st. (p, n, st) \<in> set (last_victims s) \<and> reads_as (sys_oracle s) p st \<longrightarrow> (p, st) \<in> set (victims_read pc s))"

definition starts :: "codecs \<Rightarrow> config_env \<Rightarrow> string list option \<Rightarrow> string option \<Rightarrow> sys \<Rightarrow> daemon \<Rightarrow> bool" where
  "starts pc env dirs vmstat s d \<longleftrightarrow> (case initialize pc dirs s of (sh, s1) \<Rightarrow> reads_back pc sh s \<and>
     (case load_config env of Some cfg \<Rightarrow> d = booted cfg vmstat sh s1 | None \<Rightarrow> False))"

text \<open>
  A run begins with every stopped process in one of the two files (there is none on the first start of
  all). Between any two steps the daemon may crash and be started again, with fresh statics.
\<close>

definition in_files :: "codecs \<Rightarrow> sys \<Rightarrow> holder" where
  "in_files pc s = with_registry (\<lambda>p st. (p, st) \<in> set (victims_read pc s)) (case last_saved s of Some fm \<Rightarrow> fm | None \<Rightarrow> [])"

inductive reachable :: "codecs \<Rightarrow> daemon \<Rightarrow> bool" for pc where
  boot: "starts pc env dirs vmstat s d \<Longrightarrow> held (in_files pc s) s \<Longrightarrow> reachable pc d"
| step: "reachable pc d \<Longrightarrow> daemon_step pc d d' \<Longrightarrow> reachable pc d'"
| restart: "reachable pc d \<Longrightarrow> starts pc env dirs vmstat (sys_restart (d_sys d)) d' \<Longrightarrow> reachable pc d'"

inductive_cases daemon_stepE: "daemon_step pc d d'"

section \<open>What every reachable state satisfies\<close>

definition tracker_of :: "daemon \<Rightarrow> spike_tracker" where
  "tracker_of d = (case d_evictor d of Some er \<Rightarrow> er_spikes er | None \<Rightarrow> spike_tracker_new)"

definition daemon_ok :: "daemon \<Rightarrow> bool" where
  "daemon_ok d \<longleftrightarrow> shared_ok (d_shared d) \<and> baseline_ok (d_health d)
     \<and> in_order (sh_frozen (d_shared d)) (tracker_of d) (d_sys d) \<and> (d_ended d \<longrightarrow> held (\<lambda>_ _. False) (d_sys d))"

lemma daemon_ok_sys: "daemon_ok d \<Longrightarrow> harmless (d_sys d) s \<Longrightarrow> daemon_ok (d\<lparr>d_sys := s\<rparr>)"
  by (auto simp: daemon_ok_def tracker_of_def intro: in_order_harmless harmless_held)

lemma evictor_moves_ok:
  assumes "daemon_ok d" "\<not> d_ended d" "d_evictor d = Some er"
  shows "daemon_ok (evictor_moves i er d)"
proof -
  obtain er' sh returned s where 1: "evictor_turn (d_config d) i er (d_shared d) (d_sys d) = (er', sh, returned, s)"
    by (metis prod_cases4)
  have "turn_ok er (d_shared d) (d_sys d)" using assms by (simp add: daemon_ok_def tracker_of_def turn_ok_def)
  from evictor_turn_result [OF 1 this] show ?thesis
    using assms by (auto simp: evictor_moves_def 1 daemon_ok_def tracker_of_def turn_ok_def)
qed

lemma recovery_moves_ok:
  assumes "daemon_ok d" "\<not> d_ended d"
  shows "daemon_ok (recovery_moves src flag d)"
proof -
  obtain b fm cm s where 1: "recovery_turn src (cc_psi (d_config d)) (d_health d) (sh_frozen (d_shared d))
      (sh_checkpointed (d_shared d)) (d_sys d) = (b, fm, cm, s)" by (metis prod_cases4)
  from recovery_turn_result [OF 1, of "with_victims (\<lambda>_ _. False) (tracker_of d)"]
    victims_saved_same [OF _ recovery_turn_file [OF 1], of "tracker_of d" "tracker_of d"] show ?thesis
    using assms by (auto simp: recovery_moves_def 1 daemon_ok_def tracker_of_def shared_ok_def in_order_def)
qed

lemma maintenance_moves_ok:
  assumes "daemon_ok d" "\<not> d_ended d"
  shows "daemon_ok (maintenance_moves pc src procs d)"
proof -
  obtain cal mt s where 1: "maintenance_turn (cd_store_calibration pc) src (d_config d) procs
      (sh_reclaim_wake (d_shared d)) (sh_frozen (d_shared d)) (sh_checkpointed (d_shared d))
      (sh_calibrator (d_shared d)) (d_maintenance d) (d_sys d) = (cal, mt, s)" by (metis prod_cases3)
  from maintenance_turn_result [OF 1] show ?thesis
    using assms by (auto simp: maintenance_moves_def 1 daemon_ok_def tracker_of_def shared_ok_def intro: in_order_harmless)
qed

lemma command_moves_ok:
  assumes "daemon_ok d" "\<not> d_ended d"
  shows "daemon_ok (command_moves raw procs src d)"
proof -
  obtain r sh s where 1: "dispatch raw (command_view procs src d) (d_shared d) (d_sys d) = (r, sh, s)" by (metis prod_cases3)
  from dispatch_keeps [OF 1] show ?thesis
    using assms by (auto simp: command_moves_def 1 daemon_ok_def tracker_of_def)
qed

lemma plugin_moves_ok:
  assumes "daemon_ok d" "\<not> d_ended d"
  shows "daemon_ok (plugin_moves msg d)"
proof -
  obtain out jobs s where 1: "process_plugin_message msg (sh_frozen (d_shared d)) (d_sys d) = (out, jobs, s)" by (metis prod_cases3)
  have "sys_oracle s = sys_oracle (d_sys d)" using 1
    by (auto simp: process_plugin_message_def set_gpu_observation_def get_gpu_stats_def os_clock_def Let_def
        split: plugin_message.splits option.splits plugin_action.splits if_splits)
  then have "harmless (d_sys d) s" by (rule harmless_same) (rule plugin_message_silent(1) [OF 1])
  then show ?thesis using assms
    by (auto simp: plugin_moves_def 1 daemon_ok_def tracker_of_def intro: in_order_harmless)
qed

lemma harmless_sigterm: "harmless s (snd (sigterm p s))"
proof (rule harmless_only)
  have "sys_oracle s2 = sys_oracle s" if "poll_exit n p s = (b, s2)" for n s b s2
    using that by (induction n arbitrary: s)
      (auto simp: process_exists_def os_sleep_def Let_def dest!: oracle_pair(2) split: prod.splits bool.splits)
  then show "sys_oracle (snd (sigterm p s)) = sys_oracle s"
    by (auto simp: sigterm_def kill_now_def Let_def dest!: oracle_pair split: prod.splits option.splits bool.splits if_splits)
  show "extends (only_signals (as_pid_t p) {SIGTERM, SIGKILL, SIG0}) s (snd (sigterm p s))" by (rule terminator.extends_only)
qed (auto simp: only_signals_def harmless_effect_def stop_neutral_def not_saved_def split: effect.splits)

lemma job_moves_ok:
  assumes "daemon_ok d" "\<not> d_ended d" "job_current j (sh_frozen (d_shared d))"
  shows "daemon_ok (job_moves j d)"
proof (cases j)
  case (UnfreezeFocused p st)
  obtain r s1 where 1: "unfreeze_checked p st (d_sys d) = (r, s1)" by fastforce
  obtain fm s2 where 2: "frozen_remove p (sh_frozen (d_shared d)) s1 = (fm, s2)" by fastforce
  have "in_order fm (tracker_of d) s2"
    by (rule in_order_thaw_remove [OF 1 2]) (use assms in \<open>simp_all add: daemon_ok_def job_current_def UnfreezeFocused\<close>)
  then show ?thesis
    using assms in_order_harmless [OF harmless_unfreeze [OF 1]]
    by (auto simp: job_moves_def run_plugin_job_def UnfreezeFocused 1 2 daemon_ok_def tracker_of_def shared_ok_def)
next
  case (TerminateRequested p)
  show ?thesis
    using assms in_order_harmless [OF harmless_sigterm]
    by (auto simp: job_moves_def run_plugin_job_def TerminateRequested daemon_ok_def tracker_of_def shared_ok_def)
qed

lemma shutdown_registry:
  assumes "in_order fm spike_tracker_new s"
  shows "held (\<lambda>_ _. False) (shutdown_unfreeze fm s)" "in_order fm spike_tracker_new (shutdown_unfreeze fm s)"
proof -
  let ?V = "with_victims (\<lambda>_ _. False) spike_tracker_new"
  have V: "?V = (\<lambda>_ _. False)" by (simp add: with_victims_def spike_tracker_new_def fun_eq_iff hm_get_empty)
  show h: "held (\<lambda>_ _. False) (shutdown_unfreeze fm s)"
    using assms shutdown_held [where F = ?V] by (simp add: in_order_def V)
  have "last_saved (shutdown_unfreeze fm s) = last_saved s"
    unfolding shutdown_thaw_all by (rule saved_frame [OF thaw_all_any])
  moreover have "held (with_registry ?V fm) (shutdown_unfreeze fm s)" using h by (rule held_mono) simp
  ultimately show "in_order fm spike_tracker_new (shutdown_unfreeze fm s)"
    using assms victims_saved_none [of spike_tracker_new] by (simp add: in_order_def spike_tracker_new_def)
qed

lemma ends_ok:
  assumes "daemon_ok d" "d_evictor d = None"
  shows "daemon_ok (ends pc d)"
proof -
  obtain cal s where 1: "flush_calibration (cd_store_calibration pc) (cc_psi (d_config d)) (sh_calibrator (d_shared d))
      (shutdown_unfreeze (sh_frozen (d_shared d)) (d_sys d)) = (cal, s)" by fastforce
  have "in_order (sh_frozen (d_shared d)) spike_tracker_new (d_sys d)"
    using assms by (simp add: daemon_ok_def tracker_of_def)
  note sd = shutdown_registry [OF this]
  show ?thesis
    using assms flush_result [OF 1] in_order_harmless [OF _ sd(2)] harmless_held [OF _ sd(1)]
    by (auto simp: ends_def 1 daemon_ok_def tracker_of_def shared_ok_def)
qed

lemma daemon_step_ok: "daemon_step pc d d' \<Longrightarrow> daemon_ok d \<Longrightarrow> daemon_ok d'"
proof (induction rule: daemon_step.induct)
  case (terminate d p)
  then show ?case using daemon_ok_sys [OF _ harmless_sigterm] by simp
next
  case (reload d env cfg)
  then show ?case by (simp add: daemon_ok_def tracker_of_def)
qed (simp_all add: evictor_moves_ok recovery_moves_ok maintenance_moves_ok command_moves_ok plugin_moves_ok job_moves_ok ends_ok)

section \<open>Start\<close>

lemma harmless_load_registry: "registry_load parse name s = (m, s1) \<Longrightarrow> harmless s s1"
  by (auto simp: registry_load_def split: prod.splits option.splits dest!: harmless_reads(1))

lemma load_victims_thaw:
  "load_and_unfreeze_victims (cd_victims pc) s = (case os_read (victims_file s) s of
     (None, s1) \<Rightarrow> s1
   | (Some data, s1) \<Rightarrow> thaw_all (victim_entries pc (Some data)) (emit (RemovedFile (victims_file s)) (tick s1)))"
proof -
  have "foldl (\<lambda>s (p, st). (let pid = ucast (case p of Some n \<Rightarrow> n | None \<Rightarrow> 0) :: pid in
      if pid = 0 then s else snd (unfreeze_checked pid (case st of Some t \<Rightarrow> t | None \<Rightarrow> 0) s))) s es =
    thaw_all (filter (\<lambda>(p, _). p \<noteq> 0) (map (\<lambda>(p, st). (ucast (case p of Some n \<Rightarrow> n | None \<Rightarrow> 0),
        case st of Some t \<Rightarrow> t | None \<Rightarrow> 0)) es)) s" for es s
    by (induction es arbitrary: s) (auto simp: Let_def)
  then show ?thesis
    unfolding load_and_unfreeze_victims_def by (auto simp: victim_entries_def Let_def split: prod.split option.split)
qed

text \<open>Continuing what the file lists leaves no stopped process but the registry's own.\<close>

lemma load_victims_result:
  "sys_oracle (load_and_unfreeze_victims (cd_victims pc) s) = sys_oracle s"
  "last_saved (load_and_unfreeze_victims (cd_victims pc) s) = last_saved s"
  "held (\<lambda>p st. R p st \<or> (p, st) \<in> set (victim_entries pc (fst (os_read (victims_file s) s)))) s \<Longrightarrow>
    held R (load_and_unfreeze_victims (cd_victims pc) s)"
proof -
  obtain c s1 where 1: "os_read (victims_file s) s = (c, s1)" by fastforce
  then have e1: "sys_oracle s1 = sys_oracle s" "sys_trace s1 = sys_trace s" by (auto simp: os_read_def)
  let ?s2 = "emit (RemovedFile (victims_file s)) (tick s1)"
  have e2: "sys_oracle ?s2 = sys_oracle s" "extends (\<lambda>e. stop_neutral e \<and> not_saved e) s ?s2"
    using e1 by (simp_all add: extends_def stop_neutral_def not_saved_def)
  have sv: "last_saved s1 = last_saved s" "last_saved ?s2 = last_saved s"
    using last_saved_trace [OF e1(2)] e2(2) by (auto intro: saved_frame extends_mono)
  show "sys_oracle (load_and_unfreeze_victims (cd_victims pc) s) = sys_oracle s"
    using e1 e2 by (simp add: load_victims_thaw 1 thaw_all_oracle split: option.split)
  show "last_saved (load_and_unfreeze_victims (cd_victims pc) s) = last_saved s"
    using sv saved_frame [OF thaw_all_any, of "victim_entries pc c" ?s2] by (auto simp: load_victims_thaw 1 split: option.split)
  show "held R (load_and_unfreeze_victims (cd_victims pc) s)"
    if "held (\<lambda>p st. R p st \<or> (p, st) \<in> set (victim_entries pc (fst (os_read (victims_file s) s)))) s"
  proof -
    have "held (\<lambda>p st. R p st \<or> (p, st) \<in> set (victim_entries pc c)) s1"
        "held (\<lambda>p st. R p st \<or> (p, st) \<in> set (victim_entries pc c)) ?s2"
      using held_same [OF that e1] held_neutral [OF that e2(1) extends_mono [OF e2(2)]] by (simp_all add: 1)
    then show ?thesis
      by (auto simp: load_victims_thaw 1 victim_entries_def split: option.split intro: thaw_all_held)
  qed
qed

lemma harmless_orphaned: "harmless s (remove_orphaned dirs cm s)"
proof (induction dirs cm s rule: remove_orphaned.induct)
  case (2 dir dirs cm s)
  have gone: "harmless s (os_remove_dir dir s)"
    unfolding os_remove_dir_def by (rule harmless_trans [OF harmless_tick harmless_emit]) (simp_all add: stop_neutral_def not_saved_def)
  show ?case
  proof (cases "dir \<in> (\<lambda>(_, _, d, _, _). d) ` set (entries_lightest_first cm)")
    case True
    with 2 show ?thesis by simp
  next
    case False
    with 2 have "harmless (os_remove_dir dir s) (remove_orphaned dirs cm (os_remove_dir dir s))" by simp
    from harmless_trans [OF gone this] False show ?thesis by simp
  qed
qed simp

lemma initialize_result:
  assumes "initialize pc dirs s = (sh, s')" "reads_back pc sh s" "held (in_files pc s) s"
  shows "in_order (sh_frozen sh) spike_tracker_new s' \<and> sys_oracle s' = sys_oracle s
    \<and> calibrator_ok (sh_calibrator sh) \<and> sh_events sh = []"
proof -
  obtain fm s1 where 1: "registry_load (cd_frozen pc) ''frozen.json'' s = (fm, s1)" by fastforce
  obtain cm s2 where 2: "registry_load (cd_checkpoints pc) ''checkpoint.json'' s1 = (cm, s2)" by fastforce
  define s3 where "s3 = load_and_unfreeze_victims (cd_victims pc) s2"
  define s4 where "s4 = (case dirs of None \<Rightarrow> s3 | Some ds \<Rightarrow> remove_orphaned ds cm s3)"
  obtain h s5 where 5: "helper_path s4 = (h, s5)" by fastforce
  obtain cal s6 where 6: "load_calibrator (cd_calibration pc) s5 = (cal, s6)" by fastforce
  have out: "sh_calibrator sh = cal" "sh_events sh = []" "sh_frozen sh = fm" "s' = s6"
    using assms(1) by (auto simp: initialize_def 1 2 s3_def [symmetric] s4_def [symmetric] 5 6)
  have fm: "last_saved s = Some fm" "hm_ok fm" using assms(2) out by (simp_all add: reads_back_def)
  have h2: "harmless s s2" using harmless_load_registry [OF 1] harmless_load_registry [OF 2] by (rule harmless_trans)
  have "held (\<lambda>p st. by_registry fm p st \<or> (p, st) \<in> set (victim_entries pc (fst (os_read (victims_file s2) s2)))) s2"
    using harmless_held [OF h2 assms(3)]
    by (rule held_mono) (auto simp: in_files_def with_registry_def fm victims_read_def 1 2)
  then have h3: "held (by_registry fm) s3" unfolding s3_def by (rule load_victims_result(3))
  have l3: "last_saved s3 = Some fm" "sys_oracle s3 = sys_oracle s"
    using load_victims_result(1,2) [of pc s2] harmless_saved [OF h2] harmless_oracle [OF h2] fm by (simp_all add: s3_def)
  have "harmless s3 s4" unfolding s4_def using harmless_orphaned by (simp split: option.split)
  also note harmless_helper_path [OF 5]
  also have "harmless s5 s6" using 6 by (auto simp: load_calibrator_def split: prod.splits dest!: harmless_reads(1))
  finally have h6: "harmless s3 s6" .
  have "calibrator_ok cal" using load_calibrator_ok [of "cd_calibration pc" s5] by (simp add: 6)
  moreover have "held (with_registry (with_victims (\<lambda>_ _. False) spike_tracker_new) fm) s6"
    by (rule held_mono [OF harmless_held [OF h6 h3]]) (simp add: with_registry_def)
  ultimately show ?thesis
    using out fm(2) harmless_saved [OF h6] harmless_oracle [OF h6] l3 tracker_new_ok victims_saved_none [of spike_tracker_new]
    by (simp add: in_order_def spike_tracker_new_def)
qed

lemma starts_ok:
  assumes "starts pc env dirs vmstat s d" "held (in_files pc s) s"
  shows "daemon_ok d"
proof -
  obtain sh s1 where 1: "initialize pc dirs s = (sh, s1)" by fastforce
  obtain now s2 where 2: "os_clock s1 = (now, s2)" by fastforce
  obtain fl s3 where 3: "os_clock s2 = (fl, s3)" by fastforce
  from assms(1) obtain cfg where c: "reads_back pc sh s" "d = booted cfg vmstat sh s1"
    by (auto simp: starts_def 1 split: option.splits)
  note r = initialize_result [OF 1 c(1) assms(2)]
  have "in_order (sh_frozen sh) spike_tracker_new s3"
    using in_order_harmless [OF harmless_reads(4) [OF 3]] in_order_harmless [OF harmless_reads(4) [OF 2]] r by blast
  then show ?thesis using r c baseline_new_ok
    by (simp add: booted_def 2 3 daemon_ok_def tracker_of_def evictor_new_def shared_ok_def reads_back_def)
qed

text \<open>A crash loses nothing: what was stopped is in the two files.\<close>

lemma crash_in_files:
  assumes "daemon_ok d" "starts pc env dirs vmstat (sys_restart (d_sys d)) d'"
  shows "held (in_files pc (sys_restart (d_sys d))) (sys_restart (d_sys d))"
proof -
  let ?s = "sys_restart (d_sys d)" and ?fm = "sh_frozen (d_shared d)"
  obtain sh s1 where 1: "initialize pc dirs ?s = (sh, s1)" by fastforce
  then have b: "reads_back pc sh ?s" using assms(2) by (auto simp: starts_def)
  have h: "held (with_registry (with_victims (\<lambda>_ _. False) (tracker_of d)) ?fm) ?s"
    and l: "last_saved ?s = Some ?fm" and v: "victims_saved (tracker_of d) ?s"
    using assms(1) harmless_same [of ?s "d_sys d"] in_order_harmless [of "d_sys d" ?s ?fm "tracker_of d"]
    by (auto simp: daemon_ok_def in_order_def harmless_same)
  show ?thesis
    unfolding held_def
  proof (intro allI impI)
    fix p st
    assume a: "reads_as (sys_oracle ?s) p st \<and> stopped (sys_trace ?s) (uint p)"
    then have "with_registry (with_victims (\<lambda>_ _. False) (tracker_of d)) ?fm p st" using h unfolding held_def by blast
    then consider "by_registry ?fm p st"
      | vi where "hm_get (tr_victims (tracker_of d)) p = Some vi" "sv_start_time vi = st"
      by (auto simp: with_registry_def with_victims_def)
    then show "in_files pc ?s p st"
    proof cases
      case 1
      then show ?thesis using l by (simp add: in_files_def with_registry_def)
    next
      case (2 vi)
      then have "(p, sv_name vi, st) \<in> set (last_victims ?s)" using v unfolding victims_saved_def by blast
      then show ?thesis using b a unfolding reads_back_def in_files_def with_registry_def by blast
    qed
  qed
qed

theorem reachable_ok: "reachable pc d \<Longrightarrow> daemon_ok d"
  by (induction rule: reachable.induct) (blast intro: starts_ok daemon_step_ok crash_in_files)+

end
