(* ===== verification/Runs.thy ===== *)
theory Runs
  imports Daemon Samples
begin

text \<open>
  A run of the daemon on the sample machine, on which the properties of all reachable states are instantiated.
\<close>

section \<open>A start after a run that left a process stopped\<close>

text \<open>The sample machine with a process that an earlier run left stopped, and with it in the registry file.\<close>

definition sample_codecs :: codecs where
  "sample_codecs = \<lparr>cd_frozen = \<lambda>_. Some [(7, ''cache'', 100, 77)], cd_checkpoints = \<lambda>_. None, cd_victims = \<lambda>_. None,
     cd_calibration = \<lambda>_. None, cd_store_calibration = \<lambda>_. None\<rparr>"

definition sample_restart_os :: os_oracle where
  "sample_restart_os = sample_os\<lparr>or_read := \<lambda>t path. if ends_with ''/stat'' path then Some sample_stat
     else if ends_with ''frozen.json'' path then Some ''x'' else None\<rparr>"

definition sample_restart :: sys where
  "sample_restart = emit (PersistedFrozen [(7, ''cache'', 100, 77)]) (emit (Signalled 7 SIGSTOP None) (sys_start sample_restart_os))"

lemma sample_restart_parts:
  "sys_oracle sample_restart = sample_restart_os" "sys_tick sample_restart = 0"
  "sys_trace sample_restart = [Signalled 7 SIGSTOP None, PersistedFrozen [(7, ''cache'', 100, 77)]]"
  by (simp_all add: sample_restart_def sys_start_def emit_def)

lemma sample_boot:
  "\<exists>sh s1. initialize sample_codecs None sample_restart = (sh, s1) \<and> sh_frozen sh = [(7, ''cache'', 100, 77)]
     \<and> sh_checkpointed sh = []"
proof -
  have "fst (registry_load (cd_frozen sample_codecs) ''frozen.json'' sample_restart) = [(7, ''cache'', 100, 77)]"
    by (simp add: registry_load_def os_read_def sample_restart_parts sample_restart_os_def state_file_def sample_codecs_def
        ends_with_def starts_with_def split: prod.splits)
  moreover have "fst (registry_load (cd_checkpoints sample_codecs) n s) = []" for n s
    by (simp add: registry_load_def sample_codecs_def split: prod.splits option.splits)
  ultimately show ?thesis
    by (auto simp: initialize_def Let_def split: prod.splits) (metis fst_conv)+
qed

lemma sample_boot_trace:
  assumes "initialize sample_codecs None sample_restart = (sh, s1)"
  shows "sys_trace s1 = sys_trace sample_restart" "sys_oracle s1 = sample_restart_os"
proof -
  have victims: "sys_trace (load_and_unfreeze_victims parse s) = sys_trace s" if "sys_oracle s = sample_restart_os" for parse s
    using that by (simp add: load_and_unfreeze_victims_def os_read_def sample_restart_os_def victims_file_def
        ends_with_def starts_with_def)
  have load_victims_oracle: "sys_oracle (load_and_unfreeze_victims (cd_victims sample_codecs) s) = sys_oracle s" for s
    by (rule load_victims_result(1))
  have load: "sys_trace (snd (registry_load parse n s)) = sys_trace s \<and> sys_oracle (snd (registry_load parse n s)) = sys_oracle s"
    for parse n s by (simp add: registry_load_def os_read_def split: option.split)
  have helper: "sys_trace (snd (helper_path s)) = sys_trace s" for s
    using helper_path_trace [of s] by (metis prod.collapse)
  have helper_oracle: "sys_oracle (snd (helper_path s)) = sys_oracle s" for s
    using helper_path_oracle [of s] by (metis prod.collapse)
  show "sys_oracle s1 = sample_restart_os"
    using arg_cong [OF assms, of "\<lambda>x. sys_oracle (snd x)"]
    by (simp add: initialize_def load_calibrator_def os_read_def case_prod_unfold Let_def load load_victims_oracle
        helper_oracle sample_restart_parts(1))
  show "sys_trace s1 = sys_trace sample_restart"
    using arg_cong [OF assms, of "\<lambda>x. sys_trace (snd x)"]
    by (simp add: initialize_def load_calibrator_def os_read_def case_prod_unfold Let_def victims load helper sample_restart_parts(1))
qed

lemma sample_one: "uint (p :: pid) = 7 \<Longrightarrow> p = 7"
proof -
  assume "uint p = 7"
  then have "uint p = uint (7 :: pid)" by simp
  then show ?thesis by (simp only: word_uint_eq_iff)
qed

lemma sample_restart_reads: "reads_as sample_restart_os p st \<Longrightarrow> st = 77"
  by (auto simp: reads_as_def sample_restart_os_def stat_path_def ends_with_def starts_with_def)

lemma sample_restart_reads_as: "reads_as sample_restart_os 7 77"
  by (simp add: reads_as_def sample_restart_os_def stat_path_def ends_with_def starts_with_def show_pid_def)

lemma sample_restart_files:
  assumes "initialize sample_codecs None sample_restart = (sh, s1)" "sh_frozen sh = [(7, ''cache'', 100, 77)]" "sh_checkpointed sh = []"
  shows "reads_back sample_codecs sh sample_restart" "held (in_files sample_codecs sample_restart) sample_restart"
proof -
  have saved: "last_saved sample_restart = Some [(7, ''cache'', 100, 77)]" "last_victims sample_restart = []"
    by (simp_all add: sample_restart_parts last_saved_def last_victims_def map_filter_def)
  then show "reads_back sample_codecs sh sample_restart"
    by (simp add: reads_back_def assms(2,3) hm_ok_def attempts_ok_def)
  show "held (in_files sample_codecs sample_restart) sample_restart"
    unfolding held_def
    by (auto simp: in_files_def saved sample_restart_parts stopped_def stop_step_def with_registry_def by_registry_def
        hm_get_def dest!: sample_one sample_restart_reads split: if_splits)
qed

definition sample_load_env :: config_env where
  "sample_load_env = sample_env\<lparr>ce_toml := \<lambda>_. Inr sample_raw\<rparr>"

text \<open>A daemon that finds the process in its registry file and has not done anything yet.\<close>

lemma sample_reachable:
  "\<exists>d. reachable sample_codecs d \<and> \<not> d_ended d \<and> sh_frozen (d_shared d) = [(7, ''cache'', 100, 77)]
     \<and> sys_oracle (d_sys d) = sample_restart_os \<and> stopped (sys_trace (d_sys d)) 7"
proof -
  obtain sh s1 where 1: "initialize sample_codecs None sample_restart = (sh, s1)"
    and 2: "sh_frozen sh = [(7, ''cache'', 100, 77)]" "sh_checkpointed sh = []" using sample_boot by blast
  obtain cfg where 3: "load_config sample_load_env = Some cfg"
    by (auto simp: load_config_def compile_config_def sample_load_env_def sample_env_def)
  let ?d = "booted cfg None sh s1"
  note files = sample_restart_files [OF 1 2]
  have "starts sample_codecs sample_load_env None None sample_restart ?d"
    by (simp add: starts_def 1 3 files)
  then have "reachable sample_codecs ?d" using files(2) by (rule reachable.boot)
  moreover have "\<not> d_ended ?d" "d_shared ?d = sh" by (simp_all add: booted_def Let_def os_clock_def)
  moreover have "sys_oracle (d_sys ?d) = sample_restart_os" "sys_trace (d_sys ?d) = sys_trace sample_restart"
    using sample_boot_trace [OF 1] by (simp_all add: booted_def Let_def os_clock_def)
  moreover have "stopped (sys_trace sample_restart) 7" by (simp add: sample_restart_parts stopped_def stop_step_def)
  ultimately show ?thesis using 2 by metis
qed

end
