(* ===== verification/Helper.thy ===== *)
theory Helper
  imports Checkpoint
begin

text \<open>
  The privileged helper that runs CRIU (\<open>mgd-checkpoint/src/main.rs\<close>). It carries capabilities, so what
  it checks before it acts is what protects the machine from its callers. What the kernel and CRIU
  answer is an oracle; the capability calls and the run of CRIU are recorded in order.
\<close>

section \<open>What it asks and what it does\<close>

record cap_data =
  cap_effective :: u32
  cap_permitted :: u32
  cap_inheritable :: u32

text \<open>
  \<open>ho_proc_uid\<close> and \<open>ho_dir_uid\<close> are the owners \<open>metadata\<close> reports, \<open>ho_home\<close> the home of \<open>getpwuid\<close>,
  \<open>ho_executable\<close> that the file exists and \<open>access\<close> allows to execute it, \<open>ho_caps\<close> the two words of
  \<open>capget\<close>, \<open>ho_criu\<close> how the child ended, nothing when it could not be started.
\<close>

record helper_oracle =
  ho_uid :: u32
  ho_proc_uid :: "u32 \<Rightarrow> u32 option"
  ho_cgroup :: "u32 \<Rightarrow> string option"
  ho_exists :: "string \<Rightarrow> bool"
  ho_canonical :: "string \<Rightarrow> string option"
  ho_dir_uid :: "string \<Rightarrow> u32 option"
  ho_home :: "u32 \<Rightarrow> string option"
  ho_executable :: "string \<Rightarrow> bool"
  ho_caps :: "(cap_data \<times> cap_data) option"
  ho_capset :: "cap_data \<times> cap_data \<Rightarrow> bool"
  ho_ambient :: "nat \<Rightarrow> bool"
  ho_criu :: "string list \<Rightarrow> bool option"

datatype helper_call = SetCaps "cap_data \<times> cap_data" | RaiseAmbient nat | RunCriu string "string list"

datatype security_error =
    NoProcess | NotOwner | NoCgroup | OutsideSlice
  | NoDir | UnresolvedDir | NoDirMetadata | DirNotOwned | NoHome | OutsideHome

definition exit_invalid_args :: int where "exit_invalid_args = 1"
definition exit_security_fail :: int where "exit_security_fail = 2"
definition exit_criu_fail :: int where "exit_criu_fail = 3"

section \<open>The checks\<close>

definition validate_dir :: "helper_oracle \<Rightarrow> u32 \<Rightarrow> string \<Rightarrow> security_error + unit" where
  "validate_dir ho caller_uid dir =
     (if \<not> ho_exists ho dir then Inl NoDir
      else case ho_canonical ho dir of
        None \<Rightarrow> Inl UnresolvedDir
      | Some canonical \<Rightarrow> (case ho_dir_uid ho canonical of
          None \<Rightarrow> Inl NoDirMetadata
        | Some uid \<Rightarrow>
            if uid \<noteq> caller_uid then Inl DirNotOwned
            else (case ho_home ho caller_uid of
                None \<Rightarrow> Inl NoHome
              | Some home \<Rightarrow> if \<not> starts_with home canonical then Inl OutsideHome else Inr ())))"

definition validate_dump :: "helper_oracle \<Rightarrow> u32 \<Rightarrow> u32 \<Rightarrow> string \<Rightarrow> security_error + unit" where
  "validate_dump ho caller_uid pid images_dir = (case ho_proc_uid ho pid of
     None \<Rightarrow> Inl NoProcess
   | Some uid \<Rightarrow>
       if uid \<noteq> caller_uid then Inl NotOwner
       else (case ho_cgroup ho pid of
           None \<Rightarrow> Inl NoCgroup
         | Some cgroup_data \<Rightarrow>
             if \<not> is_cgroup_in_user_slice cgroup_data then Inl OutsideSlice
             else validate_dir ho caller_uid images_dir))"

definition validate_restore :: "helper_oracle \<Rightarrow> u32 \<Rightarrow> string \<Rightarrow> security_error + unit" where
  "validate_restore ho caller_uid images_dir = validate_dir ho caller_uid images_dir"

section \<open>CRIU and the capabilities\<close>

definition criu_candidates :: "string list" where
  "criu_candidates = [''/usr/sbin/criu'', ''/usr/bin/criu'', ''/sbin/criu'', ''/bin/criu'',
     ''/usr/local/sbin/criu'', ''/usr/local/bin/criu'']"

definition resolve_criu_path :: "helper_oracle \<Rightarrow> string option" where
  "resolve_criu_path ho = find (ho_executable ho) criu_candidates"

definition helper_caps :: "nat list" where
  "helper_caps = [19, 12, 40]"

definition cap_bit :: "nat \<Rightarrow> u32" where
  "cap_bit cap = push_bit (cap mod 32) 1"

definition cap_word :: "nat \<Rightarrow> cap_data \<times> cap_data \<Rightarrow> cap_data" where
  "cap_word cap data = (if cap div 32 = 0 then fst data else snd data)"

unbundle bit_operations_syntax

definition permitted :: "nat \<Rightarrow> cap_data \<times> cap_data \<Rightarrow> bool" where
  "permitted cap data \<longleftrightarrow> cap_permitted (cap_word cap data) AND cap_bit cap \<noteq> 0"

definition make_inheritable :: "cap_data \<times> cap_data \<Rightarrow> nat \<Rightarrow> cap_data \<times> cap_data" where
  "make_inheritable data cap =
     (let w = cap_word cap data; w' = w\<lparr>cap_inheritable := cap_inheritable w OR cap_bit cap\<rparr>
      in if \<not> permitted cap data then data
         else if cap div 32 = 0 then (w', snd data) else (fst data, w'))"

text \<open>The result is whether it succeeded; the caller goes on either way.\<close>

fun raise_ambient :: "helper_oracle \<Rightarrow> cap_data \<times> cap_data \<Rightarrow> nat list \<Rightarrow> nat \<Rightarrow> bool \<times> helper_call list" where
  "raise_ambient ho data [] raised = (raised \<noteq> 0, [])"
| "raise_ambient ho data (cap # caps) raised =
     (if permitted cap data then
        (if \<not> ho_ambient ho cap then (False, [RaiseAmbient cap])
         else (let (b, calls) = raise_ambient ho data caps (Suc raised) in (b, RaiseAmbient cap # calls)))
      else raise_ambient ho data caps raised)"

definition setup_ambient_capabilities :: "helper_oracle \<Rightarrow> bool \<times> helper_call list" where
  "setup_ambient_capabilities ho = (case ho_caps ho of
     None \<Rightarrow> (False, [])
   | Some data \<Rightarrow>
       (let data' = foldl make_inheritable data helper_caps in
        if \<not> ho_capset ho data' then (False, [SetCaps data'])
        else (let (b, calls) = raise_ambient ho data' helper_caps 0 in (b, SetCaps data' # calls))))"

definition dump_args :: "u32 \<Rightarrow> string \<Rightarrow> string list" where
  "dump_args pid images_dir = [''dump'', ''--tree'', show_pid pid, ''--images-dir'', images_dir,
     ''--shell-job'', ''--leave-stopped'', ''--ext-unix-sk'', ''--tcp-established'', ''--file-locks'']"

definition restore_args :: "string \<Rightarrow> string list" where
  "restore_args images_dir = [''restore'', ''--images-dir'', images_dir, ''--shell-job'', ''--restore-detached'']"

definition execute_criu :: "helper_oracle \<Rightarrow> string list \<Rightarrow> int \<times> helper_call list" where
  "execute_criu ho criu_args = (case resolve_criu_path ho of
     None \<Rightarrow> (exit_criu_fail, [])
   | Some criu_bin \<Rightarrow>
       ((case ho_criu ho (criu_bin # criu_args) of
           None \<Rightarrow> exit_criu_fail
         | Some ok \<Rightarrow> if ok then 0 else exit_criu_fail),
        snd (setup_ambient_capabilities ho) @ [RunCriu criu_bin criu_args]))"

definition helper_main :: "helper_oracle \<Rightarrow> string list \<Rightarrow> int \<times> helper_call list" where
  "helper_main ho args =
     (if length args < 2 then (exit_invalid_args, [])
      else if args ! 1 = ''dump'' then
        (if length args < 4 then (exit_invalid_args, [])
         else case parse_u32 (args ! 2) of
           None \<Rightarrow> (exit_invalid_args, [])
         | Some pid \<Rightarrow> (case validate_dump ho (ho_uid ho) pid (args ! 3) of
             Inl e \<Rightarrow> (exit_security_fail, [])
           | Inr _ \<Rightarrow> execute_criu ho (dump_args pid (args ! 3))))
      else if args ! 1 = ''restore'' then
        (if length args < 3 then (exit_invalid_args, [])
         else case validate_restore ho (ho_uid ho) (args ! 2) of
           Inl e \<Rightarrow> (exit_security_fail, [])
         | Inr _ \<Rightarrow> execute_criu ho (restore_args (args ! 2)))
      else (exit_invalid_args, []))"

section \<open>What a directory has to be\<close>

definition dir_of_caller :: "helper_oracle \<Rightarrow> string \<Rightarrow> bool" where
  "dir_of_caller ho dir \<longleftrightarrow> (\<exists>canonical home. ho_canonical ho dir = Some canonical \<and>
     ho_dir_uid ho canonical = Some (ho_uid ho) \<and> ho_home ho (ho_uid ho) = Some home \<and> starts_with home canonical)"

definition process_of_caller :: "helper_oracle \<Rightarrow> u32 \<Rightarrow> bool" where
  "process_of_caller ho pid \<longleftrightarrow> ho_proc_uid ho pid = Some (ho_uid ho) \<and>
     (\<exists>cg. ho_cgroup ho pid = Some cg \<and> is_cgroup_in_user_slice cg)"

lemma validate_dir_iff: "validate_dir ho (ho_uid ho) dir = Inr () \<longleftrightarrow> ho_exists ho dir \<and> dir_of_caller ho dir"
  by (auto simp: validate_dir_def dir_of_caller_def split: option.splits)

lemma validate_dump_iff: "validate_dump ho (ho_uid ho) pid dir = Inr () \<longleftrightarrow>
    process_of_caller ho pid \<and> ho_exists ho dir \<and> dir_of_caller ho dir"
  by (auto simp: validate_dump_def process_of_caller_def validate_dir_iff split: option.splits)

section \<open>The calls\<close>

definition cap_call :: "helper_oracle \<Rightarrow> helper_call \<Rightarrow> bool" where
  "cap_call ho c = (case c of
     SetCaps d \<Rightarrow> (case ho_caps ho of None \<Rightarrow> False | Some data \<Rightarrow> d = foldl make_inheritable data helper_caps)
   | RaiseAmbient cap \<Rightarrow> cap \<in> set helper_caps
   | RunCriu _ _ \<Rightarrow> False)"

lemma raise_ambient_calls: "set caps \<subseteq> set helper_caps \<Longrightarrow> list_all (cap_call ho) (snd (raise_ambient ho data caps n))"
  by (induction ho data caps n rule: raise_ambient.induct) (auto simp: cap_call_def case_prod_unfold Let_def)

lemma setup_calls: "list_all (cap_call ho) (snd (setup_ambient_capabilities ho))"
  using raise_ambient_calls [OF subset_refl, of ho "foldl make_inheritable (the (ho_caps ho)) helper_caps" 0]
  by (auto simp: setup_ambient_capabilities_def cap_call_def case_prod_unfold Let_def split: option.split)

text \<open>Only capabilities that were permitted become inheritable, and nothing else of the sets changes.\<close>

lemma make_inheritable_only:
  "cap_effective (cap_word c (make_inheritable data cap)) = cap_effective (cap_word c data)"
  "cap_permitted (cap_word c (make_inheritable data cap)) = cap_permitted (cap_word c data)"
  "\<not> permitted cap data \<Longrightarrow> make_inheritable data cap = data"
  by (auto simp: make_inheritable_def cap_word_def Let_def)

text \<open>What a run of the helper consists of.\<close>

definition helper_call_ok :: "helper_oracle \<Rightarrow> string list \<Rightarrow> helper_call \<Rightarrow> bool" where
  "helper_call_ok ho args c = (case c of
     RunCriu bin criu_args \<Rightarrow> bin \<in> set criu_candidates \<and> ho_executable ho bin \<and>
       (\<exists>dir. dir_of_caller ho dir \<and>
          (criu_args = restore_args dir \<and> args ! 1 = ''restore'' \<and> args ! 2 = dir \<or>
           (\<exists>pid. criu_args = dump_args pid dir \<and> process_of_caller ho pid \<and>
              args ! 1 = ''dump'' \<and> parse_u32 (args ! 2) = Some pid \<and> args ! 3 = dir)))
   | _ \<Rightarrow> cap_call ho c)"

lemma resolve_criu_in: "resolve_criu_path ho = Some bin \<Longrightarrow> bin \<in> set criu_candidates \<and> ho_executable ho bin"
  unfolding resolve_criu_path_def by (metis find_Some_iff nth_mem)

lemma cap_call_ok: "list_all (cap_call ho) calls \<Longrightarrow> list_all (helper_call_ok ho args) calls"
  by (erule list.pred_mono_strong) (auto simp: helper_call_ok_def cap_call_def split: helper_call.splits)

lemma helper_calls: "list_all (helper_call_ok ho args) (snd (helper_main ho args))"
proof -
  note caps = cap_call_ok [OF setup_calls, of ho args]
  have run: "list_all (helper_call_ok ho args) (snd (execute_criu ho ca))"
    if "\<And>bin. resolve_criu_path ho = Some bin \<Longrightarrow> helper_call_ok ho args (RunCriu bin ca)" for ca
    using that caps by (auto simp: execute_criu_def split: option.split)
  have dump: "list_all (helper_call_ok ho args) (snd (execute_criu ho (dump_args pid (args ! 3))))"
    if "args ! 1 = ''dump''" "parse_u32 (args ! 2) = Some pid" "validate_dump ho (ho_uid ho) pid (args ! 3) = Inr ()" for pid
    by (rule run) (use that validate_dump_iff [of ho pid "args ! 3"] in \<open>auto simp: helper_call_ok_def dest: resolve_criu_in\<close>)
  have restore: "list_all (helper_call_ok ho args) (snd (execute_criu ho (restore_args (args ! 2))))"
    if "args ! 1 = ''restore''" "validate_restore ho (ho_uid ho) (args ! 2) = Inr ()"
    by (rule run) (use that validate_dir_iff [of ho "args ! 2"] in \<open>auto simp: helper_call_ok_def validate_restore_def dest: resolve_criu_in\<close>)
  show ?thesis using dump restore by (auto simp: helper_main_def split: option.split sum.split)
qed

text \<open>It reports success only when it ran CRIU and CRIU succeeded, and it runs it at most once.\<close>

definition is_run :: "helper_call \<Rightarrow> bool" where
  "is_run c = (case c of RunCriu _ _ \<Rightarrow> True | _ \<Rightarrow> False)"

lemma setup_no_run: "filter is_run (snd (setup_ambient_capabilities ho)) = []"
  using setup_calls [of ho]
  by (auto simp: filter_empty_conv list_all_iff cap_call_def is_run_def split: helper_call.splits)

definition ran_criu :: "helper_oracle \<Rightarrow> helper_call list \<Rightarrow> bool" where
  "ran_criu ho calls = (case filter is_run calls of
     [RunCriu bin criu_args] \<Rightarrow> ho_criu ho (bin # criu_args) = Some True | _ \<Rightarrow> False)"

lemma execute_criu_runs: "execute_criu ho ca = (code, calls) \<Longrightarrow>
    (code = 0 \<longleftrightarrow> ran_criu ho calls) \<and> length (filter is_run calls) \<le> 1"
  by (auto simp: execute_criu_def ran_criu_def setup_no_run exit_criu_fail_def is_run_def
      split: option.splits if_splits)

lemma helper_success: "helper_main ho args = (code, calls) \<Longrightarrow>
    (code = 0 \<longleftrightarrow> ran_criu ho calls) \<and> length (filter is_run calls) \<le> 1"
  unfolding helper_main_def
  by (auto simp: exit_invalid_args_def exit_security_fail_def ran_criu_def [of ho "[]"]
      split: if_splits option.splits sum.splits dest!: execute_criu_runs)

text \<open>The daemon's own invocations: they are understood, and succeed exactly when the checks and CRIU do.\<close>

lemma helper_dump: "helper_main ho [exe, ''dump'', show_pid p, dir] =
    (if process_of_caller ho p \<and> ho_exists ho dir \<and> dir_of_caller ho dir then execute_criu ho (dump_args p dir)
     else (exit_security_fail, []))"
proof -
  have "parse_u32 (show_pid p) = Some p" by (simp add: show_pid_def parse_uint_show)
  then show ?thesis
    using validate_dump_iff [of ho p dir]
    by (cases "validate_dump ho (ho_uid ho) p dir") (auto simp: helper_main_def)
qed

lemma helper_restore: "helper_main ho [exe, ''restore'', dir] =
    (if ho_exists ho dir \<and> dir_of_caller ho dir then execute_criu ho (restore_args dir) else (exit_security_fail, []))"
  using validate_dir_iff [of ho dir]
  by (cases "validate_dir ho (ho_uid ho) dir") (auto simp: helper_main_def validate_restore_def)

section \<open>What the check of the home directory admits\<close>

text \<open>The comparison is one of strings, not of path components.\<close>

lemma home_prefix:
  assumes "ho_exists ho ''/home/ann2/x''" "ho_canonical ho ''/home/ann2/x'' = Some ''/home/ann2/x''"
    "ho_dir_uid ho ''/home/ann2/x'' = Some (ho_uid ho)" "ho_home ho (ho_uid ho) = Some ''/home/ann''"
  shows "validate_dir ho (ho_uid ho) ''/home/ann2/x'' = Inr ()"
  using assms by (simp add: validate_dir_def starts_with_def)

end
