(* ===== verification/Patch.thy ===== *)
theory Patch
  imports Calibrate Os
begin

text \<open>
  \<open>mgctl calibrate --passive-apply\<close> (\<open>mgctl/src/calibrate.rs\<close>): the two live values of the suggestion the
  daemon wrote are read back and patched into the text of the user's configuration. What matters of
  the patch is that it sets the two keys, leaves every other line alone, and can be repeated.
\<close>

section \<open>Reading the suggestion\<close>

definition suggestion_line :: "string \<Rightarrow> string \<Rightarrow> f64 option" where
  "suggestion_line key l = (let line = trim l in
     if starts_with ''#'' line then None
     else case strip_prefix key line of
       None \<Rightarrow> None
     | Some r \<Rightarrow> (case strip_prefix ''='' (trim_start r) of
         None \<Rightarrow> None
       | Some val \<Rightarrow> (case first_opt (split_char CHR ''#'' val) of
           None \<Rightarrow> None
         | Some v \<Rightarrow> parse_f64 (trim v))))"

definition suggestion_value :: "string \<Rightarrow> string \<Rightarrow> f64 option" where
  "suggestion_value data key = first_opt (List.map_filter (suggestion_line key) (lines data))"

section \<open>The patch\<close>

definition elevated_line :: "f64 \<Rightarrow> string" where
  "elevated_line elevated = ''elevated_pct      = '' @ fmt1 elevated"

definition full_critical_line :: "f64 \<Rightarrow> string" where
  "full_critical_line full_critical = ''full_critical_pct = '' @ fmt1 full_critical"

definition is_header :: "string \<Rightarrow> bool" where
  "is_header trimmed \<longleftrightarrow> starts_with ''['' trimmed \<and> ends_with '']'' trimmed"

definition sets_key :: "string \<Rightarrow> string \<Rightarrow> bool" where
  "sets_key key trimmed \<longleftrightarrow> \<not> starts_with ''#'' trimmed \<and> starts_with key trimmed \<and> CHR ''='' \<in> set trimmed"

definition missing_keys :: "string \<Rightarrow> string \<Rightarrow> bool \<Rightarrow> bool \<Rightarrow> bool \<Rightarrow> string list" where
  "missing_keys e f in_psi found_elevated found_full =
     (if in_psi then (if found_elevated then [] else [e]) @ (if found_full then [] else [f]) else [])"

fun patch_lines :: "string \<Rightarrow> string \<Rightarrow> bool \<Rightarrow> bool \<Rightarrow> bool \<Rightarrow> string list \<Rightarrow> string list" where
  "patch_lines e f in_psi fe ff [] = missing_keys e f in_psi fe ff"
| "patch_lines e f in_psi fe ff (line # ls) =
     (if is_header (trim line) then
        missing_keys e f in_psi fe ff @ line # patch_lines e f (trim line = ''[psi]'') fe ff ls
      else if in_psi \<and> sets_key ''elevated_pct'' (trim line) then e # patch_lines e f in_psi True ff ls
      else if in_psi \<and> sets_key ''full_critical_pct'' (trim line) then f # patch_lines e f in_psi fe True ls
      else line # patch_lines e f in_psi fe ff ls)"

fun join_lines :: "string list \<Rightarrow> string" where
  "join_lines [] = []"
| "join_lines [l] = l"
| "join_lines (l # ls) = l @ CHR 0x0A # join_lines ls"

definition has_psi :: "string \<Rightarrow> bool" where
  "has_psi content \<longleftrightarrow> list_ex (\<lambda>l. trim l = ''[psi]'') (lines content)"

definition patch_psi_block :: "string \<Rightarrow> f64 \<Rightarrow> f64 \<Rightarrow> string" where
  "patch_psi_block content elevated full_critical =
     (let e = elevated_line elevated; f = full_critical_line full_critical;
          sep = (if content = [] \<or> last content = CHR 0x0A then [] else [CHR 0x0A])
      in if \<not> has_psi content
         then content @ sep @ [CHR 0x0A] @ ''[psi]'' @ [CHR 0x0A] @ e @ [CHR 0x0A] @ f @ [CHR 0x0A]
         else join_lines (patch_lines e f False False False (lines content)) @ [CHR 0x0A])"

text \<open>The result is the exit code and the request sent to the daemon, whose answer only decides what is
printed.\<close>

definition do_passive_apply :: "sys \<Rightarrow> int \<times> string option \<times> sys" where
  "do_passive_apply s =
     (let (sug_data, s1) = os_read (home_dir s @ ''/.local/share/mgd/calibration_suggestion.toml'') s
      in case sug_data of
        None \<Rightarrow> (1, None, s1)
      | Some data \<Rightarrow> (case (suggestion_value data ''elevated_pct'', suggestion_value data ''full_critical_pct'') of
          (Some elevated, Some full_critical) \<Rightarrow>
            (let config_path = home_dir s @ ''/.config/mgd/priorities.toml'';
                 (_, s2) = os_mkdir (home_dir s @ ''/.config/mgd'') s1;
                 (existing, s3) = os_read config_path s2;
                 patched = patch_psi_block (case existing of Some c \<Rightarrow> c | None \<Rightarrow> []) elevated full_critical
             in case os_write config_path patched s3 of
                  (Some _, s4) \<Rightarrow> (1, None, s4)
                | (None, s4) \<Rightarrow> (0, Some ''reload'', s4))
        | _ \<Rightarrow> (1, None, s1)))"

section \<open>Lines\<close>

definition unlines :: "string list \<Rightarrow> string" where
  "unlines ls = concat (map (\<lambda>l. l @ [CHR 0x0A]) ls)"

lemma join_unlines: "ls \<noteq> [] \<Longrightarrow> join_lines ls @ [CHR 0x0A] = unlines ls"
  by (induction ls rule: join_lines.induct) (auto simp: unlines_def)

definition plain :: "string \<Rightarrow> bool" where
  "plain s \<longleftrightarrow> CHR 0x0A \<notin> set s \<and> CHR 0x0D \<notin> set s"

lemma split_unlines: "list_all plain ls \<Longrightarrow> split_char CHR 0x0A (unlines ls @ r) = ls @ split_char CHR 0x0A r"
proof (induction ls)
  case (Cons l ls)
  have "split_char CHR 0x0A (l @ CHR 0x0A # (unlines ls @ r)) = l # split_char CHR 0x0A (unlines ls @ r)"
    unfolding split_char_def by (rule split_by_prefix) (use Cons.prems in \<open>auto simp: plain_def\<close>)
  then show ?case using Cons by (simp add: unlines_def)
qed (simp add: unlines_def)

lemma strip_cr_plain: "plain l \<Longrightarrow> strip_cr l = l"
  by (cases l rule: rev_cases) (auto simp: strip_cr_def plain_def)

lemma map_strip_cr: "list_all plain ls \<Longrightarrow> map strip_cr ls = ls"
  by (induction ls) (auto simp: strip_cr_plain)

lemma lines_unlines: "list_all plain ls \<Longrightarrow> lines (unlines ls) = ls"
  using split_unlines [of ls "[]"] by (simp add: lines_def split_char_def map_strip_cr)

text \<open>Every text without carriage returns is its lines, but for a missing final newline.\<close>

lemma split_plain: "CHR 0x0D \<notin> set s \<Longrightarrow> list_all plain (split_char CHR 0x0A s)"
  unfolding split_char_def
proof (induction s)
  case (Cons c s)
  then show ?case by (auto simp: plain_def split: list.split)
qed (simp add: plain_def)

lemma split_joined: "s = unlines (butlast (split_char CHR 0x0A s)) @ last (split_char CHR 0x0A s)"
  unfolding split_char_def
proof (induction s)
  case (Cons c s)
  then show ?case
    using split_by_nonempty [of "\<lambda>c. c = CHR 0x0A" s] by (auto simp: unlines_def split: list.split)
qed (simp add: unlines_def)

lemma list_all_butlast: "list_all P xs \<Longrightarrow> list_all P (butlast xs)"
  by (auto simp: list_all_iff dest: in_set_butlastD)

lemma lines_plain: "CHR 0x0D \<notin> set s \<Longrightarrow> list_all plain (lines s)"
proof -
  assume "CHR 0x0D \<notin> set s"
  note ps = split_plain [OF this]
  moreover have "split_char CHR 0x0A s \<noteq> []" by (simp add: split_char_def)
  ultimately show ?thesis
    using map_strip_cr [OF list_all_butlast [OF ps]] list_all_butlast [OF ps]
    by (simp add: lines_def Let_def list_all_iff)
qed

lemma unlines_of_lines:
  assumes "CHR 0x0D \<notin> set s"
  shows "unlines (lines s) = s @ (if s = [] \<or> last s = CHR 0x0A then [] else [CHR 0x0A])"
proof -
  define ps where "ps = split_char CHR 0x0A s"
  have ps: "s = unlines (butlast ps) @ last ps" "list_all plain ps" "ps \<noteq> []"
    using split_joined [of s] split_plain [OF assms] by (simp_all add: ps_def split_char_def)
  have l: "lines s = butlast ps @ (if last ps = [] then [] else [last ps])"
    using map_strip_cr [OF list_all_butlast [OF ps(2)]] by (simp add: lines_def ps_def [symmetric])
  have end_nl: "unlines (butlast ps) = [] \<or> last (unlines (butlast ps)) = CHR 0x0A"
    by (cases "butlast ps" rule: rev_cases) (simp_all add: unlines_def)
  have "plain (last ps)" using ps(2,3) by (simp add: list_all_iff)
  then have "last ps = [] \<or> last (last ps) \<noteq> CHR 0x0A" using last_in_set by (fastforce simp: plain_def)
  then show ?thesis using end_nl by (subst (2 3 4) ps(1)) (auto simp: l unlines_def)
qed

section \<open>What a patch does to the lines\<close>

text \<open>The lines that are neither key of a \<open>[psi]\<close> section, and those that are.\<close>

fun other_lines :: "bool \<Rightarrow> string list \<Rightarrow> string list" where
  "other_lines in_psi [] = []"
| "other_lines in_psi (l # ls) =
     (if is_header (trim l) then l # other_lines (trim l = ''[psi]'') ls
      else if in_psi \<and> (sets_key ''elevated_pct'' (trim l) \<or> sets_key ''full_critical_pct'' (trim l))
      then other_lines in_psi ls
      else l # other_lines in_psi ls)"

fun settings :: "string \<Rightarrow> bool \<Rightarrow> string list \<Rightarrow> string list" where
  "settings key in_psi [] = []"
| "settings key in_psi (l # ls) =
     (if is_header (trim l) then settings key (trim l = ''[psi]'') ls
      else if in_psi \<and> sets_key key (trim l) then l # settings key in_psi ls
      else settings key in_psi ls)"

text \<open>What the two new lines have to be for the patch to recognise them again.\<close>

definition key_lines :: "string \<Rightarrow> string \<Rightarrow> bool" where
  "key_lines e f \<longleftrightarrow> \<not> is_header (trim e) \<and> sets_key ''elevated_pct'' (trim e)
     \<and> \<not> is_header (trim f) \<and> sets_key ''full_critical_pct'' (trim f)"

lemma key_not_both: "sets_key ''elevated_pct'' l \<Longrightarrow> \<not> sets_key ''full_critical_pct'' l"
  by (auto simp: sets_key_def starts_with_iff)

lemma key_lines_not: "key_lines e f \<Longrightarrow> \<not> sets_key ''elevated_pct'' (trim f) \<and> \<not> sets_key ''full_critical_pct'' (trim e)"
  using key_not_both by (auto simp: key_lines_def)

lemma patch_missing: "key_lines e f \<Longrightarrow> (fe \<longrightarrow> fe2) \<Longrightarrow> (ff \<longrightarrow> ff2) \<Longrightarrow>
    patch_lines e f b fe2 ff2 (missing_keys e f b fe ff @ ls) =
    missing_keys e f b fe ff @ patch_lines e f b (fe2 \<or> b) (ff2 \<or> b) ls"
  using key_lines_not [of e f] by (auto simp: missing_keys_def key_lines_def)

lemma missing_none [simp]: "missing_keys e f b True True = []" "missing_keys e f False fe ff = []"
  by (simp_all add: missing_keys_def)

lemma patch_again: "key_lines e f \<Longrightarrow> (fe \<longrightarrow> fe2) \<Longrightarrow> (ff \<longrightarrow> ff2) \<Longrightarrow>
    patch_lines e f b fe2 ff2 (patch_lines e f b fe ff ls) = patch_lines e f b fe ff ls"
proof (induction e f b fe ff ls arbitrary: fe2 ff2 rule: patch_lines.induct)
  case (1 e f b fe ff)
  then show ?case using patch_missing [of e f fe fe2 ff ff2 b "[]"] by (cases b) auto
next
  case (2 e f b fe ff l ls)
  note k = key_lines_not [OF 2(5)]
  show ?case
  proof (cases "is_header (trim l)")
    case True
    then show ?thesis using 2(1) [OF True 2(5), of "fe2 \<or> b" "ff2 \<or> b"] 2(5-7) by (cases b) (auto simp: patch_missing)
  next
    case False
    then show ?thesis using 2 k by (auto simp: key_lines_def)
  qed
qed

lemma other_missing: "key_lines e f \<Longrightarrow> other_lines b (missing_keys e f b fe ff @ ls) = other_lines b ls"
  using key_lines_not [of e f] by (auto simp: missing_keys_def key_lines_def)

lemma patch_keeps: "key_lines e f \<Longrightarrow> other_lines b (patch_lines e f b fe ff ls) = other_lines b ls"
proof (induction e f b fe ff ls rule: patch_lines.induct)
  case (1 e f b fe ff)
  then show ?case using other_missing [of e f b fe ff "[]"] by simp
next
  case (2 e f b fe ff l ls)
  then show ?case by (auto simp: other_missing key_lines_def)
qed

lemma settings_missing: "key_lines e f \<Longrightarrow>
    settings ''elevated_pct'' b (missing_keys e f b fe ff @ ls) = (if b \<and> \<not> fe then [e] else []) @ settings ''elevated_pct'' b ls"
  "key_lines e f \<Longrightarrow>
    settings ''full_critical_pct'' b (missing_keys e f b fe ff @ ls) = (if b \<and> \<not> ff then [f] else []) @ settings ''full_critical_pct'' b ls"
  using key_lines_not [of e f] by (auto simp: missing_keys_def key_lines_def)

text \<open>Every setting of a key is the new one, and a \<open>[psi]\<close> section has one unless it was found before.\<close>

lemma patch_sets: "key_lines e f \<Longrightarrow>
    set (settings ''elevated_pct'' b (patch_lines e f b fe ff ls)) \<subseteq> {e} \<and>
    set (settings ''full_critical_pct'' b (patch_lines e f b fe ff ls)) \<subseteq> {f} \<and>
    (b \<or> list_ex (\<lambda>l. trim l = ''[psi]'') ls \<longrightarrow>
       (fe \<or> settings ''elevated_pct'' b (patch_lines e f b fe ff ls) \<noteq> []) \<and>
       (ff \<or> settings ''full_critical_pct'' b (patch_lines e f b fe ff ls) \<noteq> []))"
proof (induction e f b fe ff ls rule: patch_lines.induct)
  case (1 e f b fe ff)
  then show ?case using settings_missing [of e f b fe ff "[]"] by auto
next
  case (2 e f b fe ff l ls)
  have psi: "is_header ''[psi]''" by (simp add: is_header_def starts_with_def ends_with_def)
  show ?case
  proof (cases "is_header (trim l)")
    case True
    then show ?thesis using 2(1) [OF True 2(5)] 2(5) by (auto simp: settings_missing)
  next
    case False
    with psi have "trim l \<noteq> ''[psi]''" by auto
    then show ?thesis using 2 False key_lines_not [OF 2(5)] key_not_both by (auto simp: key_lines_def)
  qed
qed

section \<open>The new lines\<close>

lemma trim_id: "s \<noteq> [] \<Longrightarrow> \<not> is_ws (hd s) \<Longrightarrow> \<not> is_ws (last s) \<Longrightarrow> trim s = s"
proof -
  assume a: "s \<noteq> []" "\<not> is_ws (hd s)" "\<not> is_ws (last s)"
  then have "dropWhile is_ws s = s" by (cases s) auto
  moreover have "dropWhile is_ws (rev s) = rev s" using a by (cases s rule: rev_cases) auto
  ultimately show ?thesis by (simp add: trim_def)
qed

definition number_char :: "char \<Rightarrow> bool" where
  "number_char c \<longleftrightarrow> is_digit c \<or> c \<in> set ''-.NaNinf''"

lemma number_char_plain: "number_char c \<Longrightarrow> \<not> is_ws c \<and> c \<noteq> CHR ''#'' \<and> c \<noteq> CHR '']''"
  by (auto simp: number_char_def is_digit_def is_ws_def)

lemma show_nat_number: "list_all number_char (show_nat n)"
  using show_nat_digits [of n] by (auto simp: list_all_iff number_char_def)

lemma fmt1_number: "list_all number_char (fmt1 x) \<and> fmt1 x \<noteq> []"
  using show_nat_number by (cases x) (auto simp: fmt1_def Let_def number_char_def)

lemma fmt1_chars: "c \<in> set (fmt1 x) \<Longrightarrow> \<not> is_ws c \<and> c \<noteq> CHR ''#'' \<and> c \<noteq> CHR '']''"
  using fmt1_number [of x] number_char_plain by (auto simp: list_all_iff)

lemma last_fmt1: "last (k @ fmt1 x) = last (fmt1 x) \<and> last (fmt1 x) \<in> set (fmt1 x)"
  using fmt1_number [of x] by simp

lemma trim_line: "k \<noteq> [] \<Longrightarrow> \<not> is_ws (hd k) \<Longrightarrow> trim (k @ fmt1 x) = k @ fmt1 x"
  by (rule trim_id) (use last_fmt1 [of k x] fmt1_chars in auto)

lemma trim_new_lines: "trim (elevated_line x) = elevated_line x" "trim (full_critical_line x) = full_critical_line x"
  unfolding elevated_line_def full_critical_line_def by (rule trim_line; simp add: is_ws_def)+

lemma new_lines: "key_lines (elevated_line x) (full_critical_line y)"
  by (simp add: key_lines_def trim_new_lines)
     (simp add: elevated_line_def full_critical_line_def is_header_def sets_key_def starts_with_def)

lemma plain_new_lines: "plain (elevated_line x)" "plain (full_critical_line x)"
  using fmt1_chars [of _ x] by (auto simp: plain_def elevated_line_def full_critical_line_def is_ws_def)

section \<open>The patch as a whole\<close>

definition new_block :: "f64 \<Rightarrow> f64 \<Rightarrow> string list" where
  "new_block x y = ['''', ''[psi]'', elevated_line x, full_critical_line y]"

text \<open>The lines of the result, in both cases of the code.\<close>

definition patched_lines :: "string \<Rightarrow> f64 \<Rightarrow> f64 \<Rightarrow> string list" where
  "patched_lines content x y =
     (if has_psi content then patch_lines (elevated_line x) (full_critical_line y) False False False (lines content)
      else lines content @ new_block x y)"

lemma plain_patch: "plain e \<Longrightarrow> plain f \<Longrightarrow> list_all plain ls \<Longrightarrow> list_all plain (patch_lines e f b fe ff ls)"
  by (induction e f b fe ff ls rule: patch_lines.induct) (auto simp: missing_keys_def)

lemma plain_patched: "CHR 0x0D \<notin> set content \<Longrightarrow> list_all plain (patched_lines content x y)"
  by (auto simp: patched_lines_def new_block_def plain_new_lines lines_plain intro: plain_patch)
     (simp_all add: plain_def)

lemma patch_nonempty: "ls \<noteq> [] \<Longrightarrow> patch_lines e f b fe ff ls \<noteq> []"
  by (cases ls) auto

lemma patch_text: "CHR 0x0D \<notin> set content \<Longrightarrow> patch_psi_block content x y = unlines (patched_lines content x y)"
proof -
  assume cr: "CHR 0x0D \<notin> set content"
  show ?thesis
  proof (cases "has_psi content")
    case True
    then have "lines content \<noteq> []" by (auto simp: has_psi_def)
    then show ?thesis using True
      by (simp add: patch_psi_block_def patched_lines_def join_unlines patch_nonempty)
  next
    case False
    have "unlines (lines content @ new_block x y) = unlines (lines content) @ unlines (new_block x y)"
      by (simp add: unlines_def)
    then show ?thesis using False unlines_of_lines [OF cr]
      by (simp add: patch_psi_block_def patched_lines_def new_block_def unlines_def)
  qed
qed

lemma lines_patch: "CHR 0x0D \<notin> set content \<Longrightarrow> lines (patch_psi_block content x y) = patched_lines content x y"
  by (simp add: patch_text lines_unlines plain_patched)

lemma plain_unlines: "list_all plain ls \<Longrightarrow> CHR 0x0D \<notin> set (unlines ls)"
  by (induction ls) (auto simp: unlines_def plain_def)

lemma patch_no_cr: "CHR 0x0D \<notin> set content \<Longrightarrow> CHR 0x0D \<notin> set (patch_psi_block content x y)"
  by (simp add: patch_text plain_unlines plain_patched)

lemma psi_header: "is_header ''[psi]''" "trim ''[psi]'' = ''[psi]''" "trim [] = []" "\<not> is_header []"
  by (simp_all add: is_header_def starts_with_def ends_with_def trim_def is_ws_def)

text \<open>Without a \<open>[psi]\<close> line the walk changes nothing until the block at the end.\<close>

lemma patch_outside: "list_all (\<lambda>l. trim l \<noteq> ''[psi]'') ls \<Longrightarrow>
    patch_lines e f False fe ff (ls @ r) = ls @ patch_lines e f False fe ff r"
  by (induction ls) auto

lemma other_outside: "list_all (\<lambda>l. trim l \<noteq> ''[psi]'') ls \<Longrightarrow> other_lines False (ls @ r) = ls @ other_lines False r"
  by (induction ls) auto

lemma settings_outside: "list_all (\<lambda>l. trim l \<noteq> ''[psi]'') ls \<Longrightarrow> settings key False (ls @ r) = settings key False r"
  by (induction ls) auto

lemma no_psi: "\<not> has_psi content \<longleftrightarrow> list_all (\<lambda>l. trim l \<noteq> ''[psi]'') (lines content)"
  by (auto simp: has_psi_def list_ex_iff list_all_iff)

text \<open>The two cases, and the new lines evaluated in each.\<close>

lemma patched_psi: "has_psi content \<Longrightarrow> patched_lines content x y =
    patch_lines (elevated_line x) (full_critical_line y) False False False (lines content)"
  by (simp add: patched_lines_def)

lemma patched_new: "\<not> has_psi content \<Longrightarrow> patched_lines content x y = lines content @ new_block x y \<and>
    list_all (\<lambda>l. trim l \<noteq> ''[psi]'') (lines content)"
  by (simp add: patched_lines_def) (simp add: no_psi)

lemma new_block_facts:
  "patch_lines (elevated_line x) (full_critical_line y) False False False (new_block x y) = new_block x y"
  "other_lines False (new_block x y) = ['''', ''[psi]'']"
  "settings ''elevated_pct'' False (new_block x y) = [elevated_line x]"
  "settings ''full_critical_pct'' False (new_block x y) = [full_critical_line y]"
  using new_lines [of x y] key_lines_not [OF new_lines [of x y]]
  by (simp_all add: new_block_def psi_header key_lines_def)

lemma psi_stays: "list_ex (\<lambda>l. trim l = ''[psi]'') ls \<Longrightarrow> list_ex (\<lambda>l. trim l = ''[psi]'') (patch_lines e f b fe ff ls)"
proof (induction ls arbitrary: b fe ff)
  case (Cons l ls)
  have "trim l \<noteq> ''[psi]''" if "\<not> is_header (trim l)" using that psi_header(1) by metis
  then show ?case
    using Cons.prems Cons.IH by (cases "is_header (trim l)") (simp_all, blast)
qed simp

lemma psi_patched: "list_ex (\<lambda>l. trim l = ''[psi]'') (patched_lines content x y)"
  by (cases "has_psi content")
     (use psi_stays in \<open>auto simp: patched_psi has_psi_def patched_new new_block_def psi_header\<close>)

lemma patched_again:
  "patch_lines (elevated_line x) (full_critical_line y) False False False (patched_lines content x y) = patched_lines content x y"
  by (cases "has_psi content")
     (simp add: patched_psi patch_again new_lines, drule patched_new [of _ x y], simp add: patch_outside new_block_facts)

lemma patch_idempotent:
  assumes "CHR 0x0D \<notin> set content"
  shows "patch_psi_block (patch_psi_block content x y) x y = patch_psi_block content x y"
proof -
  have "has_psi (patch_psi_block content x y)"
    using psi_patched by (simp add: has_psi_def lines_patch [OF assms])
  from patched_psi [OF this, of x y] have "patched_lines (patch_psi_block content x y) x y = patched_lines content x y"
    by (simp add: lines_patch [OF assms] patched_again)
  then show ?thesis
    by (simp only: patch_text [OF patch_no_cr [OF assms]]) (simp only: patch_text [OF assms])
qed

lemma patched_others: "other_lines False (patched_lines content x y) =
    other_lines False (lines content) @ (if has_psi content then [] else ['''', ''[psi]''])"
proof (cases "has_psi content")
  case False
  note new = patched_new [OF False, of x y]
  then show ?thesis
    using False other_outside [of "lines content" "[]"] by (simp add: other_outside new_block_facts)
qed (simp add: patched_psi patch_keeps new_lines)

lemma singleton_set: "set xs \<subseteq> {a} \<Longrightarrow> xs \<noteq> [] \<Longrightarrow> set xs = {a}"
  by (cases xs) auto

lemma patched_settings:
  "set (settings ''elevated_pct'' False (patched_lines content x y)) = {elevated_line x} \<and>
   set (settings ''full_critical_pct'' False (patched_lines content x y)) = {full_critical_line y}"
proof (cases "has_psi content")
  case True
  then show ?thesis
    using patch_sets [OF new_lines [of x y], of False False False "lines content"]
    by (simp add: patched_psi has_psi_def singleton_set)
next
  case False
  from patched_new [OF this, of x y] show ?thesis by (simp add: settings_outside new_block_facts)
qed

section \<open>Reading back what the daemon suggested\<close>

lemma fmt1_nat: "fmt1 (Fin (of_nat n)) = show_nat n @ ''.0''"
proof -
  have "rne (10 * of_nat n) = int (10 * n)" using rne_of_int [of "int (10 * n)"] by simp
  moreover have "nat (10 * int n) = 10 * n" by simp
  ultimately show ?thesis by (simp add: fmt1_def Let_def show_nat.simps [of 0]) (simp add: char_of_def bit_0)
qed

lemma parse_fmt1_nat:
  assumes "n \<le> 2 ^ 53"
  shows "parse_f64 (fmt1 (Fin (of_nat n))) = Some (Fin (of_nat n))"
proof -
  note d = show_nat_digits [of n]
  then obtain c cs where c: "show_nat n = c # cs" "is_digit c" by (cases "show_nat n") auto
  then have low: "to_ascii_lower c = c" "c \<notin> {CHR ''i'', CHR ''n'', CHR ''-'', CHR ''+''}"
    by (auto simp: is_digit_def to_ascii_lower_def Let_def)
  have w: "takeWhile is_digit (show_nat n @ ''.0'') = show_nat n" "dropWhile is_digit (show_nat n @ ''.0'') = ''.0''"
    using d by (simp_all add: takeWhile_append2 dropWhile_append2 list_all_iff is_digit_def)
  have v: "digits_val (show_nat n @ ''0'') = 10 * n"
    using d by (simp add: digits_val_snoc digit_val_def)
  have "parse_unsigned_f64 (show_nat n @ ''.0'') = Some (f64_of_nat n)"
    using low d v by (simp add: parse_unsigned_f64_def Let_def w to_ascii_lowercase_def c(1) [symmetric] parse_exp_def
        is_digit_def power_int_minus f64_of_nat_def) (simp add: c(1) low)
  then show ?thesis
    using low assms by (simp add: fmt1_nat parse_f64_def c(1) f64_of_nat_exact)
qed

lemma first_split: "first_opt (split_by P s) = Some (takeWhile (\<lambda>c. \<not> P c) s)"
  by (induction s) (auto simp: first_opt_def split: list.splits)

lemma trim_spaces: "w \<noteq> [] \<Longrightarrow> \<not> is_ws (hd w) \<Longrightarrow> \<not> is_ws (last w) \<Longrightarrow> trim ('' '' @ w @ ''    '') = w"
proof -
  assume a: "w \<noteq> []" "\<not> is_ws (hd w)" "\<not> is_ws (last w)"
  then have "dropWhile is_ws ('' '' @ w @ ''    '') = w @ ''    ''" by (cases w) (auto simp: is_ws_def)
  moreover have "dropWhile is_ws (rev (w @ ''    '')) = rev w"
    using a by (cases w rule: rev_cases) (auto simp: is_ws_def)
  ultimately show ?thesis by (simp add: trim_def)
qed

text \<open>A line \<open>key = x    # current: y\<close> of the suggestion file gives the value of \<open>x\<close>.\<close>

lemma suggested_line:
  assumes "key \<noteq> []" "\<not> is_ws (hd key)" "hd key \<noteq> CHR ''#''" "list_all is_ws pad"
  shows "suggestion_line key (key @ pad @ ''= '' @ fmt1 x @ ''    # current: '' @ fmt1 y) = parse_f64 (fmt1 x)"
proof -
  let ?l = "key @ pad @ ''= '' @ fmt1 x @ ''    # current: '' @ fmt1 y"
  have trim: "trim ?l = ?l"
    using assms trim_line [of "key @ pad @ ''= '' @ fmt1 x @ ''    # current: ''" y] by simp
  have hash: "\<not> starts_with ''#'' ?l" using assms by (cases key) (auto simp: starts_with_iff)
  have strip: "strip_prefix key ?l = Some (pad @ ''= '' @ fmt1 x @ ''    # current: '' @ fmt1 y)"
    by (simp add: strip_prefix_Some)
  have start: "trim_start (pad @ ''= '' @ fmt1 x @ ''    # current: '' @ fmt1 y) = ''= '' @ fmt1 x @ ''    # current: '' @ fmt1 y"
    using assms(4) by (simp add: trim_start_def dropWhile_append2 list_all_iff is_ws_def)
  have "\<forall>c \<in> set ('' '' @ fmt1 x @ ''    ''). c \<noteq> CHR ''#''" using fmt1_chars [of _ x] by auto
  then have "takeWhile (\<lambda>c. c \<noteq> CHR ''#'') (('' '' @ fmt1 x @ ''    '') @ ''# current: '' @ fmt1 y) = '' '' @ fmt1 x @ ''    ''"
    by (subst takeWhile_append2) auto
  then have val: "first_opt (split_char CHR ''#'' ('' '' @ fmt1 x @ ''    # current: '' @ fmt1 y)) = Some ('' '' @ fmt1 x @ ''    '')"
    by (simp only: split_char_def first_split) simp
  have "trim ('' '' @ fmt1 x @ ''    '') = fmt1 x"
    by (rule trim_spaces) (use fmt1_chars [of _ x] fmt1_number [of x] in auto)
  then show ?thesis using trim hash strip start val by (simp add: suggestion_line_def Let_def)
qed

lemma trim_first: "\<not> is_ws c \<Longrightarrow> \<exists>r. trim (c # cs) = c # r"
proof -
  assume c: "\<not> is_ws c"
  then have "trim (c # cs) = rev (dropWhile is_ws (rev cs @ [c]))" by (simp add: trim_def)
  also have "\<dots> = (if dropWhile is_ws (rev cs) = [] then [c] else c # rev (dropWhile is_ws (rev cs)))"
    using c by (auto simp: dropWhile_append dropWhile_eq_Nil_conv)
  finally show ?thesis by auto
qed

text \<open>Lines that begin with another character than the key give nothing.\<close>

lemma other_line: "\<not> is_ws c \<Longrightarrow> c = CHR ''#'' \<or> c \<noteq> hd key \<Longrightarrow> key \<noteq> [] \<Longrightarrow> suggestion_line key (c # cs) = None"
  using trim_first [of c cs] by (cases key) (auto simp: suggestion_line_def Let_def starts_with_def)

lemma empty_line: "key \<noteq> [] \<Longrightarrow> suggestion_line key [] = None"
  by (cases key) (simp_all add: suggestion_line_def trim_def starts_with_def)

lemma plain_number: "plain (show_nat n)" "plain (fmt1 x)"
  using show_nat_number [of n] fmt1_chars [of _ x] number_char_plain
  by (auto simp: plain_def list_all_iff is_ws_def)

lemma plain_append: "plain (a @ b) \<longleftrightarrow> plain a \<and> plain b"
  by (auto simp: plain_def)

lemma suggestion_first:
  assumes "list_all plain ls" "n < length ls" "list_all (\<lambda>l. suggestion_line key l = None) (take n ls)"
    "suggestion_line key (ls ! n) = Some v"
  shows "suggestion_value (unlines ls) key = Some v"
proof -
  have "filter (\<lambda>l. suggestion_line key l \<noteq> None) (take n ls) = []"
    using assms(3) by (simp add: list_all_iff filter_empty_conv)
  then have "filter (\<lambda>l. suggestion_line key l \<noteq> None) (take n ls @ ls ! n # drop (Suc n) ls) =
      ls ! n # filter (\<lambda>l. suggestion_line key l \<noteq> None) (drop (Suc n) ls)"
    using assms(4) by simp
  then have "filter (\<lambda>l. suggestion_line key l \<noteq> None) ls = ls ! n # filter (\<lambda>l. suggestion_line key l \<noteq> None) (drop (Suc n) ls)"
    by (simp only: id_take_nth_drop [OF assms(2), symmetric])
  then show ?thesis
    by (simp add: suggestion_value_def lines_unlines assms(1,4) first_opt_def map_filter_def)
qed

lemma plain_suggestion: "list_all plain (suggestion_lines s current now)"
  unfolding suggestion_lines_def
  by (simp add: plain_append plain_number) (simp add: plain_def plain_number [unfolded plain_def])

lemma render_unlines: "render_suggestion s current now = unlines (suggestion_lines s current now)"
  by (simp add: render_suggestion_def unlines_def)

lemma read_suggestion:
  assumes "parse_f64 (fmt1 (sg_elevated s)) = Some x" "parse_f64 (fmt1 (sg_full_critical s)) = Some y"
  shows "suggestion_value (render_suggestion s current now) ''elevated_pct'' = Some x"
    and "suggestion_value (render_suggestion s current now) ''full_critical_pct'' = Some y"
proof -
  let ?ls = "suggestion_lines s current now"
  have e: "suggestion_line ''elevated_pct'' (?ls ! 9) = Some x"
    using suggested_line [of "''elevated_pct''" "''      ''" "sg_elevated s" "elevated_pct current"] assms(1)
    by (simp add: suggestion_lines_def is_ws_def)
  have f: "suggestion_line ''full_critical_pct'' (?ls ! 10) = Some y"
    using suggested_line [of "''full_critical_pct''" "'' ''" "sg_full_critical s" "full_critical_pct current"] assms(2)
    by (simp add: suggestion_lines_def is_ws_def)
  have n: "9 < length ?ls" "10 < length ?ls" by (simp_all add: suggestion_lines_def)
  have none: "list_all (\<lambda>l. suggestion_line ''elevated_pct'' l = None) (take 9 ?ls)"
    "list_all (\<lambda>l. suggestion_line ''full_critical_pct'' l = None) (take 10 ?ls)"
    by (simp_all add: suggestion_lines_def other_line empty_line is_ws_def)
  show "suggestion_value (render_suggestion s current now) ''elevated_pct'' = Some x"
    unfolding render_unlines by (rule suggestion_first [OF plain_suggestion n(1) none(1) e])
  show "suggestion_value (render_suggestion s current now) ''full_critical_pct'' = Some y"
    unfolding render_unlines by (rule suggestion_first [OF plain_suggestion n(2) none(2) f])
qed

text \<open>What a calibrator suggests are whole percents, which the file renders exactly.\<close>

lemma suggest_full_int:
  assumes "calibrator_ok c" "suggest c = Some s"
  shows "\<exists>k \<le> 50. sg_full_critical s = Fin (of_nat k)"
proof -
  define f where "f = (case percentile (full_secs (cal_state c)) (f64_lit 95) of None \<Rightarrow> f64_lit 20 | Some v \<Rightarrow> v)"
  have lits: "f64_lit 5 = Fin 5" "f64_lit 50 = Fin 50" "f64_lit 20 = Fin 20" by (simp_all add: f64_eval)
  have "sg_full_critical s = fl_clamp (f64_lit 5) (f64_lit 50) f"
    using assms(2) by (auto simp: suggest_def Let_def f_def split: if_splits)
  moreover have "\<exists>j. f = Fin (of_nat j)"
    using assms(1) by (auto simp: f_def lits calibrator_ok_def split: option.split dest: percentile_int intro: exI [of _ 20])
  ultimately obtain j where "sg_full_critical s = fl_clamp (Fin 5) (Fin 50) (Fin (of_nat j))" by (auto simp: lits)
  then show ?thesis
    by (intro exI [of _ "max 5 (min 50 j)"]) (auto simp: fl_clamp_def max_def min_def)
qed

lemma suggestion_read_back:
  assumes "calibrator_ok c" "suggest c = Some s"
  shows "suggestion_value (render_suggestion s current now) ''elevated_pct'' = Some (sg_elevated s)"
    "suggestion_value (render_suggestion s current now) ''full_critical_pct'' = Some (sg_full_critical s)"
proof -
  obtain j where j: "j \<le> 15" "sg_elevated s = Fin (of_nat j)" by (rule suggest_ladder [OF assms])
  obtain k where k: "k \<le> 50" "sg_full_critical s = Fin (of_nat k)" using suggest_full_int [OF assms] by blast
  have "parse_f64 (fmt1 (sg_elevated s)) = Some (sg_elevated s)"
    "parse_f64 (fmt1 (sg_full_critical s)) = Some (sg_full_critical s)"
    using j k by (simp_all add: parse_fmt1_nat)
  then show "suggestion_value (render_suggestion s current now) ''elevated_pct'' = Some (sg_elevated s)"
    "suggestion_value (render_suggestion s current now) ''full_critical_pct'' = Some (sg_full_critical s)"
    by (rule read_suggestion)+
qed

text \<open>What the command writes when it finds a suggestion of the daemon.\<close>

lemma passive_apply_result:
  assumes "calibrator_ok c" "suggest c = Some s"
    and "fst (os_read (home_dir st @ ''/.local/share/mgd/calibration_suggestion.toml'') st) = Some (render_suggestion s current now)"
  obtains content r code req st' where "do_passive_apply st = (code, req, st')"
    "sys_trace st' = sys_trace st @ [MadeDir (home_dir st @ ''/.config/mgd''),
       Wrote (home_dir st @ ''/.config/mgd/priorities.toml'') (patch_psi_block content (sg_elevated s) (sg_full_critical s)) r]"
    "code = (if r = None then 0 else 1)" "req = (if r = None then Some ''reload'' else None)"
proof -
  let ?cfg = "home_dir st @ ''/.config/mgd/priorities.toml''"
  obtain s1 where s1: "os_read (home_dir st @ ''/.local/share/mgd/calibration_suggestion.toml'') st =
      (Some (render_suggestion s current now), s1)"
    using assms(3) by (cases "os_read (home_dir st @ ''/.local/share/mgd/calibration_suggestion.toml'') st") simp
  obtain b s2 where s2: "os_mkdir (home_dir st @ ''/.config/mgd'') s1 = (b, s2)" by fastforce
  obtain existing s3 where s3: "os_read ?cfg s2 = (existing, s3)" by fastforce
  define content where "content = (case existing of Some c \<Rightarrow> c | None \<Rightarrow> [])"
  obtain r s4 where s4: "os_write ?cfg (patch_psi_block content (sg_elevated s) (sg_full_critical s)) s3 = (r, s4)" by fastforce
  have run: "do_passive_apply st = (if r = None then 0 else 1, if r = None then Some ''reload'' else None, s4)"
    by (cases r) (simp_all add: do_passive_apply_def s1 s2 s3 s4 content_def [symmetric] suggestion_read_back [OF assms(1,2)])
  have "sys_trace s1 = sys_trace st" "sys_trace s2 = sys_trace s1 @ [MadeDir (home_dir st @ ''/.config/mgd'')]"
    "sys_trace s3 = sys_trace s2"
    "sys_trace s4 = sys_trace s3 @ [Wrote ?cfg (patch_psi_block content (sg_elevated s) (sg_full_critical s)) r]"
    using s1 s2 s3 s4 by (auto simp: os_read_def os_mkdir_def os_write_def Let_def)
  then show thesis using run by (intro that) simp_all
qed

end
