(* ===== verification/Sweep.thy ===== *)
theory Sweep
  imports Patch Meminfo Config
begin

text \<open>
  \<open>mgctl calibrate\<close> (\<open>mgctl/src/calibrate.rs\<close>): the guards, the three phases and the files they leave
  for the daemon. Allocation and interruption are oracles; the memory mapped and unmapped is a log of
  its own. The progress it prints is not modelled, nor are the reads made only to print it.
\<close>

section \<open>Guards and readings\<close>

text \<open>\<open>so_interrupted\<close> is the flag the signal handler sets, by the time it is looked at.\<close>

record sweep_oracle =
  so_supplies :: "string list option"
  so_zones :: "string list option"
  so_alloc :: "nat \<Rightarrow> bool"
  so_interrupted :: "nat \<Rightarrow> bool"

definition or_default :: "string option \<Rightarrow> string" where
  "or_default content = (case content of None \<Rightarrow> [] | Some t \<Rightarrow> t)"

definition battery_entry :: "string \<Rightarrow> sys \<Rightarrow> bool \<times> sys" where
  "battery_entry base s = (case os_read (base @ ''/type'') s of
     (None, s1) \<Rightarrow> (False, s1)
   | (Some typ, s1) \<Rightarrow>
       if trim typ \<noteq> ''Battery'' then (False, s1)
       else (let (status, s2) = os_read (base @ ''/status'') s1 in
         if trim (or_default status) = ''Discharging'' then
           (let (capacity, s3) = os_read (base @ ''/capacity'') s2;
                cap = (case parse_u32 (trim (or_default capacity)) of None \<Rightarrow> 100 | Some n \<Rightarrow> n)
            in (cap < 30, s3))
         else (False, s2)))"

fun battery_among :: "string list \<Rightarrow> sys \<Rightarrow> bool \<times> sys" where
  "battery_among [] s = (False, s)"
| "battery_among (base # bases) s =
     (let (low, s1) = battery_entry base s in if low then (True, s1) else battery_among bases s1)"

definition battery_low :: "sweep_oracle \<Rightarrow> sys \<Rightarrow> bool \<times> sys" where
  "battery_low so s = (case so_supplies so of None \<Rightarrow> (False, s) | Some entries \<Rightarrow> battery_among entries s)"

fun throttling_among :: "string list \<Rightarrow> sys \<Rightarrow> bool \<times> sys" where
  "throttling_among [] s = (False, s)"
| "throttling_among (zone # zones) s =
     (case os_read (zone @ ''/throttle_count'') s of
        (None, s1) \<Rightarrow> throttling_among zones s1
      | (Some val, s1) \<Rightarrow>
          if 0 < (case parse_u64 (trim val) of None \<Rightarrow> 0 | Some n \<Rightarrow> n) then (True, s1) else throttling_among zones s1)"

definition thermal_throttling :: "sweep_oracle \<Rightarrow> sys \<Rightarrow> bool \<times> sys" where
  "thermal_throttling so s = (case so_zones so of None \<Rightarrow> (False, s) | Some entries \<Rightarrow> throttling_among entries s)"

record psi_snapshot =
  ps_some_avg10 :: f64
  ps_full_avg10 :: f64

definition psi_field :: "string \<Rightarrow> string list \<Rightarrow> f64" where
  "psi_field prefix parts = (case find (starts_with prefix) parts of
     None \<Rightarrow> Fin 0
   | Some p \<Rightarrow> (case parse_kv p prefix of Inl _ \<Rightarrow> Fin 0 | Inr x \<Rightarrow> x))"

definition psi_snapshot_line :: "psi_snapshot \<Rightarrow> string \<Rightarrow> psi_snapshot" where
  "psi_snapshot_line snap line = (let parts = split_whitespace line in
     if length parts < 3 then snap
     else if hd parts = ''some'' then snap\<lparr>ps_some_avg10 := psi_field ''avg10='' parts\<rparr>
     else if hd parts = ''full'' then snap\<lparr>ps_full_avg10 := psi_field ''avg10='' parts\<rparr>
     else snap)"

definition psi_none :: psi_snapshot where
  "psi_none = \<lparr>ps_some_avg10 = Fin 0, ps_full_avg10 = Fin 0\<rparr>"

definition read_psi :: "sys \<Rightarrow> psi_snapshot option \<times> sys" where
  "read_psi s = (let (content, s1) = os_read ''/proc/pressure/memory'' s
     in (map_option (\<lambda>c. foldl psi_snapshot_line psi_none (lines c)) content, s1))"

definition psi_or_none :: "psi_snapshot option \<Rightarrow> psi_snapshot" where
  "psi_or_none p = (case p of None \<Rightarrow> psi_none | Some snap \<Rightarrow> snap)"

definition read_swap_in_kb :: "sys \<Rightarrow> u64 \<times> sys" where
  "read_swap_in_kb s = (let (content, s1) = os_read ''/proc/vmstat'' s
     in (case Option.bind content (\<lambda>c. find (starts_with ''pswpin '') (lines c)) of
           None \<Rightarrow> 0
         | Some l \<Rightarrow> (case Option.bind (nth_opt 1 (split_whitespace l)) parse_u64 of None \<Rightarrow> 0 | Some n \<Rightarrow> n), s1))"

section \<open>Phase 1: the idle baseline\<close>

fun idle_baseline :: "sweep_oracle \<Rightarrow> nat \<Rightarrow> f64 list \<Rightarrow> u64 list \<Rightarrow> sys \<Rightarrow> (f64 list \<times> u64 list) option \<times> sys" where
  "idle_baseline so 0 psi swap s = (Some (psi, swap), s)"
| "idle_baseline so (Suc n) psi swap s =
     (if so_interrupted so (sys_tick s) then (None, s)
      else let (p, s1) = read_psi (os_sleep s);
               psi' = (case p of None \<Rightarrow> psi | Some snap \<Rightarrow> psi @ [ps_full_avg10 snap]);
               (kb, s2) = read_swap_in_kb s1
           in idle_baseline so n psi' (swap @ [kb]) s2)"

definition mean :: "f64 list \<Rightarrow> f64" where
  "mean xs = f64_div (foldl f64_add (Fin 0) xs) (f64_of_nat (max (length xs) 1))"

section \<open>Phase 2: the sweep\<close>

definition step_mb :: nat where "step_mb = 200"
definition step_bytes :: nat where "step_bytes = step_mb * 1024 * 1024"
definition max_steps :: nat where "max_steps = 30"

datatype mem_event = Mapped nat | Unmapped nat

definition release :: "nat \<Rightarrow> mem_event list" where
  "release held = replicate held (Unmapped step_bytes)"

datatype tick_end = Interrupted | Inflection f64 | SwapSpike | Quiet

fun sweep_ticks :: "sweep_oracle \<Rightarrow> u64 \<Rightarrow> nat \<Rightarrow> sys \<Rightarrow> tick_end \<times> sys" where
  "sweep_ticks so baseline_swap 0 s = (Quiet, s)"
| "sweep_ticks so baseline_swap (Suc n) s =
     (let s1 = os_sleep s in
      if so_interrupted so (sys_tick s1) then (Interrupted, s1)
      else let (p, s2) = read_psi s1; cur_psi = psi_or_none p; (cur_swap, s3) = read_swap_in_kb s2;
               swap_rate = sat_sub cur_swap baseline_swap
           in if fl_gt (ps_full_avg10 cur_psi) (f64_lit 15) then (Inflection (ps_full_avg10 cur_psi), s3)
              else if swap_rate > 50000 then (SwapSpike, s3)
              else sweep_ticks so baseline_swap n s3)"

text \<open>The result: whether it was interrupted, the chunks held, the swap onset and the log of the memory.\<close>

fun sweep_steps :: "sweep_oracle \<Rightarrow> u64 \<Rightarrow> nat \<Rightarrow> nat \<Rightarrow> mem_event list \<Rightarrow> sys \<Rightarrow>
    bool \<times> nat \<times> nat option \<times> mem_event list \<times> sys" where
  "sweep_steps so baseline_swap 0 held mem s = (False, held, None, mem, s)"
| "sweep_steps so baseline_swap (Suc n) held mem s =
     (if so_interrupted so (sys_tick s) then (True, 0, None, mem @ release held, s)
      else if \<not> so_alloc so held then (False, held, None, mem, s)
      else let held' = Suc held; mem' = mem @ [Mapped step_bytes] in
        (case sweep_ticks so baseline_swap 4 s of
           (Interrupted, s1) \<Rightarrow> (True, 0, None, mem' @ release held', s1)
         | (Inflection _, s1) \<Rightarrow> (False, held', None, mem', s1)
         | (SwapSpike, s1) \<Rightarrow> (False, held', Some (held' * step_mb), mem', s1)
         | (Quiet, s1) \<Rightarrow> sweep_steps so baseline_swap n held' mem' s1))"

section \<open>Phase 3: the recovery\<close>

fun recovery_wait :: "sweep_oracle \<Rightarrow> f64 \<Rightarrow> u64 \<Rightarrow> nat \<Rightarrow> sys \<Rightarrow> u64 option \<times> sys" where
  "recovery_wait so baseline_psi start 0 s = (Some 60, s)"
| "recovery_wait so baseline_psi start (Suc n) s =
     (let s1 = os_sleep s in
      if so_interrupted so (sys_tick s1) then (None, s1)
      else let (p, s2) = read_psi s1 in
        if fl_le (ps_full_avg10 (psi_or_none p)) (f64_add (f64_mul baseline_psi (f64_lit (11 / 10))) (f64_lit (1 / 10)))
        then (let (now, s3) = os_unix s2 in (Some (now - start), s3))
        else recovery_wait so baseline_psi start n s2)"

section \<open>The thresholds and the files\<close>

text \<open>\<open>f64::round\<close>: halves away from zero; and the cast to 32 bits.\<close>

definition round_away :: "f64 \<Rightarrow> f64" where
  "round_away x = (case x of Fin a \<Rightarrow> Fin (of_int (if 0 \<le> a then \<lfloor>a + 1 / 2\<rfloor> else \<lceil>a - 1 / 2\<rceil>)) | _ \<Rightarrow> x)"

definition f64_to_u32 :: "f64 \<Rightarrow> u32" where
  "f64_to_u32 x = word_of_int (fl_to_int 0 (2 ^ 32 - 1) x)"

definition target_available_pct :: "u64 \<Rightarrow> u64 \<Rightarrow> u32" where
  "target_available_pct swap_onset_mb total_mb =
     (let raw_pct = (if 0 < total_mb
         then f64_to_u32 (round_away (f64_add (f64_mul (f64_div (f64_of_u64 swap_onset_mb) (f64_of_u64 total_mb)) (f64_lit 100)) (f64_lit 3)))
         else 18)
      in max 10 (min 35 raw_pct))"

record machine_data =
  md_calibrated_at :: string
  md_total_ram_mb :: u64
  md_swap_onset_mb :: u64
  md_psi_recovery_secs :: u64
  md_baseline_some :: f64
  md_baseline_full :: f64

definition pad6 :: "string \<Rightarrow> string" where
  "pad6 s = s @ replicate (6 - length s) CHR '' ''"

definition calibration_lines :: "string \<Rightarrow> u32 \<Rightarrow> u64 \<Rightarrow> u64 \<Rightarrow> u64 \<Rightarrow> string list" where
  "calibration_lines ts target swap_onset_mb total_mb psi_recovered_secs =
     [''# Generated by mgctl calibrate ('' @ ts @ '')'',
      ''# Review these values, then run: mgctl calibrate --apply'',
      ''# They will replace the built-in conservative defaults in the daemon.'',
      [],
      ''[thresholds]'',
      ''target_available_pct = '' @ pad6 (show_nat (unat target)) @ ''  # swap onset was at ''
        @ show_nat (unat swap_onset_mb) @ ''MB / '' @ show_nat (unat total_mb) @ ''MB RAM + 3% headroom'',
      ''psi_recovery_secs    = '' @ pad6 (show_nat (unat psi_recovered_secs))
        @ ''  # seconds PSI took to return to baseline after load'']"

definition json_path :: "sys \<Rightarrow> string" where
  "json_path s = home_dir s @ ''/.local/share/mgd/calibration.json''"

definition toml_path :: "sys \<Rightarrow> string" where
  "toml_path s = home_dir s @ ''/.config/mgd/calibration.toml''"

definition write_results :: "(machine_data \<Rightarrow> string) \<Rightarrow> machine_data \<Rightarrow> u32 \<Rightarrow> sys \<Rightarrow> sys" where
  "write_results ser md target s =
     (let (_, s1) = os_mkdir (home_dir s @ ''/.local/share/mgd'') s;
          (_, s2) = os_write (json_path s) (ser md) s1;
          (_, s3) = os_mkdir (home_dir s @ ''/.config/mgd'') s2;
          (_, s4) = os_write (toml_path s)
            (unlines (calibration_lines (md_calibrated_at md) target (md_swap_onset_mb md) (md_total_ram_mb md) (md_psi_recovery_secs md))) s3
      in s4)"

definition do_apply :: "sys \<Rightarrow> int \<times> sys" where
  "do_apply s = (let (there, s1) = os_exists (toml_path s) s in
     if \<not> there then (1, s1) else (0, snd (os_mkdir (home_dir s @ ''/.config/mgd'') s1)))"

text \<open>The sweep proper: exit code, log of the memory, state.\<close>

definition run_sweep :: "sweep_oracle \<Rightarrow> (machine_data \<Rightarrow> string) \<Rightarrow> bool \<Rightarrow> sys \<Rightarrow> int \<times> mem_event list \<times> sys" where
  "run_sweep so ser dry_run s = (case idle_baseline so 12 [] [] s of
     (None, s1) \<Rightarrow> (1, [], s1)
   | (Some (psi, swap), s1) \<Rightarrow>
       (let baseline_full = mean psi;
            (p, s2) = read_psi s1;
            baseline_some = (case p of None \<Rightarrow> Fin 0 | Some snap \<Rightarrow> ps_some_avg10 snap);
            baseline_swap = (if swap = [] then 0 else last swap);
            (meminfo, s3) = os_read ''/proc/meminfo'' s2;
            total_mb = read_meminfo_field meminfo ''MemTotal:'' div 1024
        in case sweep_steps so baseline_swap max_steps 0 [] s3 of
          (True, _, _, mem, s4) \<Rightarrow> (1, mem, s4)
        | (False, held, onset, mem, s4) \<Rightarrow>
            (let swap_onset_mb = of_nat (case onset of None \<Rightarrow> held * step_mb | Some mb \<Rightarrow> mb);
                 mem' = mem @ release held;
                 (start, s5) = os_unix s4
             in case recovery_wait so baseline_full start 12 s5 of
               (None, s6) \<Rightarrow> (1, mem', s6)
             | (Some secs, s6) \<Rightarrow>
                 if dry_run then (0, mem', s6)
                 else (let (ts, s7) = os_unix s6
                   in (0, mem', write_results ser \<lparr>md_calibrated_at = show_nat (unat ts), md_total_ram_mb = total_mb,
                        md_swap_onset_mb = swap_onset_mb, md_psi_recovery_secs = secs,
                        md_baseline_some = baseline_some, md_baseline_full = baseline_full\<rparr>
                        (target_available_pct swap_onset_mb total_mb) s7)))))"

definition calibrate_run :: "sweep_oracle \<Rightarrow> (machine_data \<Rightarrow> string) \<Rightarrow> string list \<Rightarrow> sys \<Rightarrow> int \<times> mem_event list \<times> sys" where
  "calibrate_run so ser args s =
     (if ''--apply'' \<in> set args then (let (code, s1) = do_apply s in (code, [], s1))
      else if ''--passive-apply'' \<in> set args then (let (code, _, s1) = do_passive_apply s in (code, [], s1))
      else let (low, s1) = battery_low so s in
        if low then (1, [], s1)
        else let (hot, s2) = thermal_throttling so s1 in
          if hot then (1, [], s2)
          else (case read_psi s2 of
              (None, s3) \<Rightarrow> (1, [], s3)
            | (Some check, s3) \<Rightarrow>
                if fl_gt (ps_some_avg10 check) (f64_lit 2) then (1, [], s3)
                else run_sweep so ser (''--dry-run'' \<in> set args) s3))"

section \<open>The memory it maps\<close>

text \<open>A log of the memory played against a limit: how much is mapped at the end, or nothing when the limit
is passed or more is unmapped than is mapped.\<close>

fun mem_run :: "nat \<Rightarrow> nat \<Rightarrow> mem_event list \<Rightarrow> nat option" where
  "mem_run limit used [] = Some used"
| "mem_run limit used (Mapped k # es) = (if used + k \<le> limit then mem_run limit (used + k) es else None)"
| "mem_run limit used (Unmapped k # es) = (if k \<le> used then mem_run limit (used - k) es else None)"

lemma mem_run_append: "mem_run limit used (a @ b) = Option.bind (mem_run limit used a) (\<lambda>u. mem_run limit u b)"
  by (induction limit used a rule: mem_run.induct) auto

lemma mem_run_release: "mem_run limit (held * step_bytes) (release held) = Some 0"
  by (induction held) (simp_all add: release_def)

definition memory_limit :: nat where "memory_limit = max_steps * step_bytes"

definition mem_holds :: "mem_event list \<Rightarrow> nat \<Rightarrow> bool" where
  "mem_holds mem held \<longleftrightarrow> mem_run memory_limit 0 mem = Some (held * step_bytes)"

lemma mem_holds_map: "mem_holds mem held \<Longrightarrow> held < max_steps \<Longrightarrow> mem_holds (mem @ [Mapped step_bytes]) (Suc held)"
  unfolding mem_holds_def memory_limit_def using mult_le_mono1 [of "Suc held" max_steps step_bytes]
  by (simp add: mem_run_append)

lemma mem_holds_release: "mem_holds mem held \<Longrightarrow> mem_holds (mem @ release held) 0"
  by (simp add: mem_holds_def mem_run_append mem_run_release)

section \<open>Readings leave no effect\<close>

definition reads_only :: "sys \<Rightarrow> sys \<Rightarrow> bool" where
  "reads_only s s' \<longleftrightarrow> sys_trace s' = sys_trace s \<and> sys_oracle s' = sys_oracle s"

lemma reads_only_refl [simp]: "reads_only s s"
  by (simp add: reads_only_def)

lemma reads_only_trans [trans]: "reads_only s s1 \<Longrightarrow> reads_only s1 s2 \<Longrightarrow> reads_only s s2"
  by (simp add: reads_only_def)

lemma reads_only_calls:
  "os_read path s = (x, s') \<Longrightarrow> reads_only s s'"
  "os_unix s = (u, s') \<Longrightarrow> reads_only s s'"
  "reads_only s (os_sleep s)"
  by (auto simp: reads_only_def os_read_def os_unix_def os_sleep_def tick_def)

lemma reads_only_psi: "read_psi s = (p, s') \<Longrightarrow> reads_only s s'"
  by (auto simp: read_psi_def Let_def split: prod.splits dest: reads_only_calls(1))

lemma reads_only_swap: "read_swap_in_kb s = (kb, s') \<Longrightarrow> reads_only s s'"
  by (auto simp: read_swap_in_kb_def Let_def split: prod.splits dest: reads_only_calls(1))

lemma reads_only_sleep_psi: "read_psi (os_sleep s) = (p, s') \<Longrightarrow> reads_only s s'"
  using reads_only_trans [OF reads_only_calls(3)] reads_only_psi by blast

lemma reads_only_entry: "battery_entry base s = (b, s') \<Longrightarrow> reads_only s s'"
  by (auto simp: battery_entry_def Let_def split: prod.splits option.splits if_splits
      dest!: reads_only_calls(1) intro: reads_only_trans)

lemma reads_only_battery: "battery_among bs s = (b, s') \<Longrightarrow> reads_only s s'"
  by (induction bs arbitrary: s)
     (auto split: prod.splits if_splits dest!: reads_only_entry intro: reads_only_trans)

lemma reads_only_throttling: "throttling_among zs s = (b, s') \<Longrightarrow> reads_only s s'"
  by (induction zs s rule: throttling_among.induct)
     (auto split: prod.splits option.splits if_splits dest!: reads_only_calls(1) intro: reads_only_trans)

lemma reads_only_baseline: "idle_baseline so n psi swap s = (r, s') \<Longrightarrow> reads_only s s'"
proof (induction so n psi swap s rule: idle_baseline.induct)
  case (2 so n psi swap s)
  then show ?case
    by (auto simp: Let_def split: prod.splits if_splits dest!: reads_only_sleep_psi reads_only_swap intro: reads_only_trans)
qed simp

lemma reads_only_ticks: "sweep_ticks so b n s = (r, s') \<Longrightarrow> reads_only s s'"
proof (induction so b n s rule: sweep_ticks.induct)
  case (2 so b n s)
  then show ?case
    by (auto simp: Let_def split: prod.splits if_splits dest!: reads_only_sleep_psi reads_only_swap
        intro: reads_only_trans reads_only_calls(3))
qed simp

lemma reads_only_recovery: "recovery_wait so b start n s = (r, s') \<Longrightarrow> reads_only s s'"
proof (induction so b start n s rule: recovery_wait.induct)
  case (2 so b start n s)
  then show ?case
    by (auto simp: Let_def split: prod.splits if_splits dest!: reads_only_sleep_psi reads_only_calls(2)
        intro: reads_only_trans reads_only_calls(3))
qed simp

lemma sweep_steps_result:
  "sweep_steps so b n held mem s = (stopped, held', onset, mem', s') \<Longrightarrow> mem_holds mem held \<Longrightarrow> held + n \<le> max_steps \<Longrightarrow>
    reads_only s s' \<and> mem_holds mem' (if stopped then 0 else held') \<and> (\<not> stopped \<longrightarrow> held' \<le> max_steps) \<and>
    (case onset of None \<Rightarrow> True | Some mb \<Rightarrow> mb = held' * step_mb)"
proof (induction so b n held mem s rule: sweep_steps.induct)
  case (2 so b n held mem s)
  have m: "mem_holds (mem @ [Mapped step_bytes]) (Suc held)" "Suc held + n \<le> max_steps"
    using 2(3,4) by (auto intro: mem_holds_map)
  show ?case
  proof (cases "so_interrupted so (sys_tick s) \<or> \<not> so_alloc so held")
    case True
    then show ?thesis using 2(2-4) mem_holds_release by (auto split: if_splits)
  next
    case False
    obtain r s1 where r: "sweep_ticks so b 4 s = (r, s1)" by fastforce
    note r1 = reads_only_ticks [OF r]
    show ?thesis
    proof (cases r)
      case Quiet
      then show ?thesis using 2(1) [OF _ _ refl refl r [symmetric] Quiet _ m] 2(2) False r r1
        by (auto intro: reads_only_trans)
    qed (use 2(2) False r r1 m mem_holds_release [OF m(1)] in \<open>auto simp: Let_def\<close>)
  qed
qed auto

section \<open>The file it leaves for the daemon\<close>

text \<open>A whole number printed, as a percentage read back.\<close>

lemma parse_show_nat:
  assumes "n \<le> 2 ^ 53"
  shows "parse_f64 (show_nat n) = Some (Fin (of_nat n))"
proof -
  note d = show_nat_digits [of n]
  then obtain c cs where c: "show_nat n = c # cs" "is_digit c" by (cases "show_nat n") auto
  then have low: "to_ascii_lower c = c" "c \<notin> {CHR ''i'', CHR ''n'', CHR ''-'', CHR ''+''}"
    by (auto simp: is_digit_def to_ascii_lower_def Let_def)
  have w: "takeWhile is_digit (show_nat n) = show_nat n" "dropWhile is_digit (show_nat n) = []"
    using d by (simp_all add: takeWhile_eq_all_conv list_all_iff)
  have "parse_unsigned_f64 (show_nat n) = Some (f64_of_nat n)"
    using low d by (simp add: parse_unsigned_f64_def Let_def w to_ascii_lowercase_def c(1) [symmetric] parse_exp_def
        f64_of_nat_def) (simp add: c(1) low)
  then show ?thesis
    using low assms by (simp add: parse_f64_def c(1) f64_of_nat_exact)
qed

lemma show_nat_chars: "c \<in> set (show_nat n) \<Longrightarrow> is_digit c"
  using show_nat_digits [of n] by (simp add: list_all_iff)

lemma split_two: "\<forall>c \<in> set a. \<not> P c \<Longrightarrow> P d \<Longrightarrow> \<forall>c \<in> set b. \<not> P c \<Longrightarrow> split_by P (a @ d # b) = [a, b]"
  by (simp add: split_by_prefix split_by_none)

lemma digit_not: "is_digit c \<Longrightarrow> \<not> is_ws c \<and> c \<noteq> CHR ''='' \<and> c \<noteq> CHR ''#'' \<and> c \<noteq> CHR 0x0A \<and> c \<noteq> CHR 0x0D"
  by (auto simp: is_digit_def is_ws_def)

text \<open>A number behind the equals sign, with a blank after it and a comment without another equals sign.\<close>

lemma calibrated_number:
  assumes "\<forall>c \<in> set r. c \<noteq> CHR ''=''" "r \<noteq> []" "\<not> is_ws (last r)" "n \<le> 2 ^ 53"
  shows "calibrated_line (''target_available_pct = '' @ show_nat n @ CHR '' '' # r)
    = Some (fl_clamp (f64_lit 5) (f64_lit 50) (Fin (of_nat n)))"
proof -
  let ?v = "show_nat n @ CHR '' '' # r"
  note d = show_nat_digits [of n]
  have trim_l: "trim (''target_available_pct = '' @ ?v) = ''target_available_pct = '' @ ?v"
    by (rule trim_id) (use assms in \<open>auto simp: is_ws_def\<close>)
  have "\<forall>c \<in> set ('' '' @ ?v). c \<noteq> CHR ''=''"
    using assms(1) digit_not show_nat_chars [of _ n] by auto
  then have "split_by (\<lambda>c. c = CHR ''='') ('' '' @ CHR ''='' # '' '' @ ?v) = ['' '', '' '' @ ?v]"
    by (intro split_two) auto
  then have nth: "nth_opt 1 (split_char CHR ''='' ('' = '' @ ?v)) = Some ('' '' @ ?v)"
    by (simp add: split_char_def nth_opt_def)
  have hd: "\<not> is_ws (hd (show_nat n))" using d show_nat_chars [of "hd (show_nat n)" n] digit_not by simp
  have "trim ('' '' @ ?v) = trim ?v" by (simp add: trim_def is_ws_def)
  also have "\<dots> = ?v" by (rule trim_id) (use assms d hd in auto)
  finally have trim_v: "trim ('' '' @ ?v) = ?v" .
  have take: "takeWhile (\<lambda>c. is_digit c \<or> c = CHR ''.'') ?v = show_nat n"
    using show_nat_chars [of _ n] by (subst takeWhile_append2) (auto simp: is_digit_def)
  have trim_n: "trim (show_nat n) = show_nat n"
    by (rule trim_id) (use d hd show_nat_chars [of "last (show_nat n)" n] digit_not in auto)
  have strip: "strip_prefix ''target_available_pct'' (''target_available_pct = '' @ ?v) = Some ('' = '' @ ?v)"
    by (simp add: strip_prefix_Some)
  show ?thesis
    by (simp only: calibrated_line_def trim_l strip option.case nth trim_v take trim_n parse_show_nat [OF assms(4)] option.map)
qed

lemma calibrated_other: "\<not> is_ws c \<Longrightarrow> c \<noteq> CHR ''t'' \<Longrightarrow> calibrated_line (c # cs) = None"
  using trim_first [of c cs] by (auto simp: calibrated_line_def)

lemma pad6_number: "\<exists>k. pad6 (show_nat n) @ ''  '' @ r = show_nat n @ CHR '' '' # replicate k CHR '' '' @ r"
  by (rule exI [of _ "6 - length (show_nat n) + 1"])
     (simp add: pad6_def replicate_append_same [symmetric] del: replicate_append_same)

lemma plain_pad: "plain (pad6 (show_nat n))"
  using plain_number(1) [of n] by (auto simp: pad6_def plain_def)

lemma plain_calibration: "plain ts \<Longrightarrow> list_all plain (calibration_lines ts target onset ram secs)"
  unfolding calibration_lines_def
  by (simp add: plain_append plain_number plain_pad) (simp add: plain_def plain_number [unfolded plain_def] plain_pad [unfolded plain_def])

lemma map_filter_cons: "List.map_filter f (x # xs) = (case f x of None \<Rightarrow> List.map_filter f xs | Some y \<Rightarrow> y # List.map_filter f xs)"
  by (simp add: map_filter_def split: option.split)

lemma calibration_read_back:
  assumes "plain ts" "5 \<le> unat target" "unat target \<le> 50"
  shows "parse_calibrated_target_pct (unlines (calibration_lines ts target onset ram secs)) = Some (Fin (of_nat (unat target)))"
proof -
  let ?r = "''  # swap onset was at '' @ show_nat (unat onset) @ ''MB / '' @ show_nat (unat ram) @ ''MB RAM + 3% headroom''"
  obtain k where k: "pad6 (show_nat (unat target)) @ ?r =
      show_nat (unat target) @ CHR '' '' # replicate k CHR '' '' @ drop 2 ?r"
    using pad6_number [of "unat target" "drop 2 ?r"] by auto
  have lits: "f64_lit 5 = Fin 5" "f64_lit 50 = Fin 50" by (simp_all add: f64_eval)
  have range: "(5 :: rat) \<le> of_nat (unat target)" "(of_nat (unat target) :: rat) \<le> 50"
    using of_nat_mono [OF assms(2), where 'a = rat] of_nat_mono [OF assms(3), where 'a = rat] by simp_all
  have "calibrated_line (''target_available_pct = '' @ show_nat (unat target) @ CHR '' '' # replicate k CHR '' '' @ drop 2 ?r)
      = Some (fl_clamp (f64_lit 5) (f64_lit 50) (Fin (of_nat (unat target))))"
    by (rule calibrated_number) (use assms(3) digit_not show_nat_chars in \<open>auto simp: is_ws_def\<close>)
  then have "calibrated_line (''target_available_pct = '' @ pad6 (show_nat (unat target)) @ ?r) = Some (Fin (of_nat (unat target)))"
    using range by (simp only: k lits) (simp add: fl_clamp_def)
  then show ?thesis
    by (simp add: parse_calibrated_target_pct_def lines_unlines plain_calibration assms(1))
       (simp add: calibration_lines_def map_filter_cons calibrated_other is_ws_def first_opt_def calibrated_line_def [of "[]"] trim_def [of "[]"])
qed

lemma target_range: "10 \<le> unat (target_available_pct onset ram) \<and> unat (target_available_pct onset ram) \<le> 35"
  by (simp add: target_available_pct_def Let_def word_le_nat_alt max_def min_def)

section \<open>The whole run\<close>

text \<open>What a completed run adds to the trace: the two files, with a target the daemon reads back.\<close>

definition results_written :: "sys \<Rightarrow> sys \<Rightarrow> bool" where
  "results_written s s' \<longleftrightarrow> (\<exists>json r1 toml r2 n.
     sys_trace s' = sys_trace s @ [MadeDir (home_dir s @ ''/.local/share/mgd''), Wrote (json_path s) json r1,
       MadeDir (home_dir s @ ''/.config/mgd''), Wrote (toml_path s) toml r2] \<and>
     10 \<le> n \<and> n \<le> 35 \<and> parse_calibrated_target_pct toml = Some (Fin (of_nat n)))"

lemma write_results_trace: "sys_trace (write_results ser md target s) = sys_trace s @
    [MadeDir (home_dir s @ ''/.local/share/mgd''),
     Wrote (json_path s) (ser md) (or_write (sys_oracle s) (sys_tick s + 1) (json_path s) (ser md)),
     MadeDir (home_dir s @ ''/.config/mgd''),
     Wrote (toml_path s) (unlines (calibration_lines (md_calibrated_at md) target (md_swap_onset_mb md) (md_total_ram_mb md) (md_psi_recovery_secs md)))
       (or_write (sys_oracle s) (sys_tick s + 3) (toml_path s)
         (unlines (calibration_lines (md_calibrated_at md) target (md_swap_onset_mb md) (md_total_ram_mb md) (md_psi_recovery_secs md))))]"
  by (simp add: write_results_def os_mkdir_def os_write_def Let_def json_path_def toml_path_def home_dir_def tick_def emit_def numeral_3_eq_3)

lemma home_reads: "reads_only s s' \<Longrightarrow> home_dir s' = home_dir s"
  by (simp add: reads_only_def home_dir_def)

lemma results_written_after:
  assumes "reads_only s s1" "plain (md_calibrated_at md)"
  shows "results_written s (write_results ser md (target_available_pct onset ram) s1)"
proof -
  define toml where "toml = unlines (calibration_lines (md_calibrated_at md) (target_available_pct onset ram)
    (md_swap_onset_mb md) (md_total_ram_mb md) (md_psi_recovery_secs md))"
  define n where "n = unat (target_available_pct onset ram)"
  have n: "10 \<le> n" "n \<le> 35" using target_range [of onset ram] by (simp_all add: n_def)
  have read: "parse_calibrated_target_pct toml = Some (Fin (of_nat n))"
    unfolding toml_def n_def using target_range [of onset ram] assms(2) by (intro calibration_read_back) simp_all
  have "sys_trace s1 = sys_trace s" using assms(1) by (simp add: reads_only_def)
  note trace = write_results_trace [of ser md "target_available_pct onset ram" s1, folded toml_def,
    unfolded this json_path_def toml_path_def home_reads [OF assms(1)]]
  show ?thesis
    unfolding results_written_def json_path_def toml_path_def
    by (intro exI conjI) (rule trace, rule n(1), rule n(2), rule read)
qed

lemma run_sweep_result:
  assumes "run_sweep so ser dry_run s = (code, mem, s')"
  shows "mem_run memory_limit 0 mem = Some 0 \<and> (code = 0 \<or> code = 1) \<and>
    (if code = 0 \<and> \<not> dry_run then results_written s s' else sys_trace s' = sys_trace s)"
proof -
  obtain r s1 where b: "idle_baseline so 12 [] [] s = (r, s1)" by fastforce
  have r1: "reads_only s s1" using b by (rule reads_only_baseline)
  show ?thesis
  proof (cases r)
    case None
    then show ?thesis using assms b r1 by (auto simp: run_sweep_def reads_only_def)
  next
    case (Some ps)
    obtain psi swap where ps: "ps = (psi, swap)" by fastforce
    obtain p s2 where p: "read_psi s1 = (p, s2)" by fastforce
    obtain meminfo s3 where m: "os_read ''/proc/meminfo'' s2 = (meminfo, s3)" by fastforce
    have r3: "reads_only s s3" using r1 reads_only_psi [OF p] reads_only_calls(1) [OF m] by (metis reads_only_trans)
    obtain stopped held onset mem1 s4 where sw: "sweep_steps so (if swap = [] then 0 else last swap) max_steps 0 [] s3 =
        (stopped, held, onset, mem1, s4)" by (metis prod_cases5)
    have start: "mem_holds [] 0" by (simp add: mem_holds_def)
    note res = sweep_steps_result [OF sw start]
    then have r4: "reads_only s s4" and held: "mem_holds mem1 (if stopped then 0 else held)"
      using r3 by (auto intro: reads_only_trans)
    show ?thesis
    proof (cases stopped)
      case True
      then show ?thesis using assms b r4 held Some ps p m sw
        by (auto simp: run_sweep_def reads_only_def mem_holds_def Let_def)
    next
      case False
      obtain t s5 where t: "os_unix s4 = (t, s5)" by fastforce
      obtain secs s6 where w: "recovery_wait so (mean psi) t 12 s5 = (secs, s6)" by fastforce
      have r6: "reads_only s s6" using r4 reads_only_calls(2) [OF t] reads_only_recovery [OF w] by (metis reads_only_trans)
      have free: "mem_run memory_limit 0 (mem1 @ release held) = Some 0"
        using mem_holds_release [OF held] False by (simp add: mem_holds_def)
      obtain ts s7 where ts: "os_unix s6 = (ts, s7)" by fastforce
      have r7: "reads_only s s7" using r6 reads_only_calls(2) [OF ts] by (metis reads_only_trans)
      have "sys_trace s6 = sys_trace s" using r6 by (simp add: reads_only_def)
      then show ?thesis
        using assms b Some ps p m sw False t w ts free results_written_after [OF r7]
        by (cases secs; cases dry_run) (auto simp: run_sweep_def Let_def plain_number)
    qed
  qed
qed

lemma results_written_reads: "reads_only s s1 \<Longrightarrow> results_written s1 s' \<Longrightarrow> results_written s s'"
  unfolding results_written_def reads_only_def json_path_def toml_path_def home_dir_def by auto

text \<open>The guards only read, and what follows them is the sweep or nothing.\<close>

lemma calibrate_run_guarded:
  assumes "''--apply'' \<notin> set args" "''--passive-apply'' \<notin> set args"
  obtains s1 where "reads_only s s1"
    "calibrate_run so ser args s = (1, [], s1) \<or> calibrate_run so ser args s = run_sweep so ser (''--dry-run'' \<in> set args) s1"
proof -
  obtain low s1 where low: "battery_low so s = (low, s1)" by fastforce
  obtain hot s2 where hot: "thermal_throttling so s1 = (hot, s2)" by fastforce
  obtain check s3 where check: "read_psi s2 = (check, s3)" by fastforce
  have r1: "reads_only s s1"
    using low by (auto simp: battery_low_def split: option.splits dest: reads_only_battery)
  have r2: "reads_only s s2"
    using hot r1 by (auto simp: thermal_throttling_def split: option.splits dest!: reads_only_throttling intro: reads_only_trans)
  have r3: "reads_only s s3" using r2 reads_only_psi [OF check] by (rule reads_only_trans)
  have "calibrate_run so ser args s =
      (if low then (1, [], s1) else if hot then (1, [], s2)
       else case check of None \<Rightarrow> (1, [], s3)
         | Some c \<Rightarrow> if fl_gt (ps_some_avg10 c) (f64_lit 2) then (1, [], s3) else run_sweep so ser (''--dry-run'' \<in> set args) s3)"
    using assms by (simp add: calibrate_run_def low hot check)
  then show thesis
    using that [OF r1] that [OF r2] that [OF r3] by (cases low; cases hot; cases check) (auto split: if_splits)
qed

lemma calibrate_run_result:
  assumes "calibrate_run so ser args s = (code, mem, s')" "''--apply'' \<notin> set args" "''--passive-apply'' \<notin> set args"
  shows "mem_run memory_limit 0 mem = Some 0 \<and> (code = 0 \<or> code = 1) \<and>
    (if code = 0 \<and> ''--dry-run'' \<notin> set args then results_written s s' else sys_trace s' = sys_trace s)"
proof -
  obtain s1 where s1: "reads_only s s1"
    "calibrate_run so ser args s = (1, [], s1) \<or> calibrate_run so ser args s = run_sweep so ser (''--dry-run'' \<in> set args) s1"
    by (rule calibrate_run_guarded [OF assms(2,3)])
  from s1(2) show ?thesis
  proof
    assume "calibrate_run so ser args s = (1, [], s1)"
    then show ?thesis using assms(1) s1(1) by (simp add: reads_only_def)
  next
    assume "calibrate_run so ser args s = run_sweep so ser (''--dry-run'' \<in> set args) s1"
    with assms(1) have "run_sweep so ser (''--dry-run'' \<in> set args) s1 = (code, mem, s')" by simp
    from run_sweep_result [OF this] show ?thesis
      using s1(1) results_written_reads [OF s1(1)] by (auto simp: reads_only_def)
  qed
qed

end
