(* ===== verification/Client.thy ===== *)
theory Client
  imports Ipc Sweep
begin

text \<open>
  The control client (\<open>mgctl/src/main.rs\<close>): which action a command line is, what it asks of the daemon,
  how it reads the answer, and its exit code. The report of \<open>doctor\<close> and the dashboard of
  \<open>watch\<close> are the subjects of \<open>Doctor\<close> and \<open>Plumbing\<close>. What systemd and the socket answer are parameters.
\<close>

section \<open>The command line\<close>

datatype client_action =
    Systemctl string
  | ServiceStatus
  | Logs "string list"
  | CalibrateArgs "string list"
  | DoctorReport
  | WatchScreen
  | Request string
  | UsageError

definition plain_requests :: "string list" where
  "plain_requests = [''status'', ''list'', ''ps'', ''events'', ''reload'', ''spike-status'', ''leak-status'']"

definition argument_requests :: "string list" where
  "argument_requests = [''unfreeze'', ''freeze'', ''restore'', ''info'', ''kill'']"

definition client_action :: "string list \<Rightarrow> client_action" where
  "client_action args =
     (if length args < 2 then UsageError
      else let cmd = args ! 1 in
        if cmd \<in> {''restart'', ''start'', ''stop''} then Systemctl cmd
        else if cmd = ''service'' then ServiceStatus
        else if cmd = ''logs'' then Logs (drop 2 args)
        else if cmd = ''calibrate'' then CalibrateArgs (drop 2 args)
        else if cmd = ''doctor'' then DoctorReport
        else if cmd = ''watch'' then WatchScreen
        else if cmd \<in> set plain_requests then Request cmd
        else if cmd \<in> set argument_requests then
          (if length args < 3 then UsageError else Request (cmd @ '' '' @ args ! 2))
        else UsageError)"

section \<open>The answer\<close>

definition read_response :: "string \<Rightarrow> string + string" where
  "read_response response = (let r = trim response in
     case strip_prefix ''OK '' r of
       Some rest \<Rightarrow> Inr rest
     | None \<Rightarrow> (case strip_prefix ''ERR '' r of Some rest \<Rightarrow> Inl (''error: '' @ rest) | None \<Rightarrow> Inr r))"

text \<open>What the connection gives: the whole response, or the error of connecting, writing or reading.\<close>

definition query_socket :: "(string \<Rightarrow> string + string) \<Rightarrow> string \<Rightarrow> string + string" where
  "query_socket socket cmd = (case socket (cmd @ [CHR 0x0A]) of Inl e \<Rightarrow> Inl e | Inr response \<Rightarrow> read_response response)"

section \<open>Exit codes\<close>

definition run_systemctl :: "run_result \<Rightarrow> int" where
  "run_systemctl status = (case status of
     RunFailed \<Rightarrow> 1
   | RunExit code _ \<Rightarrow> (case code of None \<Rightarrow> 1 | Some c \<Rightarrow> c))"

definition run_service_status :: "run_result \<Rightarrow> int" where
  "run_service_status status = (case status of
     RunFailed \<Rightarrow> 1
   | RunExit code _ \<Rightarrow> (case code of None \<Rightarrow> 0 | Some c \<Rightarrow> c))"

definition logs_args :: "string list \<Rightarrow> string list option" where
  "logs_args rest = (case rest of
     [] \<Rightarrow> Some [''--user'', ''-u'', ''mgd.service'', ''-n'', ''50'', ''--no-pager'']
   | opt # _ \<Rightarrow> if opt = ''-f'' \<or> opt = ''--follow'' then Some [''--user'', ''-u'', ''mgd.service'', ''-f''] else None)"

definition run_logs :: "(string list \<Rightarrow> run_result) \<Rightarrow> string list \<Rightarrow> int" where
  "run_logs run rest = (case logs_args rest of
     None \<Rightarrow> 1
   | Some args \<Rightarrow> (case run (''journalctl'' # args) of
       RunFailed \<Rightarrow> 1 | RunExit code _ \<Rightarrow> (case code of None \<Rightarrow> 0 | Some c \<Rightarrow> c)))"

text \<open>The dashboard runs until it is interrupted: it has no exit code.\<close>

definition client_exit :: "(string list \<Rightarrow> run_result) \<Rightarrow> (string \<Rightarrow> string + string) \<Rightarrow> (string list \<Rightarrow> int) \<Rightarrow> string list \<Rightarrow> int option" where
  "client_exit run socket calibrate args = (case client_action args of
     Systemctl verb \<Rightarrow> Some (run_systemctl (run [''systemctl'', ''--user'', verb, ''mgd.service'']))
   | ServiceStatus \<Rightarrow> Some (run_service_status (run [''systemctl'', ''--user'', ''status'', ''mgd.service'', ''--no-pager'']))
   | Logs rest \<Rightarrow> Some (run_logs run rest)
   | CalibrateArgs rest \<Rightarrow> Some (calibrate rest)
   | DoctorReport \<Rightarrow> Some 0
   | WatchScreen \<Rightarrow> None
   | Request request \<Rightarrow> Some (case query_socket socket request of Inl _ \<Rightarrow> 1 | Inr _ \<Rightarrow> 0)
   | UsageError \<Rightarrow> Some 1)"

section \<open>Client and daemon agree\<close>

definition trim_end :: "string \<Rightarrow> string" where
  "trim_end s = rev (dropWhile is_ws (rev s))"

lemma trim_end_append: "trim_end (a @ b) = (if trim_end b = [] then trim_end a else a @ trim_end b)"
  by (auto simp: trim_end_def dropWhile_append)

lemma trim_ends: "trim s = trim_end (dropWhile is_ws s)"
  by (simp add: trim_def trim_end_def)

lemma trim_end_id: "s \<noteq> [] \<Longrightarrow> \<not> is_ws (last s) \<Longrightarrow> trim_end s = s"
  by (cases s rule: rev_cases) (auto simp: trim_end_def)

lemma hd_drop: "dropWhile P s = c # cs \<Longrightarrow> \<not> P c"
  by (induction s) (auto split: if_splits)

lemma trim_trim_end: "trim (trim_end s) = trim s"
proof (cases "dropWhile is_ws s")
  case Nil
  then have "\<forall>c \<in> set s. is_ws c" by (simp add: dropWhile_eq_Nil_conv)
  then have e: "trim_end s = []" by (simp add: trim_end_def dropWhile_eq_Nil_conv)
  show ?thesis by (simp only: trim_def e Nil dropWhile.simps rev.simps)
next
  case (Cons c cs)
  have c: "\<not> is_ws c" by (rule hd_drop [OF Cons])
  have s: "s = takeWhile is_ws s @ c # cs" using takeWhile_dropWhile_id [of is_ws s] Cons by simp
  obtain r where r: "trim_end (c # cs) = c # r"
    using trim_first [OF c, of cs] c by (auto simp: trim_ends)
  then have "trim_end s = takeWhile is_ws s @ c # r" by (subst s) (simp add: trim_end_append)
  moreover have "dropWhile is_ws (takeWhile is_ws s @ c # r) = dropWhile is_ws (c # r)"
    by (rule dropWhile_append2) (auto dest: set_takeWhileD)
  ultimately have "dropWhile is_ws (trim_end s) = c # r" using c by simp
  then have "trim (trim_end s) = trim_end (trim_end (c # cs))" by (simp add: trim_ends r)
  also have "\<dots> = trim s" by (simp add: trim_ends Cons) (simp add: trim_end_def)
  finally show ?thesis .
qed

lemma split_space: "CHR '' '' \<notin> set a \<Longrightarrow> split_once '' '' (a @ CHR '' '' # b) = Some (a, b)"
  by (induction a) auto

lemma split_no_space: "CHR '' '' \<notin> set a \<Longrightarrow> split_once '' '' a = None"
  by (induction a) auto

text \<open>What the daemon makes of a request line: the command, and the argument without blanks around it.\<close>

lemma request_understood:
  assumes "cmd \<noteq> []" "\<forall>c \<in> set cmd. \<not> is_ws c"
  shows "split_request (trim (cmd @ '' '' @ arg @ [CHR 0x0A])) = (cmd, trim arg)"
    and "split_request (trim (cmd @ [CHR 0x0A])) = (cmd, [])"
proof -
  have cmd: "\<not> is_ws (hd cmd)" "CHR '' '' \<notin> set cmd" "trim_end cmd = cmd"
    using assms trim_end_id [of cmd] by (auto simp: is_ws_def)
  have start: "trim (cmd @ r) = trim_end (cmd @ r)" for r
    using assms(1) cmd(1) by (cases cmd) (simp_all add: trim_ends)
  have tail: "trim_end (arg @ [CHR 0x0A]) = trim_end arg" "trim_end [CHR 0x0A] = []" "trim_end '' '' = []"
    by (simp_all add: trim_end_append) (simp_all add: trim_end_def is_ws_def)
  have line: "trim_end (cmd @ '' '' @ arg @ [CHR 0x0A]) = (if trim_end arg = [] then cmd else cmd @ CHR '' '' # trim_end arg)"
    using tail cmd(3) trim_end_append [of "'' ''" "arg @ [CHR 0x0A]"] by (simp add: trim_end_append del: append.simps)
  show "split_request (trim (cmd @ '' '' @ arg @ [CHR 0x0A])) = (cmd, trim arg)"
  proof (cases "trim_end arg = []")
    case True
    then have "trim arg = []" using trim_trim_end [of arg] by (simp add: trim_def)
    then show ?thesis unfolding start line using True cmd(2) by (simp add: split_request_def split_no_space)
  next
    case False
    then show ?thesis unfolding start line using cmd(2) by (simp add: split_request_def split_space trim_trim_end)
  qed
  show "split_request (trim (cmd @ [CHR 0x0A])) = (cmd, [])"
    unfolding start using tail cmd by (simp add: trim_end_append split_request_def split_no_space)
qed

lemma client_understood:
  assumes "client_action args = Request r"
  shows "args ! 1 \<in> set (plain_requests @ argument_requests) \<and>
    split_request (trim (r @ [CHR 0x0A])) = (args ! 1, if args ! 1 \<in> set argument_requests then trim (args ! 2) else [])"
proof -
  have words: "cmd \<noteq> [] \<and> (\<forall>c \<in> set cmd. \<not> is_ws c)" if "cmd \<in> set (plain_requests @ argument_requests)" for cmd
    using that by (auto simp: plain_requests_def argument_requests_def is_ws_def)
  have disjoint: "cmd \<notin> set argument_requests" if "cmd \<in> set plain_requests" for cmd
    using that by (auto simp: plain_requests_def argument_requests_def)
  from assms have "args ! 1 \<in> set plain_requests \<and> r = args ! 1 \<or>
      args ! 1 \<in> set argument_requests \<and> r = args ! 1 @ '' '' @ args ! 2"
    by (auto simp: client_action_def Let_def split: if_splits)
  then show ?thesis
    using words [of "args ! 1"] disjoint request_understood [of "args ! 1"] by auto
qed

text \<open>An answer of the daemon is read for what it is.\<close>

lemma trim_newline: "x \<noteq> [] \<Longrightarrow> \<not> is_ws (hd x) \<Longrightarrow> trim (x @ [CHR 0x0A]) = trim x"
  by (cases x) (simp_all add: trim_def is_ws_def)

lemma read_response_ok: "trim (''OK '' @ m) = ''OK '' @ m \<Longrightarrow> read_response (''OK '' @ m @ [CHR 0x0A]) = Inr m"
  using trim_newline [of "''OK '' @ m"] by (simp add: read_response_def is_ws_def Let_def)

lemma read_response_err: "trim (''ERR '' @ m) = ''ERR '' @ m \<Longrightarrow> read_response (''ERR '' @ m @ [CHR 0x0A]) = Inl (''error: '' @ m)"
  using trim_newline [of "''ERR '' @ m"] by (simp add: read_response_def is_ws_def Let_def)

end
