(* ===== verification/Kde.thy ===== *)
theory Kde
  imports Plugin Process
begin

text \<open>
  The plugin for KDE Plasma (\<open>mgd-kde/src/main.rs\<close>): a reader of the daemon's messages and a loop of
  checks every ten seconds, which share the pressure level, the cached graphics memory and the time of
  the last restart. One message and one round of the loop are atomic steps here. The clock, \<open>/proc\<close> and
  the configuration file are those of \<open>sys\<close>; the TOML parser is a parameter. The window tracker script
  and the process that follows the journal are the subject of \<open>Window\<close>.
\<close>

section \<open>Configuration and state\<close>

record plasma_config =
  pc_min_restart_interval_min :: u64
  pc_gpu_leak_threshold_mb :: u64

record discover_config =
  dc_cooldown_min :: u64
  dc_idle_check_secs :: u64
  dc_rss_threshold_mb :: u64

record plugin_config =
  pg_plasma :: plasma_config
  pg_discover :: discover_config

definition plasma_default :: plasma_config where
  "plasma_default = \<lparr>pc_min_restart_interval_min = 30, pc_gpu_leak_threshold_mb = 1024\<rparr>"

definition discover_default :: discover_config where
  "discover_default = \<lparr>dc_cooldown_min = 30, dc_idle_check_secs = 60, dc_rss_threshold_mb = 400\<rparr>"

definition plugin_default :: plugin_config where
  "plugin_default = \<lparr>pg_plasma = plasma_default, pg_discover = discover_default\<rparr>"

record discover_tracker =
  dt_pid :: pid
  dt_ticks :: u64
  dt_idle_since :: u64

record kde =
  kd_level :: string
  kd_gpu_kb :: u64
  kd_last_restart :: u64
  kd_last_reap :: u64
  kd_config :: "plugin_config option"
  kd_tracker :: discover_tracker
  kd_shell_cache :: "(pid \<times> u64) option"
  kd_discover_cache :: "(pid \<times> u64) option"

definition kde_new :: kde where
  "kde_new = \<lparr>kd_level = ''normal'', kd_gpu_kb = 0, kd_last_restart = 0, kd_last_reap = 0, kd_config = None,
     kd_tracker = \<lparr>dt_pid = 0, dt_ticks = 0, dt_idle_since = 0\<rparr>, kd_shell_cache = None, kd_discover_cache = None\<rparr>"

text \<open>\<open>/proc\<close> as a listing and whether a write to the socket succeeds, by the time of the call.\<close>

record kde_env =
  ke_toml :: "string \<Rightarrow> plugin_config option"
  ke_uid :: u32
  ke_proc :: "nat \<Rightarrow> (string \<times> proc_dir) list"
  ke_write :: "nat \<Rightarrow> bool"

section \<open>Resolving the two processes\<close>

definition find_named :: "kde_env \<Rightarrow> string \<Rightarrow> (pid \<times> u64) option \<Rightarrow> sys \<Rightarrow> pid option \<times> (pid \<times> u64) option \<times> sys" where
  "find_named env name cache s = (case find_pid_by_name (ke_uid env) name (ke_proc env (sys_tick s)) of
     None \<Rightarrow> (None, cache, s)
   | Some pid \<Rightarrow> (case start_time_of pid s of
       (None, s1) \<Rightarrow> (None, cache, s1)
     | (Some st, s1) \<Rightarrow> (Some pid, Some (pid, st), s1)))"

definition resolve_pid :: "kde_env \<Rightarrow> string \<Rightarrow> (pid \<times> u64) option \<Rightarrow> sys \<Rightarrow> pid option \<times> (pid \<times> u64) option \<times> sys" where
  "resolve_pid env name cache s = (case cache of
     Some (pid, st) \<Rightarrow> (case start_time_of pid s of
         (Some st', s1) \<Rightarrow> if st' = st then (Some pid, cache, s1) else find_named env name None s1
       | (None, s1) \<Rightarrow> find_named env name None s1)
   | None \<Rightarrow> find_named env name None s)"

section \<open>Loading the configuration\<close>

definition load_plugin_config_from_disk :: "kde_env \<Rightarrow> sys \<Rightarrow> plugin_config \<times> sys" where
  "load_plugin_config_from_disk env s =
     (let (user, s1) = os_read (home_dir s @ ''/.config/mgd/priorities.toml'') s
      in case Option.bind user (ke_toml env) of
        Some cfg \<Rightarrow> (cfg, s1)
      | None \<Rightarrow> (let (system, s2) = os_read ''/etc/mgd/priorities.toml'' s1
          in (case Option.bind system (ke_toml env) of Some cfg \<Rightarrow> cfg | None \<Rightarrow> plugin_default, s2)))"

definition load_plugin_config :: "kde_env \<Rightarrow> kde \<Rightarrow> sys \<Rightarrow> plugin_config \<times> kde \<times> sys" where
  "load_plugin_config env k s = (case kd_config k of
     Some cfg \<Rightarrow> (cfg, k, s)
   | None \<Rightarrow> (let (cfg, s1) = load_plugin_config_from_disk env s in (cfg, k\<lparr>kd_config := Some cfg\<rparr>, s1)))"

section \<open>The two checks\<close>

text \<open>A check gives the messages written, whether the plugin goes on, its state and the system's.\<close>

type_synonym kde_result = "plugin_message list \<times> bool \<times> kde \<times> sys"

definition plugin_name :: string where "plugin_name = ''mgd-kde''"

definition gpu_request :: "plugin_config \<Rightarrow> u64 \<Rightarrow> plugin_message" where
  "gpu_request cfg gpu_kb = ActionRequest plugin_name (RestartProcess ''plasmashell'')
     (''gpu memory '' @ show_nat (unat (gpu_kb div 1024)) @ ''MB > ''
       @ show_nat (unat (pc_gpu_leak_threshold_mb (pg_plasma cfg))) @ ''MB'')"

definition check_plasma_gpu :: "kde_env \<Rightarrow> kde \<Rightarrow> sys \<Rightarrow> kde_result" where
  "check_plasma_gpu env k s =
     (let (now, s1) = os_unix s; (cfg, k1, s2) = load_plugin_config env k s1 in
      if sat_sub now (kd_last_restart k1) < pc_min_restart_interval_min (pg_plasma cfg) * 60 then ([], True, k1, s2)
      else (case resolve_pid env ''plasmashell'' (kd_shell_cache k1) s2 of
        (None, cache, s3) \<Rightarrow> ([], True, k1\<lparr>kd_shell_cache := cache\<rparr>, s3)
      | (Some pid, cache, s3) \<Rightarrow>
          (let k2 = k1\<lparr>kd_shell_cache := cache\<rparr>; gpu_kb = kd_gpu_kb k2 in
           if \<not> ke_write env (sys_tick s3) then ([], False, k2, s3)
           else if gpu_kb div 1024 > pc_gpu_leak_threshold_mb (pg_plasma cfg) then
             (if \<not> ke_write env (Suc (sys_tick s3)) then ([QueryGpu pid], False, k2, s3)
              else ([QueryGpu pid, gpu_request cfg gpu_kb], True, k2\<lparr>kd_gpu_kb := 0\<rparr>, s3))
           else ([QueryGpu pid], True, k2, s3))))"

definition cpu_ticks :: "pid \<Rightarrow> sys \<Rightarrow> u64 \<times> sys" where
  "cpu_ticks p s = (let (stat, s1) = os_read (stat_path p) s
     in (case fst (read_proc_stat stat) of None \<Rightarrow> 0 | Some n \<Rightarrow> n, s1))"

definition vm_rss_kb :: "string \<Rightarrow> u64" where
  "vm_rss_kb status = (case first_opt (List.map_filter (strip_prefix ''VmRSS:'') (lines status)) of
     None \<Rightarrow> 0
   | Some r \<Rightarrow> (case parse_u64 (case first_opt (split_whitespace r) of None \<Rightarrow> ''0'' | Some w \<Rightarrow> w) of
       None \<Rightarrow> 0 | Some n \<Rightarrow> n))"

definition kill_request :: "plugin_config \<Rightarrow> pid \<Rightarrow> u64 \<Rightarrow> plugin_message" where
  "kill_request cfg pid rss_kb = ActionRequest plugin_name (KillPid pid)
     (''RSS '' @ show_nat (unat (rss_kb div 1024)) @ ''MB > '' @ show_nat (unat (dc_rss_threshold_mb (pg_discover cfg)))
       @ ''MB and idle for '' @ show_nat (unat (dc_idle_check_secs (pg_discover cfg))) @ ''s'')"

definition reap_discover :: "kde_env \<Rightarrow> plugin_config \<Rightarrow> pid \<Rightarrow> u64 \<Rightarrow> kde \<Rightarrow> sys \<Rightarrow> kde_result" where
  "reap_discover env cfg pid now k s =
     (let (status, s1) = os_read (''/proc/'' @ show_pid pid @ ''/status'') s in
      case status of
        None \<Rightarrow> ([], True, k, s1)
      | Some content \<Rightarrow>
          (let rss_kb = vm_rss_kb content in
           if rss_kb div 1024 > dc_rss_threshold_mb (pg_discover cfg) then
             (if \<not> ke_write env (sys_tick s1) then ([], False, k, s1)
              else ([kill_request cfg pid rss_kb], True, k\<lparr>kd_last_reap := now\<rparr>, s1))
           else ([], True, k, s1)))"

definition check_plasma_discover :: "kde_env \<Rightarrow> kde \<Rightarrow> sys \<Rightarrow> kde_result" where
  "check_plasma_discover env k s =
     (let (now, s1) = os_unix s; (cfg, k1, s2) = load_plugin_config env k s1 in
      if sat_sub now (kd_last_reap k1) < dc_cooldown_min (pg_discover cfg) * 60 then ([], True, k1, s2)
      else (case resolve_pid env ''plasma-discover'' (kd_discover_cache k1) s2 of
        (None, cache, s3) \<Rightarrow>
          ([], True, k1\<lparr>kd_discover_cache := cache, kd_tracker := (kd_tracker k1)\<lparr>dt_pid := 0\<rparr>\<rparr>, s3)
      | (Some pid, cache, s3) \<Rightarrow>
          (let k2 = k1\<lparr>kd_discover_cache := cache\<rparr>; tr = kd_tracker k2; (current_ticks, s4) = cpu_ticks pid s3 in
           if dt_pid tr \<noteq> pid then
             ([], True, k2\<lparr>kd_tracker := \<lparr>dt_pid = pid, dt_ticks = current_ticks, dt_idle_since = now\<rparr>\<rparr>, s4)
           else if current_ticks > dt_ticks tr then
             ([], True, k2\<lparr>kd_tracker := tr\<lparr>dt_ticks := current_ticks, dt_idle_since := now\<rparr>\<rparr>, s4)
           else if dc_idle_check_secs (pg_discover cfg) \<le> sat_sub now (dt_idle_since tr)
           then reap_discover env cfg pid now k2 s4
           else ([], True, k2, s4))))"

section \<open>A round and a message\<close>

definition kde_turn :: "kde_env \<Rightarrow> kde \<Rightarrow> sys \<Rightarrow> kde_result" where
  "kde_turn env k s =
     (let (out1, on1, k1, s1) = (if kd_level k = ''normal'' then check_plasma_discover env k s else ([], True, k, s)) in
      if \<not> on1 then (out1, False, k1, s1)
      else let (out2, on2, k2, s2) = check_plasma_gpu env k1 s1
        in (out1 @ out2, on2, k2, if on2 then os_sleep s2 else s2))"

definition restart_plasmashell :: "string list" where
  "restart_plasmashell = [''systemctl'', ''--user'', ''restart'', ''plasma-plasmashell.service'']"

definition kde_message :: "core_message \<Rightarrow> kde \<Rightarrow> sys \<Rightarrow> bool \<times> kde \<times> sys" where
  "kde_message msg k s = (case msg of
     PressureChanged level \<Rightarrow> (True, k\<lparr>kd_level := level\<rparr>, s)
   | GpuObservation _ kb _ _ _ \<Rightarrow> (True, k\<lparr>kd_gpu_kb := kb\<rparr>, s)
   | ActionResponse act approved _ \<Rightarrow>
       (if approved \<and> act = RestartProcess ''plasmashell'' then
          (let (now, s1) = os_unix s
           in (True, k\<lparr>kd_last_restart := now\<rparr>, emit (Spawned restart_plasmashell) (tick s1)))
        else (True, k, s))
   | ConfigReload \<Rightarrow> (True, k\<lparr>kd_config := None\<rparr>, s)
   | Shutdown \<Rightarrow> (False, k, s))"

text \<open>A history of both threads; the plugin is gone once a step ends it.\<close>

datatype kde_event = Received core_message | Round

fun kde_run :: "kde_env \<Rightarrow> kde_event list \<Rightarrow> kde \<Rightarrow> sys \<Rightarrow> plugin_message list \<times> bool \<times> kde \<times> sys" where
  "kde_run env [] k s = ([], True, k, s)"
| "kde_run env (Received msg # es) k s =
     (let (on, k1, s1) = kde_message msg k s in if on then kde_run env es k1 s1 else ([], False, k1, s1))"
| "kde_run env (Round # es) k s =
     (let (out, on, k1, s1) = kde_turn env k s in
      if on then (let (out', on', k2, s2) = kde_run env es k1 s1 in (out @ out', on', k2, s2)) else (out, False, k1, s1))"

section \<open>When it asks for a kill\<close>

definition asks_kill :: "plugin_message \<Rightarrow> pid \<Rightarrow> bool" where
  "asks_kill m p = (case m of ActionRequest _ act _ \<Rightarrow> act = KillPid p | _ \<Rightarrow> False)"

lemma gpu_asks_no_kill: "check_plasma_gpu env k s = (out, on, k', s') \<Longrightarrow> m \<in> set out \<Longrightarrow> \<not> asks_kill m p"
  by (auto simp: check_plasma_gpu_def gpu_request_def asks_kill_def Let_def split: prod.splits option.splits if_splits)

lemma load_config_keeps: "load_plugin_config env k s = (cfg, k', s') \<Longrightarrow>
    kd_level k' = kd_level k \<and> kd_last_reap k' = kd_last_reap k \<and> kd_tracker k' = kd_tracker k \<and> kd_config k' = Some cfg"
  by (auto simp: load_plugin_config_def split: option.splits prod.splits)

lemma gpu_keeps: "check_plasma_gpu env k s = (out, on, k', s') \<Longrightarrow>
    kd_level k' = kd_level k \<and> kd_last_reap k' = kd_last_reap k \<and> kd_tracker k' = kd_tracker k \<and>
    (\<forall>cfg. kd_config k = Some cfg \<longrightarrow> kd_config k' = Some cfg)"
  by (auto simp: check_plasma_gpu_def load_plugin_config_def Let_def split: prod.splits option.splits if_splits)

text \<open>What a round that asks for a kill has seen: the tracker it started from and the clock.\<close>

definition idle_long_enough :: "plugin_config \<Rightarrow> u64 \<Rightarrow> kde \<Rightarrow> bool" where
  "idle_long_enough cfg now k \<longleftrightarrow>
     dc_cooldown_min (pg_discover cfg) * 60 \<le> sat_sub now (kd_last_reap k) \<and>
     dc_idle_check_secs (pg_discover cfg) \<le> sat_sub now (dt_idle_since (kd_tracker k))"

lemma reap_asks: "reap_discover env cfg p now k s = (out, on, k', s') \<Longrightarrow> m \<in> set out \<Longrightarrow>
    (\<exists>rss. m = kill_request cfg p rss \<and> rss div 1024 > dc_rss_threshold_mb (pg_discover cfg)) \<and>
    k' = k\<lparr>kd_last_reap := now\<rparr>"
  by (auto simp: reap_discover_def Let_def split: prod.splits option.splits if_splits)

lemma discover_asks:
  assumes "check_plasma_discover env k s = (out, on, k', s')" "m \<in> set out"
  obtains cfg p rss where "kd_config k' = Some cfg" "idle_long_enough cfg (fst (os_unix s)) k"
    "dt_pid (kd_tracker k) = p" "m = kill_request cfg p rss" "rss div 1024 > dc_rss_threshold_mb (pg_discover cfg)"
    "kd_last_reap k' = fst (os_unix s)" "kd_tracker k' = kd_tracker k"
proof -
  obtain now s1 where u: "os_unix s = (now, s1)" by fastforce
  obtain cfg k1 s2 where l: "load_plugin_config env k s1 = (cfg, k1, s2)" by (metis prod_cases3)
  note keep = load_config_keeps [OF l]
  obtain r cache s3 where r: "resolve_pid env ''plasma-discover'' (kd_discover_cache k1) s2 = (r, cache, s3)" by (metis prod_cases3)
  from assms u l r obtain p where p: "r = Some p" by (auto simp: check_plasma_discover_def split: if_splits option.splits)
  obtain t s4 where t: "cpu_ticks p s3 = (t, s4)" by fastforce
  let ?k2 = "k1\<lparr>kd_discover_cache := cache\<rparr>"
  have seen: "idle_long_enough cfg now k" "dt_pid (kd_tracker k) = p"
      "reap_discover env cfg p now ?k2 s4 = (out, on, k', s')"
    using assms u l r p t keep by (auto simp: check_plasma_discover_def idle_long_enough_def Let_def not_less split: if_splits)
  from reap_asks [OF seen(3) assms(2)] that show thesis using seen u keep by auto
qed

lemma turn_asks:
  assumes "kde_turn env k s = (out, on, k', s')" "m \<in> set out" "asks_kill m p"
  obtains cfg rss where "kd_level k = ''normal''" "kd_config k' = Some cfg" "idle_long_enough cfg (fst (os_unix s)) k"
    "dt_pid (kd_tracker k) = p" "rss div 1024 > dc_rss_threshold_mb (pg_discover cfg)" "m = kill_request cfg p rss"
    "kd_last_reap k' = fst (os_unix s)"
proof -
  obtain out1 on1 k1 s1 where d: "(if kd_level k = ''normal'' then check_plasma_discover env k s else ([], True, k, s)) = (out1, on1, k1, s1)"
    by (metis prod_cases4)
  obtain out2 on2 k2 s2 where g: "check_plasma_gpu env k1 s1 = (out2, on2, k2, s2)" by (metis prod_cases4)
  have out: "out = (if on1 then out1 @ out2 else out1)" "k' = (if on1 then k2 else k1)"
    using assms(1) d g by (auto simp: kde_turn_def split: if_splits)
  have m: "m \<in> set out1"
    using assms(2,3) out gpu_asks_no_kill [OF g] by (auto split: if_splits)
  then have normal: "kd_level k = ''normal''" "check_plasma_discover env k s = (out1, on1, k1, s1)"
    using d by (auto split: if_splits)
  from discover_asks [OF normal(2) m] obtain cfg q rss where
    q: "kd_config k1 = Some cfg" "idle_long_enough cfg (fst (os_unix s)) k" "dt_pid (kd_tracker k) = q"
      "m = kill_request cfg q rss" "rss div 1024 > dc_rss_threshold_mb (pg_discover cfg)" "kd_last_reap k1 = fst (os_unix s)"
    by metis
  have "q = p" using assms(3) q(4) by (simp add: asks_kill_def kill_request_def)
  then show thesis using that [OF normal(1) _ q(2)] q out gpu_keeps [OF g] by (auto split: if_splits)
qed

section \<open>The level it goes by\<close>

text \<open>The messages the daemon sends carry the names of \<open>level_as_str\<close>, and none of those is the name the
loop compares with.\<close>

definition from_daemon :: "kde_event \<Rightarrow> bool" where
  "from_daemon e = (case e of Received (PressureChanged level) \<Rightarrow> list_ex (\<lambda>l. level = level_as_str l)
      [Normal, Elevated, High, Critical, Emergency] | _ \<Rightarrow> True)"

definition is_pressure :: "kde_event \<Rightarrow> bool" where
  "is_pressure e = (case e of Received (PressureChanged _) \<Rightarrow> True | _ \<Rightarrow> False)"

lemma level_not_normal: "level_as_str l \<noteq> ''normal''"
  by (cases l) simp_all

lemma discover_level: "check_plasma_discover env k s = (out, on, k', s') \<Longrightarrow> kd_level k' = kd_level k"
  by (auto simp: check_plasma_discover_def reap_discover_def load_plugin_config_def Let_def
      split: prod.splits option.splits if_splits)

lemma turn_level: "kde_turn env k s = (out, on, k', s') \<Longrightarrow> kd_level k' = kd_level k"
  by (auto simp: kde_turn_def split: prod.splits if_splits dest!: discover_level gpu_keeps)

lemma message_level:
  assumes "kde_message msg k s = (on, k', s')" "from_daemon (Received msg)"
  shows "kd_level k' = kd_level k \<and> \<not> is_pressure (Received msg) \<or> kd_level k' \<noteq> ''normal''"
  using assms level_not_normal
  by (auto simp: kde_message_def is_pressure_def from_daemon_def Let_def split: core_message.splits prod.splits if_splits)

lemma run_level: "kde_run env es k s = (out, True, k', s') \<Longrightarrow> list_all from_daemon es \<Longrightarrow>
    kd_level k' = ''normal'' \<Longrightarrow> kd_level k = ''normal'' \<and> list_all (\<lambda>e. \<not> is_pressure e) es"
proof (induction es arbitrary: k s out)
  case (Cons e es)
  show ?case
  proof (cases e)
    case (Received msg)
    obtain on k1 s1 where m: "kde_message msg k s = (on, k1, s1)" by (metis prod_cases3)
    then have "kde_run env es k1 s1 = (out, True, k', s')" using Cons.prems(1) by (auto simp: Received split: if_splits)
    with Cons have "kd_level k1 = ''normal''" "list_all (\<lambda>e. \<not> is_pressure e) es" by auto
    then show ?thesis using message_level [OF m] Cons.prems(2) by (auto simp: Received)
  next
    case Round
    obtain out1 on k1 s1 where t: "kde_turn env k s = (out1, on, k1, s1)" by (metis prod_cases4)
    obtain out2 on2 k2 s2 where r: "kde_run env es k1 s1 = (out2, on2, k2, s2)" by (metis prod_cases4)
    have "on2" "k2 = k'" "s2 = s'" using Cons.prems(1) by (auto simp: Round t r split: if_splits)
    then have "kd_level k1 = ''normal''" "list_all (\<lambda>e. \<not> is_pressure e) es" using Cons r by auto
    then show ?thesis using turn_level [OF t] by (simp add: Round is_pressure_def)
  qed
qed simp

end
