(* ===== verification/KdeRun.thy ===== *)
theory KdeRun
  imports Kde Samples
begin

text \<open>
  A concrete run of the KDE plugin: \<open>plasma-discover\<close> sits idle with 900 MB, and is found so in two
  rounds a minute apart. It shows that the facts about the plugin can apply.
\<close>

definition sample_status :: string where
  "sample_status = ''Name: plasma-discover'' @ [CHR 0x0A] @ ''Uid: 0 0 0 0'' @ [CHR 0x0A] @ ''VmRSS: 900000 kB''"

definition sample_kde_os :: os_oracle where
  "sample_kde_os = sample_os\<lparr>
     or_read := \<lambda>t path. if ends_with ''/stat'' path then Some sample_stat
       else if ends_with ''/status'' path then Some sample_status else None,
     or_unix := \<lambda>t. 10000 + 100 * of_nat t\<rparr>"

definition sample_kde_sys :: sys where
  "sample_kde_sys = sys_start sample_kde_os"

definition sample_proc_dir :: proc_dir where
  "sample_proc_dir = \<lparr>pd_uid = Some 0, pd_cgroup = None, pd_status = Some sample_status, pd_oom_score = None,
     pd_exe = None, pd_stat = Some sample_stat, pd_cmdline = None\<rparr>"

definition sample_kde_env :: kde_env where
  "sample_kde_env = \<lparr>ke_toml = \<lambda>_. None, ke_uid = 0, ke_proc = \<lambda>t. [(''7'', sample_proc_dir)], ke_write = \<lambda>t. True\<rparr>"

section \<open>What its calls give\<close>

definition sample_at :: "sys \<Rightarrow> bool" where
  "sample_at s \<longleftrightarrow> sys_oracle s = sample_kde_os"

lemma sample_at_tick [simp]: "sample_at s \<Longrightarrow> sample_at (tick s)" "sample_at sample_kde_sys"
  by (simp_all add: sample_at_def sample_kde_sys_def sys_start_def)

lemma sample_stat_read: "sample_at s \<Longrightarrow> os_read (stat_path p) s = (Some sample_stat, tick s)"
  by (simp add: sample_at_def os_read_def sample_kde_os_def stat_path_def ends_with_def starts_with_def)

lemma sample_status_read: "sample_at s \<Longrightarrow> os_read (''/proc/'' @ show_pid p @ ''/status'') s = (Some sample_status, tick s)"
  by (simp add: sample_at_def os_read_def sample_kde_os_def ends_with_def starts_with_def)

lemma sample_unix: "sample_at s \<Longrightarrow> os_unix s = (10000 + 100 * of_nat (sys_tick s), tick s)"
  by (simp add: sample_at_def os_unix_def sample_kde_os_def)

lemma sample_lines: "lines sample_status = [''Name: plasma-discover'', ''Uid: 0 0 0 0'', ''VmRSS: 900000 kB'']"
  by (simp add: sample_status_def text_eval)

lemma sample_name: "foldl status_name_uid ([], 0) (lines sample_status) = (''plasma-discover'', 0)"
  by (simp only: sample_lines) (simp add: status_name_uid_def text_eval)

lemma sample_entry: "(parse_u32 ''7'' :: pid option) = Some 7"
  by (simp add: text_eval)

lemma sample_find: "find_pid_by_name (ke_uid sample_kde_env) name (ke_proc sample_kde_env t) =
    (if name = ''plasma-discover'' then Some 7 else None)"
  by (simp add: sample_kde_env_def sample_proc_dir_def sample_name sample_entry)

lemma sample_ticks: "sample_at s \<Longrightarrow> cpu_ticks p s = (0, tick s)"
  by (simp add: cpu_ticks_def sample_stat_read) (simp add: read_proc_stat_def parse_stat_ticks_def sample_stat_def text_eval)

lemma sample_start: "sample_at s \<Longrightarrow> start_time_of p s = (Some 77, tick s)"
  by (simp add: start_time_of_def sample_stat_read)

lemma sample_write: "ke_write sample_kde_env t"
  by (simp add: sample_kde_env_def)

lemma sample_rss: "vm_rss_kb sample_status = 900000"
  by (simp only: vm_rss_kb_def sample_lines) (simp add: map_filter_def text_eval)

lemma sample_config_load: "sample_at s \<Longrightarrow> kd_config k = None \<Longrightarrow>
    load_plugin_config sample_kde_env k s = (plugin_default, k\<lparr>kd_config := Some plugin_default\<rparr>, tick (tick s))"
  by (simp add: load_plugin_config_def load_plugin_config_from_disk_def os_read_def sample_kde_env_def bind_split
      split: option.split)

lemma sample_config_cached: "kd_config k = Some cfg \<Longrightarrow> load_plugin_config sample_kde_env k s = (cfg, k, s)"
  by (simp add: load_plugin_config_def)

lemma tick_tick [simp]: "sys_tick (tick s) = Suc (sys_tick s)"
  by (simp add: tick_def)

lemmas sample_calls = sample_unix sample_find sample_ticks sample_start sample_rss sample_write sample_status_read [simplified]
  sample_config_load sample_config_cached

section \<open>Two rounds\<close>

definition sample_tracked :: kde where
  "sample_tracked = kde_new\<lparr>kd_config := Some plugin_default, kd_discover_cache := Some (7, 77),
     kd_tracker := \<lparr>dt_pid = 7, dt_ticks = 0, dt_idle_since = 10000\<rparr>\<rparr>"

lemma sample_tick0 [simp]: "sys_tick sample_kde_sys = 0"
  by (simp add: sample_kde_sys_def sys_start_def)

lemma sample_round: "\<exists>s. kde_turn sample_kde_env kde_new sample_kde_sys = ([], True, sample_tracked, s) \<and> sample_at s \<and> sys_tick s = 7"
  by (simp add: kde_turn_def check_plasma_discover_def check_plasma_gpu_def resolve_pid_def find_named_def
      sample_calls kde_new_def plugin_default_def plasma_default_def discover_default_def
      sample_tracked_def Let_def os_sleep_def sat_sub_def)

lemma sample_asks:
  assumes "sample_at s" "sys_tick s = 7"
  shows "\<exists>k' s'. kde_turn sample_kde_env sample_tracked s = ([kill_request plugin_default 7 900000], True, k', s')"
  using assms
  by (simp add: kde_turn_def check_plasma_discover_def check_plasma_gpu_def reap_discover_def resolve_pid_def find_named_def
      sample_calls kde_new_def plugin_default_def plasma_default_def discover_default_def
      sample_tracked_def Let_def os_sleep_def sat_sub_def)

end
