(* ===== verification/Window.thy ===== *)
theory Window
  imports Kde Patch
begin

text \<open>
  The active window of the KDE plugin (\<open>load_kwin_script\<close> and \<open>watch_active_window\<close> of
  \<open>mgd-kde/src/main.rs\<close>): the script is written and handed to KWin, which prints the process of each
  window activated into the journal, and the journal is followed. The commands run and their output are
  those of \<open>sys\<close>; the journal is a list of lines, nothing where a line could not be read.
\<close>

section \<open>The script\<close>

definition kwin_script :: string where
  "kwin_script = CHR 0x0A # unlines [
     ''        workspace.windowActivated.connect(function(window) {'',
     ''            if (window && window.pid > 0) {'',
     ''                print(\"ACTIVE_WINDOW_PID:\" + window.pid);'',
     ''            }'',
     ''        });''] @ ''    ''"

definition show_int :: "int \<Rightarrow> string" where
  "show_int i = (if i < 0 then CHR ''-'' # show_nat (nat (- i)) else show_nat (nat i))"

definition kwin_call :: "string \<Rightarrow> string \<Rightarrow> string list \<Rightarrow> string list" where
  "kwin_call object interface rest =
     [''busctl'', ''--user'', ''call'', ''org.kde.KWin'', object, interface] @ rest"

definition kwin_unload :: "string list" where
  "kwin_unload = kwin_call ''/Scripting'' ''org.kde.kwin.Scripting'' [''unloadScript'', ''s'', ''mgd-active-window'']"

definition kwin_load :: "string \<Rightarrow> string list" where
  "kwin_load path = kwin_call ''/Scripting'' ''org.kde.kwin.Scripting'' [''loadScript'', ''ss'', path, ''mgd-active-window'']"

definition kwin_run :: "int \<Rightarrow> string list" where
  "kwin_run script = kwin_call (''/Scripting/Script'' @ show_int script) ''org.kde.kwin.Script'' [''run'']"

text \<open>The answer to the load is the letter of its type and the number of the script.\<close>

definition loaded_script :: "run_result \<Rightarrow> int option" where
  "loaded_script r = (case r of
     RunFailed \<Rightarrow> None
   | RunExit code out \<Rightarrow> if code \<noteq> Some 0 then None else Option.bind (nth_opt 1 (split_whitespace out)) parse_i32)"

definition run_succeeded :: "run_result \<Rightarrow> bool" where
  "run_succeeded r = (case r of RunFailed \<Rightarrow> False | RunExit code _ \<Rightarrow> code = Some 0)"

definition load_kwin_script :: "string option \<Rightarrow> sys \<Rightarrow> int option \<times> sys" where
  "load_kwin_script home_var s = (case home_var of
     None \<Rightarrow> (None, s)
   | Some home \<Rightarrow>
       (let path = home @ ''/.config/mgd/active_window.js''; (made, s1) = os_mkdir (home @ ''/.config/mgd'') s in
        if \<not> made then (None, s1)
        else let (failed, s2) = os_write path kwin_script s1 in
          if failed \<noteq> None then (None, s2)
          else let (_, s3) = os_run kwin_unload s2; (r, s4) = os_run (kwin_load path) s3 in
            (case loaded_script r of
               None \<Rightarrow> (None, s4)
             | Some script \<Rightarrow> (let (r', s5) = os_run (kwin_run script) s4
                 in (if run_succeeded r' then Some script else None, s5)))))"

text \<open>A script that counts as loaded was written, handed over under its path, and started.\<close>

lemma script_loaded:
  assumes "load_kwin_script home_var s = (Some script, s')"
  obtains home r where "home_var = Some home"
    "sys_trace s' = sys_trace s @ [MadeDir (home @ ''/.config/mgd''),
       Wrote (home @ ''/.config/mgd/active_window.js'') kwin_script None, Ran kwin_unload,
       Ran (kwin_load (home @ ''/.config/mgd/active_window.js'')), Ran (kwin_run script)]"
    "loaded_script r = Some script"
proof -
  from assms obtain home where h: "home_var = Some home" by (auto simp: load_kwin_script_def split: option.splits)
  show thesis
    by (rule that [OF h])
      (use assms in \<open>auto simp: load_kwin_script_def h os_mkdir_def os_write_def os_run_def Let_def
        split: option.splits if_splits\<close>)
qed

section \<open>The journal\<close>

definition active_window_line :: "string \<Rightarrow> plugin_message option" where
  "active_window_line l = (case strip_prefix ''ACTIVE_WINDOW_PID:'' (trim l) of
     None \<Rightarrow> None
   | Some pid_str \<Rightarrow> map_option (\<lambda>p. ActiveWindow (Some p)) (parse_u32 (trim pid_str)))"

text \<open>\<open>written n\<close>: whether the write after \<open>n\<close> successful ones succeeds. The reader stops at the first that fails.\<close>

fun watch_active_window :: "(nat \<Rightarrow> bool) \<Rightarrow> nat \<Rightarrow> string option list \<Rightarrow> plugin_message list" where
  "watch_active_window written n [] = []"
| "watch_active_window written n (None # ls) = watch_active_window written n ls"
| "watch_active_window written n (Some l # ls) = (case active_window_line l of
     None \<Rightarrow> watch_active_window written n ls
   | Some msg \<Rightarrow> if written n then msg # watch_active_window written (Suc n) ls else [])"

lemma digit_not_ws: "is_digit c \<Longrightarrow> \<not> is_ws c"
  by (auto simp: is_digit_def is_ws_def)

lemma trim_number: "trim (show_nat n) = show_nat n"
proof -
  have "show_nat n \<noteq> []" "\<forall>c \<in> set (show_nat n). is_digit c"
    using show_nat_digits [of n] by (auto simp: list_all_iff)
  then show ?thesis by (intro trim_id) (auto dest: digit_not_ws)
qed

text \<open>What the script prints for a process is read as that process.\<close>

lemma window_line_read: "active_window_line (''ACTIVE_WINDOW_PID:'' @ show_pid p) = Some (ActiveWindow (Some p))"
proof -
  have n: "show_pid p \<noteq> []" "is_digit (last (show_pid p))"
    using show_nat_digits [of "unat p"] by (auto simp: show_pid_def list_all_iff)
  then have "trim (''ACTIVE_WINDOW_PID:'' @ show_pid p) = ''ACTIVE_WINDOW_PID:'' @ show_pid p"
    by (intro trim_id) (auto simp: is_ws_def dest: digit_not_ws)
  then show ?thesis
    by (simp add: active_window_line_def strip_prefix_Some show_pid_def trim_number parse_uint_show split: option.split)
qed

lemma watch_all: "(\<And>k. written k) \<Longrightarrow>
    watch_active_window written n ls = List.map_filter (\<lambda>l. Option.bind l active_window_line) ls"
  by (induction written n ls rule: watch_active_window.induct) (auto simp: map_filter_simps split: option.split)

text \<open>The windows activated are reported in order.\<close>

definition journal_entry :: "pid \<Rightarrow> string" where
  "journal_entry p = ''ACTIVE_WINDOW_PID:'' @ show_pid p"

lemma watch_reports:
  "(\<And>k. written k) \<Longrightarrow> watch_active_window written n (map (\<lambda>p. Some (journal_entry p)) ps) = map (\<lambda>p. ActiveWindow (Some p)) ps"
  by (induction ps arbitrary: n) (simp_all only: list.map watch_active_window.simps journal_entry_def window_line_read option.simps if_True)

end
