(* ===== verification/Agents.thy ===== *)
theory Agents
  imports Plugin
begin

text \<open>
  The small programs around the daemon and what keeps them going: the watchers of graphics memory
  (\<open>mgd-gpu-intel\<close>, \<open>mgd-gpu-amd\<close>), the choice, start and supervision of plugins
  (\<open>mgd/src/plugin_server.rs\<close>), the helper that waits on the kernel's pressure trigger
  (\<open>mgd-psi-trigger\<close>), and the rotation of the session logs (\<open>mgd-common/src/logger.rs\<close>).
\<close>

section \<open>Graphics memory watchers\<close>

text \<open>\<open>/proc\<close> with the owners, and the descriptors of a process, by the time they are looked at.\<close>

record gpu_env =
  ge_uid :: u32
  ge_proc :: "nat \<Rightarrow> (string \<times> u32 option) list option"
  ge_fds :: "nat \<Rightarrow> pid \<Rightarrow> (string \<times> string option \<times> string option) list option"

type_synonym observation = "string \<times> metric \<times> pid option \<times> f64"

definition stats_of :: "gpu_env \<Rightarrow> pid \<Rightarrow> sys \<Rightarrow> gpu_memory option \<times> sys" where
  "stats_of env p s = (process_gpu_stats (ge_fds env (sys_tick s) p), tick s)"

text \<open>A scan of \<open>/proc\<close>: the observations sent and the processes found with resident memory.\<close>

fun scan_entries :: "gpu_env \<Rightarrow> string \<Rightarrow> (string \<times> u32 option) list \<Rightarrow> sys \<Rightarrow> observation list \<times> pid list \<times> sys" where
  "scan_entries env plugin [] s = ([], [], s)"
| "scan_entries env plugin ((name, uid) # es) s =
     (case parse_u32 name of
        None \<Rightarrow> scan_entries env plugin es s
      | Some pid \<Rightarrow>
          if uid \<noteq> Some (ge_uid env) then scan_entries env plugin es s
          else (case stats_of env pid s of
            (None, s1) \<Rightarrow> scan_entries env plugin es s1
          | (Some g, s1) \<Rightarrow>
              (let (obs, known, s2) = scan_entries env plugin es s1
               in (send_gpu_stats plugin pid g @ obs, if 0 < gm_resident_kb g then List.insert pid known else known, s2))))"

definition scan_proc :: "gpu_env \<Rightarrow> string \<Rightarrow> sys \<Rightarrow> observation list \<times> pid list \<times> sys" where
  "scan_proc env plugin s = (case ge_proc env (sys_tick s) of
     None \<Rightarrow> ([], [], tick s) | Some entries \<Rightarrow> scan_entries env plugin entries (tick s))"

fun probe_known :: "gpu_env \<Rightarrow> string \<Rightarrow> pid list \<Rightarrow> sys \<Rightarrow> observation list \<times> pid list \<times> sys" where
  "probe_known env plugin [] s = ([], [], s)"
| "probe_known env plugin (pid # pids) s =
     (case stats_of env pid s of
        (None, s1) \<Rightarrow> probe_known env plugin pids s1
      | (Some g, s1) \<Rightarrow>
          (let (obs, known, s2) = probe_known env plugin pids s1
           in (send_gpu_stats plugin pid g @ obs, if 0 < gm_resident_kb g then pid # known else known, s2)))"

record intel_watcher =
  iw_known :: "pid list"
  iw_last_full :: instant

definition full_scan_interval :: duration where "full_scan_interval = from_secs 30"

definition intel_start :: "instant \<Rightarrow> intel_watcher" where
  "intel_start now = \<lparr>iw_known = [], iw_last_full = (if full_scan_interval \<le> now then now - full_scan_interval else now)\<rparr>"

definition intel_round :: "gpu_env \<Rightarrow> intel_watcher \<Rightarrow> sys \<Rightarrow> observation list \<times> intel_watcher \<times> sys" where
  "intel_round env w s =
     (let (age, s1) = elapsed (iw_last_full w) s in
      if full_scan_interval \<le> age then
        (let (now, s2) = os_clock s1; (obs, known, s3) = scan_proc env ''mgd-gpu-intel'' s2
         in (obs, \<lparr>iw_known = known, iw_last_full = now\<rparr>, os_sleep s3))
      else
        (let (obs, known, s2) = probe_known env ''mgd-gpu-intel'' (iw_known w) s1
         in (obs, w\<lparr>iw_known := known\<rparr>, os_sleep s2)))"

definition amd_round :: "gpu_env \<Rightarrow> sys \<Rightarrow> observation list \<times> sys" where
  "amd_round env s = (let (obs, _, s1) = scan_proc env ''mgd-gpu-amd'' s in (obs, os_sleep s1))"

text \<open>Only processes of the user are reported, and only reported ones are remembered.\<close>

definition about :: "observation list \<Rightarrow> pid option set" where
  "about obs = (\<lambda>(_, _, q, _). q) ` set obs"

lemma about_simps [simp]: "about [] = {}" "about (a @ b) = about a \<union> about b" "about (send_gpu_stats plugin p g) = {Some p}"
  by (simp_all add: about_def image_Un send_gpu_stats_def)

definition own_entries :: "gpu_env \<Rightarrow> (string \<times> u32 option) list \<Rightarrow> pid set" where
  "own_entries env es = {p. \<exists>name. (name, Some (ge_uid env)) \<in> set es \<and> parse_u32 name = Some p}"

lemma own_entries_cons: "own_entries env es \<subseteq> own_entries env (e # es)"
  "parse_u32 name = Some p \<Longrightarrow> p \<in> own_entries env ((name, Some (ge_uid env)) # es)"
  by (auto simp: own_entries_def)

text \<open>One entry either changes nothing or puts the observations of its own process in front.\<close>

lemma scan_entry:
  assumes "scan_entries env plugin ((name, uid) # es) s = (obs, known, s')"
  obtains s1 where "scan_entries env plugin es s1 = (obs, known, s')"
  | s1 p g obs1 known1 where "parse_u32 name = Some p" "uid = Some (ge_uid env)" "scan_entries env plugin es s1 = (obs1, known1, s')"
      "obs = send_gpu_stats plugin p g @ obs1" "known = known1 \<or> known = List.insert p known1"
  using assms by (auto split: option.splits if_splits prod.splits)

lemma scan_entries_own: "scan_entries env plugin es s = (obs, known, s') \<Longrightarrow>
    about obs \<subseteq> Some ` own_entries env es \<and> Some ` set known \<subseteq> about obs"
proof (induction es arbitrary: s obs known s')
  case (Cons e es)
  obtain name uid where e: "e = (name, uid)" by fastforce
  note up = own_entries_cons(1) [of env es e]
  from Cons.prems [unfolded e] show ?case
  proof (cases rule: scan_entry)
    case (1 s1)
    then show ?thesis using Cons.IH [OF 1] up by blast
  next
    case (2 s1 p g obs1 known1)
    then have "p \<in> own_entries env (e # es)" using own_entries_cons(2) by (simp add: e)
    moreover have "about obs1 \<subseteq> Some ` own_entries env (e # es)" "Some ` set known1 \<subseteq> about obs1"
      using Cons.IH [OF 2(3)] up by blast+
    moreover have "about obs = insert (Some p) (about obs1)" "set known \<subseteq> insert p (set known1)" using 2(4,5) by auto
    ultimately show ?thesis by blast
  qed
qed simp

lemma probe_known_only: "probe_known env plugin pids s = (obs, known, s') \<Longrightarrow>
    set known \<subseteq> set pids \<and> about obs \<subseteq> Some ` set pids"
proof (induction pids arbitrary: s obs known s')
  case (Cons p pids)
  obtain r s1 where r: "stats_of env p s = (r, s1)" by fastforce
  obtain obs1 known1 s2 where rest: "probe_known env plugin pids s1 = (obs1, known1, s2)" by (metis prod_cases3)
  show ?case using Cons.prems Cons.IH [OF rest] r rest by (cases r) (auto split: if_splits)
qed simp

section \<open>Starting and supervising plugins\<close>

definition plugin_for_desktop :: "string \<Rightarrow> string option" where
  "plugin_for_desktop xdg_current_desktop =
     (if contains_str ''kde'' (to_ascii_lowercase xdg_current_desktop) then Some ''mgd-kde'' else None)"

text \<open>The drivers the cards of \<open>/sys/class/drm\<close> link to; entries without a link are passed over.\<close>

fun plugin_for_drivers :: "string option list \<Rightarrow> string option" where
  "plugin_for_drivers [] = None"
| "plugin_for_drivers (d # ds) =
     (if d = Some ''i915'' \<or> d = Some ''xe'' then Some ''mgd-gpu-intel''
      else if d = Some ''amdgpu'' then Some ''mgd-gpu-amd''
      else plugin_for_drivers ds)"

record sup_env =
  se_exe_dir :: string
  se_home :: "string option"
  se_spawn :: "nat \<Rightarrow> string \<Rightarrow> pid option"
  se_exited :: "nat \<Rightarrow> string \<Rightarrow> bool"

type_synonym children = "(string, pid \<times> instant) hmap"

definition plugin_candidate :: "sup_env \<Rightarrow> string \<Rightarrow> sys \<Rightarrow> string \<times> sys" where
  "plugin_candidate env name s =
     (let beside = se_exe_dir env @ ''/'' @ name; (there, s1) = os_exists beside s in
      if there then (beside, s1)
      else (case se_home env of
          None \<Rightarrow> (name, s1)
        | Some home \<Rightarrow> (let path = home @ ''/.local/bin/'' @ name; (installed, s2) = os_exists path s1
            in (if installed then path else name, s2))))"

definition spawn_plugin_binary :: "sup_env \<Rightarrow> string \<Rightarrow> children \<Rightarrow> sys \<Rightarrow> children \<times> sys" where
  "spawn_plugin_binary env name ch s =
     (let (candidate, s1) = plugin_candidate env name s in
      case se_spawn env (sys_tick s1) candidate of
        None \<Rightarrow> (ch, tick s1)
      | Some child \<Rightarrow> (let (now, s2) = os_clock (emit (Spawned [candidate]) (tick s1)) in (hm_insert name (child, now) ch, s2)))"

definition init_plugins :: "sup_env \<Rightarrow> string \<Rightarrow> string option list \<Rightarrow> children \<Rightarrow> sys \<Rightarrow> children \<times> sys" where
  "init_plugins env desktop drivers ch s =
     (let (ch1, s1) = (case plugin_for_desktop desktop of None \<Rightarrow> (ch, s) | Some name \<Rightarrow> spawn_plugin_binary env name ch s)
      in case plugin_for_drivers drivers of None \<Rightarrow> (ch1, s1) | Some name \<Rightarrow> spawn_plugin_binary env name ch1 s1)"

fun respawn :: "sup_env \<Rightarrow> string list \<Rightarrow> children \<Rightarrow> sys \<Rightarrow> children \<times> sys" where
  "respawn env [] ch s = (ch, s)"
| "respawn env (name # names) ch s = (let (ch1, s1) = spawn_plugin_binary env name ch s in respawn env names ch1 s1)"

definition check_and_restart_plugins :: "sup_env \<Rightarrow> children \<Rightarrow> sys \<Rightarrow> children \<times> sys" where
  "check_and_restart_plugins env ch s =
     (let (_, s1) = os_clock s;
          dead = filter (se_exited env (sys_tick s1)) (hm_keys ch);
          ch1 = hm_retain (\<lambda>name _. name \<notin> set dead) ch
      in respawn env dead ch1 (tick s1))"

fun signal_children :: "children \<Rightarrow> sys \<Rightarrow> sys" where
  "signal_children [] s = s"
| "signal_children ((name, child, _) # ch) s = signal_children ch (snd (os_kill (as_pid_t child) SIGTERM s))"

definition shutdown_plugins :: "children \<Rightarrow> sys \<Rightarrow> children \<times> sys" where
  "shutdown_plugins ch s = ([], signal_children ch s)"

text \<open>A plugin that runs is left alone, whatever happens to the others.\<close>

lemma spawn_others: "spawn_plugin_binary env name ch s = (ch', s') \<Longrightarrow> other \<noteq> name \<Longrightarrow> hm_get ch' other = hm_get ch other"
  by (auto simp: spawn_plugin_binary_def Let_def hm_simps split: prod.splits option.splits)

lemma respawn_others: "respawn env names ch s = (ch', s') \<Longrightarrow> other \<notin> set names \<Longrightarrow> hm_get ch' other = hm_get ch other"
proof (induction names arbitrary: ch s)
  case (Cons n ns)
  obtain ch1 s1 where "spawn_plugin_binary env n ch s = (ch1, s1)" by fastforce
  with Cons spawn_others [OF this, of other] show ?case by auto
qed simp

lemma restart_spares_running:
  assumes "hm_ok ch" "check_and_restart_plugins env ch s = (ch', s')" "hm_get ch name = Some c"
    and "\<not> se_exited env (sys_tick (snd (os_clock s))) name"
  shows "hm_get ch' name = Some c"
  using assms
  by (auto simp: check_and_restart_plugins_def Let_def hm_get_retain dest!: respawn_others [where other = name] split: prod.splits)

text \<open>One that exited and cannot be started again is forgotten: the next check does not know it.\<close>

lemma spawn_fails: "(\<And>t c. se_spawn env t c = None) \<Longrightarrow> fst (spawn_plugin_binary env name ch s) = ch"
  by (simp add: spawn_plugin_binary_def split: prod.split)

lemma respawn_fails: "(\<And>t c. se_spawn env t c = None) \<Longrightarrow> fst (respawn env names ch s) = ch"
  using spawn_fails [of env] by (induction names arbitrary: ch s) (auto split: prod.split, metis fst_conv)

lemma restart_forgets:
  assumes "hm_ok ch" "\<And>t c. se_spawn env t c = None" "se_exited env (sys_tick (snd (os_clock s))) name"
  shows "hm_get (fst (check_and_restart_plugins env ch s)) name = None"
  using assms(1,3) respawn_fails [OF assms(2)]
  by (auto simp: check_and_restart_plugins_def Let_def hm_get_retain hm_contains_keys [symmetric] hm_contains_get
      split: prod.split option.split)

text \<open>
  The connections of plugins, each the sending end of a channel: a message goes to every one whose
  receiver is still there, and the others are forgotten.
\<close>

definition broadcast :: "(nat \<Rightarrow> bool) \<Rightarrow> core_message \<Rightarrow> nat list \<Rightarrow> (nat \<times> core_message) list \<times> nat list" where
  "broadcast alive msg clients = (map (\<lambda>c. (c, msg)) (filter alive clients), filter alive clients)"

definition broadcast_pressure :: "(nat \<Rightarrow> bool) \<Rightarrow> string \<Rightarrow> nat list \<Rightarrow> (nat \<times> core_message) list \<times> nat list" where
  "broadcast_pressure alive level clients = broadcast alive (PressureChanged level) clients"

definition broadcast_config_reload :: "(nat \<Rightarrow> bool) \<Rightarrow> nat list \<Rightarrow> (nat \<times> core_message) list \<times> nat list" where
  "broadcast_config_reload alive clients = broadcast alive ConfigReload clients"

text \<open>What one connection's thread does with the messages it reads, with the broadcast of the answers.\<close>

fun serve_plugin_connection :: "(nat \<Rightarrow> bool) \<Rightarrow> plugin_message list \<Rightarrow> nat list \<Rightarrow> frozen_map \<Rightarrow> sys \<Rightarrow>
    (nat \<times> core_message) list \<times> plugin_job list \<times> nat list \<times> sys" where
  "serve_plugin_connection alive [] clients fm s = ([], [], clients, s)"
| "serve_plugin_connection alive (msg # msgs) clients fm s =
     (let (answers, jobs, s1) = process_plugin_message msg fm s;
          (sent, clients1) = (case answers of [] \<Rightarrow> ([], clients) | a # _ \<Rightarrow> broadcast alive a clients);
          (sent', jobs', clients2, s2) = serve_plugin_connection alive msgs clients1 fm s1
      in (sent @ sent', jobs @ jobs', clients2, s2))"

text \<open>An answer goes to every open connection, not only to the one that asked.\<close>

lemma broadcast_all: "c \<in> set clients \<Longrightarrow> alive c \<Longrightarrow> (c, msg) \<in> set (fst (broadcast alive msg clients)) \<and> c \<in> set (snd (broadcast alive msg clients))"
  by (simp add: broadcast_def)

lemma serve_keeps_open: "serve_plugin_connection alive msgs clients fm s = (sent, jobs, clients', s') \<Longrightarrow>
    set clients' \<subseteq> set clients \<and> filter alive clients' = filter alive clients \<and> fst ` set sent \<subseteq> set (filter alive clients)"
proof (induction msgs arbitrary: clients s sent jobs)
  case (Cons msg msgs)
  obtain answers jobs1 s1 where m: "process_plugin_message msg fm s = (answers, jobs1, s1)" by (metis prod_cases3)
  obtain sent1 clients1 where b: "(case answers of [] \<Rightarrow> ([], clients) | a # _ \<Rightarrow> broadcast alive a clients) = (sent1, clients1)" by fastforce
  obtain sent2 jobs2 clients2 s2 where r: "serve_plugin_connection alive msgs clients1 fm s1 = (sent2, jobs2, clients2, s2)" by (metis prod_cases4)
  have "set clients1 \<subseteq> set clients \<and> filter alive clients1 = filter alive clients \<and> fst ` set sent1 \<subseteq> set (filter alive clients)"
    using b by (cases answers) (auto simp: broadcast_def)
  moreover have "sent = sent1 @ sent2" "clients2 = clients'" "s2 = s'" using Cons.prems m b r by simp_all
  ultimately show ?case using Cons.IH [of clients1 s1 sent2 jobs2] r by (auto simp: image_Un)
qed simp

text \<open>At the end every child is asked to terminate.\<close>

lemma signal_children_all: "(name, child, t) \<in> set ch \<Longrightarrow>
    \<exists>r. Signalled (as_pid_t child) SIGTERM r \<in> set (sys_trace (signal_children ch s))"
proof (induction ch arbitrary: s)
  case (Cons c ch)
  have keep: "e \<in> set (sys_trace s) \<Longrightarrow> e \<in> set (sys_trace (signal_children ch s))" for e ch s
    by (induction ch s rule: signal_children.induct) (simp_all add: os_kill_def Let_def)
  show ?case using Cons
    by (cases c) (auto simp: os_kill_def Let_def intro!: keep)
qed simp

section \<open>The pressure trigger helper\<close>

text \<open>
  What one \<open>poll\<close> of the kernel's file gave: ready with an error or hang-up, or with an event; a
  timeout, after which the pipe to the daemon is probed for a hang-up; or a failure, interrupted or not.
\<close>

datatype trigger_poll = PollReady bool bool | PollTimeout bool | PollFailed bool

datatype pipe_write = PipeWritten | PipeBroken | PipeFailed

definition trigger_step :: "trigger_poll \<Rightarrow> pipe_write \<Rightarrow> nat \<times> int option" where
  "trigger_step p w = (case p of
     PollReady err pri \<Rightarrow>
       if err then (0, Some 2)
       else if pri then (case w of PipeWritten \<Rightarrow> (1, None) | PipeBroken \<Rightarrow> (0, Some 0) | PipeFailed \<Rightarrow> (0, Some 2))
       else (0, None)
   | PollTimeout hup \<Rightarrow> (0, if hup then Some 0 else None)
   | PollFailed eintr \<Rightarrow> (0, if eintr then None else Some 2))"

text \<open>The loop over what the polls give: the bytes written and the exit code, if it ended.\<close>

fun trigger_loop :: "(trigger_poll \<times> pipe_write) list \<Rightarrow> nat \<times> int option" where
  "trigger_loop [] = (0, None)"
| "trigger_loop ((p, w) # es) = (let (n, code) = trigger_step p w in
     case code of Some c \<Rightarrow> (n, Some c) | None \<Rightarrow> (let (m, code') = trigger_loop es in (n + m, code')))"

text \<open>\<open>armable\<close> and \<open>opened\<close> are the two times the file is opened, \<open>armed\<close> whether the kernel takes the
trigger written to it.\<close>

definition trigger_main :: "(string \<Rightarrow> bool) \<Rightarrow> (string \<Rightarrow> bool) \<Rightarrow> (string \<Rightarrow> string \<Rightarrow> bool) \<Rightarrow> string option \<Rightarrow>
    string list \<Rightarrow> (trigger_poll \<times> pipe_write) list \<Rightarrow> nat \<times> int option" where
  "trigger_main armable opened armed cgroup args polls = (case helper_arg args of
     None \<Rightarrow> (0, Some 1)
   | Some stall_us \<Rightarrow> (case find_trigger_path armable cgroup of
       None \<Rightarrow> (0, Some 2)
     | Some path \<Rightarrow>
         if \<not> opened path \<or> \<not> armed path (trigger_string (helper_threshold stall_us)) then (0, Some 2)
         else trigger_loop polls))"

text \<open>One byte for each event delivered, and a clean exit only when the daemon has closed its end.\<close>

definition delivered :: "trigger_poll \<times> pipe_write \<Rightarrow> bool" where
  "delivered e \<longleftrightarrow> e = (PollReady False True, PipeWritten)"

definition daemon_gone :: "trigger_poll \<times> pipe_write \<Rightarrow> bool" where
  "daemon_gone e \<longleftrightarrow> e = (PollReady False True, PipeBroken) \<or> fst e = PollTimeout True"

lemma trigger_step_result: "trigger_step p w = (n, code) \<Longrightarrow>
    n = (if delivered (p, w) then 1 else 0) \<and> (code = Some 0 \<longleftrightarrow> daemon_gone (p, w)) \<and> (code \<noteq> None \<longrightarrow> n = 0)"
  by (auto simp: trigger_step_def delivered_def daemon_gone_def split: trigger_poll.splits pipe_write.splits if_splits)

lemma trigger_loop_result: "trigger_loop es = (n, code) \<Longrightarrow>
    n \<le> length (filter delivered es) \<and> (code = None \<longrightarrow> n = length (filter delivered es)) \<and>
    (code = Some 0 \<longrightarrow> list_ex daemon_gone es)"
proof (induction es arbitrary: n code)
  case (Cons e es)
  obtain p w where e: "e = (p, w)" by fastforce
  obtain k c where k: "trigger_step p w = (k, c)" by fastforce
  obtain m c' where m: "trigger_loop es = (m, c')" by fastforce
  show ?case using Cons.prems Cons.IH [OF m] trigger_step_result [OF k] k m
    by (cases c) (auto simp: e)
qed simp

section \<open>Session logs\<close>

text \<open>Rust compares strings by their bytes.\<close>

fun str_le :: "string \<Rightarrow> string \<Rightarrow> bool" where
  "str_le [] t = True"
| "str_le (c # cs) [] = False"
| "str_le (c # cs) (d # ds) = (of_char c < (of_char d :: nat) \<or> c = d \<and> str_le cs ds)"

definition is_session_log :: "string \<Rightarrow> bool" where
  "is_session_log name \<longleftrightarrow> starts_with ''mgd_'' name \<and> ends_with ''.log'' name"

text \<open>The names that are deleted.\<close>

definition rotate_logs :: "string list \<Rightarrow> nat \<Rightarrow> string list" where
  "rotate_logs names keep = drop keep (sort_by (\<lambda>a b. str_le b a) (filter is_session_log names))"

definition pad0 :: "nat \<Rightarrow> nat \<Rightarrow> string" where
  "pad0 w n = replicate (w - length (show_nat n)) CHR ''0'' @ show_nat n"

text \<open>Year, month, day, hour, minute, second of the local time.\<close>

type_synonym local_time = "nat \<times> nat \<times> nat \<times> nat \<times> nat \<times> nat"

definition local_datetime_compact :: "local_time \<Rightarrow> string" where
  "local_datetime_compact t = (case t of (y, mo, d, h, mi, s) \<Rightarrow>
     pad0 4 y @ ''-'' @ pad0 2 mo @ ''-'' @ pad0 2 d @ ''_'' @ pad0 2 h @ ''-'' @ pad0 2 mi @ ''-'' @ pad0 2 s)"

definition logger_new :: "nat \<Rightarrow> local_time \<Rightarrow> string list \<Rightarrow> string \<times> string list" where
  "logger_new log_keep now names =
     (''mgd_'' @ local_datetime_compact now @ ''.log'', if 0 < log_keep then rotate_logs names (log_keep - 1) else [])"

lemma str_le_refl: "str_le s s"
  by (induction s) auto

lemma str_le_total: "str_le s t \<or> str_le t s"
  by (induction s t rule: str_le.induct) auto

lemma str_le_trans: "str_le s t \<Longrightarrow> str_le t u \<Longrightarrow> str_le s u"
proof (induction s t arbitrary: u rule: str_le.induct)
  case (3 c cs d ds)
  then show ?case by (cases u) auto
qed auto

text \<open>What is deleted are session logs not newer than any that stays, and at most \<open>keep\<close> stay.\<close>

abbreviation newer :: "string \<Rightarrow> string \<Rightarrow> bool" where "newer a b \<equiv> str_le b a"

lemma newest_sorted: "sorted_wrt newer (sort_by newer xs)"
  by (rule sorted_sort_by) (rule str_le_total, erule (1) str_le_trans [rotated])

lemma sorted_take_drop: "sorted_wrt R xs \<Longrightarrow> x \<in> set (take k xs) \<Longrightarrow> y \<in> set (drop k xs) \<Longrightarrow> R x y"
  using sorted_wrt_append [of R "take k xs" "drop k xs"] by simp

lemma rotate_oldest:
  assumes "old \<in> set (rotate_logs names keep)" "new \<in> set (take keep (sort_by newer (filter is_session_log names)))"
  shows "str_le old new \<and> is_session_log old"
proof
  have old: "old \<in> set (drop keep (sort_by newer (filter is_session_log names)))"
    using assms(1) by (simp only: rotate_logs_def)
  show "str_le old new" by (rule sorted_take_drop [OF newest_sorted assms(2) old])
  show "is_session_log old" using in_set_dropD [OF old] by simp
qed

lemma rotate_count: "length (rotate_logs names keep) = length (filter is_session_log names) - keep"
  by (simp add: rotate_logs_def)

text \<open>Names in the order of their bytes are sessions in the order of time, while a year has four digits.\<close>

lemma digits_val_Cons: "digits_val (c # cs) = digit_val c * 10 ^ length cs + digits_val cs"
proof (induction cs rule: rev_induct)
  case Nil
  show ?case by (simp add: digits_val_def)
next
  case (snoc d cs)
  then show ?case using digits_val_snoc [of "c # cs" d] digits_val_snoc [of cs d] by simp
qed

lemma digits_val_less: "list_all is_digit s \<Longrightarrow> digits_val s < 10 ^ length s"
proof (induction s)
  case (Cons c s)
  then have "digit_val c \<le> 9" "digits_val s < 10 ^ length s" by (auto simp: is_digit_def digit_val_def)
  then have "digit_val c * 10 ^ length s + digits_val s < 9 * 10 ^ length s + 10 ^ length s"
    by (intro add_le_less_mono mult_le_mono1)
  then show ?case by (simp add: digits_val_Cons)
qed (simp add: digits_val_def)

lemma digit_order: "is_digit c \<Longrightarrow> is_digit d \<Longrightarrow>
    (of_char c < (of_char d :: nat) \<longleftrightarrow> digit_val c < digit_val d) \<and> (c = d \<longleftrightarrow> digit_val c = digit_val d)"
  unfolding is_digit_def digit_val_def of_char_eq_iff [of c d, where 'a = nat, symmetric] by linarith

lemma str_le_digits: "length a = length b \<Longrightarrow> list_all is_digit a \<Longrightarrow> list_all is_digit b \<Longrightarrow>
    str_le (a @ x) (b @ y) \<longleftrightarrow> digits_val a < digits_val b \<or> digits_val a = digits_val b \<and> str_le x y"
proof (induction a b rule: list_induct2)
  case (Cons c cs d ds)
  note ord = digit_order [of c d]
  have b: "digits_val cs < 10 ^ length cs" "digits_val ds < 10 ^ length cs"
    using digits_val_less [of cs] digits_val_less [of ds] Cons by simp_all
  have step: "u * k + a < v * k + b \<longleftrightarrow> u < v \<or> u = v \<and> a < b" if "a < k" "b < k" for u v k a b :: nat
  proof (cases u v rule: linorder_cases)
    case less
    then have "Suc u * k \<le> v * k" by (intro mult_le_mono1) simp
    then show ?thesis using less that by simp
  next
    case greater
    then have "Suc v * k \<le> u * k" by (intro mult_le_mono1) simp
    then show ?thesis using greater that by simp
  qed simp
  have less: "digits_val (c # cs) < digits_val (d # ds) \<longleftrightarrow>
      digit_val c < digit_val d \<or> digit_val c = digit_val d \<and> digits_val cs < digits_val ds"
    using step [OF b] Cons.hyps by (simp add: digits_val_Cons)
  have greater: "digits_val (d # ds) < digits_val (c # cs) \<longleftrightarrow>
      digit_val d < digit_val c \<or> digit_val d = digit_val c \<and> digits_val ds < digits_val cs"
    using step [OF b(2,1)] Cons.hyps by (simp add: digits_val_Cons)
  show ?case using Cons ord less greater by auto
qed (simp add: digits_val_def)

lemma digits_val_zeros: "digits_val (replicate k CHR ''0'' @ s) = digits_val s"
  by (induction k) (simp_all add: digits_val_Cons digit_val_def)

lemma show_nat_length: "0 < w \<Longrightarrow> n < 10 ^ w \<Longrightarrow> length (show_nat n) \<le> w"
proof (induction w arbitrary: n)
  case (Suc w)
  show ?case
  proof (cases "n < 10")
    case True
    then show ?thesis by (simp add: show_nat.simps)
  next
    case False
    then have "0 < w" using Suc.prems by (cases w) auto
    moreover have "n div 10 < 10 ^ w" using Suc.prems by (simp add: less_mult_imp_div_less mult.commute)
    ultimately have "length (show_nat (n div 10)) \<le> w" by (rule Suc.IH)
    then show ?thesis using False by (subst show_nat.simps) simp
  qed
qed simp

lemma pad0_digits: "0 < w \<Longrightarrow> n < 10 ^ w \<Longrightarrow> length (pad0 w n) = w \<and> list_all is_digit (pad0 w n) \<and> digits_val (pad0 w n) = n"
  using show_nat_length [of w n] show_nat_digits [of n]
  by (simp add: pad0_def digits_val_zeros list_all_length is_digit_def nth_append)

lemma str_le_pad: "0 < w \<Longrightarrow> m < 10 ^ w \<Longrightarrow> n < 10 ^ w \<Longrightarrow>
    str_le (pad0 w m @ x) (pad0 w n @ y) \<longleftrightarrow> m < n \<or> m = n \<and> str_le x y"
  using pad0_digits [of w m] pad0_digits [of w n] str_le_digits [of "pad0 w m" "pad0 w n" x y] by simp

definition time_le :: "local_time \<Rightarrow> local_time \<Rightarrow> bool" where
  "time_le a b = (case (a, b) of ((y, mo, d, h, mi, s), (y', mo', d', h', mi', s')) \<Rightarrow>
     y < y' \<or> y = y' \<and> (mo < mo' \<or> mo = mo' \<and> (d < d' \<or> d = d' \<and>
       (h < h' \<or> h = h' \<and> (mi < mi' \<or> mi = mi' \<and> s \<le> s')))))"

definition time_ok :: "local_time \<Rightarrow> bool" where
  "time_ok t = (case t of (y, mo, d, h, mi, s) \<Rightarrow> y < 10 ^ 4 \<and> mo < 10 ^ 2 \<and> d < 10 ^ 2 \<and> h < 10 ^ 2 \<and> mi < 10 ^ 2 \<and> s < 10 ^ 2)"

lemma session_order:
  assumes "time_ok a" "time_ok b"
  shows "str_le (fst (logger_new k a names)) (fst (logger_new k b names)) \<longleftrightarrow> time_le a b"
  using assms
  by (cases a; cases b) (simp add: logger_new_def local_datetime_compact_def time_ok_def time_le_def str_le_pad str_le_refl le_less del: power_numeral)

end
