(* ===== verification/Waiter.thy ===== *)
theory Waiter
  imports Evictor Agents
begin

text \<open>
  How the responder waits for pressure (\<open>PsiSubprocess\<close> and \<open>PsiTrigger\<close> of \<open>mgd/src/monitor/psi.rs\<close>, the
  waiting part of the loop of \<open>mgd/src/evictor/mod.rs\<close>, and the choice of the file to read in
  \<open>mgd-common/src/psi.rs\<close>): through the capped helper when it starts, else through a trigger of its own,
  else by sleeping. What the kernel and the helper answer is an environment; the outcome of a wait is the
  \<open>psi_wait\<close> a turn of the responder takes as input. The end of a helper that is replaced is not modelled.
\<close>

section \<open>The file the pressure is read from\<close>

definition GLOBAL_PSI :: string where
  "GLOBAL_PSI = ''/proc/pressure/memory''"

definition cgroup_psi_path :: "u32 \<Rightarrow> string" where
  "cgroup_psi_path uid = ''/sys/fs/cgroup/user.slice/user-'' @ show_nat (unat uid) @ ''.slice/user@''
     @ show_nat (unat uid) @ ''.service/memory.pressure''"

definition is_usable_psi_file :: "string \<Rightarrow> sys \<Rightarrow> bool \<times> sys" where
  "is_usable_psi_file path s = (let (content, s1) = os_read path s
     in (case content of None \<Rightarrow> False | Some c \<Rightarrow> starts_with ''some '' c, s1))"

definition resolve_pressure_source :: "u32 \<Rightarrow> sys \<Rightarrow> string \<times> sys" where
  "resolve_pressure_source uid s =
     (let (usable, s1) = is_usable_psi_file (cgroup_psi_path uid) s
      in (if usable then cgroup_psi_path uid else GLOBAL_PSI, s1))"

section \<open>Arming\<close>

text \<open>
  By the time of the call: which files open for reading and writing, whether the kernel takes the trigger
  written to one, whether the helper starts and whether it has exited when it is looked at.
\<close>

record wait_env =
  we_open :: "nat \<Rightarrow> string \<Rightarrow> bool"
  we_arm :: "nat \<Rightarrow> string \<Rightarrow> string \<Rightarrow> bool"
  we_spawn :: "nat \<Rightarrow> string list \<Rightarrow> bool"
  we_exited :: "nat \<Rightarrow> bool"

definition psi_trigger_open :: "wait_env \<Rightarrow> string \<Rightarrow> f64 \<Rightarrow> sys \<Rightarrow> string option \<times> sys" where
  "psi_trigger_open env path pct s =
     (if we_open env (sys_tick s) path \<and> we_arm env (sys_tick s) path (trigger_string (direct_stall_us pct))
      then (Some path, tick s) else (None, tick s))"

definition psi_trigger_new :: "wait_env \<Rightarrow> f64 \<Rightarrow> sys \<Rightarrow> string option \<times> sys" where
  "psi_trigger_new env pct s =
     (let (cgroup, s1) = os_read ''/proc/self/cgroup'' s
      in case find_trigger_path (we_open env (sys_tick s1)) cgroup of
        Some path \<Rightarrow> psi_trigger_open env path pct s1
      | None \<Rightarrow> psi_trigger_open env GLOBAL_PSI pct s1)"

definition psi_helper_candidates :: "sys \<Rightarrow> string list" where
  "psi_helper_candidates s = [home_dir s @ ''/.local/bin/mgd-psi-trigger'',
     ''/usr/local/bin/mgd-psi-trigger'', ''/usr/bin/mgd-psi-trigger'']"

fun first_existing :: "string list \<Rightarrow> sys \<Rightarrow> string option \<times> sys" where
  "first_existing [] s = (None, s)"
| "first_existing (p # ps) s = (let (there, s1) = os_exists p s in if there then (Some p, s1) else first_existing ps s1)"

definition psi_subprocess_new :: "wait_env \<Rightarrow> f64 \<Rightarrow> sys \<Rightarrow> bool \<times> sys" where
  "psi_subprocess_new env pct s =
     (case first_existing (psi_helper_candidates s) s of
        (None, s1) \<Rightarrow> (False, s1)
      | (Some helper, s1) \<Rightarrow>
          (let args = [helper, show_nat (unat (subprocess_stall_us pct))] in
           if \<not> we_spawn env (sys_tick s1) args then (False, tick s1)
           else let s2 = os_sleep (emit (Spawned args) (tick s1)) in (\<not> we_exited env (sys_tick s2), tick s2)))"

section \<open>Waiting\<close>

text \<open>A poll of the pipe: it is readable and \<open>read\<close> gives a number of bytes, it is ready with an error or a
hang-up only, or nothing happened (a timeout, or the call was interrupted).\<close>

datatype pipe_poll = PipeReadable int | PipeHangup | PipeNothing

definition wait_subprocess :: "pipe_poll \<Rightarrow> psi_wait" where
  "wait_subprocess r = (case r of
     PipeReadable n \<Rightarrow> if 0 < n then WaitEvent else WaitHelperDied
   | PipeHangup \<Rightarrow> WaitHelperDied
   | PipeNothing \<Rightarrow> WaitTimeout)"

definition wait_trigger :: "int \<Rightarrow> bool" where
  "wait_trigger ret \<longleftrightarrow> 0 < ret"

record waiter =
  wt_pct :: f64
  wt_helper :: bool
  wt_trigger :: "string option"

definition waiter_start :: "wait_env \<Rightarrow> f64 \<Rightarrow> sys \<Rightarrow> waiter \<times> sys" where
  "waiter_start env pct s =
     (let (helper, s1) = psi_subprocess_new env pct s;
          (trigger, s2) = (if helper then (None, s1) else psi_trigger_new env pct s1)
      in (\<lparr>wt_pct = pct, wt_helper = helper, wt_trigger = trigger\<rparr>, s2))"

definition waiter_reload :: "wait_env \<Rightarrow> f64 \<Rightarrow> waiter \<Rightarrow> sys \<Rightarrow> waiter \<times> sys" where
  "waiter_reload env pct w s =
     (let d = f64_sub pct (wt_pct w) in
      if fl_gt d (f64_lit (1 / 1000)) \<or> fl_lt d (f64_lit (- 1 / 1000)) then
        (let (helper, s1) = psi_subprocess_new env pct s
         in (w\<lparr>wt_pct := pct, wt_helper := helper\<rparr>, s1))
      else (w, s))"

definition waiter_wait :: "pipe_poll \<Rightarrow> int \<Rightarrow> waiter \<Rightarrow> psi_wait" where
  "waiter_wait pipe ret w =
     (if wt_helper w then wait_subprocess pipe
      else if wt_trigger w \<noteq> None then (if wait_trigger ret then WaitEvent else WaitTimeout)
      else WaitSlept)"

definition waiter_respawn :: "wait_env \<Rightarrow> waiter \<Rightarrow> sys \<Rightarrow> waiter \<times> sys" where
  "waiter_respawn env w s =
     (let (helper, s1) = psi_subprocess_new env (wt_pct w) s in
      if \<not> helper \<and> wt_trigger w = None then
        (let (trigger, s2) = psi_trigger_new env (wt_pct w) s1 in (w\<lparr>wt_helper := helper, wt_trigger := trigger\<rparr>, s2))
      else (w\<lparr>wt_helper := helper\<rparr>, s1))"

text \<open>The waiting part of a turn: after a reload of the configuration, while the level is normal.\<close>

definition waiter_turn :: "wait_env \<Rightarrow> f64 \<Rightarrow> bool \<Rightarrow> pipe_poll \<Rightarrow> int \<Rightarrow> bool \<Rightarrow> waiter \<Rightarrow> sys \<Rightarrow> psi_wait \<times> waiter \<times> sys" where
  "waiter_turn env pct normal pipe ret shutdown w s =
     (let (w1, s1) = waiter_reload env pct w s in
      if \<not> normal then (WaitSlept, w1, s1)
      else let r = waiter_wait pipe ret w1 in
        if r = WaitHelperDied \<and> \<not> shutdown then (let (w2, s2) = waiter_respawn env w1 s1 in (r, w2, s2))
        else (r, w1, s1))"

section \<open>What the responder can rely on\<close>

text \<open>An event is reported only when the helper wrote a byte or the kernel signalled the trigger, and a dead
helper only when there was one.\<close>

lemma waiter_event: "waiter_wait pipe ret w = WaitEvent \<Longrightarrow>
    wt_helper w \<and> (\<exists>n > 0. pipe = PipeReadable n) \<or> \<not> wt_helper w \<and> wt_trigger w \<noteq> None \<and> 0 < ret"
  by (auto simp: waiter_wait_def wait_subprocess_def wait_trigger_def split: if_splits pipe_poll.splits)

lemma waiter_died: "waiter_wait pipe ret w = WaitHelperDied \<Longrightarrow> wt_helper w"
  by (auto simp: waiter_wait_def split: if_splits)

text \<open>A wait that is not a sleep has something to wait on, so a machine with neither is polled.\<close>

lemma waiter_slept: "waiter_wait pipe ret w = WaitSlept \<longleftrightarrow> \<not> wt_helper w \<and> wt_trigger w = None"
  by (auto simp: waiter_wait_def wait_subprocess_def split: pipe_poll.splits)

text \<open>Waiting stops no process and leaves the files alone.\<close>

definition starts_helper :: "effect \<Rightarrow> bool" where
  "starts_helper e = (case e of Spawned _ \<Rightarrow> True | _ \<Rightarrow> False)"

lemma first_existing_trace: "first_existing ps s = (r, s') \<Longrightarrow> sys_trace s' = sys_trace s"
  by (induction ps s rule: first_existing.induct) (auto simp: os_exists_def split: if_splits)

lemma trigger_new_trace: "psi_trigger_new env pct s = (r, s') \<Longrightarrow> sys_trace s' = sys_trace s"
  by (auto simp: psi_trigger_new_def psi_trigger_open_def os_read_def Let_def split: option.splits if_splits)

lemma subprocess_new_trace: "psi_subprocess_new env pct s = (r, s') \<Longrightarrow>
    sys_trace s' = sys_trace s \<or> (\<exists>args. sys_trace s' = sys_trace s @ [Spawned args])"
  by (auto simp: psi_subprocess_new_def os_sleep_def Let_def split: prod.splits option.splits if_splits dest!: first_existing_trace)

lemma waiter_turn_trace:
  assumes "waiter_turn env pct normal pipe ret shutdown w s = (r, w', s')"
  obtains es where "sys_trace s' = sys_trace s @ es" "list_all starts_helper es" "length es \<le> 2"
proof -
  obtain w1 s1 where l: "waiter_reload env pct w s = (w1, s1)" by fastforce
  have one: "\<exists>es. sys_trace s1 = sys_trace s @ es \<and> list_all starts_helper es \<and> length es \<le> 1"
    using l by (auto simp: waiter_reload_def Let_def starts_helper_def split: prod.splits if_splits dest!: subprocess_new_trace)
  have two: "\<exists>es. sys_trace s2 = sys_trace s1 @ es \<and> list_all starts_helper es \<and> length es \<le> 1"
    if "waiter_respawn env w1 s1 = (w2, s2)" for w2 s2
    using that by (auto simp: waiter_respawn_def Let_def starts_helper_def split: prod.splits if_splits
        dest!: subprocess_new_trace trigger_new_trace)
  have "s' = s1 \<or> (\<exists>w2. waiter_respawn env w1 s1 = (w2, s'))"
    using assms l by (auto simp: waiter_turn_def Let_def split: if_splits prod.splits)
  then show thesis
  proof (elim disjE exE)
    assume "s' = s1" then show thesis using one that by (metis le_SucI numeral_2_eq_2 One_nat_def)
  next
    fix w2 assume "waiter_respawn env w1 s1 = (w2, s')"
    from two [OF this] one obtain es fs where "sys_trace s' = sys_trace s @ es @ fs" "list_all starts_helper (es @ fs)"
        "length es \<le> 1" "length fs \<le> 1" by auto
    then show thesis using that [of "es @ fs"] by simp
  qed
qed

text \<open>The threshold a trigger of the daemon's own was armed with is not renewed by a reload.\<close>

lemma reload_keeps_trigger: "waiter_reload env pct w s = (w', s') \<Longrightarrow> wt_trigger w' = wt_trigger w"
  by (auto simp: waiter_reload_def Let_def split: if_splits prod.splits)

section \<open>Helper and daemon\<close>

text \<open>The pipe between the two: the daemon reads one byte at a time, and once the helper has ended finds the
end of the stream. What the helper delivers is what the daemon gets to see, event for event.\<close>

definition pipe_state :: "nat \<Rightarrow> bool \<Rightarrow> pipe_poll" where
  "pipe_state bytes ended = (if 0 < bytes then PipeReadable 1 else if ended then PipeHangup else PipeNothing)"

fun pipe_waits :: "nat \<Rightarrow> nat \<Rightarrow> bool \<Rightarrow> psi_wait list" where
  "pipe_waits 0 bytes ended = []"
| "pipe_waits (Suc n) bytes ended = wait_subprocess (pipe_state bytes ended) # pipe_waits n (bytes - 1) ended"

lemma pipe_waits_events: "pipe_waits n bytes ended =
    replicate (min n bytes) WaitEvent @ replicate (n - bytes) (if ended then WaitHelperDied else WaitTimeout)"
  by (induction n bytes ended rule: pipe_waits.induct)
    (auto simp: pipe_state_def wait_subprocess_def min_def Suc_diff_le not_le split: nat_diff_split)

lemma helper_events_seen:
  assumes "trigger_loop es = (bytes, code)" "bytes < n"
  shows "length (filter (\<lambda>r. r = WaitEvent) (pipe_waits n bytes (code \<noteq> None))) = bytes \<and>
    bytes \<le> length (filter delivered es) \<and> (code = None \<longrightarrow> bytes = length (filter delivered es)) \<and>
    (WaitHelperDied \<in> set (pipe_waits n bytes (code \<noteq> None))) = (code \<noteq> None)"
  using trigger_loop_result [OF assms(1)] assms(2) by (auto simp: pipe_waits_events min_def)

end
