(* ===== verification/Plumbing.thy ===== *)
theory Plumbing
  imports Client Plugin
begin

text \<open>
  The small services the programs start with: the path of the socket (\<open>mgd-common/src/socket.rs\<close>), the
  connection of a plugin and its loop over lines (\<open>mgd-common/src/plugin.rs\<close>), the locking of the daemon's
  memory (\<open>mgd/src/memlock.rs\<close>), the priority of the responder (\<open>mgd/src/evictor/mod.rs\<close>), and one frame of
  the dashboard (\<open>mgctl/src/watch.rs\<close>). What the system calls answer is an argument.
\<close>

section \<open>The socket\<close>

definition socket_path :: "string option \<Rightarrow> u32 \<Rightarrow> string" where
  "socket_path xdg_runtime_dir uid = (case xdg_runtime_dir of
     Some dir \<Rightarrow> dir @ ''/mgd.sock''
   | None \<Rightarrow> ''/tmp/mgd-'' @ show_nat (unat uid) @ ''.sock'')"

text \<open>\<open>connects n\<close>: whether the attempt after \<open>n\<close> failed ones succeeds. The result is the number of failures,
nothing when the plugin gives up and exits.\<close>

definition max_attempts :: nat where "max_attempts = 20"

function connect :: "(nat \<Rightarrow> bool) \<Rightarrow> nat \<Rightarrow> nat option" where
  "connect connects retries =
     (if connects retries then Some retries
      else if max_attempts \<le> retries + 1 then None
      else connect connects (retries + 1))"
  by pat_completeness auto
termination
  by (relation "measure (\<lambda>(_, retries). max_attempts - retries)") auto

declare connect.simps [simp del]

definition connect_and_identify :: "(nat \<Rightarrow> bool) \<Rightarrow> string \<Rightarrow> string \<Rightarrow> string list \<Rightarrow> plugin_message option" where
  "connect_and_identify connects name version capabilities =
     map_option (\<lambda>_. Identify name version capabilities) (connect connects 0)"

text \<open>It connects exactly when one of twenty attempts succeeds, and with the first that does.\<close>

lemma connect_first: "connect connects n = Some k \<Longrightarrow> n \<le> k \<and> connects k \<and> (\<forall>i. n \<le> i \<and> i < k \<longrightarrow> \<not> connects i)"
proof (induction connects n rule: connect.induct)
  case (1 connects n)
  then show ?case
    by (subst (asm) connect.simps [of connects n]) (auto split: if_splits simp: not_less_eq_eq le_Suc_eq dest: Suc_leI,
        metis le_neq_implies_less Suc_leI)
qed

lemma connect_gives_up: "n < max_attempts \<Longrightarrow> connect connects n = None \<longleftrightarrow> (\<forall>i. n \<le> i \<and> i < max_attempts \<longrightarrow> \<not> connects i)"
proof (induction connects n rule: connect.induct)
  case (1 connects n)
  show ?case
  proof (cases "connects n \<or> max_attempts \<le> n + 1")
    case True
    then have "\<forall>i. n \<le> i \<and> i < max_attempts \<longrightarrow> i = n \<or> connects n" by auto
    then show ?thesis using True 1(2) by (subst connect.simps) (simp, blast)
  next
    case False
    have "(\<forall>i. n \<le> i \<and> i < max_attempts \<longrightarrow> \<not> connects i) \<longleftrightarrow> (\<forall>i. n + 1 \<le> i \<and> i < max_attempts \<longrightarrow> \<not> connects i)"
      using False by (metis Suc_eq_plus1 le_SucI not_less_eq_eq order_antisym_conv)
    then show ?thesis using 1 False by (subst connect.simps) simp
  qed
qed

text \<open>Lines are handled until one cannot be read, or the end of the stream.\<close>

fun drain_lines :: "string option list \<Rightarrow> string list" where
  "drain_lines [] = []"
| "drain_lines (None # ls) = []"
| "drain_lines (Some line # ls) = (if line = [] then [] else line # drain_lines ls)"

lemma drain_lines_good: "[] \<notin> set ls \<Longrightarrow> drain_lines (map Some ls) = ls"
  by (induction ls) auto

section \<open>Memory and priority\<close>

definition hex_val :: "char \<Rightarrow> nat option" where
  "hex_val c = (let n = of_char c :: nat in
     if 48 \<le> n \<and> n \<le> 57 then Some (n - 48)
     else if 97 \<le> n \<and> n \<le> 102 then Some (n - 87)
     else if 65 \<le> n \<and> n \<le> 70 then Some (n - 55)
     else None)"

fun hex_digits :: "nat \<Rightarrow> string \<Rightarrow> nat option" where
  "hex_digits n [] = Some n"
| "hex_digits n (c # cs) = (case hex_val c of None \<Rightarrow> None | Some d \<Rightarrow> hex_digits (16 * n + d) cs)"

definition parse_hex_u64 :: "string \<Rightarrow> u64 option" where
  "parse_hex_u64 s = (let d = strip_plus s in
     if d = [] then None
     else case hex_digits 0 d of None \<Rightarrow> None | Some n \<Rightarrow> if n < 2 ^ 64 then Some (of_nat n) else None)"

definition has_cap_ipc_lock :: "string option \<Rightarrow> bool" where
  "has_cap_ipc_lock status =
     (case Option.bind status (\<lambda>c. Option.bind (first_opt (List.map_filter (strip_prefix ''CapEff:'') (lines c)))
             (\<lambda>hex. parse_hex_u64 (trim hex))) of
        None \<Rightarrow> False | Some caps \<Rightarrow> bit caps 14)"

text \<open>The calls of \<open>mlockall\<close>, with the flag for future pages or without, and whether one succeeded.\<close>

definition try_lock_memory :: "string option \<Rightarrow> bool \<Rightarrow> (bool \<Rightarrow> bool) \<Rightarrow> bool list \<times> bool" where
  "try_lock_memory status rlimit_infinite mlockall =
     (let unlimited = has_cap_ipc_lock status \<or> rlimit_infinite in
      if unlimited \<and> mlockall True then ([True], True)
      else ((if unlimited then [True] else []) @ [False], mlockall False))"

text \<open>Future pages are locked only by a process that may lock without limit: otherwise a later allocation
could fail for want of the limit.\<close>

lemma future_only_unlimited: "True \<in> set (fst (try_lock_memory status unbounded mlockall)) \<Longrightarrow>
    has_cap_ipc_lock status \<or> unbounded"
  by (auto simp: try_lock_memory_def Let_def split: if_splits)

datatype priority = RoundRobin | Nice | Standard

definition try_elevate_scheduler_priority :: "bool \<Rightarrow> bool \<Rightarrow> bool \<Rightarrow> priority" where
  "try_elevate_scheduler_priority set_rr eperm set_nice =
     (if set_rr then RoundRobin else if eperm \<and> set_nice then Nice else Standard)"

section \<open>The dashboard\<close>

definition watch_query :: "(string \<Rightarrow> string + string) \<Rightarrow> string \<Rightarrow> string" where
  "watch_query socket cmd = (case query_socket socket cmd of
     Inr res \<Rightarrow> res
   | Inl e \<Rightarrow>
       if contains_str ''cannot connect'' e then ''  (daemon not running)''
       else if contains_str ''write error'' e then ''  (write error)''
       else ''  '' @ e)"

text \<open>The state of the terminal apart, a frame is its lines; a text of several lines is one entry.\<close>

definition watch_frame :: "(string \<Rightarrow> string + string) \<Rightarrow> string list" where
  "watch_frame socket =
     [''=== mgd watch ===  (Ctrl+C to exit)'', [],
      ''STATUS'', ''  '' @ watch_query socket ''status'', [],
      ''MANAGED (frozen / checkpointed / throttled)'', watch_query socket ''list'', [],
      ''LIVE PROCESSES  (sorted by RSS)'', watch_query socket ''ps'', [],
      ''RECENT EVENTS'', watch_query socket ''events'']"

text \<open>The dashboard asks four of the client's own requests, which the daemon understands.\<close>

lemma watch_requests: "cmd \<in> {''status'', ''list'', ''ps'', ''events''} \<Longrightarrow> client_action [exe, cmd] = Request cmd"
  by (auto simp: client_action_def plain_requests_def Let_def)

end
