(* ===== verification/Doctor.thy ===== *)
theory Doctor
  imports Client Waiter Window
begin

text \<open>
  \<open>mgctl doctor\<close> (\<open>mgctl/src/doctor.rs\<close>): what it finds out about the machine and the report it prints,
  line by line, with the mark of a line in place of its colour. Directory listings, links and the
  environment are an argument, files and the output of commands are those of \<open>sys\<close>; the output of a
  command is its standard output, with the standard error behind it where the code joins the two.
  Signs of the report outside ASCII (dashes, arrows) are written in ASCII, and indentation is left out.
\<close>

section \<open>What it can look at\<close>

record doctor_env =
  de_uid :: u32
  de_drm :: "string list option"
  de_proc :: "string list option"
  de_var :: "string \<Rightarrow> string option"
  de_link :: "string \<Rightarrow> string option"
  de_open :: "string \<Rightarrow> bool"
  de_socket :: "string \<Rightarrow> string + string"

datatype report_line = Good string | Caution string | Missing string | Heading string | Plain string | Blank

definition output_of :: "run_result \<Rightarrow> string option" where
  "output_of r = (case r of RunFailed \<Rightarrow> None | RunExit _ out \<Rightarrow> Some out)"

section \<open>Graphics card\<close>

datatype gpu_vendor = Intel | Amd | Nvidia | UnknownVendor

definition gpu_of :: "string \<Rightarrow> string \<Rightarrow> gpu_vendor \<times> string" where
  "gpu_of vendor_id driver =
     (if vendor_id = ''0x8086'' then (Intel, ''Intel iGPU ('' @ driver @ '')'')
      else if vendor_id = ''0x1002'' then (Amd, ''AMD GPU ('' @ driver @ '')'')
      else if vendor_id = ''0x10de'' then (Nvidia, ''NVIDIA GPU ('' @ driver @ '')'')
      else (UnknownVendor, ''Unknown GPU (vendor '' @ vendor_id @ '')''))"

definition driver_of :: "string \<Rightarrow> string" where
  "driver_of uevent = (case Option.bind (find (starts_with ''DRIVER='') (lines uevent)) (strip_prefix ''DRIVER='') of
     None \<Rightarrow> ''unknown'' | Some d \<Rightarrow> d)"

fun card_among :: "string list \<Rightarrow> sys \<Rightarrow> (gpu_vendor \<times> string) option \<times> sys" where
  "card_among [] s = (None, s)"
| "card_among (name # names) s =
     (if \<not> starts_with ''card'' name \<or> CHR ''-'' \<in> set name then card_among names s
      else let (vendor, s1) = os_read (''/sys/class/drm/'' @ name @ ''/device/vendor'') s;
               (uevent, s2) = os_read (''/sys/class/drm/'' @ name @ ''/device/uevent'') s1
           in (Some (gpu_of (trim (or_default vendor)) (driver_of (or_default uevent))), s2))"

definition detect_gpu :: "doctor_env \<Rightarrow> sys \<Rightarrow> (gpu_vendor \<times> string) option \<times> sys" where
  "detect_gpu env s = (case de_drm env of None \<Rightarrow> (None, s) | Some names \<Rightarrow> card_among names s)"

section \<open>Swap\<close>

record swap_info =
  si_has_zram :: bool
  si_devices :: "string list"

definition first_word :: "string \<Rightarrow> string" where
  "first_word l = (case split_whitespace l of [] \<Rightarrow> [] | w # _ \<Rightarrow> w)"

definition detect_swap :: "sys \<Rightarrow> swap_info \<times> sys" where
  "detect_swap s =
     (let (content, s1) = os_read ''/proc/swaps'' s;
          devs = (case content of None \<Rightarrow> [] | Some c \<Rightarrow> map first_word (drop 1 (lines c)))
      in (\<lparr>si_has_zram = list_ex (contains_str ''zram'') devs, si_devices = filter (\<lambda>d. d \<noteq> []) devs\<rparr>, s1))"

section \<open>Desktop\<close>

definition comm_path :: "string \<Rightarrow> string" where
  "comm_path name = ''/proc/'' @ name @ ''/comm''"

definition version_in :: "string \<Rightarrow> string" where
  "version_in output = (case find (\<lambda>t. t \<noteq> [] \<and> is_digit (hd t)) (concat (map split_whitespace (lines output))) of
     None \<Rightarrow> ''installed'' | Some t \<Rightarrow> t)"

fun version_among :: "(string \<Rightarrow> string option) \<Rightarrow> string \<Rightarrow> string list \<Rightarrow> sys \<Rightarrow> string option \<times> sys" where
  "version_among link name [] s = (None, s)"
| "version_among link name (p # ps) s =
     (if \<not> list_all is_digit p then version_among link name ps s
      else let (comm, s1) = os_read (comm_path p) s in
        if \<not> starts_with name (trim (or_default comm)) then version_among link name ps s1
        else (case link (''/proc/'' @ p @ ''/exe'') of
            None \<Rightarrow> (None, s1)
          | Some exe \<Rightarrow> (let (r, s2) = os_run [exe, ''--version''] s1 in (map_option version_in (output_of r), s2))))"

definition get_version_from_proc :: "doctor_env \<Rightarrow> string \<Rightarrow> sys \<Rightarrow> string option \<times> sys" where
  "get_version_from_proc env name s = (case de_proc env of
     None \<Rightarrow> (None, s) | Some ps \<Rightarrow> version_among (de_link env) name ps s)"

record desktop_info =
  di_de :: string
  di_compositor :: string
  di_session :: string

definition session_of :: "doctor_env \<Rightarrow> string" where
  "session_of env = (if de_var env ''WAYLAND_DISPLAY'' \<noteq> None then ''wayland''
     else if de_var env ''DISPLAY'' \<noteq> None then ''x11'' else ''headless'')"

definition desktop_variable :: "doctor_env \<Rightarrow> string" where
  "desktop_variable env = (case de_var env ''XDG_CURRENT_DESKTOP'' of
     Some v \<Rightarrow> v
   | None \<Rightarrow> (case de_var env ''DESKTOP_SESSION'' of Some v \<Rightarrow> v | None \<Rightarrow> ''unknown''))"

text \<open>\<open>to_uppercase\<close> on both sides of the search, in ASCII the same as lower case on both sides.\<close>

definition names_desktop :: "string \<Rightarrow> string \<Rightarrow> bool" where
  "names_desktop word variable \<longleftrightarrow> contains_str (to_ascii_lowercase word) (to_ascii_lowercase variable)"

definition version_or :: "string option \<Rightarrow> string" where
  "version_or v = (case v of None \<Rightarrow> ''?'' | Some t \<Rightarrow> t)"

definition detect_desktop :: "doctor_env \<Rightarrow> sys \<Rightarrow> desktop_info \<times> sys" where
  "detect_desktop env s =
     (let variable = desktop_variable env; session = session_of env;
          (plasma, s1) = get_version_from_proc env ''plasmashell'' s;
          (gnome, s2) = get_version_from_proc env ''gnome-shell'' s1;
          (de, compositor) =
            (if names_desktop ''KDE'' variable \<or> plasma \<noteq> None
             then (''KDE Plasma '' @ version_or plasma, if session = ''wayland'' then ''KWin Wayland'' else ''KWin X11'')
             else if names_desktop ''GNOME'' variable \<or> gnome \<noteq> None
             then (''GNOME Shell '' @ version_or gnome, if session = ''wayland'' then ''Mutter (Wayland)'' else ''Mutter (X11)'')
             else if names_desktop ''COSMIC'' variable then (''COSMIC DE'', ''cosmic-comp'')
             else (variable, ''unknown ('' @ session @ '')''))
      in (\<lparr>di_de = de, di_compositor = compositor, di_session = session\<rparr>, s2))"

section \<open>Pressure\<close>

definition systemd_version :: "sys \<Rightarrow> u32 option \<times> sys" where
  "systemd_version s =
     (let (r, s1) = os_run [''systemctl'', ''--version''] s
      in (Option.bind (output_of r) (\<lambda>out. Option.bind (first_opt (lines out))
            (\<lambda>l. Option.bind (nth_opt 1 (split_whitespace l)) parse_u32)), s1))"

definition trigger_hint :: "u32 option \<Rightarrow> string" where
  "trigger_hint v = (case v of
     None \<Rightarrow> []
   | Some n \<Rightarrow> if n < 254 then '' (systemd '' @ show_nat (unat n) @ '' < 254 - cgroup file is root-owned)'' else [])"

definition report_psi :: "doctor_env \<Rightarrow> sys \<Rightarrow> report_line list \<times> sys" where
  "report_psi env s =
     (let (there, s1) = os_exists GLOBAL_PSI s in
      if \<not> there then ([Caution ''PSI unavailable - kernel CONFIG_PSI not enabled''], s1)
      else let (source, s2) = resolve_pressure_source (de_uid env) s1;
               monitoring = (if source = GLOBAL_PSI
                 then [Good (''PSI monitoring ('' @ GLOBAL_PSI @ '', global)''),
                       Caution ''per-cgroup PSI unusable - daemon reads system-wide pressure'']
                 else [Good (''PSI monitoring ('' @ source @ '', per-session cgroup)'')]);
               (cgroup, s3) = os_read ''/proc/self/cgroup'' s2
           in case find_trigger_path (de_open env) cgroup of
             Some path \<Rightarrow> (monitoring @ [Good (''PSI kernel trigger armable on '' @ path @ '' (zero-CPU idle)'')], s3)
           | None \<Rightarrow> (let (v, s4) = systemd_version s3
               in (monitoring @ [Caution (''PSI trigger not armable - daemon falls back to 5s polling'' @ trigger_hint v)], s4)))"

section \<open>Plugins\<close>

record plugin_status =
  ps_binary :: string
  ps_running :: bool
  ps_installed :: bool

definition plugin_binaries :: "string list" where
  "plugin_binaries = [''mgd-gpu-intel'', ''mgd-gpu-amd'', ''mgd-kde'', ''mgd-gnome'', ''mgd-cosmic'', ''mgd-zram'']"

definition which :: "string \<Rightarrow> sys \<Rightarrow> bool \<times> sys" where
  "which binary s = (let (r, s1) = os_run [''which'', binary] s in (run_succeeded r, s1))"

fun running_among :: "string \<Rightarrow> string list \<Rightarrow> sys \<Rightarrow> bool \<times> sys" where
  "running_among name [] s = (False, s)"
| "running_among name (p # ps) s =
     (if \<not> list_all is_digit p then running_among name ps s
      else let (comm, s1) = os_read (comm_path p) s
        in if trim (or_default comm) = name then (True, s1) else running_among name ps s1)"

definition process_running :: "doctor_env \<Rightarrow> string \<Rightarrow> sys \<Rightarrow> bool \<times> sys" where
  "process_running env name s = (case de_proc env of None \<Rightarrow> (False, s) | Some ps \<Rightarrow> running_among name ps s)"

definition detect_plugin :: "doctor_env \<Rightarrow> string \<Rightarrow> sys \<Rightarrow> plugin_status \<times> sys" where
  "detect_plugin env binary s =
     (let (there, s1) = os_exists (home_dir s @ ''/.local/bin/'' @ binary) s;
          (installed, s2) = (if there then (True, s1) else which binary s1);
          (running, s3) = process_running env binary s2
      in (\<lparr>ps_binary = binary, ps_running = running, ps_installed = installed\<rparr>, s3))"

fun detect_plugins :: "doctor_env \<Rightarrow> string list \<Rightarrow> sys \<Rightarrow> plugin_status list \<times> sys" where
  "detect_plugins env [] s = ([], s)"
| "detect_plugins env (b # bs) s =
     (let (p, s1) = detect_plugin env b s; (ps, s2) = detect_plugins env bs s1 in (p # ps, s2))"

definition applicable :: "gpu_vendor \<Rightarrow> string \<Rightarrow> bool \<Rightarrow> string \<Rightarrow> bool" where
  "applicable vendor de_lower has_zram binary =
     (if binary = ''mgd-gpu-intel'' then vendor = Intel
      else if binary = ''mgd-gpu-amd'' then vendor = Amd
      else if binary = ''mgd-kde'' then contains_str ''kde'' de_lower \<or> contains_str ''plasma'' de_lower
      else if binary = ''mgd-gnome'' then contains_str ''gnome'' de_lower
      else if binary = ''mgd-cosmic'' then contains_str ''cosmic'' de_lower
      else if binary = ''mgd-zram'' then has_zram
      else True)"

definition pad_to :: "nat \<Rightarrow> string \<Rightarrow> string" where
  "pad_to w t = t @ replicate (w - length t) CHR '' ''"

definition plugin_line :: "bool \<Rightarrow> plugin_status \<Rightarrow> report_line" where
  "plugin_line app p = (let name = pad_to 18 (ps_binary p) in
     if \<not> app then Missing (name @ '' (not applicable on this system)'')
     else if ps_running p then Good (name @ '' running'')
     else if ps_installed p then Caution (name @ '' installed but not running'')
     else Caution (name @ '' not installed (run ./install.sh)''))"

definition gpu_plugin_running :: "(string \<Rightarrow> bool) \<Rightarrow> plugin_status list \<Rightarrow> bool" where
  "gpu_plugin_running app ps \<longleftrightarrow> list_ex (\<lambda>p. app (ps_binary p) \<and> ps_binary p \<in> {''mgd-gpu-intel'', ''mgd-gpu-amd''} \<and> ps_running p) ps"

record gpu_reply =
  gr_pids :: "u64 option"
  gr_total_kb :: "u64 option"
  gr_newest :: "string option"

definition gpu_reply_part :: "gpu_reply \<Rightarrow> string \<Rightarrow> gpu_reply" where
  "gpu_reply_part g part =
     (let g1 = (case strip_prefix ''gpu_pids='' part of None \<Rightarrow> g | Some v \<Rightarrow> g\<lparr>gr_pids := parse_u64 v\<rparr>);
          g2 = (case strip_prefix ''total_kb='' part of None \<Rightarrow> g1 | Some v \<Rightarrow> g1\<lparr>gr_total_kb := parse_u64 v\<rparr>)
      in case strip_prefix ''newest_obs='' part of None \<Rightarrow> g2 | Some v \<Rightarrow> g2\<lparr>gr_newest := Some v\<rparr>)"

definition read_gpu_reply :: "string \<Rightarrow> gpu_reply" where
  "read_gpu_reply resp = foldl gpu_reply_part \<lparr>gr_pids = None, gr_total_kb = None, gr_newest = None\<rparr> (split_whitespace resp)"

definition or_zero :: "u64 option \<Rightarrow> u64" where
  "or_zero n = (case n of None \<Rightarrow> 0 | Some k \<Rightarrow> k)"

definition report_gpu_cache :: "doctor_env \<Rightarrow> bool \<Rightarrow> bool \<Rightarrow> report_line list" where
  "report_gpu_cache env daemon_running gpu_applicable =
     (if \<not> gpu_applicable \<or> \<not> daemon_running then []
      else case query_socket (de_socket env) ''gpu-info'' of
        Inl _ \<Rightarrow> []
      | Inr resp \<Rightarrow>
          (let g = read_gpu_reply resp; pids = or_zero (gr_pids g) in
           if pids = 0 then [Caution ''GPU cache empty - plugin connected but no observations yet'']
           else [Good (''GPU cache: '' @ show_nat (unat pids) @ '' PID(s), '' @ show_nat (unat (or_zero (gr_total_kb g) div 1024))
             @ '' MB resident, last obs '' @ (case gr_newest g of None \<Rightarrow> ''none'' | Some t \<Rightarrow> t))]))"

section \<open>Calibration\<close>

text \<open>The JSON parser gives the three fields the report looks at, each if it has the type expected.\<close>

record calibration_info =
  ci_calibrated_at :: "string option"
  ci_swap_onset_mb :: "u64 option"
  ci_psi_recovery_secs :: "u64 option"

definition no_calibration :: calibration_info where
  "no_calibration = \<lparr>ci_calibrated_at = None, ci_swap_onset_mb = None, ci_psi_recovery_secs = None\<rparr>"

definition target_line :: "u32 option \<Rightarrow> string \<Rightarrow> u32 option" where
  "target_line found l = (case strip_prefix ''target_available_pct'' (trim l) of
     None \<Rightarrow> found
   | Some rest \<Rightarrow> (case nth_opt 1 (split_char CHR ''='' rest) of
       None \<Rightarrow> found
     | Some val \<Rightarrow> parse_u32 (trim (takeWhile (\<lambda>c. is_digit c \<or> c = CHR '' '') val))))"

definition target_in :: "string \<Rightarrow> u32 option" where
  "target_in data = foldl target_line None (lines data)"

definition read_calibration :: "(string \<Rightarrow> calibration_info option) \<Rightarrow> sys \<Rightarrow> calibration_info \<times> u32 option \<times> sys" where
  "read_calibration json s =
     (let (data, s1) = os_read (json_path s) s; (toml, s2) = os_read (toml_path s) s1
      in (case Option.bind data json of None \<Rightarrow> no_calibration | Some c \<Rightarrow> c, Option.bind toml target_in, s2))"

definition toml_num_line :: "string \<Rightarrow> string \<Rightarrow> f64 option" where
  "toml_num_line key l = (case strip_prefix key (trim l) of
     None \<Rightarrow> None
   | Some r \<Rightarrow> (case strip_prefix ''='' (trim_start r) of
       None \<Rightarrow> None
     | Some val \<Rightarrow> (case first_opt (split_char CHR ''#'' val) of None \<Rightarrow> None | Some v \<Rightarrow> parse_f64 (trim v))))"

definition toml_num :: "string \<Rightarrow> string \<Rightarrow> f64 option" where
  "toml_num data key = first_opt (List.map_filter (toml_num_line key) (lines data))"

definition suggested_lines :: "string \<Rightarrow> string \<Rightarrow> string \<Rightarrow> report_line list" where
  "suggested_lines label data key = (case toml_num data key of
     None \<Rightarrow> [] | Some v \<Rightarrow> [Plain (pad_to 30 label @ '' '' @ fmt1 v @ ''%'')])"

definition num_or_zero :: "f64 option \<Rightarrow> f64" where
  "num_or_zero v = (case v of None \<Rightarrow> Fin 0 | Some x \<Rightarrow> x)"

definition report_passive_calibration :: "sys \<Rightarrow> report_line list \<times> sys" where
  "report_passive_calibration s =
     (let base = home_dir s @ ''/.local/share/mgd''; path = base @ ''/calibration_suggestion.toml'';
          (suggestion, s1) = os_read path s
      in case suggestion of
        Some data \<Rightarrow>
          (Good (''passive [psi] suggestion ready: '' @ path)
            # suggested_lines ''suggested_lines elevated_pct:'' data ''elevated_pct''
            @ suggested_lines ''suggested_lines full_critical_pct:'' data ''full_critical_pct''
            @ [Plain ''Review the file, paste into ~/.config/mgd/priorities.toml, then: mgctl reload''], s1)
      | None \<Rightarrow> (let (state, s2) = os_read (base @ ''/calibration_state.toml'') s1 in
          case state of
            Some data \<Rightarrow>
              ([Caution (''passive [psi] calibration accumulating - ''
                  @ fmt1 (f64_div (num_or_zero (toml_num data ''observed_secs'')) (f64_lit 3600)) @ ''h observed, ''
                  @ show_nat (unat (f64_to_u64 (num_or_zero (toml_num data ''stall_events''))))
                  @ '' stall episodes (suggests after 24h + 10 episodes)'')], s2)
          | None \<Rightarrow> ([Missing ''passive [psi] calibration: no data yet (collected while mgd runs)''], s2)))"

definition threshold_lines :: "calibration_info \<Rightarrow> u32 option \<Rightarrow> report_line list" where
  "threshold_lines cal target = (case ci_calibrated_at cal of
     None \<Rightarrow> [Caution ''No calibration data - using built-in conservative defaults (15% target)'', Plain ''Run: mgctl calibrate'']
   | Some ts \<Rightarrow> Plain (''Using calibration from timestamp '' @ ts)
       # (case target of None \<Rightarrow> [] | Some n \<Rightarrow> [Plain (pad_to 30 ''target_available_pct:'' @ '' '' @ show_nat (unat n) @ ''%'')])
       @ (case ci_swap_onset_mb cal of None \<Rightarrow> [] | Some n \<Rightarrow> [Plain (pad_to 30 ''swap_onset_mb:'' @ '' '' @ show_nat (unat n) @ '' MB'')])
       @ (case ci_psi_recovery_secs cal of None \<Rightarrow> [] | Some n \<Rightarrow> [Plain (pad_to 30 ''psi_recovery_secs:'' @ '' '' @ show_nat (unat n) @ ''s'')]))"

section \<open>Privileges\<close>

definition check_cap :: "string \<Rightarrow> string \<Rightarrow> sys \<Rightarrow> report_line \<times> sys" where
  "check_cap binary label s =
     (let (r, s1) = os_run [''getcap'', ''/usr/bin/'' @ binary] s;
          (output, s2) = (if r = RunFailed then os_run [''getcap'', home_dir s @ ''/.local/bin/'' @ binary] s1 else (r, s1))
      in (case output of
            RunExit code out \<Rightarrow>
              if code = Some 0 then
                (let caps = trim out in
                 if caps = [] then Caution (label @ '' - no capabilities set'')
                 else Good (label @ '' - '' @ (case split_whitespace caps of [] \<Rightarrow> ''?'' | ws \<Rightarrow> last ws)))
              else Missing (binary @ '' not found'')
          | RunFailed \<Rightarrow> Missing (binary @ '' not found''), s2))"

section \<open>The report\<close>

definition environment_lines :: "(gpu_vendor \<times> string) option \<Rightarrow> swap_info \<Rightarrow> desktop_info \<Rightarrow> report_line list" where
  "environment_lines gpu swap desktop =
     [Heading ''Environment:'',
      Plain (pad_to 12 ''GPU:'' @ '' '' @ (case gpu of None \<Rightarrow> ''not detected'' | Some (_, name) \<Rightarrow> name))]
     @ (if si_devices swap = [] then [Plain (pad_to 12 ''Swap:'' @ '' none'')]
        else map (\<lambda>dev. Plain (pad_to 12 ''Swap:'' @ '' '' @ dev)) (si_devices swap))
     @ [Plain (pad_to 12 ''Desktop:'' @ '' '' @ di_de desktop @ '' ('' @ di_session desktop @ '')''),
        Plain (pad_to 12 ''Compositor:'' @ '' '' @ di_compositor desktop), Blank]"

definition doctor_run :: "doctor_env \<Rightarrow> (string \<Rightarrow> calibration_info option) \<Rightarrow> sys \<Rightarrow> report_line list \<times> int \<times> sys" where
  "doctor_run env json s =
     (let (gpu, s1) = detect_gpu env s;
          (swap, s2) = detect_swap s1;
          (desktop, s3) = detect_desktop env s2;
          (plugins, s4) = detect_plugins env plugin_binaries s3;
          (cal, target, s5) = read_calibration json s4;
          (psi, s6) = report_psi env s5;
          (daemon_running, s7) = process_running env ''mgd'' s6;
          app = applicable (case gpu of None \<Rightarrow> UnknownVendor | Some (v, _) \<Rightarrow> v)
                  (to_ascii_lowercase (di_de desktop)) (si_has_zram swap);
          (passive, s8) = report_passive_calibration s7;
          (criu, s9) = check_cap ''criu'' ''CRIU checkpoint/restore'' s8;
          (zram, s10) = check_cap ''mgd-zram-reclaim'' ''zram proactive reclaim (CAP_SYS_ADMIN)'' s9
      in ([Heading ''mgd doctor - environment report'', Blank]
          @ environment_lines gpu swap desktop
          @ [Heading ''Core features:''] @ psi
          @ [if daemon_running then Good ''mgd daemon running''
             else Caution ''mgd daemon not running (start: systemctl --user start mgd)'', Blank]
          @ [Heading ''Plugins:''] @ map (\<lambda>p. plugin_line (app (ps_binary p)) p) plugins
          @ report_gpu_cache env daemon_running (gpu_plugin_running app plugins) @ [Blank]
          @ [Heading ''Thresholds:''] @ threshold_lines cal target @ passive @ [Blank]
          @ [Heading ''Privileges:'', criu, zram, Blank, Heading ''To re-run after changes:  mgctl doctor''], 0, s10))"

section \<open>It only looks\<close>

text \<open>The report changes nothing: all it leaves in the trace are the commands it asks.\<close>

definition asks :: "effect \<Rightarrow> bool" where
  "asks e = (case e of Ran args \<Rightarrow> hd args \<in> {''systemctl'', ''which'', ''getcap''} \<or> tl args = [''--version''] | _ \<Rightarrow> False)"

definition only_asks :: "sys \<Rightarrow> sys \<Rightarrow> bool" where
  "only_asks s s' \<longleftrightarrow> extends asks s s'"

lemma only_asks_refl: "only_asks s s"
  by (simp add: only_asks_def)

lemma only_asks_trans: "only_asks s s' \<Longrightarrow> only_asks s' s'' \<Longrightarrow> only_asks s s''"
  unfolding only_asks_def by (rule extends_trans)

lemma only_asks_calls:
  "os_read path s = (r, s') \<Longrightarrow> only_asks s s'"
  "os_exists path s = (b, s') \<Longrightarrow> only_asks s s'"
  "os_run args s = (o', s') \<Longrightarrow> asks (Ran args) \<Longrightarrow> only_asks s s'"
  unfolding only_asks_def by (metis extends_silent(1,2) extends_acts(5) snd_conv)+

lemma only_asks_card: "card_among names s = (r, s') \<Longrightarrow> only_asks s s'"
  by (induction names s rule: card_among.induct)
    (auto simp: Let_def split: prod.splits if_splits intro: only_asks_refl only_asks_trans dest!: only_asks_calls(1))

lemma only_asks_version: "version_among link name ps s = (r, s') \<Longrightarrow> only_asks s s'"
proof (induction link name ps s rule: version_among.induct)
  case (2 link name p ps s)
  obtain comm s1 where c: "os_read (comm_path p) s = (comm, s1)" by fastforce
  note c1 = only_asks_calls(1) [OF c]
  have run: "only_asks s s2" if "os_run [exe, ''--version''] s1 = (r2, s2)" for exe r2 s2
    using c1 only_asks_calls(3) [OF that] by (auto simp: asks_def intro: only_asks_trans)
  show ?case using 2 c c1 run
    by (auto simp: Let_def split: if_splits option.splits prod.splits intro: only_asks_trans)
qed (simp add: only_asks_refl)

lemma only_asks_running: "running_among name ps s = (b, s') \<Longrightarrow> only_asks s s'"
  by (induction name ps s rule: running_among.induct)
    (auto simp: Let_def split: prod.splits if_splits intro: only_asks_refl only_asks_trans dest!: only_asks_calls(1))

lemma only_asks_process: "process_running env name s = (b, s') \<Longrightarrow> only_asks s s'"
  by (auto simp: process_running_def only_asks_refl split: option.splits dest: only_asks_running)

lemma only_asks_detect:
  "detect_gpu env s = (g, s') \<Longrightarrow> only_asks s s'"
  "detect_swap s = (i, s') \<Longrightarrow> only_asks s s'"
  "get_version_from_proc env name s = (v, s') \<Longrightarrow> only_asks s s'"
  by (auto simp: detect_gpu_def detect_swap_def get_version_from_proc_def only_asks_refl Let_def
      split: option.splits prod.splits dest: only_asks_card only_asks_version only_asks_calls)

lemma only_asks_desktop: "detect_desktop env s = (d, s') \<Longrightarrow> only_asks s s'"
  by (auto simp: detect_desktop_def Let_def split: prod.splits dest!: only_asks_detect(3) intro: only_asks_trans)

lemma only_asks_systemd: "systemd_version s = (v, s') \<Longrightarrow> only_asks s s'"
  by (auto simp: systemd_version_def asks_def split: prod.splits dest!: only_asks_calls(3))

lemma only_asks_source: "resolve_pressure_source uid s = (t, s') \<Longrightarrow> only_asks s s'"
  by (auto simp: resolve_pressure_source_def is_usable_psi_file_def split: prod.splits dest!: only_asks_calls(1))

lemma only_asks_psi:
  assumes "report_psi env s = (ls, s')"
  shows "only_asks s s'"
proof -
  obtain there s1 where e: "os_exists GLOBAL_PSI s = (there, s1)" by fastforce
  obtain source s2 where r: "resolve_pressure_source (de_uid env) s1 = (source, s2)" by fastforce
  obtain cg s3 where c: "os_read ''/proc/self/cgroup'' s2 = (cg, s3)" by fastforce
  obtain v s4 where v: "systemd_version s3 = (v, s4)" by fastforce
  have "only_asks s s1" "only_asks s s3" "only_asks s s4"
    using only_asks_calls(2) [OF e] only_asks_source [OF r] only_asks_calls(1) [OF c] only_asks_systemd [OF v]
    by (blast intro: only_asks_trans)+
  then show ?thesis using assms e r c v by (auto simp: report_psi_def Let_def split: if_splits option.splits)
qed

lemma only_asks_plugin:
  assumes "detect_plugin env b s = (p, s')"
  shows "only_asks s s'"
proof -
  obtain there s1 where e: "os_exists (home_dir s @ ''/.local/bin/'' @ b) s = (there, s1)" by fastforce
  obtain ok s2 where w: "(if there then (True, s1) else which b s1) = (ok, s2)" by fastforce
  obtain run s3 where r: "process_running env b s2 = (run, s3)" by fastforce
  have "only_asks s1 s2"
    using w by (auto simp: which_def asks_def only_asks_refl split: if_splits prod.splits dest!: only_asks_calls(3))
  then show ?thesis using only_asks_calls(2) [OF e] only_asks_process [OF r] assms e w r
    by (auto simp: detect_plugin_def intro: only_asks_trans)
qed

lemma only_asks_plugins: "detect_plugins env bs s = (ps, s') \<Longrightarrow> only_asks s s'"
  by (induction bs arbitrary: s ps)
    (auto simp: only_asks_refl split: prod.splits dest!: only_asks_plugin intro: only_asks_trans)

lemma only_asks_files:
  "read_calibration json s = (c, t, s') \<Longrightarrow> only_asks s s'"
  "report_passive_calibration s = (ls, s') \<Longrightarrow> only_asks s s'"
  by (auto simp: read_calibration_def report_passive_calibration_def Let_def split: option.splits prod.splits
      dest!: only_asks_calls(1) intro: only_asks_trans)

lemma only_asks_cap: "check_cap binary label s = (l, s') \<Longrightarrow> only_asks s s'"
  by (auto simp: check_cap_def asks_def Let_def split: prod.splits if_splits dest!: only_asks_calls(3) intro: only_asks_trans)

lemma doctor_only_asks: "doctor_run env json s = (report, code, s') \<Longrightarrow> only_asks s s' \<and> code = 0"
  unfolding doctor_run_def Let_def
  by (auto split: prod.splits dest!: only_asks_detect(1,2) only_asks_desktop only_asks_plugins only_asks_files
      only_asks_psi only_asks_process only_asks_cap, (rule only_asks_trans, assumption)+, rule only_asks_refl)

section \<open>It agrees with the client and the daemon\<close>

text \<open>A number of the suggestion is read as the client reads it before it patches the configuration.\<close>

lemma toml_num_agrees: "key \<noteq> [] \<Longrightarrow> hd key \<noteq> CHR ''#'' \<Longrightarrow> toml_num data key = suggestion_value data key"
proof -
  assume key: "key \<noteq> []" "hd key \<noteq> CHR ''#''"
  have "toml_num_line key l = suggestion_line key l" for l
    using key by (cases key) (auto simp: toml_num_line_def suggestion_line_def starts_with_iff Let_def split: option.split)
  then have "toml_num_line key = suggestion_line key" by (simp add: fun_eq_iff)
  then show ?thesis by (simp add: toml_num_def suggestion_value_def)
qed

text \<open>The target the sweep wrote is the target reported.\<close>

lemma trim_blanks: "w \<noteq> [] \<Longrightarrow> \<not> is_ws (hd w) \<Longrightarrow> \<not> is_ws (last w) \<Longrightarrow> trim (CHR '' '' # w @ replicate k CHR '' '') = w"
proof -
  assume w: "w \<noteq> []" "\<not> is_ws (hd w)" "\<not> is_ws (last w)"
  then have "dropWhile is_ws (CHR '' '' # w @ replicate k CHR '' '') = w @ replicate k CHR '' ''" by (cases w) (auto simp: is_ws_def)
  moreover have "dropWhile is_ws (replicate k CHR '' '' @ rev w) = dropWhile is_ws (rev w)"
    by (rule dropWhile_append2) (simp add: is_ws_def)
  moreover have "dropWhile is_ws (rev w) = rev w" using w by (cases w rule: rev_cases) auto
  ultimately show ?thesis by (simp add: trim_def)
qed

lemma target_written:
  assumes "r \<noteq> []" "\<not> is_ws (last r)" "hd r = CHR ''#''" "CHR ''='' \<notin> set r"
  shows "target_line found (''target_available_pct = '' @ show_nat (unat n) @ replicate k CHR '' '' @ r) = Some n"
proof -
  let ?num = "show_nat (unat n)"
  let ?v = "?num @ replicate k CHR '' '' @ r"
  have num: "?num \<noteq> []" "\<And>c. c \<in> set ?num \<Longrightarrow> is_digit c" using show_nat_digits show_nat_chars by auto
  have trim_l: "trim (''target_available_pct = '' @ ?v) = ''target_available_pct = '' @ ?v"
    by (rule trim_id) (use assms in \<open>auto simp: is_ws_def\<close>)
  have "\<forall>c \<in> set (CHR '' '' # ?v). c \<noteq> CHR ''=''" using assms(4) num(2) digit_not by auto
  then have "split_by (\<lambda>c. c = CHR ''='') ('' '' @ CHR ''='' # CHR '' '' # ?v) = ['' '', CHR '' '' # ?v]"
    by (intro split_two) auto
  then have nth: "nth_opt 1 (split_char CHR ''='' ('' = '' @ ?v)) = Some (CHR '' '' # ?v)"
    by (simp add: split_char_def nth_opt_def)
  have "takeWhile (\<lambda>c. is_digit c \<or> c = CHR '' '') ((?num @ replicate k CHR '' '') @ r) = ?num @ replicate k CHR '' '' @ []"
    using assms(1,3) num(2) by (subst takeWhile_append2) (auto simp: is_digit_def takeWhile_eq_Nil_iff)
  then have take: "takeWhile (\<lambda>c. is_digit c \<or> c = CHR '' '') (CHR '' '' # ?v) = CHR '' '' # ?num @ replicate k CHR '' ''" by simp
  have trim_n: "trim (CHR '' '' # ?num @ replicate k CHR '' '') = ?num"
    by (rule trim_blanks) (use num digit_not in auto)
  have strip: "strip_prefix ''target_available_pct'' (''target_available_pct = '' @ ?v) = Some ('' = '' @ ?v)"
    by (simp add: strip_prefix_Some)
  show ?thesis
    by (simp only: target_line_def trim_l strip option.case nth take trim_n parse_uint_show)
qed

lemma target_other: "\<not> is_ws c \<Longrightarrow> c \<noteq> CHR ''t'' \<Longrightarrow> target_line found (c # cs) = found"
  using trim_first [of c cs] by (auto simp: target_line_def)

lemma target_read_back:
  assumes "plain ts"
  shows "target_in (unlines (calibration_lines ts target onset ram secs)) = Some target"
proof -
  let ?r = "''# swap onset was at '' @ show_nat (unat onset) @ ''MB / '' @ show_nat (unat ram) @ ''MB RAM + 3% headroom''"
  have spaces: "replicate m CHR '' '' @ ''  '' @ t = replicate (m + 2) CHR '' '' @ t" for m t by (induction m) simp_all
  have line: "''target_available_pct = '' @ pad6 (show_nat (unat target)) @ ''  '' @ ?r =
      ''target_available_pct = '' @ show_nat (unat target) @ replicate (6 - length (show_nat (unat target)) + 2) CHR '' '' @ ?r"
    by (simp only: pad6_def append_assoc spaces)
  have "CHR ''='' \<notin> set ?r" using show_nat_chars digit_not by fastforce
  then have "target_line found (''target_available_pct = '' @ pad6 (show_nat (unat target)) @ ''  '' @ ?r) = Some target" for found
    unfolding line by (intro target_written) (auto simp: is_ws_def)
  then have "target_line found (''target_available_pct = '' @ pad6 (show_nat (unat target)) @ CHR '' '' # CHR '' '' # ?r) = Some target" for found
    by simp
  then show ?thesis
    by (simp add: target_in_def lines_unlines plain_calibration assms)
       (simp add: calibration_lines_def target_other is_ws_def target_line_def [of _ "[]"] trim_def [of "[]"])
qed

text \<open>A plugin is reported in order exactly when it can be used on the machine and runs.\<close>

lemma plugin_reported: "(\<exists>t. plugin_line app p = Good t) \<longleftrightarrow> app \<and> ps_running p"
  by (auto simp: plugin_line_def Let_def)

end
