(* ===== verification/Spec2Isabelle.thy ===== *)
theory Spec2Isabelle
  imports Scoring Config Process Decision Execute Plugin Recovery SpikeCycle Leak Throttle Zram Cache Reclaims Calibrate Samples Maintenance Machines Evictor Victims Account Ipc Daemon Runs
    Helper Patch Sweep Client Kde KdeRun Window Agents Waiter Plumbing Doctor
begin

text \<open>
  A verification library for mgd (the repository's \<open>src/\<close>), a user-space memory guard for Linux desktops.

  \<^bold>\<open>The program.\<close> One daemon, \<open>mgd\<close>, reads pressure stall information and the memory counters and acts on
  the user's processes: it freezes them (\<open>SIGSTOP\<close>), reclaims their memory, checkpoints them through CRIU,
  terminates or kills them, throttles their control groups, and continues or restores them once the
  pressure is gone. It has four threads that share registries under locks: the responder
  (\<open>mgd/src/evictor/\<close>), the recovery loop (\<open>recovery.rs\<close>), the maintenance loop (\<open>maintenance.rs\<close>) and the
  command server (\<open>ipc.rs\<close>), which also serves plugins (\<open>plugin_server.rs\<close>). Around it are small programs:
  the client \<open>mgctl\<close>, the privileged helpers \<open>mgd-zram\<close>, \<open>mgd-checkpoint\<close> and \<open>mgd-psi-trigger\<close>, and the
  plugins \<open>mgd-kde\<close>, \<open>mgd-gpu-intel\<close> and \<open>mgd-gpu-amd\<close>. What they share is in \<open>mgd-common\<close>.

  \<^bold>\<open>Layers and theories.\<close> Names of operations, fields and constructors are those of the source wherever
  HOL allows it.

  \<^item> Foundations. \<open>Prelude\<close>: machine integers with the saturating operations, hash maps. \<open>Floats\<close>: \<open>f64\<close>
    and \<open>f32\<close> with rounding. \<open>Text\<close>: the string functions of Rust. \<open>Units\<close>: \<open>types.rs\<close>.
  \<^item> What is read. \<open>Psi\<close>: pressure levels, thresholds, parser, triggers. \<open>Meminfo\<close>: \<open>/proc/meminfo\<close>,
    \<open>/proc/vmstat\<close>. \<open>Config\<close>: sections, defaults, compilation, queries. \<open>Process\<close>: \<open>/proc\<close> directories.
  \<^item> What decides. \<open>Scoring\<close>: the controller. \<open>Decision\<close>: the planner. \<open>Spike\<close>, \<open>Leak\<close>, \<open>Throttle\<close>,
    \<open>Calibrate\<close>: spike mode, leak guard, throttling and memory caps, passive calibration.
  \<^item> What acts. \<open>Os\<close>: the system as an oracle and a trace of effects. \<open>Executor\<close>: freezer and killer.
    \<open>Registry\<close>: the two registries with persistence. \<open>Checkpoint\<close>, \<open>Cgroup\<close>, \<open>Zram\<close>, \<open>Cache\<close>: CRIU,
    control groups, compressed swap and its helper, the page cache. \<open>Plugin\<close>: graphics memory and the
    messages of plugins. \<open>Execute\<close>: carrying out a plan through the action sink.
  \<^item> The threads. \<open>SpikeCycle\<close>, \<open>Reclaims\<close>, \<open>Evictor\<close>: the responder's turn. \<open>Recovery\<close>, \<open>Maintenance\<close>,
    \<open>Ipc\<close>: the other three. \<open>Waiter\<close>: how the responder waits. \<open>Daemon\<close>: start, interleaving, jobs, end.
  \<^item> Accounts across components. \<open>Held\<close>, \<open>Harmless\<close>, \<open>Victims\<close>, \<open>Account\<close>: who is stopped, and which
    file says so.
  \<^item> The programs around it. \<open>Helper\<close> (\<open>mgd-checkpoint\<close>), \<open>Patch\<close> and \<open>Sweep\<close> (\<open>mgctl calibrate\<close>),
    \<open>Client\<close> (\<open>mgctl\<close>), \<open>Kde\<close> and \<open>Window\<close> (\<open>mgd-kde\<close>), \<open>Agents\<close> (graphics watchers, supervision of
    plugins, the trigger helper, session logs), \<open>Doctor\<close> (\<open>mgctl doctor\<close>), \<open>Plumbing\<close> (connections, memory
    locking, the dashboard).
  \<^item> Concrete machines for witnesses: \<open>Samples\<close>, \<open>Machines\<close>, \<open>Runs\<close>, \<open>KdeRun\<close>.

  \<^bold>\<open>How state and effects are modelled.\<close> The record \<open>sys\<close> is the daemon process with its statics, an oracle
  and a trace. Every answer of the kernel, of a file or of a helper is a function of the number of calls
  made so far (\<open>sys_tick\<close>), so any two calls may find different worlds: a process may end, or its PID be
  reused, between them. What the daemon does to the system (signals, writes, commands, log entries) is
  appended to \<open>sys_trace\<close> with the outcome. State of a component is a record, returned updated. Errors are
  values of an option or a sum. Who is stopped is read off the trace: a process is stopped from a
  \<open>SIGSTOP\<close> that succeeded until the next \<open>SIGCONT\<close> sent to it; an attempt to continue counts, for when it
  fails the process is gone.

  A turn of a thread, a command and a message are atomic steps: each takes the locks it needs, and the
  interleavings considered are those of whole turns (\<open>daemon_step\<close> in \<open>Daemon\<close> is a relation, for which
  thread moves is not determined). Work that the code gives to a thread of its own (terminating a process,
  continuing a focused window) is a job that runs at any later step; one that continues a
  focused process is taken only while the registry entry it was made for is the current one
  (\<open>job_current\<close>), for the code drops the entry by PID alone. A crash is modelled between turns;
  \<open>Victims.release_window\<close> shows what one inside the release of spike victims would lose.

  \<^bold>\<open>Parameters.\<close> The TOML parser and printer, the regular expressions and serde's JSON are libraries: the
  first two are arguments of the definitions that use them, and a file written with serde holds the value
  itself. Processes, file contents, the file system under the cache patterns, and the kernel's answers are
  arguments or oracle. No property assumes more of them than its statement shows.

  \<^bold>\<open>Approximations, each stated where it is made.\<close> A \<open>HashMap\<close> is an association list in insertion order,
  where Rust leaves the order open; facts about maps hold for any duplicate-free list (\<open>hm_ok\<close>). Case
  mapping and white space are those of ASCII. The sign of a floating point zero is not kept. Sums the code
  writes with \<open>+\<close> on machine words wrap as in a release build. Console output, the printed table and the
  text of a reply of the command server are left out (the data of a reply is kept).

  \<^bold>\<open>Termination and bounds.\<close> All definitions are total. Loops over collections recurse on the list; the
  endless loops of the threads are given as one turn and a relation or a list of turns. Loops with a count
  in the code (waiting for a process to die, the thirty steps of the sweep, the attempts to restore) recurse
  on that count. The walk over a cache tree recurses on the depth the code itself allows.
  The number \<open>n\<close> given to \<open>trim_start_matches\<close> is the length of the text, which no run can exceed.

  \<^bold>\<open>What the lemmas show.\<close>

  \<^item> Controller and planner: the damping of the state machine, the range of the score, which processes a
    plan may name and that it stops when the deficit is covered (C1 to C11).
  \<^item> Acting: a process is signalled only under the start time recorded for it, a registry on disk is the
    one in memory, a process is killed only after a dump that succeeded, an action that could not be
    recorded is undone (C12 to C17). The laws are the locales \<open>signal_op\<close>, \<open>pid_registry\<close> and
    \<open>action_sink_laws\<close>, interpreted on the executors, both registries and the production sink.
  \<^item> Plugins, recovery, spike mode, leak guard, throttling, compressed swap, page cache: limits of what each
    may touch and that what is stopped is continued (C18 to C31).
  \<^item> Calibration: thresholds suggested are valid and in order, percentiles are what the histogram says,
    state survives a restart, and the client applies exactly what the daemon suggested (C32 to C36).
  \<^item> The whole: the gates of the daemon imply those of its privileged helper, commands touch only what
    they name, and in every reachable state of the daemon every process left stopped is accounted for in
    a registry or a file from which the next start continues it (C37 to C40).

  \<^bold>\<open>Not modelled.\<close> The scaffolds \<open>mgd-gnome\<close> and \<open>mgd-cosmic\<close>, which panic at once; locked printing, the
  status table of the responder, the start banner and the texts of replies, which only print; the signal
  handlers, which only set the two flags the threads look at; the masking of signals in \<open>mgd-zram\<close>; and
  the calls around sockets, pipes and threads themselves. The tests and the install scripts are outside
  the program.
\<close>

section \<open>The pressure controller\<close>

text \<open>C1. The controller changes its state only to the state just asked for: upwards at once
  on a trend above 0.08 towards Critical or Emergency, or else after two consecutive ticks asked
  for it; downwards only after the last 12 ticks (Calm), 6 ticks (Warning) or 4 ticks (other
  states) all asked for it.\<close>
theorem controller_damping:
  assumes "sm_current (sm_run sm_new (h @ [(t, tr)])) \<noteq> sm_current (sm_run sm_new h)"
  shows "sm_current (sm_run sm_new (h @ [(t, tr)])) = t \<and>
    (if sm_current (sm_run sm_new h) < t
     then (t = EmergencyState \<or> t = CriticalState) \<and> fl_gt tr (f64_lit (8 / 100)) \<or> trailing t 2 (h @ [(t, tr)])
     else trailing t (required_ticks t) (h @ [(t, tr)]))"
proof -
  note new = sm_persistence(1) [OF assms]
  with assms have "t < sm_current (sm_run sm_new h)" if "\<not> sm_current (sm_run sm_new h) < t"
    using that by auto
  with new sm_persistence(2,3) [OF assms] show ?thesis by simp
qed

lemma controller_damping_witness:
  "trailing Evicting 2 [(Evicting, Fin 0), (Evicting, Fin 0)]"
proof -
  have run: "sm_run sm_new ([(Evicting, Fin 0)] @ [(Evicting, Fin 0)]) = \<lparr>sm_current = Evicting, sm_pending = Evicting, sm_ticks = 0\<rparr>"
    "sm_run sm_new [(Evicting, Fin 0)] = \<lparr>sm_current = Calm, sm_pending = Evicting, sm_ticks = 1\<rparr>"
    by (simp_all add: sm_new_def advance_def control_order)
  then show ?thesis
    using controller_damping [of "[(Evicting, Fin 0)]" Evicting "Fin 0"] by (simp add: control_order)
qed

text \<open>C2. No state of the controller is a trap: after any history, a target asked for during
  12 consecutive ticks is reached, and during 2 ticks when it lies above the current state.\<close>
theorem controller_follows:
  assumes "12 \<le> length trs \<or> (sm_current (sm_run sm_new h) < t \<and> 2 \<le> length trs)"
  shows "sm_current (sm_run sm_new (h @ map (Pair t) trs)) = t"
  using assms sm_reaches [OF sm_inv_run [OF sm_inv_new], of h t trs] lag_le [of "sm_run sm_new h" t]
  by (auto simp: sm_run_append)

lemma controller_follows_witness:
  "sm_current (sm_run sm_new ([(CriticalState, Fin 1)] @ map (Pair Calm) (replicate 12 (Fin 0)))) = Calm"
  by (rule controller_follows) simp

text \<open>C3. The composite pressure score of a cycle is a number between 0 and 1, rounding
  included, for every reading of the counters, provided the stall percentage read is not NaN.\<close>
theorem score_range:
  assumes "avg10 \<noteq> NaN"
  shows "\<exists>r. cs_p_score (fst (update_with st avg10 mi pswpin pswpout gpu now)) = Fin r \<and> 0 \<le> r \<and> r \<le> 1"
  using assms by (rule update_with_range)

lemma score_range_witness:
  "\<exists>r. cs_p_score (fst (update_with \<lparr>st_score = Fin 0, st_time = 0, st_pswpin = 0, st_pswpout = 0\<rparr> (Fin 200)
      \<lparr>mi_available = 8000, mi_total = 16000, mi_swap_free = 0, mi_swap_total = 12000\<rparr>
      10000000 10000000 16000 5000000000)) = Fin r \<and> 0 \<le> r \<and> r \<le> 1"
  by (rule score_range) simp

section \<open>Configuration\<close>


section \<open>The planner\<close>



text \<open>C6. The plan is an economical walk: each decision is only made while what the earlier
  ones free leaves a deficit, and no later decision has a higher priority value (none is less
  important) than an earlier one.\<close>
theorem plan_economy:
  assumes "plan cfg env level procs available total_kb swap_exhausted = ds1 @ d # ds2"
  shows "0 < deficit_after (calculate_ram_deficit_kb available total_kb (cc_target_available_pct cfg)) ds1
    \<and> list_all (\<lambda>d'. d_prio d' \<le> d_prio d) ds2"
proof -
  from assms have walk: "plan_walk cfg env level swap_exhausted
      (calculate_ram_deficit_kb available total_kb (cc_target_available_pct cfg))
      (candidates cfg env (High \<le> level) procs) = ds1 @ d # ds2"
    by (auto simp: plan_def Let_def split: if_splits)
  with plan_walk_prio [OF candidates_sorted] have "sorted_wrt (\<lambda>a b. d_prio b \<le> d_prio a) (ds1 @ d # ds2)"
    by metis
  with plan_walk_needed [OF walk] show ?thesis by (simp add: sorted_wrt_append list_all_iff)
qed

lemma plan_economy_witness: "0 < deficit_after (calculate_ram_deficit_kb 1000000 16000000 (cc_target_available_pct sample_config)) []"
  using plan_economy [of sample_config sample_plan_env Elevated sample_procs 1000000 16000000 False "[]" sample_freeze "[]"]
  by (simp add: sample_plan)



text \<open>C8. The decision table is a ladder: nothing important (priority value below 60) is
  touched up to High; up to Elevated the worst is a freeze unless swap is exhausted and the
  process is expendable; from Critical on every candidate is checkpointed, terminated or killed;
  and a higher level never gives a milder action, except that a forced checkpoint replaces the
  termination of an expendable process between High and Critical.\<close>
theorem action_ladder:
  "let table = \<lambda>level. determine_process_action level prio ratio cp exhausted supported in
    (level \<le> High \<and> prio < 60 \<longrightarrow> table level = ActNone)
    \<and> (level \<le> Elevated \<and> \<not> (exhausted \<and> 80 \<le> prio) \<longrightarrow> table level \<in> {ActNone, ActFreeze})
    \<and> (Critical \<le> level \<longrightarrow> table level \<in> {ActCheckpoint, ActTerminate, ActKill})
    \<and> (level \<le> level' \<and> \<not> (level = High \<and> level' = Critical \<and> 80 \<le> prio \<and> supported \<and> cp = Some True)
        \<longrightarrow> action_rank (table level) \<le> action_rank (table level'))"
  by (simp add: Let_def action_spares_important action_reversible_below_high action_acts_at_critical
      action_mono_level del: insert_iff)

lemma action_ladder_witness:
  "determine_process_action High 50 (Fin 0) None False True = ActNone
   \<and> determine_process_action Elevated 90 (Fin 0) None False True \<in> {ActNone, ActFreeze}
   \<and> determine_process_action Emergency 50 (Fin 0) None False True \<in> {ActCheckpoint, ActTerminate, ActKill}
   \<and> action_rank (determine_process_action Elevated 90 (Fin 0) None False True)
       \<le> action_rank (determine_process_action High 90 (Fin 0) None False True)"
  using action_ladder [of 50 "Fin 0" None False True High] action_ladder [of 90 "Fin 0" None False True Elevated High]
    action_ladder [of 50 "Fin 0" None False True Emergency]
  by (simp add: Let_def level_order del: insert_iff)

text \<open>C9. The override by swap exhaustion only ever raises the level; with swap present and
  at least 95 percent used the level is at least Critical; and a level that the override itself
  raised to Emergency means that swap was at least 98 percent used and critical pressure had been
  timed for 45 seconds.\<close>
theorem swap_override:
  "let level = fst (apply_swap_overrides effective used swap_total start now) in
    effective \<le> level
    \<and> (0 < swap_total \<and> fl_ge used (f64_lit 95) \<longrightarrow> Critical \<le> level)
    \<and> (level = Emergency \<and> effective < Emergency \<longrightarrow>
        (\<exists>since. start = Some since \<and> 45 \<le> as_secs (now - since) \<and> 0 < swap_total \<and> fl_ge used (f64_lit 98)))"
  unfolding Let_def using override_le override_exhausted override_emergency by (intro conjI impI) blast+

lemma swap_override_witness:
  "Critical \<le> fst (apply_swap_overrides Normal (Fin 96) 1000 None 0)
   \<and> (\<exists>since. Some (0 :: nat) = Some since \<and> 45 \<le> as_secs (60 * nanos_per_sec - since) \<and> fl_ge (Fin 99) (f64_lit 98))"
proof -
  have "fst (apply_swap_overrides Critical (Fin 99) 1000 (Some 0) (60 * nanos_per_sec)) = Emergency"
    by (simp add: apply_swap_overrides_def level_order f64_eval as_secs_def duration_since_def)
  then show ?thesis
    using swap_override [of Normal "Fin 96" 1000 None 0] swap_override [of Critical "Fin 99" 1000 "Some 0" "60 * nanos_per_sec"]
    by (simp add: Let_def f64_eval level_order)
qed

section \<open>Texts\<close>

text \<open>Both spellings of a pressure level, the name of the protocol and the padded one of the console, are parsed back to that level.\<close>

lemma level_names: "parse_level (level_as_str l) = Some l \<and> parse_level (level_display l) = Some l"
  by (simp add: level_parse_as_str level_parse_display)

text \<open>The target share of available memory stays in range whatever the calibration file holds: a value read from it is a number between 5 and 50, NaN and infinities excluded; the fallback by memory size is between 10 and 20 and does not grow with the size.\<close>

lemma calibrated_target:
  "(case parse_calibrated_target_pct content of None \<Rightarrow> True | Some v \<Rightarrow> \<exists>a. v = Fin a \<and> 5 \<le> a \<and> a \<le> 50)
   \<and> (\<exists>t. ram_scaled_target_pct k = Fin t \<and> 10 \<le> t \<and> t \<le> 20)
   \<and> (k \<le> k' \<longrightarrow> fl_le (ram_scaled_target_pct k') (ram_scaled_target_pct k))"
  using calibrated_target_range [of content] ram_target_range [of k] ram_target_antimono [of k k']
  by (auto split: option.split)

lemma calibrated_target_witness:
  "parse_calibrated_target_pct ''target_available_pct = 99'' = Some (Fin 50) \<and>
   fl_le (ram_scaled_target_pct 32000000) (ram_scaled_target_pct 8000000)"
proof -
  have v: "parse_calibrated_target_pct ''target_available_pct = 99'' = Some (Fin 50)"
    by (simp add: parse_calibrated_target_pct_def calibrated_line_def text_eval f64_eval List.map_filter_def)
  with calibrated_target [of "''target_available_pct = 99''" 8000000 32000000] show ?thesis by simp
qed

text \<open>C10. The first application entry whose pattern matches decides a process's priority
  and its checkpoint override; only if none matches the desktop index decides, and then the
  default.\<close>
theorem priority_precedence:
  assumes "cc_entries cfg = es @ rest" and "list_all (\<lambda>(re, _). \<not> re name) es"
  shows "case rest of
      (re, prio, cp) # _ \<Rightarrow> \<not> re name \<or> priority_for cfg name exe = prio \<and> checkpoint_override cfg name = cp
    | [] \<Rightarrow> priority_for cfg name exe = (case desktop_priority cfg exe of Some p \<Rightarrow> p | None \<Rightarrow> cc_default_priority cfg)
        \<and> checkpoint_override cfg name = None"
proof (cases rest)
  case Nil
  with assms have "\<forall>e \<in> set (cc_entries cfg). \<not> fst e name" by (auto simp: list_all_iff)
  with Nil show ?thesis by (simp add: priority_for_desktop)
next
  case (Cons e es2)
  obtain re prio cp where "e = (re, prio, cp)" by (cases e)
  with assms Cons show ?thesis
    using priority_for_first [of cfg es re prio cp es2 name exe] by (auto simp: list_all_iff case_prod_unfold)
qed

lemma priority_precedence_witness: "priority_for sample_config ''editor'' None = 65"
  using priority_precedence [of sample_config "[(\<lambda>n. n = ''cache'', 90, None)]" "[(\<lambda>n. n = ''editor'', 65, None)]" "''editor''" None]
  by (simp add: sample_config_fields)

section \<open>Acting on processes\<close>

text \<open>C11. The scan lists only processes of the daemon's own user that run in a user slice,
  never the daemon itself, each under the PID of its directory and with the control group its
  cgroup file names.\<close>
theorem user_processes_only:
  "list_all (\<lambda>p. p_pid p \<noteq> own_pid \<and>
     list_ex (\<lambda>e. parse_u32 (fst e) = Some (p_pid p) \<and> pd_uid (snd e) = Some our_uid \<and>
       (case pd_cgroup (snd e) of None \<Rightarrow> False
        | Some c \<Rightarrow> is_cgroup_in_user_slice c \<and> p_cgroup_path p = read_process_cgroup_path (Some c))) entries)
     (fst (list_processes env our_uid own_pid (Some entries) cache))"
  using list_processes_user [of _ env our_uid own_pid entries cache]
  by (auto simp: user_process_def user_entry_def [abs_def] list_all_iff)

text \<open>C12. A freeze reports success exactly when a stop signal was delivered, and it is only
  ever sent to a PID that the cast to a signed number keeps and whose process still has the start
  time expected; when the start time differs or cannot be read nothing is sent.\<close>
theorem freeze_identity:
  "case freeze_checked p st s of (r, s') \<Rightarrow>
     if opr_success r
     then fst (start_time_of p s) = Some st \<and> unat p < 2 ^ 31
       \<and> sys_trace s' = sys_trace s @ [Signalled (uint p) SIGSTOP None]
     else if fst (start_time_of p s) \<noteq> Some st then sys_trace s' = sys_trace s
     else extends (\<lambda>e. stop_neutral e \<and> only_signals (uint p) {SIGSTOP} e) s s'"
  using freeze_checked_guard [of p s st] freeze_checked_success [of p st s] freeze_checked_fail [of p st s]
  by (auto split: prod.split)




text \<open>C15. The privileged checkpoint helper, whatever its arguments and whatever the system
  answers: it runs CRIU at most once, from one of six fixed paths, with exactly the arguments of a
  dump of a process that the caller owns in a user slice or of a restore, into a directory that
  resolves to one the caller owns whose name begins with the caller's home; it touches no
  capability but the three it needs; and it reports success if and only if CRIU ran and succeeded.\<close>
theorem checkpoint_helper_scope:
  "case helper_main ho args of (code, calls) \<Rightarrow>
     list_all (helper_call_ok ho args) calls \<and> length (filter is_run calls) \<le> 1 \<and> (code = 0) = ran_criu ho calls"
  using helper_calls [of ho args] helper_success [of ho args] by (auto split: prod.split)

text \<open>C16. Executing a plan signals only processes the plan names, and it reports at most as
  many destructive steps as the plan has kills and checkpoints.\<close>
theorem plan_execution_scope:
  "case execute_plan real_sink procs ds x killed of (n, x', killed') \<Rightarrow>
     extends (\<lambda>e. \<exists>d \<in> set ds. effect_target d e) (xs_sys x) (xs_sys x') \<and>
     n \<le> length (filter (\<lambda>d. d_action d = ActKill \<or> d_action d = ActCheckpoint) ds)"
  using real.execute_plan_extends [of procs ds x killed] execute_plan_count_le [of real_sink procs ds x killed]
  by (auto split: prod.split)

text \<open>C17. No process is left stopped and forgotten: if every process the trace leaves
  stopped is in the registry, it is again after a plan was executed, whatever the system answers,
  since a freeze that cannot be recorded is undone.\<close>
theorem plan_execution_orphans:
  assumes "no_orphans (xs_frozen x) (xs_sys x)"
  shows "case execute_plan real_sink procs ds x killed of (n, x', killed') \<Rightarrow> no_orphans (xs_frozen x') (xs_sys x')"
  using real.execute_plan_extends [of procs ds x killed] assms by (auto split: prod.split)

lemma plan_execution_orphans_witness:
  "case execute_plan real_sink sample_procs [sample_freeze] \<lparr>xs_frozen = [], xs_checkpointed = [], xs_events = [], xs_sys = sample_sys\<rparr> []
   of (n, x', killed') \<Rightarrow> no_orphans (xs_frozen x') (xs_sys x')"
  by (rule plan_execution_orphans) (simp add: no_orphans_def stopped_def)

section \<open>Observations of plugins\<close>

text \<open>C18. What a plugin reports is what the planner reads: the number travels as a float,
  and for up to 2 to the 53 kilobytes the resident graphics memory of a process read within 30
  seconds of the report is exactly the number reported; the message itself does nothing to the
  system.\<close>
theorem gpu_observation:
  assumes "unat kb \<le> 2 ^ 53"
    and "process_plugin_message (Observation plugin GpuResidentKb (Some p) (f64_of_u64 kb)) fm s = (out, jobs, s')"
    and "fst (os_clock s') - fst (os_clock s) < from_secs 30"
  shows "fst (get_gpu_kb p s') = kb \<and> sys_trace s' = sys_trace s"
proof -
  have "s' = set_gpu_observation p GpuResidentKb kb s"
    using assms(1,2) by (auto simp: process_plugin_message_def gpu_metric_def u64_via_f64)
  with gpu_observed [of p kb s] plugin_message_silent(1) [OF assms(2)] assms(3) show ?thesis by simp
qed

lemma gpu_observation_witness:
  "fst (get_gpu_kb 7 (snd (snd (process_plugin_message (Observation ''gpu'' GpuResidentKb (Some 7) (f64_of_u64 4096)) [] sample_sys)))) = 4096"
proof -
  obtain out jobs s' where m: "process_plugin_message (Observation ''gpu'' GpuResidentKb (Some 7) (f64_of_u64 4096)) [] sample_sys = (out, jobs, s')"
    by (metis prod_cases3)
  then have "s' = set_gpu_observation 7 GpuResidentKb (f64_to_u64 (f64_of_u64 4096)) sample_sys"
    by (auto simp: process_plugin_message_def gpu_metric_def)
  then have "fst (os_clock s') - fst (os_clock sample_sys) < from_secs 30"
    by (simp add: set_gpu_observation_def Let_def os_clock_def tick_def sample_os_def from_secs_def nanos_per_sec_def)
  with gpu_observation [OF _ m] m show ?thesis by simp
qed



section \<open>Recovery\<close>





text \<open>C22. At shutdown every process of the registry that can still be identified by its
  start time is sent a continue signal, so that, if the registry held every such stopped process,
  none is left stopped.\<close>
theorem shutdown_thaws:
  assumes "held (by_registry fm) s"
  shows "held (\<lambda>_ _. False) (shutdown_unfreeze fm s)"
  by (rule shutdown_held, rule held_mono [OF assms]) (simp add: with_registry_def)

lemma shutdown_thaws_witness:
  "\<not> stopped (sys_trace (shutdown_unfreeze [(7, ''cache'', 100, 77)] (emit (Signalled 7 SIGSTOP None) sample_sys))) 7"
proof -
  let ?fm = "[(7, ''cache'', 100, 77)] :: frozen_map" and ?s = "emit (Signalled 7 SIGSTOP None) sample_sys"
  have one: "p = 7" if "uint p = 7" for p :: pid
  proof -
    from that have "uint p = uint (7 :: pid)" by simp
    then show ?thesis by (simp only: word_uint_eq_iff)
  qed
  have "held (by_registry ?fm) ?s"
    by (auto simp: held_def stopped_def stop_step_def by_registry_def hm_get_def reads_as_def sample_os_def
        stat_path_def ends_with_def starts_with_def show_pid_def dest!: one split: if_splits)
  from shutdown_thaws [OF this] sample_reads_as show ?thesis
    by (auto simp: held_def shutdown_thaw_all thaw_all_oracle)
qed

section \<open>Spikes, leaks, limits\<close>

text \<open>C23. A spike cycle forgets no victim: each process frozen for a spike still is one
  afterwards or, if it can be identified by its start time, was sent a continue signal; whatever
  was stopped is a victim, or held elsewhere as before; the tracker stays well formed.\<close>
theorem spike_victims_accounted:
  assumes "tracker_ok tr"
  shows "case run_spike_cycle cfg fm available procs manual tr s of (tr', s') \<Rightarrow> tracker_ok tr' \<and>
    (\<forall>p v. hm_get (tr_victims tr) p = Some v \<longrightarrow>
       hm_get (tr_victims tr') p = Some v \<or> (reads_as (sys_oracle s) p (sv_start_time v) \<longrightarrow> continued v s')) \<and>
    (\<forall>F. held (with_victims F tr) s \<longrightarrow> held (with_victims F tr') s')"
proof -
  obtain tr' s' where c: "run_spike_cycle cfg fm available procs manual tr s = (tr', s')" by fastforce
  from run_spike_cycle_result [OF c assms] show ?thesis by (simp add: c accounted_def)
qed

lemma spike_victims_accounted_witness:
  "case run_spike_cycle sample_config [] 1000 sample_procs [] spike_tracker_new sample_sys of (tr', s') \<Rightarrow> tracker_ok tr'"
  using spike_victims_accounted [OF tracker_new_ok, where cfg = sample_config and fm = "[]" and available = 1000
      and procs = sample_procs and manual = "[]" and s = sample_sys]
  by (simp split: prod.splits)

text \<open>C24. Making headroom for a spike stops only expendable processes (not the spike, the
  foreground, a frozen process or another victim; of priority 60 or more, above the minimum size,
  not matched by the victim exclusions), and whatever it stops it records as a victim.\<close>
theorem headroom_victims:
  assumes "tracker_ok tr" and "run_spike_decision cfg fm procs (FreezeForHeadroom needed) tr s = (tr', s')"
  shows "extends (headroom_effect {p_pid q |q. q \<in> set procs \<and>
      expendable cfg (excluded_pids fm tr True) (sys_foreground s) q}) s s'
    \<and> tr_spikes tr' = tr_spikes tr \<and> (stops_recorded fs tr s \<longrightarrow> stops_recorded fs tr' s')"
proof -
  obtain cs s1 where c: "headroom_candidates cfg tr (excluded_pids fm tr True) (sys_foreground s) procs s = (cs, s1)"
    by fastforce
  then have f: "freeze_for_headroom (case spike_pids tr of [] \<Rightarrow> pid_none | p # _ \<Rightarrow> p)
      (sort_by (headroom_le cfg) cs) needed tr s1 = (tr', s')"
    using assms(2) by (simp add: run_spike_decision_def)
  have quiet: "quiet s s1" using headroom_candidates_result [OF c] by simp
  have q: "extends (headroom_effect P) s s1" "stops_recorded fs tr s \<Longrightarrow> stops_recorded fs tr s1" for P
    using quiet by (auto simp: quiet_def headroom_effect_def stop_neutral_def elim!: extends_mono stops_recorded_neutral)
  have "p_pid ` set (sort_by (headroom_le cfg) cs) \<subseteq> {p_pid q |q. q \<in> set procs \<and>
      expendable cfg (excluded_pids fm tr True) (sys_foreground s) q}"
    using headroom_candidates_result [OF c] by auto
  then have "headroom_effect (p_pid ` set (sort_by (headroom_le cfg) cs)) e \<Longrightarrow>
    headroom_effect {p_pid q |q. q \<in> set procs \<and> expendable cfg (excluded_pids fm tr True) (sys_foreground s) q} e" for e
    unfolding headroom_effect_def by (cases e) (simp_all, blast+)
  with freeze_for_headroom_result [OF f assms(1), of fs] q show ?thesis
    by (meson extends_mono extends_trans)
qed

lemma headroom_victims_witness:
  "\<exists>tr' s'. run_spike_decision sample_config [] sample_procs (FreezeForHeadroom 1000) spike_tracker_new sample_sys = (tr', s')
     \<and> stops_recorded [] tr' s'"
proof -
  obtain tr' s' where r: "run_spike_decision sample_config [] sample_procs (FreezeForHeadroom 1000) spike_tracker_new sample_sys = (tr', s')"
    by fastforce
  from headroom_victims [OF tracker_new_ok r, of "[]"] show ?thesis
    by (auto simp: r stops_recorded_def stopped_def)
qed

text \<open>C25. The leak guard terminates only stale members of a large family: processes of the
  same command line, outside the system tier and the protect list, in a group of at least the
  configured count and memory, and never one of the newest that are to be kept; besides it only
  writes log entries.\<close>
theorem leak_guard_scope:
  assumes "hm_ok groups"
  shows "case run_leak_guard_cycle cfg procs groups events s of (groups', events', s') \<Rightarrow>
    extends (\<lambda>e. case e of
        SpawnedSigterm p \<Rightarrow> list_ex (\<lambda>m. p_pid m = p \<and> stale_in (leak_params_from cfg) (leak_candidates cfg procs) m) procs
      | Logged a _ _ \<Rightarrow> a = LaLeakGuardKill
      | _ \<Rightarrow> False) s s'"
  using run_leak_guard_effects [OF assms, where cfg = cfg and procs = procs and q = events and s = s]
  by (simp add: leak_effect_def [abs_def] case_prod_unfold)

lemma leak_guard_scope_witness:
  "case run_leak_guard_cycle sample_config sample_procs [] [] sample_sys of (groups', events', s') \<Rightarrow>
    extends (\<lambda>e. case e of SpawnedSigterm p \<Rightarrow> p = 7 \<or> p = 8 | _ \<Rightarrow> True) sample_sys s'"
  using leak_guard_scope [where groups = "[]" and cfg = sample_config and procs = sample_procs and events = "[]" and s = sample_sys]
  by (auto simp: sample_procs_def sample_process_def split: prod.splits effect.splits elim!: extends_mono)




section \<open>Compressed swap, page cache, idle processes\<close>

text \<open>C28. The daemon and the privileged helper read the list of swap devices with different
  parsers, and they agree on every text: the devices the daemon reports on are, in order, exactly
  those the helper would cycle.\<close>
theorem zram_devices_agree:
  "parse_zram_devices swaps = map (\<lambda>d. last_segment (zs_path d)) (parse_zram_swaps swaps)"
  by (rule devices_agree)


text \<open>C30. Dropping caches advises at most 50000 files in all, each a regular file at most 8
  directories below a root of a configured pattern that was reached without following a link, and
  each reported under its pattern.\<close>
theorem cache_walk_bounded:
  "sum_list (map cd_files_advised (drop_caches fv home patterns)) \<le> 50000 \<and>
   list_all (\<lambda>res. cd_pattern res \<in> set patterns \<and> length (cd_paths res) = cd_files_advised res \<and>
     list_all (\<lambda>p. fv_kind fv p = Some FkFile \<and>
       (\<exists>r \<in> set (expand_path fv home (cd_pattern res)). \<exists>n \<le> 8. reached fv r n p)) (cd_paths res))
     (drop_caches fv home patterns)"
  using drop_patterns_budget [of fv home patterns max_files] drop_patterns_paths [of _ fv home patterns max_files]
  by (auto simp: drop_caches_def max_files_def max_depth_def list_all_iff)

text \<open>A pattern segment matches a name as a glob does: with one star, exactly the names that start with what is before it and end with what is after it, the two parts not overlapping; without a star, only the name itself.\<close>

lemma glob_segment:
  assumes "CHR ''*'' \<notin> set prefix"
  shows "(segment_matches (prefix @ CHR ''*'' # suffix) name \<longleftrightarrow> (\<exists>middle. name = prefix @ middle @ suffix))
    \<and> (segment_matches prefix name \<longleftrightarrow> name = prefix)"
  using segment_matches_star [OF assms] segment_matches_exact [OF assms] by simp

lemma glob_segment_witness: "segment_matches ''lib*.so'' ''libc.so'' \<and> \<not> segment_matches ''ab*ba'' ''aba''"
proof -
  have "\<not> (\<exists>middle. ''aba'' = ''ab'' @ middle @ ''ba'')"
  proof
    assume "\<exists>middle. ''aba'' = ''ab'' @ middle @ ''ba''"
    then obtain middle where "''aba'' = ''ab'' @ middle @ ''ba''" by blast
    then have "length ''aba'' = length (''ab'' @ middle @ ''ba'')" by simp
    then show False by simp
  qed
  then show ?thesis
    using glob_segment [of "''lib''" "''.so''" "''libc.so''"] glob_segment [of "''ab''" "''ba''" "''aba''"] by simp
qed



section \<open>Calibration\<close>

text \<open>C32. However a calibrator came about (fresh, or loaded from any file, then fed any
  samples), what it suggests is usable: the thresholds are valid, the lowest one is a whole
  percentage between 2 and 15, and the accelerator is between 5 and 50.\<close>
theorem calibrated_suggestion:
  assumes "start = calibrator_new \<or> from_toml parse text = Some start"
    and "suggest (foldl (\<lambda>c (some, full, act, w). cal_observe some full act w c) start samples) = Some s"
  shows "psi_valid (suggested s) \<and> (\<exists>k. 2 \<le> k \<and> k \<le> (15 :: nat) \<and> sg_elevated s = Fin (of_nat k))
    \<and> fl_le (f64_lit 5) (sg_full_critical s) \<and> fl_le (sg_full_critical s) (f64_lit 50)"
proof -
  have "calibrator_ok start" using assms(1) calibrator_ok_from_toml by auto
  then have "calibrator_ok (foldl (\<lambda>c (some, full, act, w). cal_observe some full act w c) start samples)"
    by (rule foldl_invariant [where P = calibrator_ok]) (auto simp: calibrator_ok_observe split: prod.split)
  note ok = this assms(2)
  show ?thesis by (rule suggest_ladder [OF ok]) (use suggest_valid [OF ok] in auto)
qed

lemma calibrated_suggestion_witness:
  "\<exists>s. suggest (from_state (calibrator_state_default\<lparr>stall_secs := 60 # replicate 99 0, observed_secs := 100000, stall_events := 10\<rparr>)) = Some s
     \<and> psi_valid (suggested s)"
proof -
  let ?c = "from_state (calibrator_state_default\<lparr>stall_secs := 60 # replicate 99 0, observed_secs := 100000, stall_events := 10\<rparr>)"
  have "suggest ?c \<noteq> None"
    unfolding suggest_gates by (simp add: from_state_def BINS_def calibrator_state_default_def sum_list_replicate)
  then obtain s where s: "suggest ?c = Some s" by blast
  have "from_toml (\<lambda>_. Some (cal_state ?c)) [] = Some ?c"
    by (simp add: from_toml_def from_state_def BINS_def calibrator_state_default_def)
  from calibrated_suggestion [OF disjI2 [OF this], of "[]"] s show ?thesis by simp
qed

text \<open>C33. A percentile is the upper edge of the first bin at which the running total
  reaches the target, the target being the rounded-up share of the total; without overflow the
  wrapped sums are the true ones.\<close>
theorem percentile_bin:
  assumes "mass h < 2 ^ 64"
  shows "percentile h pct =
    (if mass h = 0 then None
     else (let target = unat (f64_to_u64 (f64_ceil (f64_div (f64_mul (f64_of_nat (mass h)) pct) (f64_lit 100)))) in
       if \<exists>k. k < length h \<and> target \<le> mass (take (Suc k) h)
       then Some (f64_of_nat (Suc (LEAST k. target \<le> mass (take (Suc k) h)))) else Some (f64_of_nat BINS)))"
proof -
  have total: "unat (sum_list h) = mass h" using assms by (rule sum_list_mass)
  then have "sum_list h = 0 \<longleftrightarrow> mass h = 0" by (metis unat_eq_zero)
  moreover have "percentile_walk target 0 0 h =
      (if \<exists>k. k < length h \<and> unat target \<le> mass (take (Suc k) h)
       then f64_of_nat (Suc (LEAST k. unat target \<le> mass (take (Suc k) h))) else f64_of_nat BINS)" for target
    using percentile_walk_spec [of 0 h target 0] assms by (simp only: unat_0 add_0_left simp_thms)
  ultimately show ?thesis
    by (simp only: percentile_def Let_def total f64_of_u64_def if_distrib [of Some])
qed

lemma percentile_bin_witness: "percentile [0, 3, 1] (Fin 50) = Some (f64_of_nat 2)"
proof -
  have least: "(LEAST k. 2 \<le> mass (take (Suc k) [0, 3, 1])) = 1"
    by (rule Least_equality) (auto simp: mass_def take_Cons' split: if_splits)
  have "f64_to_u64 (f64_ceil (f64_div (f64_mul (f64_of_nat 4) (Fin 50)) (f64_lit 100))) = 2"
    by (simp add: f64_eval)
  then show ?thesis
    using percentile_bin [of "[0, 3, 1]" "Fin 50"] least by (auto simp: mass_def) (simp add: numeral_2_eq_2)
qed

text \<open>C34. Flushing and loading loses nothing but the two flags: if the TOML library reads
  back what it wrote, the calibrator loaded has the same histograms and makes the same suggestion,
  for every state a calibrator can reach by observing.\<close>
theorem calibration_reload:
  assumes "c = foldl (\<lambda>c (some, full, act, w). cal_observe some full act w c) calibrator_new samples"
    and "ser (cal_state c) = Some stored" and "parse stored = Some (cal_state c)"
  shows "case to_toml ser c of (written, c1) \<Rightarrow> \<not> cal_dirty c1 \<and>
    (\<exists>c2. from_toml parse written = Some c2 \<and> cal_state c2 = cal_state c \<and> \<not> cal_dirty c2 \<and> suggest c2 = suggest c)"
proof -
  have ok: "calibrator_ok c" unfolding assms(1)
    by (rule foldl_invariant [where P = calibrator_ok]) (auto simp: calibrator_ok_observe split: prod.split)
  then show ?thesis using assms(2,3)
    by (auto simp: to_toml_def from_toml_def from_state_def calibrator_ok_def suggest_def)
qed

lemma calibration_reload_witness:
  "case to_toml (\<lambda>_. Some ''x'') calibrator_new of (written, c1) \<Rightarrow> \<not> cal_dirty c1"
  using calibration_reload [where c = calibrator_new and samples = "[]" and ser = "\<lambda>_. Some ''x''" and stored = "''x''"
      and parse = "\<lambda>_. Some (cal_state calibrator_new)"]
  by (simp split: prod.splits)

text \<open>C35. From the daemon's histograms to the user's configuration: the file the daemon
  renders for a suggestion is read back by the client as exactly the suggested numbers; patching
  them into any configuration without carriage returns leaves every line but the two settings as
  it was and in its place (a missing block is appended), every setting of the two keys in the
  block is the new one, and patching again changes nothing.\<close>
theorem suggestion_applied:
  assumes "calibrator_ok c" "suggest c = Some s" "CHR 0x0D \<notin> set content"
  shows "suggestion_value (render_suggestion s current now) ''elevated_pct'' = Some (sg_elevated s) \<and>
    suggestion_value (render_suggestion s current now) ''full_critical_pct'' = Some (sg_full_critical s) \<and>
    (let patched = patch_psi_block content (sg_elevated s) (sg_full_critical s) in
       other_lines False (lines patched) =
         other_lines False (lines content) @ (if has_psi content then [] else ['''', ''[psi]'']) \<and>
       set (settings ''elevated_pct'' False (lines patched)) = {elevated_line (sg_elevated s)} \<and>
       set (settings ''full_critical_pct'' False (lines patched)) = {full_critical_line (sg_full_critical s)} \<and>
       patch_psi_block patched (sg_elevated s) (sg_full_critical s) = patched)"
  using suggestion_read_back [OF assms(1,2)] patched_others patched_settings patch_idempotent [OF assms(3)]
  by (simp add: lines_patch [OF assms(3)] Let_def)

lemma suggestion_applied_witness:
  "\<exists>s. suggest (from_state (calibrator_state_default\<lparr>stall_secs := 60 # replicate 99 0, observed_secs := 100000, stall_events := 10\<rparr>)) = Some s
     \<and> suggestion_value (render_suggestion s psi_default 0) ''elevated_pct'' = Some (sg_elevated s)"
proof -
  let ?c = "from_state (calibrator_state_default\<lparr>stall_secs := 60 # replicate 99 0, observed_secs := 100000, stall_events := 10\<rparr>)"
  have "suggest ?c \<noteq> None"
    unfolding suggest_gates by (simp add: from_state_def BINS_def calibrator_state_default_def sum_list_replicate)
  then obtain s where s: "suggest ?c = Some s" by blast
  have "CHR 0x0D \<notin> set ''[zram]''" by simp
  from suggestion_applied [OF calibrator_ok_from_state s this] s show ?thesis by blast
qed

text \<open>C36. The active calibration, however it ends (refused by a guard, interrupted in any
  phase, stopped by an allocation that fails, finished): it never has more than thirty chunks of
  200 MB mapped and unmaps all of them; it changes no file unless it finishes with success and is
  no dry run; and then it writes its two files, of which the daemon reads back a whole percentage
  between 10 and 35.\<close>
theorem calibration_sweep:
  "case calibrate_run so ser args s of (code, mem, s') \<Rightarrow>
     mem_run memory_limit 0 mem = Some 0 \<and> memory_limit = 30 * (200 * 1024 * 1024) \<and>
     (if ''--apply'' \<in> set args \<or> ''--passive-apply'' \<in> set args then mem = []
      else if code = 0 \<and> ''--dry-run'' \<notin> set args then results_written s s'
      else sys_trace s' = sys_trace s)"
proof -
  obtain code mem s' where r: "calibrate_run so ser args s = (code, mem, s')" by (metis prod_cases3)
  have limit: "memory_limit = 30 * (200 * 1024 * 1024)"
    by (simp add: memory_limit_def max_steps_def step_bytes_def step_mb_def)
  show ?thesis
  proof (cases "''--apply'' \<in> set args \<or> ''--passive-apply'' \<in> set args")
    case True
    then have "mem = []" using r by (cases "''--apply'' \<in> set args") (auto simp: calibrate_run_def split: prod.splits)
    then show ?thesis using True limit by (simp add: r)
  next
    case False
    with calibrate_run_result [OF r] limit show ?thesis by (simp add: r)
  qed
qed

section \<open>The reclaim of compressed swap\<close>

text \<open>C37. The gates of the daemon refine the check of the privileged helper: on files that
  do not change in between, with a headroom factor of at least one, sums below 2^53 and one
  MemAvailable line, a reclaim the daemon's gates let pass is one the helper finds safe, so the
  helper neither refuses it nor gives up for lack of data.\<close>
theorem reclaim_gate_refines:
  assumes "frozen_files f s" "reclaim_gates_pass (fst (read_reclaim_gates cfg s)) = Inr ()"
    and "cc_reclaim_headroom_mult cfg = Fin m" "1 \<le> m"
    and "unat (rg_zram_orig_mb (fst (read_reclaim_gates cfg s))) \<le> 2 ^ 53"
    and "f ''/proc/meminfo'' = Some content"
    and "length (List.map_filter (strip_prefix ''MemAvailable:'') (lines content)) \<le> 1"
  shows "headroom_safe (f ''/proc/meminfo'') (\<lambda>d. f (mm_stat_path d)) (parse_zram_swaps (or_empty (f ''/proc/swaps''))) = HeadroomSafe
    \<and> fst (reclaim_main so (f ''/proc/swaps'') (f ''/proc/meminfo'') (\<lambda>d. f (mm_stat_path d)))
        \<notin> {exit_refused_unsafe, exit_no_meminfo}"
proof -
  obtain g s' where g: "read_reclaim_gates cfg s = (g, s')" by fastforce
  have "headroom_safe (f ''/proc/meminfo'') (\<lambda>d. f (mm_stat_path d)) (parse_zram_swaps (or_empty (f ''/proc/swaps''))) = HeadroomSafe"
    by (rule gates_imply_helper [OF assms(1) g _ assms(3,4) _ assms(6,7)]) (use assms(2,5) in \<open>simp_all add: g\<close>)
  then show ?thesis
    by (simp add: reclaim_main_def Let_def exit_ok_def exit_eperm_def exit_transient_def exit_refused_unsafe_def
        exit_no_meminfo_def split: prod.split)
qed

lemma reclaim_gate_refines_witness:
  "headroom_safe (sample_files ''/proc/meminfo'') (\<lambda>d. sample_files (mm_stat_path d))
     (parse_zram_swaps (or_empty (sample_files ''/proc/swaps''))) = HeadroomSafe"
proof -
  have g: "fst (read_reclaim_gates sample_config sample_disk) = sample_gates" by (rule sample_read_gates)
  obtain content where c: "sample_files ''/proc/meminfo'' = Some content"
      "length (List.map_filter (strip_prefix ''MemAvailable:'') (lines content)) \<le> 1"
    using sample_available_line by blast
  have "cc_reclaim_headroom_mult sample_config = Fin (3 / 2)" by (simp add: sample_reclaim_fields f64_eval)
  from reclaim_gate_refines [OF sample_frozen _ this _ _ c] show ?thesis
    by (simp add: g sample_gates_pass) (simp add: sample_gates_def)
qed

section \<open>Commands\<close>

text \<open>C38. For every request line: a command that answers with an error has done nothing at
  all, neither to the registries, the event log and the queue nor to the system; and a command
  that answers at all signals only processes that its argument names, by number or by part of the
  name, among those listed and those of the registry.\<close>
theorem command_scope:
  "case dispatch raw v sh s of (r, sh', s') \<Rightarrow> (is_ok r \<or> sh' = sh \<and> s' = s) \<and>
     extends (named_signal (snd (split_request raw)) (nameable (iv_procs v) (sh_frozen sh))) s s'"
  using error_silent [of raw v sh s] dispatch_named [of raw v sh s] by (auto split: prod.split)

section \<open>The daemon\<close>

text \<open>C39. In every state the daemon can reach, whatever its threads, the commands, the
  plugins and the kernel did and in whatever order, and even after it crashed between two turns
  and was started again on the files it had written, a process that is stopped and can be
  identified by its start time is accounted for: it is in the registry of frozen processes with
  that start time, or it is a victim the responder still holds for a spike; once the daemon has
  ended there is none. A thread that continues a focused process is taken to run only while the
  registry entry it was made for is the current one.\<close>
theorem daemon_accounts:
  assumes "reachable pc d" and "reads_as (sys_oracle (d_sys d)) p st" and "stopped (sys_trace (d_sys d)) (uint p)"
  shows "\<not> d_ended d \<and> ((\<exists>name frozen_at. hm_get (sh_frozen (d_shared d)) p = Some (name, frozen_at, st)) \<or>
    (\<exists>er v. d_evictor d = Some er \<and> hm_get (tr_victims (er_spikes er)) p = Some v \<and> sv_start_time v = st))"
proof -
  have "daemon_ok d" by (rule reachable_ok) (rule assms)
  then show ?thesis using assms(2,3)
    by (auto simp: daemon_ok_def in_order_def held_def with_registry_def with_victims_def by_registry_def tracker_of_def
        spike_tracker_new_def hm_get_empty split: option.splits)
qed

lemma daemon_accounts_witness:
  "\<exists>d er v. reachable sample_codecs d \<and> stopped (sys_trace (d_sys d)) (uint (7 :: pid)) \<and>
     (hm_contains (sh_frozen (d_shared d)) 7 \<or> d_evictor d = Some er \<and> hm_get (tr_victims (er_spikes er)) 7 = Some v)"
proof -
  obtain d where d: "reachable sample_codecs d" "sys_oracle (d_sys d) = sample_restart_os" "stopped (sys_trace (d_sys d)) 7"
    using sample_reachable by blast
  have "reads_as (sys_oracle (d_sys d)) 7 77"
    by (simp add: d sample_restart_reads_as)
  from daemon_accounts [OF d(1) this] d show ?thesis by (auto simp: hm_contains_get)
qed



end
